(* ===== verification/Prelude.thy ===== *)
theory Prelude
  imports Complex_Main
begin

text \<open>
  Shared foundations of the development.

  \<^item> The errors the engines throw (\<open>apps/api/src/engines/identity/errors.ts\<close> and the
    \<open>Error\<close>s raised directly or by PostgreSQL).
  \<^item> A state-and-error monad: an engine operation takes the database, returns a result or a
    thrown error, and the database it leaves behind. Effects that happened before a throw
    stay, except inside \<open>withTransaction\<close>, which rolls them back.
  \<^item> Compositional rules for invariants (\<open>preserves\<close>) and for results (\<open>yields\<close>),
    collected in the named theorems \<open>preserve_intros\<close> and \<open>op_simps\<close>.
  \<^item> Tables as lists of rows: select, update, insert with a uniqueness check.
  \<^item> Two generic interfaces: an invariant transition system and a codec.
\<close>

named_theorems preserve_intros \<open>introduction rules for preserved state predicates\<close>
named_theorems wp_simps \<open>equations that compute weakest preconditions\<close>
named_theorems op_simps \<open>unfolding rules of the monad combinators\<close>

section \<open>Errors\<close>

text \<open>
  \<open>IdentityError code statusCode message\<close> is the HTTP-facing error class; \<open>JsError\<close> is a
  plain \<open>new Error(message)\<close>; \<open>RangeErr\<close> a \<open>RangeError\<close>; \<open>PgUniqueViolation\<close> is
  the driver's error with SQLSTATE 23505, carrying the violated constraint;
  \<open>PgCheckViolation\<close> one with SQLSTATE 23514 and \<open>PgForeignKeyViolation\<close> one with
  SQLSTATE 23503.
\<close>

datatype app_error =
    IdentityError string nat string
  | JsError string
  | RangeErr string
  | PgUniqueViolation string
  | PgCheckViolation string
  | PgForeignKeyViolation string

definition notFound :: "string \<Rightarrow> app_error" where
  "notFound message = IdentityError ''not_found'' 404 message"

definition conflict :: "string \<Rightarrow> string \<Rightarrow> app_error" where
  "conflict code message = IdentityError code 409 message"

definition forbidden :: "string \<Rightarrow> app_error" where
  "forbidden message = IdentityError ''forbidden'' 403 message"

definition badRequest :: "string \<Rightarrow> string \<Rightarrow> app_error" where
  "badRequest code message = IdentityError code 400 message"

lemmas error_defs = notFound_def conflict_def forbidden_def badRequest_def

section \<open>Functions that may throw\<close>

definition bindE :: "'e + 'a \<Rightarrow> ('a \<Rightarrow> 'e + 'b) \<Rightarrow> 'e + 'b" where
  "bindE r f = (case r of Inl e \<Rightarrow> Inl e | Inr a \<Rightarrow> f a)"

definition guardE :: "bool \<Rightarrow> 'e \<Rightarrow> 'e + unit" where
  "guardE b e = (if b then Inr () else Inl e)"

lemma bindE_simps [simp]: "bindE (Inl e) f = Inl e" "bindE (Inr a) f = f a"
  by (simp_all add: bindE_def)

lemma bindE_Inr: "bindE r f = Inr b \<longleftrightarrow> (\<exists>a. r = Inr a \<and> f a = Inr b)"
  by (cases r) auto

lemma guardE_Inr [simp]: "guardE b e = Inr u \<longleftrightarrow> b"
  by (simp add: guardE_def)

section \<open>Operations over a state, with errors\<close>

type_synonym ('s, 'a) op = "'s \<Rightarrow> (app_error + 'a) \<times> 's"

definition ret :: "'a \<Rightarrow> ('s, 'a) op" where
  "ret a s = (Inr a, s)"

definition throw :: "app_error \<Rightarrow> ('s, 'a) op" where
  "throw e s = (Inl e, s)"

definition bindM :: "('s, 'a) op \<Rightarrow> ('a \<Rightarrow> ('s, 'b) op) \<Rightarrow> ('s, 'b) op" where
  "bindM m f s = (case m s of (Inl e, s') \<Rightarrow> (Inl e, s') | (Inr a, s') \<Rightarrow> f a s')"

definition query :: "('s \<Rightarrow> 'a) \<Rightarrow> ('s, 'a) op" where
  "query f s = (Inr (f s), s)"

definition modify :: "('s \<Rightarrow> 's) \<Rightarrow> ('s, unit) op" where
  "modify f s = (Inr (), f s)"

definition guardM :: "bool \<Rightarrow> app_error \<Rightarrow> ('s, unit) op" where
  "guardM b e = (if b then ret () else throw e)"

definition liftE :: "(app_error + 'a) \<Rightarrow> ('s, 'a) op" where
  "liftE r s = (r, s)"

text \<open>The transaction wrapper every store module has: BEGIN, COMMIT, or ROLLBACK and rethrow.\<close>

definition withTransaction :: "('s, 'a) op \<Rightarrow> ('s, 'a) op" where
  "withTransaction fn s = (case fn s of (Inl e, s') \<Rightarrow> (Inl e, s) | (Inr a, s') \<Rightarrow> (Inr a, s'))"

text \<open>
  A transaction inside which some calls run on connections of their own: their writes stay when it
  rolls back. \<open>undo s s'\<close> is \<open>s'\<close> with the tables the transaction itself writes taken from \<open>s\<close>.
\<close>

definition transactionOn :: "('s \<Rightarrow> 's \<Rightarrow> 's) \<Rightarrow> ('s, 'a) op \<Rightarrow> ('s, 'a) op" where
  "transactionOn undo fn s = (case fn s of (Inl e, s') \<Rightarrow> (Inl e, undo s s') | (Inr a, s') \<Rightarrow> (Inr a, s'))"

text \<open>An awaited \<open>for\<close> loop that threads its accumulator.\<close>

primrec foldM :: "('b \<Rightarrow> 'x \<Rightarrow> ('s, 'b) op) \<Rightarrow> 'b \<Rightarrow> 'x list \<Rightarrow> ('s, 'b) op" where
  "foldM f b [] = ret b"
| "foldM f b (x # xs) = bindM (f b x) (\<lambda>b'. foldM f b' xs)"

lemmas monad_defs [op_simps] =
  ret_def throw_def bindM_def query_def modify_def guardM_def liftE_def withTransaction_def

lemma bindM_Inr:
  "bindM m f s = (Inr b, s'') \<longleftrightarrow> (\<exists>a s'. m s = (Inr a, s') \<and> f a s' = (Inr b, s''))"
  by (auto simp: bindM_def split: prod.splits sum.splits)

lemma bindM_Inl:
  "bindM m f s = (Inl e, s'') \<longleftrightarrow>
     m s = (Inl e, s'') \<or> (\<exists>a s'. m s = (Inr a, s') \<and> f a s' = (Inl e, s''))"
  by (auto simp: bindM_def split: prod.splits sum.splits)

lemma ret_bindM [simp]: "bindM (ret a) f = f a"
  by (rule ext) (simp add: bindM_def ret_def)

lemma throw_bindM [simp]: "bindM (throw e) f = throw e"
  by (rule ext) (simp add: bindM_def throw_def)

lemma bindM_assoc: "bindM (bindM m f) g = bindM m (\<lambda>a. bindM (f a) g)"
  by (rule ext) (auto simp: bindM_def split: prod.splits sum.splits)

lemma ret_Inr [simp]: "ret a s = (Inr b, s') \<longleftrightarrow> b = a \<and> s' = s"
  by (auto simp: ret_def)

lemma throw_not_Inr [simp]: "throw e s \<noteq> (Inr b, s')"
  by (simp add: throw_def)

lemma query_Inr [simp]: "query f s = (Inr b, s') \<longleftrightarrow> b = f s \<and> s' = s"
  by (auto simp: query_def)

lemma modify_Inr [simp]: "modify f s = (Inr b, s') \<longleftrightarrow> s' = f s"
  by (auto simp: modify_def)

lemma guardM_Inr [simp]: "guardM b e s = (Inr u, s') \<longleftrightarrow> b \<and> s' = s"
  by (auto simp: guardM_def)

lemma liftE_Inr [simp]: "liftE r s = (Inr b, s') \<longleftrightarrow> r = Inr b \<and> s' = s"
  by (auto simp: liftE_def)

lemma withTransaction_Inr [simp]: "withTransaction m s = (Inr b, s') \<longleftrightarrow> m s = (Inr b, s')"
  by (auto simp: withTransaction_def split: prod.splits sum.splits)

text \<open>Atomicity: a transaction that throws leaves the state as it found it.\<close>

lemma withTransaction_Inl:
  "withTransaction m s = (Inl e, s') \<longleftrightarrow> s' = s \<and> (\<exists>s''. m s = (Inl e, s''))"
  by (auto simp: withTransaction_def split: prod.splits sum.splits)

lemma transactionOn_Inr [simp]: "transactionOn u m s = (Inr b, s') \<longleftrightarrow> m s = (Inr b, s')"
  by (auto simp: transactionOn_def split: prod.splits sum.splits)

lemma transactionOn_Inl:
  "transactionOn u m s = (Inl e, s') \<longleftrightarrow> (\<exists>s''. m s = (Inl e, s'') \<and> s' = u s s'')"
  by (auto simp: transactionOn_def split: prod.splits sum.splits)

section \<open>Preserved predicates\<close>

definition preserves :: "('s \<Rightarrow> bool) \<Rightarrow> ('s, 'a) op \<Rightarrow> bool" where
  "preserves I m \<longleftrightarrow> (\<forall>s. I s \<longrightarrow> I (snd (m s)))"

lemma preservesI: "(\<And>s. I s \<Longrightarrow> I (snd (m s))) \<Longrightarrow> preserves I m"
  by (simp add: preserves_def)

lemma preservesD: "preserves I m \<Longrightarrow> I s \<Longrightarrow> m s = (r, s') \<Longrightarrow> I s'"
  by (metis preserves_def snd_conv)

lemma preserves_ret [preserve_intros]: "preserves I (ret a)"
  by (simp add: preserves_def ret_def)

lemma preserves_throw [preserve_intros]: "preserves I (throw e)"
  by (simp add: preserves_def throw_def)

lemma preserves_query [preserve_intros]: "preserves I (query f)"
  by (simp add: preserves_def query_def)

lemma preserves_guardM [preserve_intros]: "preserves I (guardM b e)"
  by (simp add: guardM_def preserves_ret preserves_throw)

lemma preserves_liftE [preserve_intros]: "preserves I (liftE r)"
  by (simp add: preserves_def liftE_def)

lemma preserves_modify [preserve_intros]: "(\<And>s. I s \<Longrightarrow> I (f s)) \<Longrightarrow> preserves I (modify f)"
  by (simp add: preserves_def modify_def)

lemma preserves_bindM [preserve_intros]:
  "preserves I m \<Longrightarrow> (\<And>a. preserves I (f a)) \<Longrightarrow> preserves I (bindM m f)"
  by (force simp: preserves_def bindM_def split: prod.splits sum.splits)

lemma preserves_withTransaction [preserve_intros]: "preserves I m \<Longrightarrow> preserves I (withTransaction m)"
  by (force simp: preserves_def withTransaction_def split: prod.splits sum.splits)

lemma preserves_if [preserve_intros]:
  "(b \<Longrightarrow> preserves I m) \<Longrightarrow> (\<not> b \<Longrightarrow> preserves I m') \<Longrightarrow> preserves I (if b then m else m')"
  by simp

lemma preserves_case_option [preserve_intros]:
  "(x = None \<Longrightarrow> preserves I m) \<Longrightarrow> (\<And>a. x = Some a \<Longrightarrow> preserves I (f a)) \<Longrightarrow>
   preserves I (case x of None \<Rightarrow> m | Some a \<Rightarrow> f a)"
  by (cases x) auto

lemma preserves_foldM [preserve_intros]: "(\<And>b x. x \<in> set xs \<Longrightarrow> preserves I (f b x)) \<Longrightarrow> preserves I (foldM f b xs)"
  by (induction xs arbitrary: b) (auto intro!: preserves_ret preserves_bindM)

lemma preserves_conj: "preserves I m \<Longrightarrow> preserves J m \<Longrightarrow> preserves (\<lambda>s. I s \<and> J s) m"
  by (simp add: preserves_def)

lemma preserves_transactionOn:
  assumes "preserves I m" and "\<And>s s'. I s \<Longrightarrow> I s' \<Longrightarrow> I (undo s s')"
  shows "preserves I (transactionOn undo m)"
proof (rule preservesI)
  fix s assume I: "I s"
  obtain r s' where run: "m s = (r, s')" by fastforce
  from preservesD [OF assms(1) I this] assms(2) I show "I (snd (transactionOn undo m s))"
    by (cases r) (simp_all add: transactionOn_def run)
qed

text \<open>What an operation leaves untouched: \<open>keeps f m\<close> says \<open>f\<close> reads the same before and after.\<close>

definition keeps :: "('s \<Rightarrow> 'b) \<Rightarrow> ('s, 'a) op \<Rightarrow> bool" where
  "keeps f m \<longleftrightarrow> (\<forall>s. f (snd (m s)) = f s)"

lemma keeps_preserves: "keeps f m \<longleftrightarrow> (\<forall>x. preserves (\<lambda>s. f s = x) m)"
  by (auto simp: keeps_def preserves_def)

lemma keepsD: "keeps f m \<Longrightarrow> m s = (r, s') \<Longrightarrow> f s' = f s"
  by (metis keeps_def snd_conv)

lemma keepsI: "(\<And>x. preserves (\<lambda>s. f s = x) m) \<Longrightarrow> keeps f m"
  by (simp add: keeps_preserves)

lemma keeps_preservesI: "keeps f m \<Longrightarrow> preserves (\<lambda>s. P (f s)) m"
  by (simp add: keeps_def preserves_def)

section \<open>Weakest preconditions\<close>

text \<open>
  \<open>wp m Q s\<close>: if \<open>m\<close> returns from \<open>s\<close>, then \<open>Q\<close> holds of its result and final state. The
  equations in \<open>wp_simps\<close> push a postcondition through an operation; a transaction that throws
  leaves the state alone, so for transactional operations this is all an invariant needs.
\<close>

definition wp :: "('s, 'a) op \<Rightarrow> ('a \<Rightarrow> 's \<Rightarrow> bool) \<Rightarrow> 's \<Rightarrow> bool" where
  "wp m Q s \<longleftrightarrow> (\<forall>a s'. m s = (Inr a, s') \<longrightarrow> Q a s')"

lemma wp_ret [wp_simps]: "wp (ret a) Q = Q a"
  by (rule ext) (simp add: wp_def)

lemma wp_throw [wp_simps]: "wp (throw e) Q = (\<lambda>s. True)"
  by (rule ext) (simp add: wp_def)

lemma wp_query [wp_simps]: "wp (query f) Q = (\<lambda>s. Q (f s) s)"
  by (rule ext) (simp add: wp_def)

lemma wp_modify [wp_simps]: "wp (modify f) Q = (\<lambda>s. Q () (f s))"
  by (rule ext) (simp add: wp_def)

lemma wp_guardM [wp_simps]: "wp (guardM b e) Q = (\<lambda>s. b \<longrightarrow> Q () s)"
  by (rule ext) (simp add: wp_def)

lemma wp_liftE [wp_simps]: "wp (liftE r) Q = (\<lambda>s. \<forall>a. r = Inr a \<longrightarrow> Q a s)"
  by (rule ext) (simp add: wp_def)

lemma wp_bindM [wp_simps]: "wp (bindM m f) Q = wp m (\<lambda>a. wp (f a) Q)"
  by (rule ext) (auto simp: wp_def bindM_Inr)

lemma wp_transactionOn [wp_simps]: "wp (transactionOn u m) = wp m"
  by (intro ext) (simp add: wp_def)

lemma wp_withTransaction [wp_simps]: "wp (withTransaction m) Q = wp m Q"
  by (rule ext) (simp add: wp_def)

lemma wp_mono: "wp m Q s \<Longrightarrow> (\<And>a s'. Q a s' \<Longrightarrow> R a s') \<Longrightarrow> wp m R s"
  by (simp add: wp_def)

lemma wpD: "wp m Q s \<Longrightarrow> m s = (Inr a, s') \<Longrightarrow> Q a s'"
  by (simp add: wp_def)

lemma wp_conj: "wp m Q s \<Longrightarrow> wp m R s \<Longrightarrow> wp m (\<lambda>a s'. Q a s' \<and> R a s') s"
  by (simp add: wp_def)

lemma wp_preserves: "preserves I m \<Longrightarrow> I s \<Longrightarrow> wp m (\<lambda>_. I) s"
  by (auto simp: wp_def dest: preservesD)

lemma wp_foldM:
  assumes "\<And>b x s. x \<in> set xs \<Longrightarrow> J s \<Longrightarrow> wp (f b x) (\<lambda>_. J) s"
  shows "J s \<Longrightarrow> wp (foldM f b xs) (\<lambda>_. J) s"
  using assms
proof (induction xs arbitrary: b s)
  case (Cons x xs)
  have "wp (f b x) (\<lambda>_. J) s" using Cons.prems by simp
  then show ?case
    using Cons.IH Cons.prems(2) by (auto simp: wp_bindM intro: wp_mono)
qed (simp add: wp_ret)

lemma preserves_transaction:
  assumes "\<And>s. I s \<Longrightarrow> wp m (\<lambda>_. I) s"
  shows "preserves I (withTransaction m)"
proof (rule preservesI)
  fix s
  assume "I s"
  then have "wp m (\<lambda>_. I) s" by (rule assms)
  with \<open>I s\<close> show "I (snd (withTransaction m s))"
    by (auto simp: wp_def withTransaction_def split: prod.splits sum.splits)
qed

section \<open>Tables\<close>

text \<open>
  A table is the list of its rows in insertion order. \<open>find_row\<close> is a \<open>SELECT\<close> by a
  condition that at most one row meets (\<open>rows[0]\<close>); \<open>update_rows\<close> is an
  \<open>UPDATE ... WHERE\<close>.
\<close>

definition find_row :: "('r \<Rightarrow> bool) \<Rightarrow> 'r list \<Rightarrow> 'r option" where
  "find_row p rows = List.find p rows"

definition update_rows :: "('r \<Rightarrow> bool) \<Rightarrow> ('r \<Rightarrow> 'r) \<Rightarrow> 'r list \<Rightarrow> 'r list" where
  "update_rows p f rows = map (\<lambda>r. if p r then f r else r) rows"

lemma find_row_Some: "find_row p rows = Some r \<Longrightarrow> r \<in> set rows \<and> p r"
  by (metis find_Some_iff find_row_def nth_mem)

lemma find_row_None: "find_row p rows = None \<longleftrightarrow> (\<forall>r \<in> set rows. \<not> p r)"
  by (auto simp: find_row_def find_None_iff)

lemma find_row_Nil [simp]: "find_row p [] = None"
  by (simp add: find_row_def)

lemma find_row_Cons [simp]: "find_row p (r # rows) = (if p r then Some r else find_row p rows)"
  by (simp add: find_row_def)

lemma find_row_append:
  "find_row p (xs @ ys) = (case find_row p xs of None \<Rightarrow> find_row p ys | Some r \<Rightarrow> Some r)"
  by (induction xs) auto

lemma update_rows_Nil [simp]: "update_rows p f [] = []"
  by (simp add: update_rows_def)

lemma update_rows_Cons [simp]:
  "update_rows p f (r # rows) = (if p r then f r else r) # update_rows p f rows"
  by (simp add: update_rows_def)

lemma length_update_rows [simp]: "length (update_rows p f rows) = length rows"
  by (simp add: update_rows_def)

lemma set_update_rows:
  "x \<in> set (update_rows p f rows) \<longleftrightarrow>
     (\<exists>r \<in> set rows. x = (if p r then f r else r))"
  by (auto simp: update_rows_def)

lemma map_update_rows:
  "(\<And>r. g (f r) = g r) \<Longrightarrow> map g (update_rows p f rows) = map g rows"
  by (induction rows) auto

lemma list_all_update_rows:
  "(\<And>r. r \<in> set rows \<Longrightarrow> p r \<Longrightarrow> Q (f r)) \<Longrightarrow> (\<And>r. r \<in> set rows \<Longrightarrow> \<not> p r \<Longrightarrow> Q r) \<Longrightarrow> list_all Q (update_rows p f rows)"
  by (induction rows) auto

lemma distinct_key_unique: "distinct (map key rows) \<Longrightarrow> r \<in> set rows \<Longrightarrow> q \<in> set rows \<Longrightarrow> key r = key q \<Longrightarrow> r = q"
  by (meson distinct_map inj_onD)

lemma find_row_unique_key:
  "distinct (map key rows) \<Longrightarrow> r \<in> set rows \<Longrightarrow> find_row (\<lambda>x. key x = key r) rows = Some r"
  by (induction rows) (auto simp: image_iff)

lemma filter_update_rows:
  "(\<And>x. p x \<Longrightarrow> \<not> q (f x)) \<Longrightarrow> filter q (update_rows p f xs) = filter (\<lambda>x. q x \<and> \<not> p x) xs"
  by (induction xs) auto

lemma filter_update_rows_other:
  "(\<And>r. p r \<Longrightarrow> \<not> q r \<and> \<not> q (f r)) \<Longrightarrow> filter q (update_rows p f xs) = filter q xs"
  by (induction xs) auto

lemma sort_key_Nil_iff [simp]: "sort_key f xs = [] \<longleftrightarrow> xs = []"
  by (metis length_0_conv length_sort)

lemma update_rows_survivor:
  "x \<in> set (update_rows p f xs) \<Longrightarrow> q x \<Longrightarrow> (\<And>r. \<not> q (f r)) \<Longrightarrow> x \<in> set xs \<and> \<not> p x"
  by (induction xs) (auto split: if_splits)

lemma update_rows_other: "x \<in> set xs \<Longrightarrow> \<not> p x \<Longrightarrow> x \<in> set (update_rows p f xs)"
  by (induction xs) auto

lemma distinct_filter_sub: "distinct (map f (filter p xs)) \<Longrightarrow> distinct (map f (filter (\<lambda>x. p x \<and> q x) xs))"
  by (induction xs) (auto split: if_splits)

section \<open>Two generic interfaces\<close>

text \<open>
  A component's operations as a transition system over its state: an initial state and a set
  of operations, each identified by a label, that keep an invariant. Every state a sequence of
  calls reaches, whatever their order and whichever of them throw, satisfies it.
\<close>

locale invariant_machine =
  fixes init :: 's and step :: "'l \<Rightarrow> 's \<Rightarrow> 's" and inv :: "'s \<Rightarrow> bool"
  assumes inv_init: "inv init"
    and inv_step: "inv s \<Longrightarrow> inv (step l s)"
begin

lemma inv_run: "inv s \<Longrightarrow> inv (fold step ls s)"
  by (induction ls arbitrary: s) (auto intro: inv_step)

lemma inv_reachable: "inv (fold step ls init)"
  by (rule inv_run) (rule inv_init)

end

text \<open>An encoder whose decoder recovers every value of a domain.\<close>

locale codec =
  fixes enc :: "'a \<Rightarrow> 'b" and dec :: "'b \<Rightarrow> 'a option" and ok :: "'a \<Rightarrow> bool"
  assumes dec_enc: "ok a \<Longrightarrow> dec (enc a) = Some a"
begin

lemma enc_inj: "ok a \<Longrightarrow> ok b \<Longrightarrow> enc a = enc b \<Longrightarrow> a = b"
  by (metis dec_enc option.inject)

lemma dec_defined: "ok a \<Longrightarrow> dec (enc a) \<noteq> None"
  by (simp add: dec_enc)

end

end
