(* ===== verification/JsValue.thy ===== *)
theory JsValue
  imports JsText
begin

text \<open>
  JavaScript values as the engines see them.

  \<^item> Numbers are IEEE-754 doubles: \<open>jsnum\<close> has the finite values as rationals (the two
    zeros are one, since nothing modelled tells them apart), the infinities and NaN.
    \<open>round64\<close> is round-to-nearest-even, \<open>to_number\<close> is \<open>Number(string)\<close> and
    \<open>show_num\<close> is \<open>Number.prototype.toString\<close>.
  \<^item> \<open>jsval\<close> is a value of type \<open>unknown\<close>. Objects are association lists in property
    order. Values are finite trees, so a cyclic object has no counterpart.
  \<^item> \<open>json_string\<close> is \<open>JSON.stringify\<close> of a string.
\<close>

section \<open>Numbers\<close>

datatype jsnum = NaN | PosInf | NegInf | Fin rat

definition isFinite :: "jsnum \<Rightarrow> bool" where
  "isFinite x \<longleftrightarrow> (case x of Fin _ \<Rightarrow> True | _ \<Rightarrow> False)"

text \<open>The comparison \<open>x < y\<close> of two numbers: false as soon as one is NaN.\<close>

fun num_less :: "jsnum \<Rightarrow> jsnum \<Rightarrow> bool" where
  "num_less (Fin a) (Fin b) = (a < b)"
| "num_less NegInf (Fin b) = True"
| "num_less (Fin a) PosInf = True"
| "num_less NegInf PosInf = True"
| "num_less _ _ = False"

definition pow2 :: "int \<Rightarrow> rat" where
  "pow2 k = (if 0 \<le> k then 2 ^ nat k else 1 / 2 ^ nat (- k))"

definition pow10 :: "int \<Rightarrow> rat" where
  "pow10 k = (if 0 \<le> k then 10 ^ nat k else 1 / 10 ^ nat (- k))"

text \<open>The binary exponent of a positive rational: \<open>pow2 (exp2 x) \<le> x < pow2 (exp2 x + 1)\<close>.\<close>

fun bit_length :: "nat \<Rightarrow> int" where
  "bit_length n = (if n = 0 then 0 else bit_length (n div 2) + 1)"

declare bit_length.simps [simp del]

lemma bit_length_numeral [simp]:
  "bit_length 0 = 0"
  "bit_length (Suc 0) = 1"
  "bit_length 1 = 1"
  "bit_length (numeral (num.Bit0 n)) = bit_length (numeral n) + 1"
  "bit_length (numeral (num.Bit1 n)) = bit_length (numeral n) + 1"
  by (subst bit_length.simps, simp add: bit_length.simps [of 0] del: div_mult_self1_is_m)+

lemma floor_rat_numeral [simp]: "\<lfloor>(numeral a / numeral b :: rat)\<rfloor> = numeral a div numeral b"
  using floor_divide_of_int_eq [where ?'a = rat, of "numeral a" "numeral b"] by simp

lemma ceiling_rat_numeral [simp]:
  "\<lceil>(numeral a / numeral b :: rat)\<rceil> = - ((- numeral a) div numeral b)"
  using ceiling_divide_eq_div [where ?'a = rat, of "numeral a" "numeral b"] by simp

definition exp2 :: "rat \<Rightarrow> int" where
  "exp2 x = (if 1 \<le> x then bit_length (nat \<lfloor>x\<rfloor>) - 1 else - bit_length (nat (\<lceil>1 / x\<rceil> - 1)))"

definition round_even :: "rat \<Rightarrow> int" where
  "round_even x =
     (let f = \<lfloor>x\<rfloor>; r = x - of_int f
      in if r < 1 / 2 then f else if r > 1 / 2 then f + 1 else if even f then f else f + 1)"

definition round_pos :: "rat \<Rightarrow> jsnum" where
  "round_pos x =
     (let e = max (exp2 x - 52) (- 1074);
          r = of_int (round_even (x / pow2 e)) * pow2 e
      in if pow2 1024 \<le> r then PosInf else Fin r)"

fun num_neg :: "jsnum \<Rightarrow> jsnum" where
  "num_neg NaN = NaN"
| "num_neg PosInf = NegInf"
| "num_neg NegInf = PosInf"
| "num_neg (Fin a) = Fin (- a)"

definition round64 :: "rat \<Rightarrow> jsnum" where
  "round64 x = (if x = 0 then Fin 0 else if x < 0 then num_neg (round_pos (- x)) else round_pos x)"

lemma isFinite_Fin [simp]: "isFinite (Fin a)" "\<not> isFinite NaN" "\<not> isFinite PosInf" "\<not> isFinite NegInf"
  by (simp_all add: isFinite_def)

lemma isFinite_iff: "isFinite x \<longleftrightarrow> (\<exists>a. x = Fin a)"
  by (cases x) auto

subsection \<open>\<open>Number(string)\<close>\<close>

definition digit_span :: "string \<Rightarrow> string \<times> string" where
  "digit_span s = (takeWhile is_digit s, dropWhile is_digit s)"

text \<open>The signed exponent after \<open>e\<close> or \<open>E\<close>; nothing may follow it.\<close>

definition parse_exponent :: "string \<Rightarrow> int option" where
  "parse_exponent s =
     (case s of
        [] \<Rightarrow> None
      | c # r \<Rightarrow>
          if c = CHR ''-'' then map_option (\<lambda>n. - int n) (parse_nat r)
          else if c = CHR ''+'' then map_option int (parse_nat r)
          else map_option int (parse_nat s))"

definition parse_udec :: "string \<Rightarrow> rat option" where
  "parse_udec s =
     (let (ip, r1) = digit_span s;
          (fp, r2) = (case r1 of
                        c # r \<Rightarrow> if c = CHR ''.'' then digit_span r else ([], r1)
                      | [] \<Rightarrow> ([], []));
          mant = of_nat (digits_val 0 (ip @ fp)) * pow10 (- int (length fp))
      in if ip = [] \<and> fp = [] then None
         else case r2 of
                [] \<Rightarrow> Some mant
              | c # r \<Rightarrow> if c = CHR ''e'' \<or> c = CHR ''E''
                          then map_option (\<lambda>k. mant * pow10 k) (parse_exponent r)
                          else None)"

definition radix_digit :: "char \<Rightarrow> nat" where
  "radix_digit c =
     (if is_digit c then digit_val c
      else if 97 \<le> code c \<and> code c \<le> 102 then code c - 87
      else if 65 \<le> code c \<and> code c \<le> 70 then code c - 55 else 99)"

definition parse_radix :: "nat \<Rightarrow> string \<Rightarrow> rat option" where
  "parse_radix b s =
     (if s \<noteq> [] \<and> list_all (\<lambda>c. radix_digit c < b) s
      then Some (of_nat (fold (\<lambda>c acc. b * acc + radix_digit c) s 0)) else None)"

definition num_of_option :: "rat option \<Rightarrow> jsnum" where
  "num_of_option r = (case r of None \<Rightarrow> NaN | Some x \<Rightarrow> round64 x)"

definition unsigned_number :: "string \<Rightarrow> jsnum" where
  "unsigned_number s = (if s = ''Infinity'' then PosInf else num_of_option (parse_udec s))"

definition to_number :: "string \<Rightarrow> jsnum" where
  "to_number str =
     (let s = trim str in
      case s of
        [] \<Rightarrow> Fin 0
      | c # r \<Rightarrow>
          if c = CHR ''+'' then unsigned_number r
          else if c = CHR ''-'' then num_neg (unsigned_number r)
          else if take 2 s = ''0x'' \<or> take 2 s = ''0X'' then num_of_option (parse_radix 16 (drop 2 s))
          else if take 2 s = ''0o'' \<or> take 2 s = ''0O'' then num_of_option (parse_radix 8 (drop 2 s))
          else if take 2 s = ''0b'' \<or> take 2 s = ''0B'' then num_of_option (parse_radix 2 (drop 2 s))
          else unsigned_number s)"

lemma to_number_empty: "to_number '''' = Fin 0"
  by (simp add: to_number_def trim_def)

lemmas to_number_eval = code_def is_digit_def digit_val_def is_space_def trim_def to_number_def
  unsigned_number_def num_of_option_def parse_udec_def digit_span_def parse_nat_def
  parse_exponent_def round64_def round_pos_def exp2_def pow2_def pow10_def round_even_def Let_def

lemma to_number_words: "to_number ''abc'' = NaN"
  by (simp add: to_number_eval)

lemma to_number_100: "to_number ''100'' = Fin 100"
  by (simp add: to_number_eval)

lemma to_number_tenth: "to_number ''0.1'' = Fin (3602879701896397 / 36028797018963968)"
  by (simp add: to_number_eval)

lemma to_number_decimal: "to_number '' 12.50 '' = Fin (25 / 2)"
  by (simp add: to_number_eval)

subsection \<open>\<open>Number.prototype.toString\<close>\<close>

text \<open>
  The decimal exponent \<open>n\<close> with \<open>pow10 (n - 1) \<le> x < pow10 n\<close>. The fuel bounds the search
  below 1: the least positive double is above \<open>pow10 (- 324)\<close>.
\<close>

fun dec_exp_small :: "nat \<Rightarrow> rat \<Rightarrow> int" where
  "dec_exp_small 0 x = 0"
| "dec_exp_small (Suc k) x = (if 1 / 10 \<le> x then 0 else dec_exp_small k (10 * x) - 1)"

definition dec_exp :: "rat \<Rightarrow> int" where
  "dec_exp x = (if 1 \<le> x then int (length (show_nat (nat \<lfloor>x\<rfloor>))) else dec_exp_small 330 x)"

text \<open>
  The shortest digits that round back to \<open>x\<close>: for a length \<open>k\<close> the candidates are the two
  integers around \<open>x / pow10 (n - k)\<close>, the nearer first; 17 digits always suffice.
\<close>

definition digit_candidates :: "rat \<Rightarrow> int list" where
  "digit_candidates q =
     (let f = \<lfloor>q\<rfloor> in if q - of_int f \<le> 1 / 2 then [f, f + 1] else [f + 1, f])"

fun shortest_digits :: "nat \<Rightarrow> nat \<Rightarrow> rat \<Rightarrow> nat \<times> int" where
  "shortest_digits 0 k x = (nat (round_even (x / pow10 (dec_exp x - int k))), dec_exp x - int k)"
| "shortest_digits (Suc fuel) k x =
     (let e = dec_exp x - int k
      in case List.find (\<lambda>s. round64 (of_int s * pow10 e) = Fin x) (digit_candidates (x / pow10 e)) of
           Some s \<Rightarrow> (nat s, e)
         | None \<Rightarrow> shortest_digits fuel (Suc k) x)"

definition layout_digits :: "string \<Rightarrow> int \<Rightarrow> string" where
  "layout_digits ds n =
     (let k = int (length ds)
      in if k \<le> n \<and> n \<le> 21 then ds @ replicate (nat (n - k)) CHR ''0''
         else if 0 < n \<and> n \<le> 21 then take (nat n) ds @ ''.'' @ drop (nat n) ds
         else if - 6 < n \<and> n \<le> 0 then ''0.'' @ replicate (nat (- n)) CHR ''0'' @ ds
         else (if k = 1 then ds else take 1 ds @ ''.'' @ drop 1 ds) @ ''e'' @
              (if n - 1 < 0 then ''-'' else ''+'') @ show_nat (nat \<bar>n - 1\<bar>))"

definition strip_zeros :: "string \<Rightarrow> string" where
  "strip_zeros ds = rev (dropWhile (\<lambda>c. c = CHR ''0'') (rev ds))"

definition show_pos :: "rat \<Rightarrow> string" where
  "show_pos x =
     (let (s, e) = shortest_digits 17 1 x; ds = show_nat s
      in layout_digits (strip_zeros ds) (int (length ds) + e))"

fun show_num :: "jsnum \<Rightarrow> string" where
  "show_num NaN = ''NaN''"
| "show_num PosInf = ''Infinity''"
| "show_num NegInf = ''-Infinity''"
| "show_num (Fin x) = (if x = 0 then ''0'' else if x < 0 then ''-'' @ show_pos (- x) else show_pos x)"

section \<open>Values\<close>

datatype jsval =
    VUndef
  | VNull
  | VBool bool
  | VNum jsnum
  | VStr string
  | VArr "jsval list"
  | VObj "(string \<times> jsval) list"       \<comment> \<open>a plain object\<close>
  | VDate int                            \<comment> \<open>a valid \<open>Date\<close>, by its time value\<close>
  | VInst "(string \<times> jsval) list"       \<comment> \<open>an object of another class\<close>
  | VOpaque                              \<comment> \<open>a function, a symbol or a bigint\<close>

type_synonym obj = "(string \<times> jsval) list"

text \<open>Property access; an absent property reads as \<open>undefined\<close>.\<close>

definition get_prop :: "obj \<Rightarrow> string \<Rightarrow> jsval" where
  "get_prop o' key = (case map_of o' key of None \<Rightarrow> VUndef | Some v \<Rightarrow> v)"

text \<open>\<open>{...o, [key]: v}\<close>: an existing property keeps its place.\<close>

fun set_prop :: "obj \<Rightarrow> string \<Rightarrow> jsval \<Rightarrow> obj" where
  "set_prop [] key v = [(key, v)]"
| "set_prop ((k, w) # o') key v = (if k = key then (k, v) # o' else (k, w) # set_prop o' key v)"

fun spread :: "obj \<Rightarrow> obj \<Rightarrow> obj" where
  "spread o' [] = o'"
| "spread o' ((k, v) # rest) = spread (set_prop o' k v) rest"

text \<open>
  The properties of a value that passes \<open>value !== null && typeof value === 'object' &&
  !Array.isArray(value)\<close>; a \<open>Date\<close> passes and has no own enumerable property.
\<close>

definition as_object :: "jsval \<Rightarrow> obj option" where
  "as_object v = (case v of VObj o' \<Rightarrow> Some o' | VInst o' \<Rightarrow> Some o' | VDate _ \<Rightarrow> Some [] | _ \<Rightarrow> None)"

lemma get_prop_Nil [simp]: "get_prop [] key = VUndef"
  by (simp add: get_prop_def)

lemma get_prop_Cons [simp]: "get_prop ((k, v) # o') key = (if k = key then v else get_prop o' key)"
  by (simp add: get_prop_def)

lemma get_prop_set_prop [simp]: "get_prop (set_prop o' k v) key = (if k = key then v else get_prop o' key)"
  by (induction o' k v rule: set_prop.induct) auto

lemma set_prop_keys: "fst ` set (set_prop o' k v) = insert k (fst ` set o')"
  by (induction o' k v rule: set_prop.induct) auto

lemma set_prop_nonempty [simp]: "set_prop o' k v \<noteq> []"
  by (cases "(o', k, v)" rule: set_prop.cases) auto

lemma spread_nonempty: "o' \<noteq> [] \<Longrightarrow> spread o' ps \<noteq> []"
  by (induction o' ps rule: spread.induct) auto

section \<open>\<open>JSON.stringify\<close> of a string\<close>

definition hex_char :: "nat \<Rightarrow> char" where
  "hex_char n = (if n < 10 then digit_char n else char_of (87 + n))"

definition escape_char :: "char \<Rightarrow> string" where
  "escape_char c =
     (if code c = 34 then [CHR 0x5C, CHR 0x22]
      else if code c = 92 then [CHR 0x5C, CHR 0x5C]
      else if code c = 8 then CHR 0x5C # ''b''
      else if code c = 9 then CHR 0x5C # ''t''
      else if code c = 10 then CHR 0x5C # ''n''
      else if code c = 12 then CHR 0x5C # ''f''
      else if code c = 13 then CHR 0x5C # ''r''
      else if code c < 32 then CHR 0x5C # ''u00'' @ [hex_char (code c div 16), hex_char (code c mod 16)]
      else [c])"

definition json_string :: "string \<Rightarrow> string" where
  "json_string s = CHR 0x22 # concat (map escape_char s) @ [CHR 0x22]"

end
