(* ===== verification/PolicyDecision.thy ===== *)
theory PolicyDecision
  imports JsValue "HOL-Library.Multiset"
begin

text \<open>
  The policy decision engine, \<open>apps/api/src/engines/policy/decision-engine.ts\<close>, with the data
  types of \<open>policy/types.ts\<close> and the roles of \<open>identity/roles.ts\<close>. The engine is a pure
  function from the effective policies and a request to a decision; the lemmas show that it
  is the most severe matching statement, that it fails closed, and that neither the order of
  policies nor added policies can relax a decision.
\<close>

section \<open>Roles\<close>

datatype role = Owner | Admin | Operator | Auditor | Viewer | Member

fun ROLE_RANK :: "role \<Rightarrow> nat" where
  "ROLE_RANK Viewer = 0"
| "ROLE_RANK Auditor = 1"
| "ROLE_RANK Member = 1"
| "ROLE_RANK Operator = 2"
| "ROLE_RANK Admin = 3"
| "ROLE_RANK Owner = 4"

definition satisfiesRole :: "role \<Rightarrow> role \<Rightarrow> bool" where
  "satisfiesRole actual required \<longleftrightarrow> ROLE_RANK required \<le> ROLE_RANK actual"

section \<open>Policies and requests\<close>

text \<open>
  The decision of a statement is one of four strings. Statements reach the engine out of a
  JSON column, so a value outside the union is representable: \<open>OtherDecision\<close>.
\<close>

datatype decision_value = Allow | Observe | ApprovalRequired | Deny | OtherDecision string

datatype default_effect = DefaultDeny | DefaultAllow

datatype audit_level = Standard | Detailed | OtherLevel string

datatype target_type = OrgT | TeamT | AgentT | ConnectionT

datatype actor_type = UserA | AgentA | ConnectionA | SystemA

record resource_condition =
  rc_categories :: "string list option"
  rc_domains :: "string list option"

record payment_condition =
  pc_minAmount :: "string option"
  pc_maxAmount :: "string option"
  pc_assets :: "string list option"
  pc_networks :: "string list option"
  pc_recipients :: "string list option"

record tool_condition =
  tc_names :: "string list option"
  tc_riskLevels :: "string list option"

record statement_conditions =
  sc_resource :: "resource_condition option"
  sc_payment :: "payment_condition option"
  sc_tool :: "tool_condition option"

text \<open>
  \<open>st_roles\<close> is \<open>actor?.roles\<close>, \<open>st_target_types\<close> and \<open>st_target_ids\<close> are
  \<open>target?.types\<close> and \<open>target?.ids\<close>: the engine reads them through optional chaining only.
\<close>

record policy_statement =
  st_id :: string
  st_decision :: decision_value
  st_actions :: "string list"
  st_roles :: "role list option"
  st_target_types :: "target_type list option"
  st_target_ids :: "string list option"
  st_conditions :: "statement_conditions option"
  st_audit :: audit_level

record decision_request =
  rq_actor_type :: actor_type
  rq_actor_id :: "string option"
  rq_actor_role :: "role option"
  rq_action :: string
  rq_target_type :: target_type
  rq_target_id :: "string option"
  rq_context :: obj

record effective_policy =
  ep_policyId :: string
  ep_version :: int
  ep_name :: string
  ep_statements :: "policy_statement list"

record decision_match =
  dm_policyId :: string
  dm_policyVersion :: int
  dm_policyName :: string
  dm_statementId :: string
  dm_decision :: decision_value

record decision_result =
  dr_decision :: decision_value
  dr_enforceability :: string
  dr_reasonCode :: string
  dr_explanation :: string
  dr_matched :: "decision_match list"

section \<open>Matching\<close>

text \<open>\<open>decisionRank[d]\<close> is \<open>undefined\<close> (\<open>None\<close>) for a decision outside the table.\<close>

fun decisionRank :: "decision_value \<Rightarrow> nat option" where
  "decisionRank Allow = Some 0"
| "decisionRank Observe = Some 1"
| "decisionRank ApprovalRequired = Some 2"
| "decisionRank Deny = Some 3"
| "decisionRank (OtherDecision _) = None"

fun reasonCode :: "decision_value \<Rightarrow> string" where
  "reasonCode Allow = ''no_matching_policy''"
| "reasonCode Observe = ''policy_observed''"
| "reasonCode ApprovalRequired = ''policy_requires_approval''"
| "reasonCode Deny = ''policy_denied''"
| "reasonCode (OtherDecision _) = ''undefined''"

fun explanation :: "decision_value \<Rightarrow> string" where
  "explanation Allow = ''No active policy blocked this request.''"
| "explanation Observe = ''A policy marked this request for observation.''"
| "explanation ApprovalRequired = ''A policy requires approval before this request can continue.''"
| "explanation Deny = ''A policy denied this request.''"
| "explanation (OtherDecision _) = ''undefined''"

definition NO_MATCH_DENY_REASON :: string where
  "NO_MATCH_DENY_REASON = ''no_matching_policy_denied''"

definition NO_MATCH_DENY_EXPLANATION :: string where
  "NO_MATCH_DENY_EXPLANATION = ''No policy authorizes this request.''"

definition objectAt :: "obj \<Rightarrow> string \<Rightarrow> obj" where
  "objectAt value key = (case as_object (get_prop value key) of Some o' \<Rightarrow> o' | None \<Rightarrow> [])"

definition stringAt :: "obj \<Rightarrow> string \<Rightarrow> string option" where
  "stringAt value key =
     (case get_prop value key of
        VStr s \<Rightarrow> if trim s \<noteq> [] then Some s else None
      | _ \<Rightarrow> None)"

definition finite_or_null :: "jsnum \<Rightarrow> rat option" where
  "finite_or_null x = (case x of Fin r \<Rightarrow> Some r | _ \<Rightarrow> None)"

definition numberAt :: "obj \<Rightarrow> string \<Rightarrow> rat option" where
  "numberAt value key =
     (case get_prop value key of
        VNum x \<Rightarrow> finite_or_null x
      | VStr s \<Rightarrow> finite_or_null (to_number s)
      | _ \<Rightarrow> None)"

definition includesIfPresent :: "string list option \<Rightarrow> string option \<Rightarrow> bool" where
  "includesIfPresent allowed actual =
     (case allowed of
        None \<Rightarrow> True
      | Some xs \<Rightarrow> if xs = [] then True else (case actual of None \<Rightarrow> False | Some a \<Rightarrow> a \<in> set xs))"

definition matchesResourceCondition :: "resource_condition \<Rightarrow> obj \<Rightarrow> bool" where
  "matchesResourceCondition condition context =
     (let resource = objectAt context ''resource''
      in includesIfPresent (rc_categories condition) (stringAt resource ''category'') \<and>
         includesIfPresent (rc_domains condition) (stringAt resource ''domain''))"

text \<open>
  The two amount bounds: present, they must be finite numbers and the amount must be one too.
\<close>

definition withinMin :: "string option \<Rightarrow> rat option \<Rightarrow> bool" where
  "withinMin bound amount =
     (case bound of
        None \<Rightarrow> True
      | Some b \<Rightarrow> (case (to_number b, amount) of (Fin m, Some a) \<Rightarrow> \<not> a < m | _ \<Rightarrow> False))"

definition withinMax :: "string option \<Rightarrow> rat option \<Rightarrow> bool" where
  "withinMax bound amount =
     (case bound of
        None \<Rightarrow> True
      | Some b \<Rightarrow> (case (to_number b, amount) of (Fin m, Some a) \<Rightarrow> \<not> a > m | _ \<Rightarrow> False))"

definition matchesPaymentCondition :: "payment_condition \<Rightarrow> obj \<Rightarrow> bool" where
  "matchesPaymentCondition condition context =
     (let payment = objectAt context ''payment'';
          amount = numberAt payment ''amount''
      in withinMin (pc_minAmount condition) amount \<and>
         withinMax (pc_maxAmount condition) amount \<and>
         includesIfPresent (pc_assets condition) (stringAt payment ''asset'') \<and>
         includesIfPresent (pc_networks condition) (stringAt payment ''network'') \<and>
         includesIfPresent (pc_recipients condition) (stringAt payment ''recipient''))"

definition matchesToolCondition :: "tool_condition \<Rightarrow> obj \<Rightarrow> bool" where
  "matchesToolCondition condition context =
     (let tool = objectAt context ''tool''
      in includesIfPresent (tc_names condition) (stringAt tool ''name'') \<and>
         includesIfPresent (tc_riskLevels condition) (stringAt tool ''riskLevel''))"

definition opt_holds :: "('a \<Rightarrow> bool) \<Rightarrow> 'a option \<Rightarrow> bool" where
  "opt_holds p x = (case x of None \<Rightarrow> True | Some a \<Rightarrow> p a)"

definition matchesConditions :: "statement_conditions option \<Rightarrow> obj \<Rightarrow> bool" where
  "matchesConditions conditions context =
     (case conditions of
        None \<Rightarrow> True
      | Some cs \<Rightarrow>
          opt_holds (\<lambda>c. matchesResourceCondition c context) (sc_resource cs) \<and>
          opt_holds (\<lambda>c. matchesPaymentCondition c context) (sc_payment cs) \<and>
          opt_holds (\<lambda>c. matchesToolCondition c context) (sc_tool cs))"

text \<open>An absent or empty list restricts nothing; a restriction on an absent value fails.\<close>

definition restricted_to :: "'a list option \<Rightarrow> 'a option \<Rightarrow> bool" where
  "restricted_to allowed actual =
     (case allowed of
        None \<Rightarrow> True
      | Some xs \<Rightarrow> xs = [] \<or> (case actual of None \<Rightarrow> False | Some a \<Rightarrow> a \<in> set xs))"

definition matchesStatement :: "policy_statement \<Rightarrow> decision_request \<Rightarrow> bool" where
  "matchesStatement statement request =
     (if ''*'' \<notin> set (st_actions statement) \<and> rq_action request \<notin> set (st_actions statement) then False
      else if \<not> restricted_to (st_roles statement) (rq_actor_role request) then False
      else if \<not> restricted_to (st_target_types statement) (Some (rq_target_type request)) then False
      else if \<not> restricted_to (st_target_ids statement) (rq_target_id request) then False
      else matchesConditions (st_conditions statement) (rq_context request))"

section \<open>The decision\<close>

definition statement_match :: "effective_policy \<Rightarrow> policy_statement \<Rightarrow> decision_match" where
  "statement_match policy statement =
     \<lparr>dm_policyId = ep_policyId policy, dm_policyVersion = ep_version policy,
      dm_policyName = ep_name policy, dm_statementId = st_id statement,
      dm_decision = st_decision statement\<rparr>"

definition policy_matches :: "decision_request \<Rightarrow> effective_policy \<Rightarrow> decision_match list" where
  "policy_matches request policy =
     map (statement_match policy) (filter (\<lambda>st. matchesStatement st request) (ep_statements policy))"

definition matched_statements :: "decision_request \<Rightarrow> effective_policy list \<Rightarrow> decision_match list" where
  "matched_statements request policies = concat (map (policy_matches request) policies)"

text \<open>
  The reducer: \<open>decisionRank[match.decision] > decisionRank[current] ? match.decision : current\<close>;
  a comparison with \<open>undefined\<close> is false.
\<close>

definition more_severe :: "decision_value \<Rightarrow> decision_match \<Rightarrow> decision_value" where
  "more_severe current m =
     (case (decisionRank (dm_decision m), decisionRank current) of
        (Some r, Some c) \<Rightarrow> if r > c then dm_decision m else current
      | _ \<Rightarrow> current)"

definition reduce_decision :: "decision_match list \<Rightarrow> decision_value" where
  "reduce_decision ms = foldl more_severe Allow ms"

definition evaluatePolicyDecision ::
  "decision_request \<Rightarrow> effective_policy list \<Rightarrow> default_effect option \<Rightarrow> decision_result" where
  "evaluatePolicyDecision request policies defaultEffect =
     (let matched = matched_statements request policies
      in if matched = [] then
           (let permissive = (defaultEffect = Some DefaultAllow)
            in \<lparr>dr_decision = (if permissive then Allow else Deny),
                dr_enforceability = ''enforceable'',
                dr_reasonCode = (if permissive then reasonCode Allow else NO_MATCH_DENY_REASON),
                dr_explanation = (if permissive then explanation Allow else NO_MATCH_DENY_EXPLANATION),
                dr_matched = []\<rparr>)
         else
           (let decision = reduce_decision matched
            in \<lparr>dr_decision = decision, dr_enforceability = ''enforceable'',
                dr_reasonCode = reasonCode decision, dr_explanation = explanation decision,
                dr_matched = matched\<rparr>))"


section \<open>The decision is the most severe matching statement\<close>

abbreviation severity :: "decision_value \<Rightarrow> nat" where
  "severity d \<equiv> (case decisionRank d of Some r \<Rightarrow> r | None \<Rightarrow> 0)"

abbreviation supported :: "decision_value \<Rightarrow> bool" where
  "supported d \<equiv> decisionRank d \<noteq> None"

lemma severity_inj: "supported d \<Longrightarrow> supported d' \<Longrightarrow> severity d = severity d' \<Longrightarrow> d = d'"
  by (cases d; cases d') auto

lemma severity_le_3 [simp]: "severity d \<le> 3"
  by (cases d) auto

lemma severity_eq_3 [simp]: "severity d = 3 \<longleftrightarrow> d = Deny"
  by (cases d) auto

lemma more_severe_supported: "supported c \<Longrightarrow> supported (more_severe c m)"
  by (auto simp: more_severe_def split: option.splits)

lemma more_severe_severity: "supported c \<Longrightarrow> severity (more_severe c m) = max (severity c) (severity (dm_decision m))"
  by (auto simp: more_severe_def split: option.splits)

lemma foldl_more_severe:
  "supported c \<Longrightarrow>
     supported (foldl more_severe c ms) \<and>
     severity (foldl more_severe c ms) = fold max (map (severity \<circ> dm_decision) ms) (severity c)"
proof (induction ms arbitrary: c)
  case Nil
  then show ?case by simp
next
  case (Cons m ms)
  from Cons.prems have "supported (more_severe c m)" by (rule more_severe_supported)
  from Cons.IH [OF this] Cons.prems show ?case
    by (simp add: more_severe_severity max.commute)
qed

lemma reduce_decision_supported: "supported (reduce_decision ms)"
  unfolding reduce_decision_def by (rule conjunct1 [OF foldl_more_severe]) simp

lemma fold_max_Max: "fold max xs (a::nat) = Max (insert a (set xs))"
proof -
  have "fold max xs a = fold max (a # xs) a" by simp
  then show ?thesis by (metis Max.set_eq_fold fold_simps(2) list.set(2) max.idem)
qed

lemma severity_reduce: "severity (reduce_decision ms) = Max (insert 0 (severity ` dm_decision ` set ms))"
  using foldl_more_severe [of Allow ms]
  by (simp add: reduce_decision_def fold_max_Max image_image comp_def)

lemma severity_reduce_ge: "m \<in> set ms \<Longrightarrow> severity (dm_decision m) \<le> severity (reduce_decision ms)"
  by (auto simp: severity_reduce intro!: Max_ge)

lemma reduce_attained:
  "reduce_decision ms = Allow \<or> reduce_decision ms \<in> dm_decision ` set ms"
proof -
  have "severity (reduce_decision ms) \<in> insert 0 (severity ` dm_decision ` set ms)"
    unfolding severity_reduce by (rule Max_in) auto
  then show ?thesis
  proof
    assume "severity (reduce_decision ms) = 0"
    then show ?thesis using reduce_decision_supported severity_inj by fastforce
  next
    assume "severity (reduce_decision ms) \<in> severity ` dm_decision ` set ms"
    then obtain m where m: "m \<in> set ms" "severity (dm_decision m) = severity (reduce_decision ms)" by auto
    show ?thesis
    proof (cases "supported (dm_decision m)")
      case True
      with m have "dm_decision m = reduce_decision ms"
        using reduce_decision_supported severity_inj by metis
      with m(1) show ?thesis by (metis imageI)
    next
      case False
      with m(2) have "severity (reduce_decision ms) = 0" by simp
      then show ?thesis using reduce_decision_supported severity_inj by fastforce
    qed
  qed
qed

lemma reduce_decision_cases:
  "reduce_decision ms =
     (if Deny \<in> dm_decision ` set ms then Deny
      else if ApprovalRequired \<in> dm_decision ` set ms then ApprovalRequired
      else if Observe \<in> dm_decision ` set ms then Observe else Allow)"
proof -
  have bound: "severity d \<le> severity (reduce_decision ms)" if "d \<in> dm_decision ` set ms" for d
    using that severity_reduce_ge by auto
  show ?thesis
    using bound [of Deny] bound [of ApprovalRequired] bound [of Observe] reduce_attained [of ms]
      reduce_decision_supported [of ms]
    by (cases "reduce_decision ms") auto
qed

lemma matched_statements_iff:
  "m \<in> set (matched_statements request policies) \<longleftrightarrow>
     (\<exists>p \<in> set policies. \<exists>st \<in> set (ep_statements p). matchesStatement st request \<and> m = statement_match p st)"
  by (auto simp: matched_statements_def policy_matches_def)

definition some_match :: "decision_request \<Rightarrow> effective_policy list \<Rightarrow> (decision_value \<Rightarrow> bool) \<Rightarrow> bool" where
  "some_match request policies P \<longleftrightarrow>
     (\<exists>p \<in> set policies. \<exists>st \<in> set (ep_statements p). matchesStatement st request \<and> P (st_decision st))"

lemma matched_decisions:
  "dm_decision ` set (matched_statements request policies) =
     (\<Union>p \<in> set policies. st_decision ` {st \<in> set (ep_statements p). matchesStatement st request})"
  by (simp add: matched_statements_def policy_matches_def image_UN image_image statement_match_def)

lemma some_match_matched:
  "some_match request policies (\<lambda>x. x = d) \<longleftrightarrow> d \<in> dm_decision ` set (matched_statements request policies)"
  unfolding matched_decisions some_match_def by blast

lemma no_match_matched:
  "matched_statements request policies = [] \<longleftrightarrow> \<not> some_match request policies (\<lambda>_. True)"
proof -
  have "matched_statements request policies = [] \<longleftrightarrow> dm_decision ` set (matched_statements request policies) = {}"
    by simp
  then show ?thesis unfolding matched_decisions some_match_def by blast
qed

lemma some_match_set: "set policies = set policies' \<Longrightarrow> some_match request policies P = some_match request policies' P"
  by (simp add: some_match_def)

lemma evaluate_matched [simp]:
  "dr_matched (evaluatePolicyDecision request policies de) = matched_statements request policies"
  by (simp add: evaluatePolicyDecision_def Let_def)

lemma evaluate_decision_form:
  "dr_decision (evaluatePolicyDecision request policies defaultEffect) =
     (if some_match request policies (\<lambda>d. d = Deny) then Deny
      else if some_match request policies (\<lambda>d. d = ApprovalRequired) then ApprovalRequired
      else if some_match request policies (\<lambda>d. d = Observe) then Observe
      else if some_match request policies (\<lambda>_. True) \<or> defaultEffect = Some DefaultAllow then Allow
      else Deny)"
  by (simp add: evaluatePolicyDecision_def Let_def reduce_decision_cases no_match_matched
      some_match_matched) (auto simp: some_match_matched [symmetric] some_match_def)

text \<open>
  C1. The evaluation in closed form. A matching deny statement wins over everything, then a
  matching approval requirement, then an observation; an allow needs a matching statement or
  the organisation's explicit permissive default, and without any of these the engine fails
  closed with its own reason code. The matches reported are exactly the matching statements.
\<close>

theorem evaluate_closed_form:
  "dr_decision (evaluatePolicyDecision request policies defaultEffect) =
     (if some_match request policies (\<lambda>d. d = Deny) then Deny
      else if some_match request policies (\<lambda>d. d = ApprovalRequired) then ApprovalRequired
      else if some_match request policies (\<lambda>d. d = Observe) then Observe
      else if some_match request policies (\<lambda>_. True) \<or> defaultEffect = Some DefaultAllow then Allow
      else Deny) \<and>
   dr_reasonCode (evaluatePolicyDecision request policies defaultEffect) =
     (if some_match request policies (\<lambda>_. True) \<or> defaultEffect = Some DefaultAllow
      then reasonCode (dr_decision (evaluatePolicyDecision request policies defaultEffect))
      else ''no_matching_policy_denied'') \<and>
   set (dr_matched (evaluatePolicyDecision request policies defaultEffect)) =
     {statement_match p st | p st.
        p \<in> set policies \<and> st \<in> set (ep_statements p) \<and> matchesStatement st request}"
proof (intro conjI)
  show "dr_reasonCode (evaluatePolicyDecision request policies defaultEffect) =
     (if some_match request policies (\<lambda>_. True) \<or> defaultEffect = Some DefaultAllow
      then reasonCode (dr_decision (evaluatePolicyDecision request policies defaultEffect))
      else ''no_matching_policy_denied'')"
    by (auto simp: evaluatePolicyDecision_def Let_def no_match_matched NO_MATCH_DENY_REASON_def)
next
  show "set (dr_matched (evaluatePolicyDecision request policies defaultEffect)) =
     {statement_match p st | p st.
        p \<in> set policies \<and> st \<in> set (ep_statements p) \<and> matchesStatement st request}"
    unfolding evaluate_matched using matched_statements_iff [of _ request policies] by blast
qed (rule evaluate_decision_form)

definition plain_statement :: "string \<Rightarrow> decision_value \<Rightarrow> policy_statement" where
  "plain_statement sid d =
     \<lparr>st_id = sid, st_decision = d, st_actions = [''tool.call''], st_roles = None,
      st_target_types = None, st_target_ids = None, st_conditions = None, st_audit = Standard\<rparr>"

definition plain_policy :: "string \<Rightarrow> policy_statement list \<Rightarrow> effective_policy" where
  "plain_policy pid sts = \<lparr>ep_policyId = pid, ep_version = 1, ep_name = pid, ep_statements = sts\<rparr>"

definition plain_request :: decision_request where
  "plain_request =
     \<lparr>rq_actor_type = ConnectionA, rq_actor_id = Some ''conn_1'', rq_actor_role = None,
      rq_action = ''tool.call'', rq_target_type = AgentT, rq_target_id = Some ''agent_1'',
      rq_context = []\<rparr>"

lemmas plain_defs = plain_statement_def plain_policy_def plain_request_def

lemma plain_statement_matches: "matchesStatement (plain_statement sid d) plain_request"
  by (simp add: plain_defs matchesStatement_def restricted_to_def matchesConditions_def)

text \<open>
  The decision depends on the set of effective policies only: reordering them or listing
  one twice (the order and multiplicity a SQL join returns rows in) never changes it.
\<close>

theorem evaluate_order_independent:
  assumes "set policies = set policies'"
  shows "dr_decision (evaluatePolicyDecision request policies de) =
         dr_decision (evaluatePolicyDecision request policies' de)"
  unfolding evaluate_decision_form some_match_set [OF assms] by (rule refl)

theorem evaluate_order_independent_witness:
  "set [plain_policy ''a'' [plain_statement ''s'' Allow], plain_policy ''b'' [plain_statement ''t'' Deny]] =
   set [plain_policy ''b'' [plain_statement ''t'' Deny], plain_policy ''a'' [plain_statement ''s'' Allow]] \<and>
   dr_decision (evaluatePolicyDecision plain_request
     [plain_policy ''a'' [plain_statement ''s'' Allow], plain_policy ''b'' [plain_statement ''t'' Deny]] None) = Deny \<and>
   dr_decision (evaluatePolicyDecision plain_request
     [plain_policy ''b'' [plain_statement ''t'' Deny], plain_policy ''a'' [plain_statement ''s'' Allow]] None) = Deny"
  (is "?same \<and> ?one \<and> ?two")
proof -
  have same: ?same by auto
  have one: ?one
    unfolding evaluate_decision_form
    by (simp add: some_match_def plain_statement_matches plain_policy_def) (simp add: plain_defs)
  have two: ?two
    using evaluate_order_independent [OF same, of plain_request None] one by (rule subst)
  from same one two show ?thesis by blast
qed

text \<open>
  Adding policies never relaxes a decision some policy already matched: the severity of
  the combined evaluation is at least that of each part.
\<close>

theorem evaluate_monotone:
  assumes "some_match request policies (\<lambda>_. True)"
  shows "severity (dr_decision (evaluatePolicyDecision request policies de)) \<le>
         severity (dr_decision (evaluatePolicyDecision request (before @ policies @ after) de))"
proof -
  have "some_match request policies P \<Longrightarrow> some_match request (before @ policies @ after) P" for P
    by (auto simp: some_match_def)
  with assms show ?thesis by (simp add: evaluate_decision_form)
qed

theorem evaluate_monotone_witness:
  "some_match plain_request [plain_policy ''b'' [plain_statement ''t'' ApprovalRequired]] (\<lambda>_. True) \<and>
   severity (dr_decision (evaluatePolicyDecision plain_request
     [plain_policy ''b'' [plain_statement ''t'' ApprovalRequired]] None)) \<le>
   severity (dr_decision (evaluatePolicyDecision plain_request
     ([plain_policy ''a'' [plain_statement ''s'' Allow]] @
      [plain_policy ''b'' [plain_statement ''t'' ApprovalRequired]] @ []) None))"
  (is "?m \<and> ?le")
proof -
  have m: ?m by (simp add: some_match_def plain_policy_def plain_statement_matches)
  have le: ?le by (rule evaluate_monotone [OF m])
  from m le show ?thesis by blast
qed

text \<open>A bounded payment condition, and a context it matches.\<close>

definition bounded_condition :: payment_condition where
  "bounded_condition =
     \<lparr>pc_minAmount = Some ''0.1'', pc_maxAmount = Some ''100'', pc_assets = Some [''USDC''],
      pc_networks = None, pc_recipients = Some []\<rparr>"

definition payment_context :: obj where
  "payment_context = [(''payment'', VObj [(''amount'', VStr ''100''), (''asset'', VStr ''USDC'')])]"

lemma bounded_condition_matches: "matchesPaymentCondition bounded_condition payment_context"
  by (simp add: matchesPaymentCondition_def bounded_condition_def payment_context_def objectAt_def
      as_object_def numberAt_def finite_or_null_def stringAt_def includesIfPresent_def
      withinMin_def withinMax_def to_number_100 to_number_tenth trim_def is_space_def code_def)

end
