(* ===== verification/Store.thy ===== *)
theory Store
  imports PolicyDecision
begin

text \<open>
  The state every engine shares and the outside world it calls.

  \<^item> \<open>env\<close> holds code that is not part of the repository, as parameters: the SHA-256 digest and
    the random UUIDs and the random bytes (as base64url
    text) of node:crypto, whether \<open>NODE_ENV\<close> is production, ICU's \<open>localeCompare\<close>, PostgreSQL's text collation and
    the WHATWG URL parser.
  \<^item> \<open>base_db\<close> is the root of the database record. Each engine extends it with its own
    tables, so an operation on a table works unchanged on every larger database.
  \<^item> Time is one instant per operation: \<open>clock\<close> is what \<open>now()\<close> and \<open>Date.now()\<close>
    read, in milliseconds; it moves between operations.
\<close>

record env =
  env_sha256 :: "string \<Rightarrow> string"
  env_localeCompare :: "string \<Rightarrow> string \<Rightarrow> int"
  env_collate :: "string \<Rightarrow> string \<Rightarrow> int"
  env_uuid :: "nat \<Rightarrow> string"
  env_secret :: "nat \<Rightarrow> string"
  env_production :: bool
  env_hostname :: "string \<Rightarrow> string option"

record org_row =
  org_id :: string
  org_display_name :: string
  org_slug :: string
  org_default_team_id :: "string option"
  org_settings :: obj
  org_active :: bool
  org_created_at :: int
  org_updated_at :: int
  org_default_policy_effect :: default_effect
  org_frozen :: bool

record base_db =
  clock :: int
  uuids :: nat
  orgs :: "org_row list"

text \<open>\<open>prefixedId\<close> of \<open>identity/ids.ts\<close>: each call draws the next UUID.\<close>

definition prefixedId :: "env \<Rightarrow> string \<Rightarrow> ('a base_db_scheme, string) op" where
  "prefixedId E prefix s = (Inr (prefix @ ''_'' @ env_uuid E (uuids s)), s\<lparr>uuids := Suc (uuids s)\<rparr>)"

definition now :: "('a base_db_scheme, int) op" where
  "now = query clock"

definition find_org :: "string \<Rightarrow> ('a base_db_scheme) \<Rightarrow> org_row option" where
  "find_org oid s = find_row (\<lambda>o'. org_id o' = oid) (orgs s)"

text \<open>A predicate that does not look at the id supply survives drawing an id.\<close>

lemma preserves_prefixedId [preserve_intros]:
  "(\<And>s n. I s \<Longrightarrow> I (s\<lparr>uuids := n\<rparr>)) \<Longrightarrow> preserves I (prefixedId E prefix)"
  by (simp add: preserves_def prefixedId_def)

lemma preserves_now [preserve_intros]: "preserves I now"
  unfolding now_def by (rule preserve_intros)

lemma prefixedId_Inr [simp]:
  "prefixedId E prefix s = (Inr i, s') \<longleftrightarrow>
     i = prefix @ ''_'' @ env_uuid E (uuids s) \<and> s' = s\<lparr>uuids := Suc (uuids s)\<rparr>"
  by (auto simp: prefixedId_def)

lemma now_Inr [simp]: "now s = (Inr t, s') \<longleftrightarrow> t = clock s \<and> s' = s"
  by (simp add: now_def)

lemma wp_prefixedId [wp_simps]:
  "wp (prefixedId E prefix) Q =
     (\<lambda>s. Q (prefix @ ''_'' @ env_uuid E (uuids s)) (s\<lparr>uuids := Suc (uuids s)\<rparr>))"
  by (rule ext) (simp add: wp_def)

lemma wp_now [wp_simps]: "wp now Q = (\<lambda>s. Q (clock s) s)"
  by (rule ext) (simp add: wp_def)

end
