(* ===== verification/CanonicalJson.thy ===== *)
theory CanonicalJson
  imports JsValue "HOL-Library.Multiset"
begin

text \<open>
  Canonical JSON, \<open>apps/api/src/engines/evidence/canonical-json.ts\<close>. The collation
  \<open>localeCompare\<close> (ICU) and the SHA-256 digest (node:crypto) are parameters. The lemmas show
  that the encoding does not depend on the order of object properties, at any depth, when the
  collation tells the keys of each object apart, and that string literals are uniquely decodable.
\<close>

section \<open>Sorting with a comparison function\<close>

text \<open>
  \<open>Array.prototype.sort\<close> is stable: an element goes before the first later element it does
  not exceed.
\<close>

fun insert_by :: "('a \<Rightarrow> 'a \<Rightarrow> int) \<Rightarrow> 'a \<Rightarrow> 'a list \<Rightarrow> 'a list" where
  "insert_by cmp x [] = [x]"
| "insert_by cmp x (y # ys) = (if cmp x y \<le> 0 then x # y # ys else y # insert_by cmp x ys)"

definition sort_by :: "('a \<Rightarrow> 'a \<Rightarrow> int) \<Rightarrow> 'a list \<Rightarrow> 'a list" where
  "sort_by cmp xs = foldr (insert_by cmp) xs []"

text \<open>A collation that tells any two of the given keys apart.\<close>

definition linear_on :: "'a set \<Rightarrow> ('a \<Rightarrow> 'a \<Rightarrow> int) \<Rightarrow> bool" where
  "linear_on A cmp \<longleftrightarrow>
     (\<forall>x \<in> A. \<forall>y \<in> A. (cmp x y \<le> 0 \<or> cmp y x \<le> 0) \<and> (cmp x y \<le> 0 \<longrightarrow> cmp y x \<le> 0 \<longrightarrow> x = y)) \<and>
     (\<forall>x \<in> A. \<forall>y \<in> A. \<forall>z \<in> A. cmp x y \<le> 0 \<longrightarrow> cmp y z \<le> 0 \<longrightarrow> cmp x z \<le> 0)"

lemma linear_on_subset: "linear_on B cmp \<Longrightarrow> A \<subseteq> B \<Longrightarrow> linear_on A cmp"
  unfolding linear_on_def by (meson subsetD)

lemma linear_on_total: "linear_on A cmp \<Longrightarrow> x \<in> A \<Longrightarrow> y \<in> A \<Longrightarrow> \<not> cmp x y \<le> 0 \<Longrightarrow> cmp y x \<le> 0"
  unfolding linear_on_def by blast

lemma linear_on_antisym:
  "linear_on A cmp \<Longrightarrow> x \<in> A \<Longrightarrow> y \<in> A \<Longrightarrow> cmp x y \<le> 0 \<Longrightarrow> cmp y x \<le> 0 \<Longrightarrow> x = y"
  unfolding linear_on_def by blast

lemma linear_on_trans:
  "linear_on A cmp \<Longrightarrow> x \<in> A \<Longrightarrow> y \<in> A \<Longrightarrow> z \<in> A \<Longrightarrow> cmp x y \<le> 0 \<Longrightarrow> cmp y z \<le> 0 \<Longrightarrow> cmp x z \<le> 0"
  unfolding linear_on_def by blast

lemma mset_insert_by [simp]: "mset (insert_by cmp x ys) = add_mset x (mset ys)"
  by (induction ys) auto

lemma set_insert_by [simp]: "set (insert_by cmp x ys) = insert x (set ys)"
  by (induction ys) auto

lemma mset_sort_by [simp]: "mset (sort_by cmp xs) = mset xs"
  by (induction xs) (auto simp: sort_by_def)

lemma set_sort_by [simp]: "set (sort_by cmp xs) = set xs"
  by (metis mset_sort_by set_mset_mset)

abbreviation keys_of :: "(string \<times> 'b) list \<Rightarrow> string set" where
  "keys_of xs \<equiv> fst ` set xs"

definition by_key :: "(string \<Rightarrow> string \<Rightarrow> int) \<Rightarrow> string \<times> 'b \<Rightarrow> string \<times> 'b \<Rightarrow> int" where
  "by_key cmp p q = cmp (fst p) (fst q)"

lemma sorted_insert_by:
  assumes "linear_on (insert (fst x) (keys_of ys)) cmp"
    and "sorted_wrt (\<lambda>p q. cmp (fst p) (fst q) \<le> 0) ys"
  shows "sorted_wrt (\<lambda>p q. cmp (fst p) (fst q) \<le> 0) (insert_by (by_key cmp) x ys)"
  using assms
proof (induction ys)
  case Nil
  then show ?case by simp
next
  case (Cons y ys)
  show ?case
  proof (cases "cmp (fst x) (fst y) \<le> 0")
    case True
    have "cmp (fst x) (fst z) \<le> 0" if "z \<in> set ys" for z
    proof -
      from Cons.prems(2) that have "cmp (fst y) (fst z) \<le> 0" by simp
      with True that show ?thesis
        by (intro linear_on_trans [OF Cons.prems(1), of "fst x" "fst y" "fst z"]) simp_all
    qed
    with True Cons.prems(2) show ?thesis by (simp add: by_key_def)
  next
    case False
    have lin: "linear_on (insert (fst x) (keys_of ys)) cmp"
      by (rule linear_on_subset [OF Cons.prems(1)]) auto
    from False have yx: "cmp (fst y) (fst x) \<le> 0"
      by (intro linear_on_total [OF Cons.prems(1), of "fst x" "fst y"]) simp_all
    with yx Cons.prems(2) Cons.IH [OF lin] False show ?thesis by (simp add: by_key_def)
  qed
qed

lemma sorted_sort_by:
  "linear_on (keys_of xs) cmp \<Longrightarrow> sorted_wrt (\<lambda>p q. cmp (fst p) (fst q) \<le> 0) (sort_by (by_key cmp) xs)"
proof (induction xs)
  case Nil
  then show ?case by (simp add: sort_by_def)
next
  case (Cons x xs)
  have "linear_on (keys_of xs) cmp"
    by (rule linear_on_subset [OF Cons.prems]) auto
  with Cons.IH have "sorted_wrt (\<lambda>p q. cmp (fst p) (fst q) \<le> 0) (sort_by (by_key cmp) xs)" by simp
  then have "sorted_wrt (\<lambda>p q. cmp (fst p) (fst q) \<le> 0) (insert_by (by_key cmp) x (sort_by (by_key cmp) xs))"
    using Cons.prems by (intro sorted_insert_by) simp_all
  then show ?case by (simp add: sort_by_def)
qed

lemma sorted_keyed_unique:
  assumes "linear_on (keys_of xs) cmp" and "distinct (map fst xs)" and "mset xs = mset ys"
    and "sorted_wrt (\<lambda>p q. cmp (fst p) (fst q) \<le> 0) xs"
    and "sorted_wrt (\<lambda>p q. cmp (fst p) (fst q) \<le> 0) ys"
  shows "xs = ys"
  using assms
proof (induction xs arbitrary: ys)
  case Nil
  then show ?case by simp
next
  case (Cons x xs)
  then obtain y ys' where ys: "ys = y # ys'" by (metis list.exhaust mset.simps(1) mset_eq_setD set_empty)
  have sets: "set (x # xs) = set ys" using Cons.prems(3) by (metis mset_eq_setD)
  have "fst x = fst y"
  proof (rule ccontr)
    assume neq: "fst x \<noteq> fst y"
    with sets ys have "x \<in> set ys'" and "y \<in> set xs" by auto
    with Cons.prems(4,5) ys have "cmp (fst x) (fst y) \<le> 0" and "cmp (fst y) (fst x) \<le> 0" by auto
    moreover have "fst y \<in> keys_of (x # xs)" using sets ys by (metis image_eqI list.set_intros(1))
    ultimately have "fst x = fst y"
      by (intro linear_on_antisym [OF Cons.prems(1), of "fst x" "fst y"]) simp_all
    with neq show False by simp
  qed
  with sets ys Cons.prems(2) have "x = y" by (auto simp: image_iff)
  moreover have "linear_on (keys_of xs) cmp"
    by (rule linear_on_subset [OF Cons.prems(1)]) auto
  ultimately show ?case using Cons ys by auto
qed

lemma sort_by_key_perm:
  assumes "linear_on (keys_of xs) cmp" and "distinct (map fst xs)" and "mset xs = mset ys"
  shows "sort_by (by_key cmp) xs = sort_by (by_key cmp) ys"
proof (rule sorted_keyed_unique)
  have sets: "set xs = set ys" using assms(3) by (metis mset_eq_setD)
  show "linear_on (keys_of (sort_by (by_key cmp) xs)) cmp" using assms(1) by simp
  show "distinct (map fst (sort_by (by_key cmp) xs))"
    using assms(2) by (metis mset_map mset_sort_by mset_eq_imp_distinct_iff)
  show "mset (sort_by (by_key cmp) xs) = mset (sort_by (by_key cmp) ys)" using assms(3) by simp
  show "sorted_wrt (\<lambda>p q. cmp (fst p) (fst q) \<le> 0) (sort_by (by_key cmp) xs)"
    by (rule sorted_sort_by [OF assms(1)])
  show "sorted_wrt (\<lambda>p q. cmp (fst p) (fst q) \<le> 0) (sort_by (by_key cmp) ys)"
    by (rule sorted_sort_by) (use assms(1) sets in simp)
qed

section \<open>The encoder\<close>

text \<open>
  \<open>encodeCanonical\<close> returns \<open>None\<close> where the code throws \<open>unsupported_audit_value\<close>. The
  encoder sorts the keys and encodes each value; encoding the entries first and sorting the
  pairs by key is the same, since an object has each key once.
\<close>

definition encode_entry :: "string \<times> string \<Rightarrow> string" where
  "encode_entry kv = json_string (fst kv) @ '':'' @ snd kv"

fun encodeCanonical :: "(string \<Rightarrow> string \<Rightarrow> int) \<Rightarrow> jsval \<Rightarrow> string option"
  and encode_items :: "(string \<Rightarrow> string \<Rightarrow> int) \<Rightarrow> jsval list \<Rightarrow> string list option"
  and encode_fields :: "(string \<Rightarrow> string \<Rightarrow> int) \<Rightarrow> obj \<Rightarrow> (string \<times> string) list option" where
  "encodeCanonical lc VNull = Some ''null''"
| "encodeCanonical lc (VStr s) = Some (json_string s)"
| "encodeCanonical lc (VNum x) = (if isFinite x then Some (show_num x) else None)"
| "encodeCanonical lc (VBool b) = Some (if b then ''true'' else ''false'')"
| "encodeCanonical lc VUndef = None"
| "encodeCanonical lc VOpaque = None"
| "encodeCanonical lc (VDate t) = Some (json_string (toISOString t))"
| "encodeCanonical lc (VArr vs) =
     map_option (\<lambda>es. ''['' @ join '','' es @ '']'') (encode_items lc vs)"
| "encodeCanonical lc (VInst o') = None"
| "encodeCanonical lc (VObj o') =
     map_option (\<lambda>es. ''{'' @ join '','' (map encode_entry (sort_by (by_key lc) es)) @ ''}'')
       (encode_fields lc o')"
| "encode_items lc [] = Some []"
| "encode_items lc (v # vs) =
     (case encodeCanonical lc v of
        None \<Rightarrow> None
      | Some e \<Rightarrow> map_option (\<lambda>es. e # es) (encode_items lc vs))"
| "encode_fields lc [] = Some []"
| "encode_fields lc ((k, v) # o') =
     (case encodeCanonical lc v of
        None \<Rightarrow> None
      | Some e \<Rightarrow> map_option (\<lambda>es. (k, e) # es) (encode_fields lc o'))"

definition canonicalJson :: "(string \<Rightarrow> string \<Rightarrow> int) \<Rightarrow> jsval \<Rightarrow> app_error + string" where
  "canonicalJson lc v =
     (case encodeCanonical lc v of
        None \<Rightarrow> Inl (JsError ''unsupported_audit_value'')
      | Some s \<Rightarrow> Inr s)"

definition sha256Hex ::
  "(string \<Rightarrow> string) \<Rightarrow> (string \<Rightarrow> string \<Rightarrow> int) \<Rightarrow> jsval \<Rightarrow> app_error + string" where
  "sha256Hex sha lc v =
     (case v of
        VStr s \<Rightarrow> Inr (sha s)
      | _ \<Rightarrow> (case canonicalJson lc v of Inl e \<Rightarrow> Inl e | Inr body \<Rightarrow> Inr (sha body)))"

section \<open>Independence of the property order\<close>

text \<open>Values that differ in the order of object properties only, at any depth.\<close>

inductive same_json :: "jsval \<Rightarrow> jsval \<Rightarrow> bool" where
  same: "same_json v v"
| arr: "list_all2 same_json vs ws \<Longrightarrow> same_json (VArr vs) (VArr ws)"
| obj: "list_all2 (\<lambda>p q. fst p = fst q \<and> same_json (snd p) (snd q)) o1 o2 \<Longrightarrow>
        mset o2 = mset o3 \<Longrightarrow> distinct (map fst o1) \<Longrightarrow> same_json (VObj o1) (VObj o3)"

text \<open>
  What \<open>Array.prototype.sort\<close> asks of a comparison, and \<open>localeCompare\<close> gives: it is antisymmetric in
  its sign and transitive. It need not tell different texts apart: \<open>localeCompare\<close> answers 0 for texts
  that are canonically equivalent.
\<close>

definition consistent_cmp :: "(string \<Rightarrow> string \<Rightarrow> int) \<Rightarrow> bool" where
  "consistent_cmp lc \<longleftrightarrow>
     (\<forall>x y. sgn (lc x y) = - sgn (lc y x)) \<and> (\<forall>x y z. lc x y \<le> 0 \<longrightarrow> lc y z \<le> 0 \<longrightarrow> lc x z \<le> 0)"

text \<open>No object, at any depth, has two different keys that compare as equal.\<close>

fun separated :: "(string \<Rightarrow> string \<Rightarrow> int) \<Rightarrow> jsval \<Rightarrow> bool"
  and separated_items :: "(string \<Rightarrow> string \<Rightarrow> int) \<Rightarrow> jsval list \<Rightarrow> bool"
  and separated_fields :: "(string \<Rightarrow> string \<Rightarrow> int) \<Rightarrow> obj \<Rightarrow> bool" where
  "separated lc (VArr vs) = separated_items lc vs"
| "separated lc (VObj o') \<longleftrightarrow>
     list_all (\<lambda>k. list_all (\<lambda>k'. k = k' \<or> lc k k' \<noteq> 0) (map fst o')) (map fst o') \<and> separated_fields lc o'"
| "separated lc _ = True"
| "separated_items lc [] = True"
| "separated_items lc (v # vs) \<longleftrightarrow> separated lc v \<and> separated_items lc vs"
| "separated_fields lc [] = True"
| "separated_fields lc ((k, v) # o') \<longleftrightarrow> separated lc v \<and> separated_fields lc o'"

lemma consistent_linear:
  assumes "consistent_cmp lc" and "\<And>k k'. k \<in> A \<Longrightarrow> k' \<in> A \<Longrightarrow> k = k' \<or> lc k k' \<noteq> 0"
  shows "linear_on A lc"
proof -
  have sign: "sgn (lc x y) = - sgn (lc y x)" for x y using assms(1) unfolding consistent_cmp_def by blast
  have total: "lc x y \<le> 0 \<or> lc y x \<le> 0" for x y using sign [of x y] by (auto simp: sgn_if split: if_splits)
  have zero: "lc x y = 0" if "lc x y \<le> 0" "lc y x \<le> 0" for x y using sign [of x y] that by (auto simp: sgn_if split: if_splits)
  have trans: "lc x y \<le> 0 \<Longrightarrow> lc y z \<le> 0 \<Longrightarrow> lc x z \<le> 0" for x y z using assms(1) unfolding consistent_cmp_def by blast
  show ?thesis unfolding linear_on_def
  proof (intro conjI ballI impI)
    show "x = y" if "x \<in> A" "y \<in> A" "lc x y \<le> 0" "lc y x \<le> 0" for x y
      using assms(2) [OF that(1,2)] zero [OF that(3,4)] by simp
  qed (use total trans in blast)+
qed

lemma encode_items_cong:
  "list_all2 (\<lambda>v w. encodeCanonical lc v = encodeCanonical lc w) vs ws \<Longrightarrow>
     encode_items lc vs = encode_items lc ws"
  by (induction rule: list_all2_induct) (auto split: option.splits)

lemma encode_fields_cong:
  "list_all2 (\<lambda>p q. fst p = fst q \<and> encodeCanonical lc (snd p) = encodeCanonical lc (snd q)) o1 o2 \<Longrightarrow>
     encode_fields lc o1 = encode_fields lc o2"
  by (induction rule: list_all2_induct) (auto split: option.splits)

lemma encode_fields_map:
  "encode_fields lc o' =
     (if (\<forall>p \<in> set o'. encodeCanonical lc (snd p) \<noteq> None)
      then Some (map (\<lambda>p. (fst p, the (encodeCanonical lc (snd p)))) o') else None)"
proof (induction o')
  case Nil
  then show ?case by simp
next
  case (Cons p o')
  then show ?case by (cases p; cases "encodeCanonical lc (snd p)") auto
qed

lemma list_all2_fst: "list_all2 (\<lambda>p q. fst p = fst q \<and> R p q) xs ys \<Longrightarrow> map fst xs = map fst ys"
  by (induction rule: list_all2_induct) auto

lemma encode_obj_perm:
  assumes "mset o2 = mset o3" and "distinct (map fst o2)" and "linear_on (keys_of o2) lc"
  shows "encodeCanonical lc (VObj o2) = encodeCanonical lc (VObj o3)"
proof (cases "\<forall>p \<in> set o2. encodeCanonical lc (snd p) \<noteq> None")
  case True
  let ?f = "\<lambda>p. (fst p, the (encodeCanonical lc (snd p)))"
  have sets: "set o2 = set o3" using assms(1) by (metis mset_eq_setD)
  have "sort_by (by_key lc) (map ?f o2) = sort_by (by_key lc) (map ?f o3)"
  proof (rule sort_by_key_perm)
    show "linear_on (keys_of (map ?f o2)) lc" using assms(3) by (simp add: image_image)
    show "distinct (map fst (map ?f o2))" using assms(2) by (simp add: comp_def)
    show "mset (map ?f o2) = mset (map ?f o3)" using assms(1) by simp
  qed
  with True sets show ?thesis by (simp add: encode_fields_map)
next
  case False
  have "set o2 = set o3" using assms(1) by (metis mset_eq_setD)
  then have "encode_fields lc o2 = None" and "encode_fields lc o3 = None"
    using False unfolding encode_fields_map by metis+
  then show ?thesis by simp
qed

lemma separated_items_all: "separated_items lc vs \<longleftrightarrow> (\<forall>v \<in> set vs. separated lc v)"
  by (induction vs) auto

lemma separated_fields_all: "separated_fields lc o' \<longleftrightarrow> (\<forall>p \<in> set o'. separated lc (snd p))"
  by (induction o') auto

lemma list_all2_restrict:
  "list_all2 (\<lambda>v w. P v \<longrightarrow> R v w) vs ws \<Longrightarrow> \<forall>v \<in> set vs. P v \<Longrightarrow> list_all2 R vs ws"
  by (induction rule: list_all2_induct) auto

lemma encode_same_json:
  assumes "same_json v w" and "consistent_cmp lc"
  shows "separated lc v \<longrightarrow> encodeCanonical lc v = encodeCanonical lc w"
  using assms(1)
proof (induction rule: same_json.induct)
  case (same v)
  then show ?case by simp
next
  case (arr vs ws)
  show ?case
  proof
    assume "separated lc (VArr vs)"
    then have sep: "\<forall>v \<in> set vs. separated lc v" by (simp add: separated_items_all)
    have "list_all2 (\<lambda>v w. separated lc v \<longrightarrow> encodeCanonical lc v = encodeCanonical lc w) vs ws"
      by (rule list_all2_mono [OF arr]) simp
    from list_all2_restrict [OF this sep] have "encode_items lc vs = encode_items lc ws"
      by (rule encode_items_cong)
    then show "encodeCanonical lc (VArr vs) = encodeCanonical lc (VArr ws)" by simp
  qed
next
  case (obj o1 o2 o3)
  show ?case
  proof
    assume sep: "separated lc (VObj o1)"
    have fsts: "map fst o1 = map fst o2"
      by (rule list_all2_fst [OF obj(1)])
    have sub: "\<forall>p \<in> set o1. separated lc (snd p)" using sep by (simp add: separated_fields_all)
    have "list_all2 (\<lambda>p q. separated lc (snd p) \<longrightarrow>
        fst p = fst q \<and> encodeCanonical lc (snd p) = encodeCanonical lc (snd q)) o1 o2"
      by (rule list_all2_mono [OF obj(1)]) simp
    from list_all2_restrict [OF this sub] have "encode_fields lc o1 = encode_fields lc o2"
      by (rule encode_fields_cong)
    then have "encodeCanonical lc (VObj o1) = encodeCanonical lc (VObj o2)" by simp
    also have "\<dots> = encodeCanonical lc (VObj o3)"
    proof (rule encode_obj_perm [OF obj(2)])
      show "distinct (map fst o2)" using obj(3) fsts by simp
      have "keys_of o2 = keys_of o1" using fsts by (metis set_map)
      then show "linear_on (keys_of o2) lc"
        using sep by (intro consistent_linear [OF assms(2)]) (auto simp: list_all_iff)
    qed
    finally show "encodeCanonical lc (VObj o1) = encodeCanonical lc (VObj o3)" .
  qed
qed

text \<open>
  C29. Canonical JSON, and with it every digest over it, ignores the order in which object
  properties were written, at any depth, for every collation that compares consistently, provided no
  object has two different keys the collation calls equal. Without the proviso it does not: then the
  order of writing shows (\<open>canonicalJson_order_shows\<close>).
\<close>

theorem canonicalJson_order_independent:
  assumes "same_json v w" and "consistent_cmp lc" and "separated lc v"
  shows "canonicalJson lc v = canonicalJson lc w"
  using encode_same_json [OF assms(1,2)] assms(3) by (simp add: canonicalJson_def)

text \<open>An order of texts by the codes of their characters.\<close>

fun code_order :: "string \<Rightarrow> string \<Rightarrow> int" where
  "code_order [] [] = 0"
| "code_order [] (d # ds) = - 1"
| "code_order (c # cs) [] = 1"
| "code_order (c # cs) (d # ds) = (if c = d then code_order cs ds else int (code c) - int (code d))"

lemma code_order_consistent: "consistent_cmp code_order"
proof -
  have inj: "c = d" if "code c = code d" for c d using that by (simp add: code_def)
  have sign: "sgn (code_order x y) = - sgn (code_order y x)" for x y
    by (induction x y rule: code_order.induct) (auto simp: sgn_if dest: inj split: if_splits)
  have "code_order x z \<le> 0" if "code_order x y \<le> 0" "code_order y z \<le> 0" for x y z
    using that
  proof (induction x y arbitrary: z rule: code_order.induct)
    case (4 c cs d ds)
    then show ?case by (cases z) (auto split: if_splits dest: inj)
  qed (case_tac [!] z, auto)
  with sign show ?thesis unfolding consistent_cmp_def by blast
qed

definition first_code :: "string \<Rightarrow> string \<Rightarrow> int" where
  "first_code s t = (case (s, t) of (c # _, d # _) \<Rightarrow> int (code c) - int (code d) | _ \<Rightarrow> 0)"

theorem canonicalJson_order_independent_witness:
  "same_json (VObj [(''b'', VNull), (''a'', VArr [VObj [(''x'', VBool True), (''y'', VNull)]])])
             (VObj [(''a'', VArr [VObj [(''y'', VNull), (''x'', VBool True)]]), (''b'', VNull)]) \<and>
   consistent_cmp code_order \<and>
   separated code_order (VObj [(''b'', VNull), (''a'', VArr [VObj [(''x'', VBool True), (''y'', VNull)]])]) \<and>
   canonicalJson code_order
     (VObj [(''b'', VNull), (''a'', VArr [VObj [(''x'', VBool True), (''y'', VNull)]])]) =
   canonicalJson code_order
     (VObj [(''a'', VArr [VObj [(''y'', VNull), (''x'', VBool True)]]), (''b'', VNull)])"
  (is "same_json ?v ?w \<and> _")
proof -
  have inner: "same_json (VObj [(''x'', VBool True), (''y'', VNull)]) (VObj [(''y'', VNull), (''x'', VBool True)])"
    by (rule same_json.obj [of _ "[(''x'', VBool True), (''y'', VNull)]"]) (auto intro: same_json.same)
  have outer: "same_json ?v ?w"
    by (rule same_json.obj [of _ "[(''b'', VNull), (''a'', VArr [VObj [(''y'', VNull), (''x'', VBool True)]])]"])
       (auto intro!: same_json.same same_json.arr inner)
  have sep: "separated code_order ?v" by (simp add: code_def)
  from canonicalJson_order_independent [OF outer code_order_consistent sep] outer code_order_consistent sep
  show ?thesis by blast
qed

text \<open>A collation that calls two keys equal lets the order of writing through: the sort is stable.\<close>

lemma canonicalJson_order_shows:
  "consistent_cmp (\<lambda>_ _. 0) \<and> same_json (VObj [(''a'', VNull), (''b'', VNull)]) (VObj [(''b'', VNull), (''a'', VNull)]) \<and>
   canonicalJson (\<lambda>_ _. 0) (VObj [(''a'', VNull), (''b'', VNull)]) \<noteq> canonicalJson (\<lambda>_ _. 0) (VObj [(''b'', VNull), (''a'', VNull)])"
proof (intro conjI)
  show "same_json (VObj [(''a'', VNull), (''b'', VNull)]) (VObj [(''b'', VNull), (''a'', VNull)])"
    by (rule same_json.obj [of _ "[(''a'', VNull), (''b'', VNull)]"]) (auto intro: same_json.same)
  show "canonicalJson (\<lambda>_ _. 0) (VObj [(''a'', VNull), (''b'', VNull)]) \<noteq> canonicalJson (\<lambda>_ _. 0) (VObj [(''b'', VNull), (''a'', VNull)])"
    by code_simp
qed (simp add: consistent_cmp_def)

section \<open>String literals are uniquely decodable\<close>

lemma hex_char_inj: "m < 16 \<Longrightarrow> n < 16 \<Longrightarrow> hex_char m = hex_char n \<Longrightarrow> m = n"
  by (auto simp: hex_char_def digit_char_def split: if_splits dest: arg_cong [where f = "of_char :: char \<Rightarrow> nat"])

lemma code_inj: "code c = code d \<longleftrightarrow> c = d"
  by (simp add: code_def)

lemma code_char_of [simp]: "n < 256 \<Longrightarrow> code (char_of n) = n"
  by (simp add: code_def)

abbreviation backslash :: char where
  "backslash \<equiv> CHR 0x5C"

text \<open>The letter after the backslash in a two-character escape.\<close>

definition short_escape :: "char \<Rightarrow> char option" where
  "short_escape c =
     (if code c = 34 then Some (CHR 0x22)
      else if code c = 92 then Some (CHR 0x5C)
      else if code c = 8 then Some CHR ''b''
      else if code c = 9 then Some CHR ''t''
      else if code c = 10 then Some CHR ''n''
      else if code c = 12 then Some CHR ''f''
      else if code c = 13 then Some CHR ''r'' else None)"

lemma escape_char_alt:
  "escape_char c =
     (case short_escape c of
        Some e \<Rightarrow> [backslash, e]
      | None \<Rightarrow> if code c < 32
                then backslash # ''u00'' @ [hex_char (code c div 16), hex_char (code c mod 16)]
                else [c])"
  by (simp add: escape_char_def short_escape_def)

lemma short_escape_not_u: "short_escape c = Some e \<Longrightarrow> e \<noteq> CHR ''u''"
  by (auto simp: short_escape_def split: if_splits)

lemma short_escape_inj: "short_escape c = Some e \<Longrightarrow> short_escape d = Some e \<Longrightarrow> c = d"
  by (auto simp: short_escape_def split: if_splits) (metis code_inj)+

lemma short_escape_backslash: "code c = 92 \<Longrightarrow> short_escape c \<noteq> None"
  by (simp add: short_escape_def)

lemma hex_pair_inj:
  assumes "code c < 32" and "code d < 32"
    and "hex_char (code c div 16) = hex_char (code d div 16)"
    and "hex_char (code c mod 16) = hex_char (code d mod 16)"
  shows "c = d"
proof -
  have "code c div 16 = code d div 16" by (rule hex_char_inj) (use assms in auto)
  moreover have "code c mod 16 = code d mod 16" by (rule hex_char_inj) (use assms in auto)
  ultimately show ?thesis by (metis code_inj div_mult_mod_eq)
qed

lemma escape_char_prefix_free:
  assumes "escape_char c @ x = escape_char d @ y"
  shows "c = d \<and> x = y"
proof (cases "short_escape c")
  case (Some e)
  then show ?thesis
    using assms short_escape_not_u [of c e] short_escape_inj [of c e d] short_escape_backslash [of d]
    by (cases "short_escape d") (auto simp: escape_char_alt code_def split: if_splits)
next
  case None
  show ?thesis
  proof (cases "code c < 32")
    case True
    then show ?thesis
      using None assms short_escape_not_u [of d] short_escape_backslash [of d] hex_pair_inj [of c d]
      by (cases "short_escape d") (auto simp: escape_char_alt code_def split: if_splits)
  next
    case False
    then show ?thesis
      using None assms short_escape_backslash [of c]
      by (cases "short_escape d") (auto simp: escape_char_alt code_def split: if_splits)
  qed
qed

lemma escape_char_head: "\<exists>h t. escape_char c = h # t \<and> h \<noteq> CHR 0x22"
  by (auto simp: escape_char_def code_def split: if_splits)

lemma json_body_decode:
  "concat (map escape_char s) @ CHR 0x22 # x =
   concat (map escape_char t) @ CHR 0x22 # y \<Longrightarrow> s = t \<and> x = y"
proof (induction s arbitrary: t)
  case Nil
  show ?case
  proof (cases t)
    case Nil
    with Nil.prems show ?thesis by simp
  next
    case (Cons d t')
    with Nil.prems escape_char_head [of d] show ?thesis by auto
  qed
next
  case (Cons c s)
  show ?case
  proof (cases t)
    case Nil
    with Cons.prems escape_char_head [of c] show ?thesis by auto
  next
    case t: (Cons d t')
    with Cons.prems have
      "escape_char c @ (concat (map escape_char s) @ CHR 0x22 # x) =
       escape_char d @ (concat (map escape_char t') @ CHR 0x22 # y)" by simp
    from escape_char_prefix_free [OF this] Cons.IH [of t'] t show ?thesis by simp
  qed
qed

lemma json_string_decode: "json_string s @ x = json_string t @ y \<Longrightarrow> s = t \<and> x = y"
  using json_body_decode [of s x t y] by (simp add: json_string_def)

lemma json_string_not_null: "json_string s @ x \<noteq> ''null'' @ y"
  by (simp add: json_string_def)

text \<open>A string or \<open>null\<close>, as the audit chain links encode.\<close>

definition encode_nullable :: "string option \<Rightarrow> string" where
  "encode_nullable x = (case x of None \<Rightarrow> ''null'' | Some s \<Rightarrow> json_string s)"

lemma encode_nullable_decode:
  "encode_nullable a @ x = encode_nullable b @ y \<Longrightarrow> a = b \<and> x = y"
  using json_string_decode [of "the a" x "the b" y] json_string_not_null [of "the a" x y]
    json_string_not_null [of "the b" y x]
  by (cases a; cases b) (auto simp: encode_nullable_def)

end
