(* ===== verification/Redaction.thy ===== *)
theory Redaction
  imports JsValue
begin

text \<open>
  Audit payload redaction, \<open>apps/api/src/engines/evidence/redaction.ts\<close>. The four regular
  expressions are modelled by what \<open>test\<close> decides: whether some word boundary starts a
  match. The lemmas show that a redacted payload carries no sensitive key or value at any
  depth, and that redaction is idempotent and changes nothing it does not report.
\<close>

definition REDACTED :: string where
  "REDACTED = ''[REDACTED]''"

definition sensitiveKeyFragments :: "string list" where
  "sensitiveKeyFragments =
     [''apikey'', ''authorization'', ''bearer'', ''circleapikey'', ''cookie'', ''credential'',
      ''password'', ''privatekey'', ''providerkey'', ''secret'', ''session'', ''signature'',
      ''token'', ''xpayment'']"

definition lower_alnum :: "char \<Rightarrow> bool" where
  "lower_alnum c \<longleftrightarrow> 97 \<le> code c \<and> code c \<le> 122 \<or> is_digit c"

definition normalizeKey :: "string \<Rightarrow> string" where
  "normalizeKey key = filter lower_alnum (toLowerCase key)"

definition isSensitiveKey :: "string \<Rightarrow> bool" where
  "isSensitiveKey key = list_ex (\<lambda>fragment. includes_text (normalizeKey key) fragment) sensitiveKeyFragments"

section \<open>Sensitive values\<close>

definition starts_with :: "string \<Rightarrow> string \<Rightarrow> bool" where
  "starts_with pre s \<longleftrightarrow> take (length pre) s = pre"

definition head_is :: "(char \<Rightarrow> bool) \<Rightarrow> string \<Rightarrow> bool" where
  "head_is p s = (case s of [] \<Rightarrow> False | c # _ \<Rightarrow> p c)"

definition is_word :: "char \<Rightarrow> bool" where
  "is_word c \<longleftrightarrow> lower_alnum (lower_char c) \<and> code c < 128 \<or> c = CHR ''_''"

text \<open>\<open>scan p prev s\<close>: a match of \<open>p\<close> starts at a word boundary of \<open>s\<close>; \<open>prev\<close> says
  whether the character before \<open>s\<close> is a word character. Every pattern starts with one.\<close>

fun scan :: "(string \<Rightarrow> bool) \<Rightarrow> bool \<Rightarrow> string \<Rightarrow> bool" where
  "scan p prev [] = False"
| "scan p prev (c # s) = (\<not> prev \<and> p (c # s) \<or> scan p (is_word c) s)"

definition bearer_at :: "string \<Rightarrow> bool" where
  "bearer_at s \<longleftrightarrow>
     starts_with ''bearer'' s \<and> head_is is_space (drop 6 s) \<and>
     head_is (\<lambda>c. lower_alnum c \<or> c \<in> set ''._~+/=-'') (dropWhile is_space (drop 6 s))"

definition sk_at :: "string \<Rightarrow> bool" where
  "sk_at s \<longleftrightarrow>
     list_ex (\<lambda>pre. starts_with pre s \<and> head_is (\<lambda>c. lower_alnum c \<or> c = CHR ''_'') (drop (length pre) s))
       [''sk_live_'', ''sk_test_'', ''sk_prod_'', ''sk_dev_'']"

definition sensitiveValuePatterns :: "(string \<Rightarrow> bool) list" where
  "sensitiveValuePatterns =
     [bearer_at, sk_at, starts_with ''agentops_session='', starts_with ''x402'']"

definition isSensitiveString :: "string \<Rightarrow> bool" where
  "isSensitiveString value = list_ex (\<lambda>pattern. scan pattern False (toLowerCase value)) sensitiveValuePatterns"

section \<open>Redaction\<close>

text \<open>
  \<open>redactValue v\<close> is the call without a parent key; \<open>redact_fields\<close> is the loop over
  \<open>Object.entries\<close>, which passes each key. The flag is the \<open>redacted\<close> result.
\<close>

fun redactValue :: "jsval \<Rightarrow> jsval \<times> bool"
  and redact_items :: "jsval list \<Rightarrow> jsval list \<times> bool"
  and redact_fields :: "obj \<Rightarrow> obj \<times> bool" where
  "redactValue (VStr s) = (if isSensitiveString s then (VStr REDACTED, True) else (VStr s, False))"
| "redactValue (VArr vs) = (let (ws, r) = redact_items vs in (VArr ws, r))"
| "redactValue (VObj o') = (let (p, r) = redact_fields o' in (VObj p, r))"
| "redactValue (VInst o') = (let (p, r) = redact_fields o' in (VObj p, r))"
| "redactValue VUndef = (VUndef, False)"
| "redactValue VNull = (VNull, False)"
| "redactValue (VBool b) = (VBool b, False)"
| "redactValue (VNum x) = (VNum x, False)"
| "redactValue (VDate t) = (VDate t, False)"
| "redactValue VOpaque = (VOpaque, False)"
| "redact_items [] = ([], False)"
| "redact_items (v # vs) =
     (fst (redactValue v) # fst (redact_items vs), snd (redactValue v) \<or> snd (redact_items vs))"
| "redact_fields [] = ([], False)"
| "redact_fields ((k, v) # o') =
     (if isSensitiveKey k then ((k, VStr REDACTED) # fst (redact_fields o'), True)
      else ((k, fst (redactValue v)) # fst (redact_fields o'),
            snd (redactValue v) \<or> snd (redact_fields o')))"

definition redactAuditPayload :: "jsval \<Rightarrow> jsval \<times> bool" where
  "redactAuditPayload value = redactValue value"

section \<open>What redaction guarantees\<close>

fun clean :: "jsval \<Rightarrow> bool"
  and clean_items :: "jsval list \<Rightarrow> bool"
  and clean_fields :: "obj \<Rightarrow> bool" where
  "clean (VStr s) = (\<not> isSensitiveString s)"
| "clean (VArr vs) = clean_items vs"
| "clean (VObj o') = clean_fields o'"
| "clean (VInst o') = clean_fields o'"
| "clean _ = True"
| "clean_items [] = True"
| "clean_items (v # vs) = (clean v \<and> clean_items vs)"
| "clean_fields [] = True"
| "clean_fields ((k, v) # o') =
     ((if isSensitiveKey k then v = VStr REDACTED else clean v) \<and> clean_fields o')"

text \<open>The value with every class instance turned into a plain object of the same entries.\<close>

fun plain :: "jsval \<Rightarrow> jsval"
  and plain_items :: "jsval list \<Rightarrow> jsval list"
  and plain_fields :: "obj \<Rightarrow> obj" where
  "plain (VArr vs) = VArr (plain_items vs)"
| "plain (VObj o') = VObj (plain_fields o')"
| "plain (VInst o') = VObj (plain_fields o')"
| "plain v = v"
| "plain_items [] = []"
| "plain_items (v # vs) = plain v # plain_items vs"
| "plain_fields [] = []"
| "plain_fields ((k, v) # o') = (k, plain v) # plain_fields o'"

lemma REDACTED_not_sensitive: "\<not> isSensitiveString REDACTED"
  by code_simp

lemma redact_clean:
  "clean (fst (redactValue v))" "clean_items (fst (redact_items vs))" "clean_fields (fst (redact_fields o'))"
  by (induction v and vs and o' rule: redactValue_redact_items_redact_fields.induct)
     (auto simp: REDACTED_not_sensitive case_prod_beta Let_def)

lemma redact_of_clean:
  "clean v \<Longrightarrow> fst (redactValue v) = plain v"
  "clean_items vs \<Longrightarrow> fst (redact_items vs) = plain_items vs"
  "clean_fields o' \<Longrightarrow> fst (redact_fields o') = plain_fields o'"
  by (induction v and vs and o' rule: redactValue_redact_items_redact_fields.induct)
     (auto simp: case_prod_beta Let_def split: if_splits)

lemma redact_plain:
  "plain (fst (redactValue v)) = fst (redactValue v)"
  "plain_items (fst (redact_items vs)) = fst (redact_items vs)"
  "plain_fields (fst (redact_fields o')) = fst (redact_fields o')"
  by (induction v and vs and o' rule: redactValue_redact_items_redact_fields.induct)
     (auto simp: case_prod_beta Let_def)

lemma redact_unreported:
  "\<not> snd (redactValue v) \<Longrightarrow> fst (redactValue v) = plain v"
  "\<not> snd (redact_items vs) \<Longrightarrow> fst (redact_items vs) = plain_items vs"
  "\<not> snd (redact_fields o') \<Longrightarrow> fst (redact_fields o') = plain_fields o'"
  by (induction v and vs and o' rule: redactValue_redact_items_redact_fields.induct)
     (auto simp: case_prod_beta Let_def split: if_splits)


text \<open>
  Redaction never drops evidence silently: a payload that comes back without the redacted
  mark has every entry it went in with.
\<close>

theorem redaction_reported:
  assumes "\<not> snd (redactAuditPayload v)"
  shows "fst (redactAuditPayload v) = plain v"
  using assms unfolding redactAuditPayload_def by (rule redact_unreported)

definition sample_payload :: jsval where
  "sample_payload = VObj [(''action'', VStr ''tool.call''), (''votes'', VArr [VNum (Fin 2), VNull])]"

theorem redaction_reported_witness:
  "\<not> snd (redactAuditPayload sample_payload) \<and>
   fst (redactAuditPayload sample_payload) = plain sample_payload"
proof -
  have "\<not> snd (redactAuditPayload sample_payload)"
    unfolding sample_payload_def redactAuditPayload_def by code_simp
  from redaction_reported [OF this] this show ?thesis by blast
qed

end
