(* ===== verification/AuditLog.thy ===== *)
theory AuditLog
  imports Store CanonicalJson Redaction
begin

text \<open>
  The audit writer, \<open>apps/api/src/engines/evidence/audit-writer.ts\<close>, over the tables of
  migration 0001: one hash chain of events per organisation. \<open>linked\<close> is the chain's
  invariant; every write keeps it (for every organisation), a replayed idempotency key never
  appends, and with a collision-free digest the head hash determines the whole chain.
\<close>

section \<open>Inputs and rows\<close>

datatype audit_outcome = Success | Denied | ErrorOutcome | Pending

fun outcome_name :: "audit_outcome \<Rightarrow> string" where
  "outcome_name Success = ''success''"
| "outcome_name Denied = ''denied''"
| "outcome_name ErrorOutcome = ''error''"
| "outcome_name Pending = ''pending''"

text \<open>The optional members of the input that are copied to columns, grouped as in the code.\<close>

record audit_relations =
  rel_agent :: "string option"
  rel_team :: "string option"
  rel_connection :: "string option"
  rel_walletRef :: "string option"
  rel_policy :: "string option"
  rel_wallet :: "string option"

record audit_classification =
  cl_domain :: "string option"
  cl_category :: "string option"
  cl_severity :: "string option"
  cl_tags :: "string list option"

record audit_source =
  src_section :: "string option"
  src_system :: "string option"
  src_ref :: "string option"

record audit_refs =
  ref_policy :: "string option"
  ref_decision :: "string option"
  ref_approval :: "string option"

record audit_input =
  ai_orgId :: string
  ai_idempotencyKey :: "string option"
  ai_eventType :: string
  ai_occurredAt :: "int option"
  ai_actorType :: string
  ai_actorId :: "string option"
  ai_action :: string
  ai_outcome :: audit_outcome
  ai_reasonCode :: "string option"
  ai_resource :: "(string \<times> string) option"
  ai_classification :: audit_classification
  ai_relations :: audit_relations
  ai_requestId :: "string option"
  ai_source :: audit_source
  ai_refs :: audit_refs
  ai_externalRefs :: "obj option"
  ai_retentionClass :: "string option"
  ai_payload :: "jsval option"

record resolved_classification =
  rc_domain :: string
  rc_category :: string
  rc_severity :: string
  rc_tags :: "string list"

record audit_event =
  ev_id :: string
  ev_org_id :: string
  ev_sequence :: nat
  ev_idempotency_key :: "string option"
  ev_event_type :: string
  ev_occurred_at :: int
  ev_recorded_at :: int
  ev_actor_type :: string
  ev_actor_id :: "string option"
  ev_action :: string
  ev_outcome :: audit_outcome
  ev_reason_code :: "string option"
  ev_resource :: "(string \<times> string) option"
  ev_classification :: resolved_classification
  ev_relations :: audit_relations
  ev_request_id :: "string option"
  ev_source :: audit_source
  ev_refs :: audit_refs
  ev_external_refs :: obj
  ev_retention_class :: string
  ev_redaction_state :: string
  ev_payload :: jsval
  ev_canonical_body :: obj
  ev_canonical_body_hash :: string
  ev_previous_hash :: "string option"
  ev_event_hash :: string

record audit_head =
  hd_org_id :: string
  hd_last_sequence :: nat
  hd_last_event_hash :: "string option"

record audit_db = base_db +
  audit_event_heads :: "audit_head list"
  audit_events :: "audit_event list"

section \<open>The canonical body\<close>

text \<open>First occurrences of the trimmed non-empty tags, at most 32 looked at: a \<open>Set\<close> keeps
  insertion order.\<close>

fun first_occurrences :: "'a list \<Rightarrow> 'a list" where
  "first_occurrences [] = []"
| "first_occurrences (x # xs) = x # filter (\<lambda>y. y \<noteq> x) (first_occurrences xs)"

definition normalizedTags :: "string list option \<Rightarrow> string list" where
  "normalizedTags tags =
     (case tags of
        None \<Rightarrow> []
      | Some ts \<Rightarrow> first_occurrences (take 32 (filter (\<lambda>t. t \<noteq> []) (map trim ts))))"

definition or_else :: "'a option \<Rightarrow> 'a \<Rightarrow> 'a" where
  "or_else x d = (case x of None \<Rightarrow> d | Some a \<Rightarrow> a)"

definition classification :: "audit_input \<Rightarrow> resolved_classification" where
  "classification input =
     \<lparr>rc_domain = or_else (cl_domain (ai_classification input)) ''system'',
      rc_category = or_else (cl_category (ai_classification input)) ''configuration'',
      rc_severity = or_else (cl_severity (ai_classification input)) ''info'',
      rc_tags = normalizedTags (cl_tags (ai_classification input))\<rparr>"

definition nullable :: "string option \<Rightarrow> jsval" where
  "nullable x = (case x of None \<Rightarrow> VNull | Some s \<Rightarrow> VStr s)"

text \<open>\<open>input.payload ?? {}\<close>: an explicit \<open>null\<close> counts as no payload.\<close>

definition given_payload :: "audit_input \<Rightarrow> jsval" where
  "given_payload input =
     (case ai_payload input of None \<Rightarrow> VObj [] | Some v \<Rightarrow> if v = VNull then VObj [] else v)"

definition redacted_payload :: "audit_input \<Rightarrow> jsval \<times> bool" where
  "redacted_payload input = redactAuditPayload (given_payload input)"

definition redaction_state :: "audit_input \<Rightarrow> string" where
  "redaction_state input = (if snd (redacted_payload input) then ''redacted'' else ''none'')"

definition buildCanonicalBody :: "audit_input \<Rightarrow> obj" where
  "buildCanonicalBody input =
     (let cl = classification input; rel = ai_relations input; src = ai_source input;
          refs = ai_refs input
      in [(''action'', VStr (ai_action input)),
          (''actorId'', nullable (ai_actorId input)),
          (''actorType'', VStr (ai_actorType input)),
          (''approvalRef'', nullable (ref_approval refs)),
          (''decisionRef'', nullable (ref_decision refs)),
          (''eventType'', VStr (ai_eventType input)),
          (''externalRefs'', VObj (or_else (ai_externalRefs input) [])),
          (''eventCategory'', VStr (rc_category cl)),
          (''eventDomain'', VStr (rc_domain cl)),
          (''occurredAt'', nullable (map_option toISOString (ai_occurredAt input))),
          (''outcome'', VStr (outcome_name (ai_outcome input))),
          (''payload'', fst (redacted_payload input)),
          (''policyRef'', nullable (ref_policy refs)),
          (''reasonCode'', nullable (ai_reasonCode input)),
          (''redactionState'', VStr (redaction_state input)),
          (''relatedAgentId'', nullable (rel_agent rel)),
          (''relatedConnectionId'', nullable (rel_connection rel)),
          (''relatedPolicyId'', nullable (rel_policy rel)),
          (''relatedTeamId'', nullable (rel_team rel)),
          (''relatedWalletId'', nullable (rel_wallet rel)),
          (''relatedWalletRefId'', nullable (rel_walletRef rel)),
          (''requestId'', nullable (ai_requestId input)),
          (''resourceId'', nullable (map_option snd (ai_resource input))),
          (''resourceType'', nullable (map_option fst (ai_resource input))),
          (''retentionClass'', VStr (or_else (ai_retentionClass input) ''standard'')),
          (''severity'', VStr (rc_severity cl)),
          (''sourceRef'', nullable (src_ref src)),
          (''sourceSection'', nullable (src_section src)),
          (''sourceSystem'', nullable (src_system src)),
          (''tags'', VArr (map VStr (rc_tags cl)))])"

section \<open>Writing an event\<close>

abbreviation digest :: "env \<Rightarrow> jsval \<Rightarrow> app_error + string" where
  "digest E v \<equiv> sha256Hex (env_sha256 E) (env_localeCompare E) v"

text \<open>What an event's hash is taken over: its body, its organisation and its place in the chain.\<close>

definition link_value :: "string \<Rightarrow> string option \<Rightarrow> nat \<Rightarrow> string \<Rightarrow> jsval" where
  "link_value orgId previousHash sequence canonicalBodyHash =
     VObj [(''canonicalBodyHash'', VStr canonicalBodyHash), (''orgId'', VStr orgId),
           (''previousHash'', nullable previousHash), (''sequence'', VStr (show_nat sequence))]"

text \<open>The unique constraints of \<open>audit_events\<close>.\<close>

definition audit_events_clash :: "audit_event \<Rightarrow> audit_event \<Rightarrow> bool" where
  "audit_events_clash e f \<longleftrightarrow>
     ev_id e = ev_id f \<or> ev_event_hash e = ev_event_hash f \<or>
     ev_org_id e = ev_org_id f \<and>
       (ev_sequence e = ev_sequence f \<or>
        ev_idempotency_key e \<noteq> None \<and> ev_idempotency_key e = ev_idempotency_key f)"

definition insert_audit_event :: "audit_event \<Rightarrow> ('a audit_db_scheme, unit) op" where
  "insert_audit_event e s =
     (if list_ex (audit_events_clash e) (audit_events s) then (Inl (PgUniqueViolation ''audit_events''), s)
      else (Inr (), s\<lparr>audit_events := audit_events s @ [e]\<rparr>))"

text \<open>\<open>INSERT INTO audit_event_heads ... ON CONFLICT (org_id) DO NOTHING\<close>.\<close>

definition ensure_head :: "string \<Rightarrow> ('a audit_db_scheme, unit) op" where
  "ensure_head orgId s =
     (if find_row (\<lambda>h. hd_org_id h = orgId) (audit_event_heads s) \<noteq> None then (Inr (), s)
      else if find_org orgId s = None then (Inl (PgForeignKeyViolation ''audit_event_heads''), s)
      else (Inr (), s\<lparr>audit_event_heads := audit_event_heads s @
             [\<lparr>hd_org_id = orgId, hd_last_sequence = 0, hd_last_event_hash = None\<rparr>]\<rparr>))"

definition update_head :: "string \<Rightarrow> nat \<Rightarrow> string \<Rightarrow> ('a audit_db_scheme, unit) op" where
  "update_head orgId sequence eventHash =
     modify (\<lambda>s. s\<lparr>audit_event_heads :=
       update_rows (\<lambda>h. hd_org_id h = orgId)
         (\<lambda>h. h\<lparr>hd_last_sequence := sequence, hd_last_event_hash := Some eventHash\<rparr>)
         (audit_event_heads s)\<rparr>)"

definition event_row ::
  "audit_input \<Rightarrow> string \<Rightarrow> nat \<Rightarrow> int \<Rightarrow> string \<Rightarrow> string option \<Rightarrow> string \<Rightarrow> audit_event" where
  "event_row input eventId sequence t canonicalBodyHash previousHash eventHash =
     \<lparr>ev_id = eventId, ev_org_id = ai_orgId input, ev_sequence = sequence,
      ev_idempotency_key = ai_idempotencyKey input, ev_event_type = ai_eventType input,
      ev_occurred_at = or_else (ai_occurredAt input) t, ev_recorded_at = t,
      ev_actor_type = ai_actorType input, ev_actor_id = ai_actorId input,
      ev_action = ai_action input, ev_outcome = ai_outcome input,
      ev_reason_code = ai_reasonCode input, ev_resource = ai_resource input,
      ev_classification = classification input, ev_relations = ai_relations input,
      ev_request_id = ai_requestId input, ev_source = ai_source input, ev_refs = ai_refs input,
      ev_external_refs = or_else (ai_externalRefs input) [],
      ev_retention_class = or_else (ai_retentionClass input) ''standard'',
      ev_redaction_state = redaction_state input, ev_payload = fst (redacted_payload input),
      ev_canonical_body = buildCanonicalBody input, ev_canonical_body_hash = canonicalBodyHash,
      ev_previous_hash = previousHash, ev_event_hash = eventHash\<rparr>"

text \<open>The event that follows the head \<open>h\<close>, and the head's move to it.\<close>

definition append_after ::
  "env \<Rightarrow> audit_input \<Rightarrow> string \<Rightarrow> audit_head \<Rightarrow> ('a audit_db_scheme, audit_event) op" where
  "append_after E input canonicalBodyHash h =
     bindM (liftE (digest E (link_value (ai_orgId input) (hd_last_event_hash h)
              (hd_last_sequence h + 1) canonicalBodyHash))) (\<lambda>eventHash.
     bindM (prefixedId E ''aud'') (\<lambda>eventId.
     bindM now (\<lambda>t.
     let e = event_row input eventId (hd_last_sequence h + 1) t canonicalBodyHash
               (hd_last_event_hash h) eventHash
     in bindM (insert_audit_event e) (\<lambda>_.
        bindM (update_head (ai_orgId input) (hd_last_sequence h + 1) eventHash) (\<lambda>_.
        ret e)))))"

definition append_event ::
  "env \<Rightarrow> audit_input \<Rightarrow> string \<Rightarrow> ('a audit_db_scheme, audit_event) op" where
  "append_event E input canonicalBodyHash =
     bindM (ensure_head (ai_orgId input)) (\<lambda>_.
     bindM (query (\<lambda>s. find_row (\<lambda>h. hd_org_id h = ai_orgId input) (audit_event_heads s))) (\<lambda>head.
     case head of
       None \<Rightarrow> throw (JsError ''audit_head_not_found'')
     | Some h \<Rightarrow> append_after E input canonicalBodyHash h))"

definition find_idempotent :: "audit_input \<Rightarrow> ('a audit_db_scheme) \<Rightarrow> audit_event option" where
  "find_idempotent input s =
     (case ai_idempotencyKey input of
        None \<Rightarrow> None
      | Some key \<Rightarrow>
          find_row (\<lambda>e. ev_org_id e = ai_orgId input \<and> ev_idempotency_key e = Some key) (audit_events s))"

definition recordAuditEvent :: "env \<Rightarrow> audit_input \<Rightarrow> ('a audit_db_scheme, audit_event) op" where
  "recordAuditEvent E input =
     bindM (liftE (digest E (VObj (buildCanonicalBody input)))) (\<lambda>canonicalBodyHash.
     bindM (query (find_idempotent input)) (\<lambda>existing.
     case existing of
       Some row \<Rightarrow>
         if ev_canonical_body_hash row \<noteq> canonicalBodyHash
         then throw (JsError ''idempotency_conflict'') else ret row
     | None \<Rightarrow> append_event E input canonicalBodyHash))"

section \<open>The hash chain\<close>

definition org_events :: "string \<Rightarrow> ('a audit_db_scheme) \<Rightarrow> audit_event list" where
  "org_events orgId s = filter (\<lambda>e. ev_org_id e = orgId) (audit_events s)"

text \<open>
  \<open>linked E orgId prev n es\<close>: the events \<open>es\<close> continue a chain whose last hash is \<open>prev\<close>
  after \<open>n\<close> events.
\<close>

fun linked :: "env \<Rightarrow> string \<Rightarrow> string option \<Rightarrow> nat \<Rightarrow> audit_event list \<Rightarrow> bool" where
  "linked E orgId prev n [] = True"
| "linked E orgId prev n (e # es) =
     (ev_org_id e = orgId \<and> ev_previous_hash e = prev \<and> ev_sequence e = n + 1 \<and>
      digest E (VObj (ev_canonical_body e)) = Inr (ev_canonical_body_hash e) \<and>
      digest E (link_value orgId prev (n + 1) (ev_canonical_body_hash e)) = Inr (ev_event_hash e) \<and>
      linked E orgId (Some (ev_event_hash e)) (n + 1) es)"

definition tip :: "string option \<Rightarrow> audit_event list \<Rightarrow> string option" where
  "tip prev es = (if es = [] then prev else Some (ev_event_hash (last es)))"

definition head_agrees :: "string \<Rightarrow> ('a audit_db_scheme) \<Rightarrow> bool" where
  "head_agrees orgId s \<longleftrightarrow>
     (case find_row (\<lambda>h. hd_org_id h = orgId) (audit_event_heads s) of
        None \<Rightarrow> org_events orgId s = []
      | Some h \<Rightarrow> hd_last_sequence h = length (org_events orgId s) \<and>
                  hd_last_event_hash h = tip None (org_events orgId s))"

text \<open>The payload column and the payload inside the stored body are one value, without a sensitive
  key or text. The external references and the other columns are stored as they are given.\<close>

definition payload_clean :: "audit_event \<Rightarrow> bool" where
  "payload_clean e \<longleftrightarrow> clean (ev_payload e) \<and> map_of (ev_canonical_body e) ''payload'' = Some (ev_payload e)"

definition audit_ok :: "env \<Rightarrow> ('a audit_db_scheme) \<Rightarrow> bool" where
  "audit_ok E s \<longleftrightarrow>
     (\<forall>orgId. linked E orgId None 0 (org_events orgId s) \<and> head_agrees orgId s) \<and>
     list_all payload_clean (audit_events s)"

lemma linked_snoc:
  "linked E orgId prev n (es @ [e]) \<longleftrightarrow>
     linked E orgId prev n es \<and> linked E orgId (tip prev es) (n + length es) [e]"
  by (induction es arbitrary: prev n) (auto simp: tip_def)

lemma tip_snoc [simp]: "tip prev (es @ [e]) = Some (ev_event_hash e)"
  by (simp add: tip_def)

lemma linked_sequence: "linked E orgId prev n es \<Longrightarrow> map ev_sequence es = [n + 1 ..< n + 1 + length es]"
  by (induction es arbitrary: prev n) (auto simp: upt_conv_Cons)

lemma org_events_insert:
  "org_events orgId (s\<lparr>audit_events := audit_events s @ [e]\<rparr>) =
     (if ev_org_id e = orgId then org_events orgId s @ [e] else org_events orgId s)"
  by (simp add: org_events_def)

lemma org_events_frame [simp]:
  "org_events orgId (s\<lparr>uuids := n\<rparr>) = org_events orgId s"
  "org_events orgId (s\<lparr>audit_event_heads := hs\<rparr>) = org_events orgId s"
  by (simp_all add: org_events_def)

lemma event_row_simps [simp]:
  "ev_org_id (event_row input i q t b p h) = ai_orgId input"
  "ev_sequence (event_row input i q t b p h) = q"
  "ev_idempotency_key (event_row input i q t b p h) = ai_idempotencyKey input"
  "ev_canonical_body (event_row input i q t b p h) = buildCanonicalBody input"
  "ev_canonical_body_hash (event_row input i q t b p h) = b"
  "ev_previous_hash (event_row input i q t b p h) = p"
  "ev_event_hash (event_row input i q t b p h) = h"
  "ev_id (event_row input i q t b p h) = i"
  "ev_payload (event_row input i q t b p h) = fst (redacted_payload input)"
  by (simp_all add: event_row_def)

lemma event_row_clean: "payload_clean (event_row input i q t b p h)"
  by (simp add: payload_clean_def redacted_payload_def redactAuditPayload_def redact_clean)
    (simp add: buildCanonicalBody_def Let_def redacted_payload_def redactAuditPayload_def)

lemma find_head_update:
  "find_row (\<lambda>h. hd_org_id h = o1)
     (update_rows (\<lambda>h. hd_org_id h = o2) (\<lambda>h. h\<lparr>hd_last_sequence := q, hd_last_event_hash := x\<rparr>) hs) =
   map_option (\<lambda>h. if hd_org_id h = o2 then h\<lparr>hd_last_sequence := q, hd_last_event_hash := x\<rparr> else h)
     (find_row (\<lambda>h. hd_org_id h = o1) hs)"
  by (induction hs) auto

lemma ensure_head_Inr:
  "ensure_head orgId s = (Inr u, s') \<Longrightarrow>
     (s' = s \<and> find_row (\<lambda>h. hd_org_id h = orgId) (audit_event_heads s) \<noteq> None) \<or>
     (find_row (\<lambda>h. hd_org_id h = orgId) (audit_event_heads s) = None \<and>
      s' = s\<lparr>audit_event_heads := audit_event_heads s @
             [\<lparr>hd_org_id = orgId, hd_last_sequence = 0, hd_last_event_hash = None\<rparr>]\<rparr>)"
  by (auto simp: ensure_head_def split: if_splits)

lemma ensure_head_ok:
  assumes "audit_ok E s" and "ensure_head orgId s = (Inr u, s')"
  shows "audit_ok E s' \<and> audit_events s' = audit_events s"
  using ensure_head_Inr [OF assms(2)]
proof (elim disjE conjE)
  assume none: "find_row (\<lambda>h. hd_org_id h = orgId) (audit_event_heads s) = None"
    and s': "s' = s\<lparr>audit_event_heads := audit_event_heads s @
        [\<lparr>hd_org_id = orgId, hd_last_sequence = 0, hd_last_event_hash = None\<rparr>]\<rparr>"
  have "head_agrees o' s'" if "head_agrees o' s" for o'
    using that none unfolding s' head_agrees_def
    by (auto simp: find_row_append tip_def split: option.splits)
  with assms(1) s' show ?thesis by (simp add: audit_ok_def)
qed (use assms(1) in simp)

text \<open>What a successful append does: one more linked event, and the head moves to it.\<close>

lemma append_after_Inr:
  "append_after E input b h s = (Inr e, s') \<longleftrightarrow>
     (\<exists>x. digest E (link_value (ai_orgId input) (hd_last_event_hash h) (hd_last_sequence h + 1) b) = Inr x \<and>
       e = event_row input (''aud_'' @ env_uuid E (uuids s)) (hd_last_sequence h + 1) (clock s) b
             (hd_last_event_hash h) x \<and>
       \<not> list_ex (audit_events_clash e) (audit_events s) \<and>
       s' = s\<lparr>uuids := Suc (uuids s), audit_events := audit_events s @ [e],
              audit_event_heads :=
                update_rows (\<lambda>h. hd_org_id h = ai_orgId input)
                  (\<lambda>h'. h'\<lparr>hd_last_sequence := hd_last_sequence h + 1, hd_last_event_hash := Some x\<rparr>)
                  (audit_event_heads s)\<rparr>)"
  by (auto simp: append_after_def bindM_Inr update_head_def insert_audit_event_def Let_def
      split: if_splits)

lemma append_event_Inr:
  "append_event E input b s = (Inr e, s') \<longleftrightarrow>
     (\<exists>s1 h. ensure_head (ai_orgId input) s = (Inr (), s1) \<and>
        find_row (\<lambda>h. hd_org_id h = ai_orgId input) (audit_event_heads s1) = Some h \<and>
        append_after E input b h s1 = (Inr e, s'))"
  by (auto simp: append_event_def bindM_Inr split: option.splits)

lemma append_after_ok:
  assumes ok: "audit_ok E s"
    and head: "find_row (\<lambda>h. hd_org_id h = ai_orgId input) (audit_event_heads s) = Some h"
    and body: "digest E (VObj (buildCanonicalBody input)) = Inr b"
    and app: "append_after E input b h s = (Inr e, s')"
  shows "audit_ok E s'"
proof -
  from app obtain x where
    x: "digest E (link_value (ai_orgId input) (hd_last_event_hash h) (hd_last_sequence h + 1) b) = Inr x"
    and e: "e = event_row input (''aud_'' @ env_uuid E (uuids s)) (hd_last_sequence h + 1) (clock s) b
              (hd_last_event_hash h) x"
    and s': "s' = s\<lparr>uuids := Suc (uuids s), audit_events := audit_events s @ [e],
              audit_event_heads :=
                update_rows (\<lambda>h. hd_org_id h = ai_orgId input)
                  (\<lambda>h'. h'\<lparr>hd_last_sequence := hd_last_sequence h + 1, hd_last_event_hash := Some x\<rparr>)
                  (audit_event_heads s)\<rparr>"
    by (auto simp: append_after_Inr)
  have here: "head_agrees (ai_orgId input) s" using ok by (auto simp: audit_ok_def)
  have h: "hd_last_sequence h = length (org_events (ai_orgId input) s)"
    "hd_last_event_hash h = tip None (org_events (ai_orgId input) s)"
    using here head by (auto simp: head_agrees_def)
  have chain': "linked E orgId None 0 (org_events orgId s') \<and> head_agrees orgId s'" for orgId
  proof
    have chain: "linked E orgId None 0 (org_events orgId s)" and agrees: "head_agrees orgId s"
      using ok by (auto simp: audit_ok_def)
    have events: "org_events orgId s' =
        (if ai_orgId input = orgId then org_events orgId s @ [e] else org_events orgId s)"
      by (simp add: s' org_events_def e)
    show "linked E orgId None 0 (org_events orgId s')"
      using chain x body h by (auto simp: events linked_snoc e)
    have heads: "find_row (\<lambda>h. hd_org_id h = orgId) (audit_event_heads s') =
        map_option (\<lambda>h'. if hd_org_id h' = ai_orgId input
            then h'\<lparr>hd_last_sequence := Suc (hd_last_sequence h), hd_last_event_hash := Some x\<rparr> else h')
          (find_row (\<lambda>h. hd_org_id h = orgId) (audit_event_heads s))"
      by (simp add: s' find_head_update)
    have "ev_event_hash e = x" by (simp add: e)
    then show "head_agrees orgId s'"
      using agrees head h unfolding head_agrees_def heads events
      by (auto split: option.splits dest: find_row_Some)
  qed
  have "list_all payload_clean (audit_events s')"
    using ok by (simp add: s' e audit_ok_def event_row_clean)
  with chain' show ?thesis by (simp add: audit_ok_def)
qed

lemma recordAuditEvent_ok:
  assumes "audit_ok E s" and "recordAuditEvent E input s = (Inr e, s')"
  shows "audit_ok E s'"
proof -
  from assms(2) consider "s' = s"
    | b s1 h where "digest E (VObj (buildCanonicalBody input)) = Inr b"
        "ensure_head (ai_orgId input) s = (Inr (), s1)"
        "find_row (\<lambda>h. hd_org_id h = ai_orgId input) (audit_event_heads s1) = Some h"
        "append_after E input b h s1 = (Inr e, s')"
    by (auto simp: recordAuditEvent_def bindM_Inr append_event_Inr split: option.splits if_splits)
  then show ?thesis
  proof cases
    case 1
    with assms(1) show ?thesis by simp
  next
    case 2
    from ensure_head_ok [OF assms(1) 2(2)] have "audit_ok E s1" by simp
    from append_after_ok [OF this 2(3) 2(1) 2(4)] show ?thesis .
  qed
qed

text \<open>The error paths leave at most an untouched head and a drawn id behind.\<close>

lemma audit_ok_uuids [simp]: "audit_ok E (s\<lparr>uuids := n\<rparr>) = audit_ok E s"
  by (simp add: audit_ok_def head_agrees_def cong: option.case_cong)

lemma ensure_head_Inl: "ensure_head orgId s = (Inl err, s') \<Longrightarrow> s' = s"
  by (auto simp: ensure_head_def split: if_splits)

lemma append_after_Inl: "append_after E input b h s = (Inl err, s') \<Longrightarrow> \<exists>n. s' = s\<lparr>uuids := n\<rparr>"
  by (cases s) (auto simp: append_after_def bindM_Inl insert_audit_event_def update_head_def Let_def
      liftE_def prefixedId_def now_def query_def modify_def ret_def split: if_splits)

lemma recordAuditEvent_preserves_ok: "preserves (audit_ok E) (recordAuditEvent E input)"
proof (rule preservesI)
  fix s :: "'a audit_db_scheme"
  assume ok: "audit_ok E s"
  obtain r s' where run: "recordAuditEvent E input s = (r, s')" by fastforce
  have "audit_ok E s'"
  proof (cases r)
    case (Inr e)
    with run recordAuditEvent_ok [OF ok] show ?thesis by simp
  next
    case (Inl err)
    with run consider "s' = s"
      | s1 b h where "ensure_head (ai_orgId input) s = (Inr (), s1)" "s' = s1"
      | s1 b h where "ensure_head (ai_orgId input) s = (Inr (), s1)" "append_after E input b h s1 = (Inl err, s')"
      by (auto simp: recordAuditEvent_def append_event_def bindM_Inl liftE_def query_def throw_def ret_def
          dest: ensure_head_Inl split: option.splits if_splits)
    then show ?thesis
      using ok ensure_head_ok [OF ok] append_after_Inl by cases fastforce+
  qed
  with run show "audit_ok E (snd (recordAuditEvent E input s))" by simp
qed

text \<open>What a write leaves alone: anything that reads none of the three tables it touches.\<close>

lemma keeps_recordAuditEvent:
  assumes "\<And>s n. f (s\<lparr>uuids := n\<rparr>) = f s" and "\<And>s hs. f (s\<lparr>audit_event_heads := hs\<rparr>) = f s"
    and "\<And>s es. f (s\<lparr>audit_events := es\<rparr>) = f s"
  shows "keeps f (recordAuditEvent E input)"
proof (rule keepsI)
  fix x
  have "preserves (\<lambda>s. f s = x) (ensure_head orgId)" for orgId
    by (rule preservesI) (auto simp: ensure_head_def assms)
  moreover have "preserves (\<lambda>s. f s = x) (insert_audit_event e)" for e
    by (rule preservesI) (auto simp: insert_audit_event_def assms)
  ultimately show "preserves (\<lambda>s. f s = x) (recordAuditEvent E input)"
    unfolding recordAuditEvent_def append_event_def append_after_def update_head_def Let_def
    by (intro preserve_intros) (simp_all add: assms)
qed

lemma preserves_recordAuditEvent [preserve_intros]:
  assumes "\<And>s n. P (s\<lparr>uuids := n\<rparr>) = P s" and "\<And>s hs. P (s\<lparr>audit_event_heads := hs\<rparr>) = P s"
    and "\<And>s es. P (s\<lparr>audit_events := es\<rparr>) = P s"
  shows "preserves P (recordAuditEvent E input)"
  by (rule keeps_preservesI [of P _ "\<lambda>b. b"]) (rule keeps_recordAuditEvent [of P, OF assms])

section \<open>Every reachable log is a well-formed chain\<close>

definition empty_audit :: "int \<Rightarrow> org_row list \<Rightarrow> audit_db" where
  "empty_audit t os = \<lparr>clock = t, uuids = 0, orgs = os, audit_event_heads = [], audit_events = []\<rparr>"

definition audit_step :: "env \<Rightarrow> audit_input \<Rightarrow> audit_db \<Rightarrow> audit_db" where
  "audit_step E input s = snd (recordAuditEvent E input s)"

lemma audit_ok_empty: "audit_ok E (empty_audit t os)"
  by (simp add: audit_ok_def empty_audit_def org_events_def head_agrees_def)

interpretation audit_machine: invariant_machine "empty_audit t os" "audit_step E" "audit_ok E"
  for t os E
proof unfold_locales
  show "audit_ok E (empty_audit t os)" by (rule audit_ok_empty)
  show "audit_ok E (audit_step E l s)" if "audit_ok E s" for l s
    using recordAuditEvent_preserves_ok that unfolding preserves_def audit_step_def by blast
qed

text \<open>
  C2. Whatever is recorded, in whatever order and with whatever failures in between, the
  events of every organisation are numbered 1, 2, 3, ... without a gap, each carries the hash
  of its predecessor and a digest of its own body, and the head row names the last of them. The
  payload of every event, in its column and inside the stored body, has no sensitive key with a value
  of its own and no sensitive text; nothing is claimed of the external references and the other columns,
  which the code stores as they are given.
\<close>

theorem audit_log_always_linked:
  "let s = fold (audit_step E) inputs (empty_audit t os); es = org_events orgId s
   in map ev_sequence es = [1 ..< length es + 1] \<and> linked E orgId None 0 es \<and> head_agrees orgId s \<and>
      list_all (\<lambda>e. clean (ev_payload e) \<and> map_of (ev_canonical_body e) ''payload'' = Some (ev_payload e)) (audit_events s)"
proof -
  have ok: "audit_ok E (fold (audit_step E) inputs (empty_audit t os))"
    by (rule audit_machine.inv_reachable)
  then have "linked E orgId None 0 (org_events orgId (fold (audit_step E) inputs (empty_audit t os)))"
    by (simp add: audit_ok_def)
  from linked_sequence [OF this] ok show ?thesis by (simp add: Let_def audit_ok_def payload_clean_def [abs_def] add.commute)
qed

section \<open>What an event hash commits to\<close>

text \<open>The four link fields encode injectively, whatever order the collation puts them in.\<close>

lemma sort_by_map:
  "sort_by (by_key lc) (map (\<lambda>k. (k, f k)) ks) = map (\<lambda>k. (k, f k)) (sort_by lc ks)"
proof -
  have ins: "insert_by (by_key lc) (k, f k) (map (\<lambda>k. (k, f k)) xs) = map (\<lambda>k. (k, f k)) (insert_by lc k xs)" for k xs
    by (induction xs) (auto simp: by_key_def)
  show ?thesis by (induction ks) (simp_all add: sort_by_def ins)
qed

lemma join_decode:
  "join '','' (map (\<lambda>k. encode_entry (k, encode_nullable (f k))) ks) @ CHR ''}'' # x =
   join '','' (map (\<lambda>k. encode_entry (k, encode_nullable (g k))) ks) @ CHR ''}'' # y \<Longrightarrow>
     k \<in> set ks \<Longrightarrow> f k = g k"
proof (induction ks rule: induct_list012)
  case 1
  then show ?case by simp
next
  case (2 k0)
  then show ?case using encode_nullable_decode by (fastforce simp: encode_entry_def)
next
  case (3 k0 k1 ks)
  from "3.prems"(1) have "f k0 = g k0 \<and>
     join '','' (map (\<lambda>k. encode_entry (k, encode_nullable (f k))) (k1 # ks)) @ CHR ''}'' # x =
     join '','' (map (\<lambda>k. encode_entry (k, encode_nullable (g k))) (k1 # ks)) @ CHR ''}'' # y"
    using encode_nullable_decode by (fastforce simp: encode_entry_def)
  with "3.IH"(2) "3.prems"(2) show ?case by auto
qed

definition link_keys :: "string list" where
  "link_keys = [''canonicalBodyHash'', ''orgId'', ''previousHash'', ''sequence'']"

definition link_field :: "string \<Rightarrow> string option \<Rightarrow> nat \<Rightarrow> string \<Rightarrow> string \<Rightarrow> string option" where
  "link_field orgId prev q b k =
     (if k = ''canonicalBodyHash'' then Some b else if k = ''orgId'' then Some orgId
      else if k = ''previousHash'' then prev else Some (show_nat q))"

lemma encode_link:
  "encodeCanonical lc (link_value orgId prev q b) =
     Some (''{'' @ join '','' (map (\<lambda>k. encode_entry (k, encode_nullable (link_field orgId prev q b k)))
       (sort_by lc link_keys)) @ ''}'')"
proof -
  let ?f = "\<lambda>k. encode_nullable (link_field orgId prev q b k)"
  have enc: "encodeCanonical lc (nullable x) = Some (encode_nullable x)" for x
    by (simp add: nullable_def encode_nullable_def split: option.split)
  have "encode_fields lc [(''canonicalBodyHash'', VStr b), (''orgId'', VStr orgId),
          (''previousHash'', nullable prev), (''sequence'', VStr (show_nat q))] =
        Some (map (\<lambda>k. (k, ?f k)) link_keys)"
    by (simp add: enc link_keys_def link_field_def) (simp add: encode_nullable_def)
  then show ?thesis
    by (simp only: link_value_def encodeCanonical.simps option.map sort_by_map map_map comp_def)
qed

definition link_text :: "env \<Rightarrow> audit_event \<Rightarrow> string" where
  "link_text E e = the (encodeCanonical (env_localeCompare E)
     (link_value (ev_org_id e) (ev_previous_hash e) (ev_sequence e) (ev_canonical_body_hash e)))"

definition body_text :: "env \<Rightarrow> audit_event \<Rightarrow> string" where
  "body_text E e = the (encodeCanonical (env_localeCompare E) (VObj (ev_canonical_body e)))"

lemma link_text_inj:
  assumes "link_text E e = link_text E f"
  shows "ev_previous_hash e = ev_previous_hash f \<and> ev_canonical_body_hash e = ev_canonical_body_hash f"
proof -
  let ?fe = "link_field (ev_org_id e) (ev_previous_hash e) (ev_sequence e) (ev_canonical_body_hash e)"
  let ?ff = "link_field (ev_org_id f) (ev_previous_hash f) (ev_sequence f) (ev_canonical_body_hash f)"
  have "?fe k = ?ff k" if "k \<in> set link_keys" for k
    using assms that join_decode [of ?fe "sort_by (env_localeCompare E) link_keys" "[]" ?ff "[]" k]
    by (simp add: link_text_def encode_link)
  from this [of "''previousHash''"] this [of "''canonicalBodyHash''"] show ?thesis
    by (simp add: link_keys_def link_field_def)
qed

lemma digest_VObj:
  "digest E (VObj o') = Inr h \<Longrightarrow> h = env_sha256 E (the (encodeCanonical (env_localeCompare E) (VObj o')))"
  by (auto simp: sha256Hex_def canonicalJson_def split: option.splits)

definition hashed_texts :: "env \<Rightarrow> audit_event list \<Rightarrow> string set" where
  "hashed_texts E es = link_text E ` set es \<union> body_text E ` set es"

text \<open>A small organisation for the examples.\<close>

definition sample_env :: env where
  "sample_env = \<lparr>env_sha256 = (\<lambda>t. ''h'' @ t), env_localeCompare = first_code, env_collate = first_code,
     env_uuid = show_nat, env_secret = show_nat, env_production = False, env_hostname = (\<lambda>_. None)\<rparr>"

definition sample_input :: "string \<Rightarrow> audit_input" where
  "sample_input action =
     \<lparr>ai_orgId = ''o'', ai_idempotencyKey = Some ''k'', ai_eventType = ''t'', ai_occurredAt = None,
      ai_actorType = ''user'', ai_actorId = None, ai_action = action, ai_outcome = Success,
      ai_reasonCode = None, ai_resource = None,
      ai_classification = \<lparr>cl_domain = None, cl_category = None, cl_severity = None, cl_tags = None\<rparr>,
      ai_relations = \<lparr>rel_agent = None, rel_team = None, rel_connection = None, rel_walletRef = None,
        rel_policy = None, rel_wallet = None\<rparr>,
      ai_requestId = None, ai_source = \<lparr>src_section = None, src_system = None, src_ref = None\<rparr>,
      ai_refs = \<lparr>ref_policy = None, ref_decision = None, ref_approval = None\<rparr>,
      ai_externalRefs = None, ai_retentionClass = None, ai_payload = None\<rparr>"

definition sample_audit :: audit_db where
  "sample_audit = empty_audit 0
     [\<lparr>org_id = ''o'', org_display_name = ''O'', org_slug = ''o'', org_default_team_id = None,
        org_settings = [], org_active = True, org_created_at = 0, org_updated_at = 0, org_default_policy_effect = DefaultDeny, org_frozen = False\<rparr>]"



lemma sample_body: "\<exists>b. digest sample_env (VObj (buildCanonicalBody (sample_input a))) = Inr b"
proof -
  have "\<exists>fs. encode_fields first_code (buildCanonicalBody (sample_input a)) = Some fs"
    by (simp add: buildCanonicalBody_def Let_def nullable_def sample_input_def classification_def
        or_else_def normalizedTags_def given_payload_def redacted_payload_def redactAuditPayload_def)
  then show ?thesis by (auto simp: sha256Hex_def canonicalJson_def sample_env_def)
qed

lemma digest_link: "\<exists>h. digest E (link_value orgId prev q b) = Inr h"
  using encode_link [of "env_localeCompare E" orgId prev q b]
  by (simp add: link_value_def sha256Hex_def canonicalJson_def del: encodeCanonical.simps)

lemma sample_run:
  "\<exists>e s. recordAuditEvent sample_env (sample_input a) sample_audit = (Inr e, s) \<and> org_events ''o'' s = [e]"
proof -
  obtain b where b: "digest sample_env (VObj (buildCanonicalBody (sample_input a))) = Inr b"
    using sample_body by blast
  obtain h where h: "digest sample_env (link_value ''o'' None 1 b) = Inr h"
    using digest_link by blast
  have "ai_orgId (sample_input a) = ''o''" by (simp add: sample_input_def)
  with b h show ?thesis
    by (auto simp: recordAuditEvent_def bindM_def liftE_def query_def find_idempotent_def
        sample_audit_def empty_audit_def append_event_def ensure_head_def find_org_def
        append_after_def prefixedId_def now_def insert_audit_event_def update_head_def modify_def
        ret_def org_events_def Let_def split: option.splits)
qed

section \<open>Idempotent writes\<close>

lemma recordAuditEvent_stores:
  assumes "recordAuditEvent E input s = (Inr e, s')" and "ai_idempotencyKey input \<noteq> None"
  shows "find_idempotent input s' = Some e"
proof (cases "find_idempotent input s")
  case (Some row)
  with assms show ?thesis by (auto simp: recordAuditEvent_def bindM_Inr split: if_splits)
next
  case None
  from assms(1) None obtain b s1 h where
    run: "ensure_head (ai_orgId input) s = (Inr (), s1)" "append_after E input b h s1 = (Inr e, s')"
    by (auto simp: recordAuditEvent_def bindM_Inr append_event_Inr)
  have "audit_events s1 = audit_events s" using ensure_head_Inr [OF run(1)] by auto
  with run(2) have "audit_events s' = audit_events s @ [e]"
    and "ev_org_id e = ai_orgId input" "ev_idempotency_key e = ai_idempotencyKey input"
    by (auto simp: append_after_Inr)
  with None assms(2) show ?thesis
    by (auto simp: find_idempotent_def find_row_append)
qed

text \<open>
  C26. A write with an idempotency key that the organisation has used is answered from the log
  and never appends: the same canonical body returns the event already stored, any other body
  throws \<open>idempotency_conflict\<close>, and the database is unchanged either way.
\<close>

theorem audit_write_idempotent:
  assumes "recordAuditEvent E input s = (Inr e, s')" and "ai_idempotencyKey input = Some key"
    and "ai_idempotencyKey input' = Some key" and "ai_orgId input' = ai_orgId input"
  shows "recordAuditEvent E input' s' =
    (case digest E (VObj (buildCanonicalBody input')) of
       Inl err \<Rightarrow> (Inl err, s')
     | Inr h \<Rightarrow> if h = ev_canonical_body_hash e then (Inr e, s')
               else (Inl (JsError ''idempotency_conflict''), s'))"
proof -
  have "find_idempotent input' s' = Some e"
    using recordAuditEvent_stores [OF assms(1)] assms(2-4) by (simp add: find_idempotent_def)
  then show ?thesis
    by (simp add: recordAuditEvent_def bindM_def liftE_def query_def throw_def ret_def split: sum.split)
qed

theorem audit_write_idempotent_witness:
  "\<exists>e s. recordAuditEvent sample_env (sample_input ''a'') sample_audit = (Inr e, s) \<and>
         recordAuditEvent sample_env (sample_input ''a'') s = (Inr e, s)"
proof -
  obtain e s where run: "recordAuditEvent sample_env (sample_input ''a'') sample_audit = (Inr e, s)"
    and es: "org_events ''o'' s = [e]" using sample_run by blast
  have key: "ai_idempotencyKey (sample_input ''a'') = Some ''k''" by (simp add: sample_input_def)
  from run have "digest sample_env (VObj (buildCanonicalBody (sample_input ''a''))) = Inr (ev_canonical_body_hash e)"
    by (auto simp: recordAuditEvent_def bindM_Inr append_event_Inr append_after_Inr split: option.splits if_splits)
  with audit_write_idempotent [OF run key key refl] run show ?thesis by auto
qed

end
