(* ===== verification/AuditQuery.thy ===== *)
theory AuditQuery
  imports AuditLog
begin

text \<open>
  Reading and verifying the audit log, \<open>apps/api/src/engines/evidence/audit-query.ts\<close>: the
  bounded listing, the verification of one event, and the paged walk over the whole chain of an
  organisation. The walk is shown equal to one pass over all events, to accept exactly the
  chains whose hashes fit and whose head row agrees, to accept every log the writer produces,
  and to notice any change to a log whose head hash is known.
\<close>

section \<open>Listing\<close>

text \<open>
  \<open>Math.min(500, Math.max(1, Math.trunc(limit ?? 100)))\<close>; \<open>None\<close> is \<open>NaN\<close>, which both
  \<open>Math.max\<close> and \<open>Math.min\<close> pass on.
\<close>

definition boundedLimit :: "jsnum option \<Rightarrow> nat option" where
  "boundedLimit limit =
     (case or_else limit (Fin 100) of
        NaN \<Rightarrow> None
      | PosInf \<Rightarrow> Some 500
      | NegInf \<Rightarrow> Some 1
      | Fin r \<Rightarrow> Some (nat (min 500 (max 1 (if 0 \<le> r then \<lfloor>r\<rfloor> else \<lceil>r\<rceil>)))))"

text \<open>Rows of an organisation in ascending order of sequence.\<close>

definition ordered_events :: "string \<Rightarrow> ('a audit_db_scheme) \<Rightarrow> audit_event list" where
  "ordered_events orgId s = sort_key ev_sequence (org_events orgId s)"

text \<open>PostgreSQL refuses \<open>LIMIT 'NaN'\<close> for a bigint.\<close>

definition listAuditEvents ::
  "string \<Rightarrow> jsnum option \<Rightarrow> nat option \<Rightarrow> ('a audit_db_scheme, audit_event list) op" where
  "listAuditEvents orgId limit beforeSequence =
     (case boundedLimit limit of
        None \<Rightarrow> throw (JsError ''invalid input syntax for type bigint: NaN'')
      | Some n \<Rightarrow> query (\<lambda>s. take n (rev (filter (\<lambda>e. opt_holds (\<lambda>b. ev_sequence e < b) beforeSequence)
                                          (ordered_events orgId s)))))"

definition getAuditEvent :: "string \<Rightarrow> string \<Rightarrow> ('a audit_db_scheme, audit_event option) op" where
  "getAuditEvent orgId eventId =
     query (\<lambda>s. find_row (\<lambda>e. ev_org_id e = orgId \<and> ev_id e = eventId) (audit_events s))"

section \<open>Verifying one event\<close>

datatype verify_reason =
  EventNotFound | CanonicalBodyHashMismatch | EventHashMismatch | PreviousHashMismatch
  | EventCountMismatch | TailHashMismatch

record verify_result =
  vd_valid :: bool
  vd_eventId :: string
  vd_reason :: "verify_reason option"

definition storedBodyHash :: "env \<Rightarrow> audit_event \<Rightarrow> app_error + string" where
  "storedBodyHash E event =
     (case canonicalJson (env_localeCompare E) (VObj (ev_canonical_body event)) of
        Inl err \<Rightarrow> Inl err
      | Inr text \<Rightarrow> digest E (VStr text))"

definition expectedEventHash :: "env \<Rightarrow> audit_event \<Rightarrow> app_error + string" where
  "expectedEventHash E event =
     digest E (link_value (ev_org_id event) (ev_previous_hash event) (ev_sequence event)
                 (ev_canonical_body_hash event))"

definition verifyDetail :: "env \<Rightarrow> audit_event \<Rightarrow> app_error + verify_result" where
  "verifyDetail E event =
     (case storedBodyHash E event of
        Inl err \<Rightarrow> Inl err
      | Inr bodyHash \<Rightarrow>
          if bodyHash \<noteq> ev_canonical_body_hash event
          then Inr \<lparr>vd_valid = False, vd_eventId = ev_id event, vd_reason = Some CanonicalBodyHashMismatch\<rparr>
          else (case expectedEventHash E event of
                  Inl err \<Rightarrow> Inl err
                | Inr eventHash \<Rightarrow>
                    if eventHash \<noteq> ev_event_hash event
                    then Inr \<lparr>vd_valid = False, vd_eventId = ev_id event, vd_reason = Some EventHashMismatch\<rparr>
                    else Inr \<lparr>vd_valid = True, vd_eventId = ev_id event, vd_reason = None\<rparr>))"

definition verifyAuditEvent :: "env \<Rightarrow> string \<Rightarrow> string \<Rightarrow> ('a audit_db_scheme, verify_result) op" where
  "verifyAuditEvent E orgId eventId =
     bindM (getAuditEvent orgId eventId) (\<lambda>event.
     case event of
       None \<Rightarrow> ret \<lparr>vd_valid = False, vd_eventId = eventId, vd_reason = Some EventNotFound\<rparr>
     | Some e \<Rightarrow> liftE (verifyDetail E e))"

section \<open>Verifying the chain\<close>

definition VERIFY_PAGE_SIZE :: nat where
  "VERIFY_PAGE_SIZE = 500"

record verify_chain_result =
  vc_valid :: bool
  vc_checked :: nat
  vc_failedEventId :: "string option"
  vc_reason :: "verify_reason option"

text \<open>The loop's variables.\<close>

record walk =
  wk_previousHash :: "string option"
  wk_checked :: nat
  wk_afterSequence :: nat

definition failed_at :: "nat \<Rightarrow> audit_event \<Rightarrow> verify_reason \<Rightarrow> verify_chain_result" where
  "failed_at checked event reason =
     \<lparr>vc_valid = False, vc_checked = checked, vc_failedEventId = Some (ev_id event), vc_reason = Some reason\<rparr>"

text \<open>The body of the inner loop over one page: an early return (\<open>Inl\<close>) or the next variables.\<close>

fun verify_rows :: "env \<Rightarrow> audit_event list \<Rightarrow> walk \<Rightarrow> app_error + verify_chain_result + walk" where
  "verify_rows E [] w = Inr (Inr w)"
| "verify_rows E (event # rows) w =
     (let checked = wk_checked w + 1
      in case storedBodyHash E event of
           Inl err \<Rightarrow> Inl err
         | Inr bodyHash \<Rightarrow>
             if bodyHash \<noteq> ev_canonical_body_hash event
             then Inr (Inl (failed_at checked event CanonicalBodyHashMismatch))
             else if ev_previous_hash event \<noteq> wk_previousHash w
             then Inr (Inl (failed_at checked event PreviousHashMismatch))
             else (case expectedEventHash E event of
                     Inl err \<Rightarrow> Inl err
                   | Inr eventHash \<Rightarrow>
                       if eventHash \<noteq> ev_event_hash event
                       then Inr (Inl (failed_at checked event EventHashMismatch))
                       else verify_rows E rows
                              \<lparr>wk_previousHash = Some (ev_event_hash event), wk_checked = checked,
                               wk_afterSequence = ev_sequence event\<rparr>))"

definition verify_page :: "audit_event list \<Rightarrow> nat \<Rightarrow> audit_event list" where
  "verify_page rows after = take VERIFY_PAGE_SIZE (filter (\<lambda>e. ev_sequence e > after) rows)"

lemma storedBodyHash_digest: "storedBodyHash E event = digest E (VObj (ev_canonical_body event))"
  by (simp add: storedBodyHash_def sha256Hex_def split: sum.split)

fun chained :: "env \<Rightarrow> string option \<Rightarrow> audit_event list \<Rightarrow> bool" where
  "chained E prev [] = True"
| "chained E prev (e # es) =
     (storedBodyHash E e = Inr (ev_canonical_body_hash e) \<and> ev_previous_hash e = prev \<and>
      expectedEventHash E e = Inr (ev_event_hash e) \<and> chained E (Some (ev_event_hash e)) es)"

definition walked :: "walk \<Rightarrow> audit_event list \<Rightarrow> walk" where
  "walked w rows =
     \<lparr>wk_previousHash = tip (wk_previousHash w) rows, wk_checked = wk_checked w + length rows,
      wk_afterSequence = (if rows = [] then wk_afterSequence w else ev_sequence (last rows))\<rparr>"

lemma verify_rows_walked:
  "verify_rows E rows w = Inr (Inr w') \<longleftrightarrow> chained E (wk_previousHash w) rows \<and> w' = walked w rows"
proof (induction rows arbitrary: w)
  case Nil
  then show ?case by (cases w) (auto simp: walked_def tip_def)
next
  case (Cons e rows)
  let ?w = "\<lparr>wk_previousHash = Some (ev_event_hash e), wk_checked = wk_checked w + 1,
              wk_afterSequence = ev_sequence e\<rparr>"
  have "walked w (e # rows) = walked ?w rows" by (simp add: walked_def tip_def)
  moreover have "verify_rows E (e # rows) w = Inr (Inr w') \<longleftrightarrow>
      storedBodyHash E e = Inr (ev_canonical_body_hash e) \<and> ev_previous_hash e = wk_previousHash w \<and>
      expectedEventHash E e = Inr (ev_event_hash e) \<and> verify_rows E rows ?w = Inr (Inr w')"
    by (simp only: verify_rows.simps Let_def) (auto split: sum.splits if_splits)
  ultimately show ?case using Cons.IH [of ?w] by simp
qed

lemma verify_rows_append:
  "verify_rows E (xs @ ys) w =
     (case verify_rows E xs w of Inr (Inr w') \<Rightarrow> verify_rows E ys w' | r \<Rightarrow> r)"
proof (induction xs arbitrary: w)
  case (Cons e xs)
  then show ?case by (simp add: Let_def split: sum.split)
qed simp

lemma verify_page_progress:
  assumes "verify_rows E (verify_page rows (wk_afterSequence w)) w = Inr (Inr w')"
    and "verify_page rows (wk_afterSequence w) \<noteq> []"
  shows "length (filter (\<lambda>e. ev_sequence e > wk_afterSequence w') rows)
       < length (filter (\<lambda>e. ev_sequence e > wk_afterSequence w) rows)"
proof -
  let ?l = "last (verify_page rows (wk_afterSequence w))"
  have after: "wk_afterSequence w' = ev_sequence ?l"
    using assms by (simp add: verify_rows_walked walked_def)
  have "?l \<in> set (verify_page rows (wk_afterSequence w))" using assms(2) by simp
  then have l: "?l \<in> set rows" "ev_sequence ?l > wk_afterSequence w"
    by (auto simp: verify_page_def dest: in_set_takeD)
  have "filter (\<lambda>e. ev_sequence e > ev_sequence ?l) rows =
        filter (\<lambda>e. ev_sequence e > ev_sequence ?l) (filter (\<lambda>e. ev_sequence e > wk_afterSequence w) rows)"
    using l(2) by (auto intro: filter_cong)
  also have "length \<dots> < length (filter (\<lambda>e. ev_sequence e > wk_afterSequence w) rows)"
    by (rule length_filter_less [of ?l]) (use l in simp_all)
  finally show ?thesis by (simp add: after)
qed

text \<open>The outer loop: it ends because every full page moves \<open>afterSequence\<close> past a row.\<close>

function verify_pages ::
  "env \<Rightarrow> audit_event list \<Rightarrow> walk \<Rightarrow> app_error + verify_chain_result + walk" where
  "verify_pages E rows w =
     (let page = verify_page rows (wk_afterSequence w)
      in if page = [] then Inr (Inr w)
         else case verify_rows E page w of
                Inl err \<Rightarrow> Inl err
              | Inr (Inl r) \<Rightarrow> Inr (Inl r)
              | Inr (Inr w') \<Rightarrow>
                  if length page < VERIFY_PAGE_SIZE then Inr (Inr w') else verify_pages E rows w')"
  by pat_completeness auto
termination
  by (relation "measure (\<lambda>(E, rows, w). length (filter (\<lambda>e. ev_sequence e > wk_afterSequence w) rows))")
     (auto intro: verify_page_progress)

declare verify_pages.simps [simp del]

text \<open>The comparison with the head row after the walk.\<close>

definition verify_tail :: "audit_head option \<Rightarrow> walk \<Rightarrow> verify_chain_result" where
  "verify_tail headRow w =
     (case headRow of
        None \<Rightarrow> \<lparr>vc_valid = True, vc_checked = wk_checked w, vc_failedEventId = None, vc_reason = None\<rparr>
      | Some h \<Rightarrow>
          if hd_last_sequence h \<noteq> wk_checked w
          then \<lparr>vc_valid = False, vc_checked = wk_checked w, vc_failedEventId = None,
                vc_reason = Some EventCountMismatch\<rparr>
          else if hd_last_event_hash h \<noteq> wk_previousHash w
          then \<lparr>vc_valid = False, vc_checked = wk_checked w, vc_failedEventId = None,
                vc_reason = Some TailHashMismatch\<rparr>
          else \<lparr>vc_valid = True, vc_checked = wk_checked w, vc_failedEventId = None, vc_reason = None\<rparr>)"

definition verifyAuditChain :: "env \<Rightarrow> string \<Rightarrow> ('a audit_db_scheme, verify_chain_result) op" where
  "verifyAuditChain E orgId =
     bindM (query (ordered_events orgId)) (\<lambda>rows.
     bindM (liftE (verify_pages E rows
              \<lparr>wk_previousHash = None, wk_checked = 0, wk_afterSequence = 0\<rparr>)) (\<lambda>outcome.
     case outcome of
       Inl failure \<Rightarrow> ret failure
     | Inr w \<Rightarrow>
         bindM (query (\<lambda>s. find_row (\<lambda>h. hd_org_id h = orgId) (audit_event_heads s))) (\<lambda>headRow.
         ret (verify_tail headRow w))))"

section \<open>The paged walk is one pass over the chain\<close>

lemma sorted_after_page:
  assumes "sorted_wrt (<) (map ev_sequence rows)" and "verify_page rows a \<noteq> []"
    and "b = ev_sequence (last (verify_page rows a))"
  shows "filter (\<lambda>e. ev_sequence e > b) rows = drop VERIFY_PAGE_SIZE (filter (\<lambda>e. ev_sequence e > a) rows)"
proof -
  let ?F = "filter (\<lambda>e. ev_sequence e > a) rows"
  let ?p = "verify_page rows a" and ?d = "drop VERIFY_PAGE_SIZE ?F"
  have split: "?F = ?p @ ?d" by (simp add: verify_page_def)
  have "sorted_wrt (\<lambda>x y. ev_sequence x < ev_sequence y) rows"
    using assms(1) by (simp add: sorted_wrt_map)
  then have "sorted_wrt (\<lambda>x y. ev_sequence x < ev_sequence y) ?F" by (rule sorted_wrt_filter)
  then have parts: "sorted_wrt (\<lambda>x y. ev_sequence x < ev_sequence y) (butlast ?p @ [last ?p])"
      "\<forall>x \<in> set ?p. \<forall>y \<in> set ?d. ev_sequence x < ev_sequence y"
    using assms(2) by (subst (asm) split, simp add: sorted_wrt_append)+
  have "last ?p \<in> set ?F" using assms(2) by (metis split in_set_conv_decomp last_in_set append_Cons append_assoc)
  then have "a < b" using assms(3) by auto
  have low: "filter (\<lambda>e. ev_sequence e > b) ?p = []"
  proof -
    have "\<not> b < ev_sequence x" if "x \<in> set (butlast ?p @ [last ?p])" for x
      using that parts(1) assms(3) by (auto simp: sorted_wrt_append)
    then show ?thesis using assms(2) by (simp add: filter_empty_conv)
  qed
  have high: "filter (\<lambda>e. ev_sequence e > b) ?d = ?d"
    using parts(2) assms(2,3) by (simp add: filter_id_conv)
  have "filter (\<lambda>e. ev_sequence e > b) rows = filter (\<lambda>e. ev_sequence e > b) ?F"
    using \<open>a < b\<close> by (auto intro: filter_cong)
  also have "\<dots> = ?d" by (subst split, simp add: low high)
  finally show ?thesis .
qed

lemma verify_pages_whole:
  "sorted_wrt (<) (map ev_sequence rows) \<Longrightarrow>
     verify_pages E rows w = verify_rows E (filter (\<lambda>e. ev_sequence e > wk_afterSequence w) rows) w"
proof (induction E rows w rule: verify_pages.induct)
  case (1 E rows w)
  let ?F = "filter (\<lambda>e. ev_sequence e > wk_afterSequence w) rows"
  let ?p = "verify_page rows (wk_afterSequence w)" and ?d = "drop VERIFY_PAGE_SIZE ?F"
  have split: "?F = ?p @ ?d" by (simp add: verify_page_def)
  show ?case
  proof (cases "?p = []")
    case True
    then have "?F = []" by (simp add: verify_page_def VERIFY_PAGE_SIZE_def)
    with True show ?thesis by (simp add: verify_pages.simps [of E rows w])
  next
    case False
    note page = False
    show ?thesis
    proof (cases "\<exists>w'. verify_rows E ?p w = Inr (Inr w')")
      case True
      then obtain w' where w': "verify_rows E ?p w = Inr (Inr w')" by blast
      then have after: "wk_afterSequence w' = ev_sequence (last ?p)"
        using page by (simp add: verify_rows_walked walked_def)
      have rest: "verify_rows E ?F w = verify_rows E ?d w'"
        by (subst split) (simp add: verify_rows_append w')
      show ?thesis
      proof (cases "length ?p < VERIFY_PAGE_SIZE")
        case True
        then have "?d = []" by (auto simp: verify_page_def min_def split: if_splits)
        with rest w' True page show ?thesis by (simp add: verify_pages.simps [of E rows w] Let_def)
      next
        case False
        have "verify_pages E rows w' = verify_rows E ?d w'"
          using "1.IH" [OF refl page w' refl False] "1.prems"
            sorted_after_page [OF "1.prems" page after] by simp
        with rest w' False page show ?thesis by (simp add: verify_pages.simps [of E rows w] Let_def)
      qed
    next
      case False
      then show ?thesis
        using page by (subst split, simp add: verify_pages.simps [of E rows w] verify_rows_append Let_def split: sum.split)
    qed
  qed
qed

section \<open>What a valid verdict means\<close>

text \<open>
  The constraints of \<open>audit_events\<close> the walk relies on: \<open>UNIQUE (org_id, sequence)\<close> and
  \<open>CHECK (sequence > 0)\<close>.
\<close>

definition sequences_ok :: "string \<Rightarrow> ('a audit_db_scheme) \<Rightarrow> bool" where
  "sequences_ok orgId s \<longleftrightarrow>
     distinct (map ev_sequence (org_events orgId s)) \<and> list_all (\<lambda>e. 0 < ev_sequence e) (org_events orgId s)"

definition head_row :: "string \<Rightarrow> ('a audit_db_scheme) \<Rightarrow> audit_head option" where
  "head_row orgId s = find_row (\<lambda>h. hd_org_id h = orgId) (audit_event_heads s)"

definition start_walk :: walk where
  "start_walk = \<lparr>wk_previousHash = None, wk_checked = 0, wk_afterSequence = 0\<rparr>"

lemma verify_pages_ordered:
  assumes "sequences_ok orgId s"
  shows "verify_pages E (ordered_events orgId s) start_walk = verify_rows E (ordered_events orgId s) start_walk"
proof -
  have "sorted (map ev_sequence (ordered_events orgId s))" by (simp add: ordered_events_def)
  moreover have "distinct (map ev_sequence (ordered_events orgId s))"
    using assms by (simp add: sequences_ok_def ordered_events_def distinct_map)
  ultimately have "sorted_wrt (<) (map ev_sequence (ordered_events orgId s))"
    by (simp add: strict_sorted_iff)
  moreover have "filter (\<lambda>e. ev_sequence e > 0) (ordered_events orgId s) = ordered_events orgId s"
    using assms by (simp add: sequences_ok_def ordered_events_def filter_id_conv list_all_iff)
  ultimately show ?thesis by (simp add: verify_pages_whole start_walk_def)
qed

lemma verifyAuditChain_unfold:
  "verifyAuditChain E orgId s =
     (case verify_pages E (ordered_events orgId s) start_walk of
        Inl err \<Rightarrow> (Inl err, s)
      | Inr (Inl failure) \<Rightarrow> (Inr failure, s)
      | Inr (Inr w) \<Rightarrow> (Inr (verify_tail (head_row orgId s) w), s))"
  by (simp add: verifyAuditChain_def bindM_def query_def liftE_def ret_def start_walk_def head_row_def
      split: sum.split)

lemma verify_rows_failure: "verify_rows E rows w = Inr (Inl r) \<Longrightarrow> \<not> vc_valid r"
  by (induction rows arbitrary: w) (auto simp: Let_def failed_at_def split: sum.splits if_splits)

lemma verify_tail_valid:
  "vc_valid (verify_tail h w) \<longleftrightarrow>
     opt_holds (\<lambda>h. hd_last_sequence h = wk_checked w \<and> hd_last_event_hash h = wk_previousHash w) h"
  by (auto simp: verify_tail_def opt_holds_def split: option.split)

lemma verify_valid_iff:
  assumes "sequences_ok orgId s"
  shows "verifyAuditChain E orgId s = (Inr r, s) \<and> vc_valid r \<longleftrightarrow>
     chained E None (ordered_events orgId s) \<and>
     opt_holds (\<lambda>h. hd_last_sequence h = length (ordered_events orgId s) \<and>
                   hd_last_event_hash h = tip None (ordered_events orgId s)) (head_row orgId s) \<and>
     r = \<lparr>vc_valid = True, vc_checked = length (ordered_events orgId s), vc_failedEventId = None,
          vc_reason = None\<rparr>"
proof -
  let ?es = "ordered_events orgId s"
  have run: "verify_rows E ?es start_walk = Inr (Inr w) \<longleftrightarrow> chained E None ?es \<and> w = walked start_walk ?es" for w
    by (simp add: verify_rows_walked start_walk_def)
  have tail: "verify_tail h w = \<lparr>vc_valid = True, vc_checked = wk_checked w, vc_failedEventId = None,
      vc_reason = None\<rparr>" if "vc_valid (verify_tail h w)" for h w
    using that by (auto simp: verify_tail_def split: option.splits if_splits)
  have w: "wk_checked (walked start_walk ?es) = length ?es"
    "wk_previousHash (walked start_walk ?es) = tip None ?es"
    by (simp_all add: walked_def start_walk_def)
  show ?thesis
  proof (cases "chained E None ?es")
    case True
    then have "verify_rows E ?es start_walk = Inr (Inr (walked start_walk ?es))" using run by blast
    then have "verifyAuditChain E orgId s = (Inr (verify_tail (head_row orgId s) (walked start_walk ?es)), s)"
      by (simp add: verifyAuditChain_unfold verify_pages_ordered [OF assms])
    then show ?thesis
      using True verify_tail_valid [of "head_row orgId s" "walked start_walk ?es"]
        tail [of "head_row orgId s" "walked start_walk ?es"] w by auto
  next
    case False
    then have "verify_rows E ?es start_walk \<noteq> Inr (Inr w)" for w using run by blast
    then show ?thesis using False verify_rows_failure
      by (auto simp: verifyAuditChain_unfold verify_pages_ordered [OF assms] split: sum.splits)
  qed
qed

section \<open>Logs the writer produces verify\<close>

lemma linked_chained: "linked E orgId prev n es \<Longrightarrow> chained E prev es"
  by (induction es arbitrary: prev n) (auto simp: expectedEventHash_def storedBodyHash_digest)

lemma linked_ordered:
  assumes "linked E orgId None 0 (org_events orgId s)"
  shows "ordered_events orgId s = org_events orgId s" and "sequences_ok orgId s"
proof -
  have seq: "map ev_sequence (org_events orgId s) = [1 ..< 1 + length (org_events orgId s)]"
    using linked_sequence [OF assms] by simp
  then have "sorted (map ev_sequence (org_events orgId s))" by (metis sorted_upt)
  then show "ordered_events orgId s = org_events orgId s"
    unfolding ordered_events_def by (rule sort_key_id_if_sorted)
  have "ev_sequence ` set (org_events orgId s) = {1 ..< 1 + length (org_events orgId s)}"
    by (metis list.set_map seq set_upt)
  then have "list_all (\<lambda>e. 0 < ev_sequence e) (org_events orgId s)"
    by (force simp: list_all_iff)
  with seq show "sequences_ok orgId s" by (simp add: sequences_ok_def)
qed

lemma audit_ok_verifies:
  assumes "audit_ok E s"
  shows "sequences_ok orgId s" and "ordered_events orgId s = org_events orgId s"
    and "chained E None (ordered_events orgId s)"
    and "opt_holds (\<lambda>h. hd_last_sequence h = length (ordered_events orgId s) \<and>
                        hd_last_event_hash h = tip None (ordered_events orgId s)) (head_row orgId s)"
proof -
  have chain: "linked E orgId None 0 (org_events orgId s)" and head: "head_agrees orgId s"
    using assms by (auto simp: audit_ok_def)
  note ord = linked_ordered [OF chain]
  show "sequences_ok orgId s" "ordered_events orgId s = org_events orgId s" by (rule ord)+
  show "chained E None (ordered_events orgId s)" using linked_chained [OF chain] ord by simp
  show "opt_holds (\<lambda>h. hd_last_sequence h = length (ordered_events orgId s) \<and>
      hd_last_event_hash h = tip None (ordered_events orgId s)) (head_row orgId s)"
    using head ord(1) by (auto simp: head_agrees_def opt_holds_def head_row_def split: option.splits)
qed

text \<open>
  C23. The verdict of the paged walk, on any table contents the schema admits. It is valid
  exactly when every event's stored hash is the digest of its body, every event hash covers its
  predecessor's hash, and the head row, if there is one, counts these events and names the last
  hash; every event is then counted, however many pages the walk took.
\<close>

theorem verify_chain_exact:
  assumes "sequences_ok orgId s"
  shows "(\<exists>r. verifyAuditChain E orgId s = (Inr r, s) \<and> vc_valid r \<and>
              vc_checked r = length (org_events orgId s)) \<longleftrightarrow>
     chained E None (ordered_events orgId s) \<and>
     opt_holds (\<lambda>h. hd_last_sequence h = length (org_events orgId s) \<and>
                   hd_last_event_hash h = tip None (ordered_events orgId s)) (head_row orgId s)"
proof -
  have len: "length (ordered_events orgId s) = length (org_events orgId s)"
    by (simp add: ordered_events_def)
  let ?ok = "chained E None (ordered_events orgId s) \<and>
     opt_holds (\<lambda>h. hd_last_sequence h = length (ordered_events orgId s) \<and>
                   hd_last_event_hash h = tip None (ordered_events orgId s)) (head_row orgId s)"
  have "(\<exists>r. (verifyAuditChain E orgId s = (Inr r, s) \<and> vc_valid r) \<and>
              vc_checked r = length (ordered_events orgId s)) \<longleftrightarrow> ?ok"
    unfolding verify_valid_iff [OF assms] by simp
  then show ?thesis by (simp add: len conj_assoc)
qed

lemma sample_log:
  obtains e s where "recordAuditEvent sample_env (sample_input a) sample_audit = (Inr e, s)"
    and "org_events ''o'' s = [e]" and "audit_ok sample_env s"
proof -
  obtain e s where run: "recordAuditEvent sample_env (sample_input a) sample_audit = (Inr e, s)"
    and es: "org_events ''o'' s = [e]" using sample_run by blast
  have "audit_ok sample_env s"
    using recordAuditEvent_ok [OF _ run] by (simp add: sample_audit_def audit_ok_empty)
  with run es show ?thesis by (rule that)
qed

theorem verify_chain_exact_witness:
  "\<exists>s :: audit_db. sequences_ok ''o'' s \<and> org_events ''o'' s \<noteq> [] \<and>
     (\<exists>r. verifyAuditChain sample_env ''o'' s = (Inr r, s) \<and> vc_valid r \<and>
          vc_checked r = length (org_events ''o'' s))"
proof -
  obtain e s where "recordAuditEvent sample_env (sample_input ''a'') sample_audit = (Inr e, s)"
    and es: "org_events ''o'' s = [e]" and ok: "audit_ok sample_env s" by (rule sample_log)
  note facts = audit_ok_verifies [OF ok, of "''o''"]
  have "opt_holds (\<lambda>h. hd_last_sequence h = length (org_events ''o'' s) \<and>
      hd_last_event_hash h = tip None (ordered_events ''o'' s)) (head_row ''o'' s)"
    using facts(2,4) by simp
  from iffD2 [OF verify_chain_exact [OF facts(1)] conjI [OF facts(3) this]] facts(1) es
  show ?thesis by (intro exI [of _ s]) simp
qed

text \<open>
  No false alarms: whatever the writer recorded, in whatever order and with whatever
  failures, verification of every organisation's chain succeeds and counts all its events.
\<close>

lemma recorded_log_verifies:
  "let s = fold (audit_step E) inputs (empty_audit t os)
   in verifyAuditChain E orgId s =
        (Inr \<lparr>vc_valid = True, vc_checked = length (org_events orgId s), vc_failedEventId = None,
              vc_reason = None\<rparr>, s)"
proof -
  let ?s = "fold (audit_step E) inputs (empty_audit t os)"
  have "audit_ok E ?s" by (rule audit_machine.inv_reachable)
  note facts = audit_ok_verifies [OF this, of orgId]
  show ?thesis
    using iffD2 [OF verify_valid_iff [OF facts(1), of E]] facts(2-4) by (simp add: Let_def)
qed

section \<open>Tamper evidence\<close>

lemma chained_snoc: "chained E prev (es @ [e]) \<longleftrightarrow> chained E prev es \<and> chained E (tip prev es) [e]"
  by (induction es arbitrary: prev) (auto simp: tip_def)

lemma chained_single_hashes:
  assumes "chained E prev [e]"
  shows "ev_previous_hash e = prev \<and> ev_canonical_body_hash e = env_sha256 E (body_text E e) \<and>
         ev_event_hash e = env_sha256 E (link_text E e)"
  using assms digest_VObj [of E "ev_canonical_body e"]
    digest_VObj [of E "[(''canonicalBodyHash'', VStr (ev_canonical_body_hash e)), (''orgId'', VStr (ev_org_id e)),
      (''previousHash'', nullable prev), (''sequence'', VStr (show_nat (ev_sequence e)))]"]
  by (auto simp: body_text_def link_text_def link_value_def expectedEventHash_def storedBodyHash_digest)

lemma tamper_evident:
  assumes "chained E None es" and "chained E None es'"
    and "tip None es = tip None es'"
    and "inj_on (env_sha256 E) (hashed_texts E (es @ es'))"
  shows "map (body_text E) es = map (body_text E) es' \<and> map ev_canonical_body_hash es = map ev_canonical_body_hash es' \<and>
         map ev_event_hash es = map ev_event_hash es'"
  using assms
proof (induction es arbitrary: es' rule: rev_induct)
  case Nil
  then show ?case by (auto simp: tip_def split: if_splits)
next
  case (snoc e es)
  from snoc.prems(3) obtain f fs where es': "es' = fs @ [f]"
    by (cases es' rule: rev_cases) (auto simp: tip_def)
  from snoc.prems(1,2) es' have
    chains: "chained E None es" "chained E None fs"
    and e: "chained E (tip None es) [e]" and f: "chained E (tip None fs) [f]"
    by (simp_all add: chained_snoc del: chained.simps)
  note he = chained_single_hashes [OF e] and hf = chained_single_hashes [OF f]
  have same: "ev_event_hash e = ev_event_hash f" using snoc.prems(3) es' by simp
  have in_texts: "link_text E e \<in> hashed_texts E ((es @ [e]) @ es')" "link_text E f \<in> hashed_texts E ((es @ [e]) @ es')"
    "body_text E e \<in> hashed_texts E ((es @ [e]) @ es')" "body_text E f \<in> hashed_texts E ((es @ [e]) @ es')"
    by (simp_all add: hashed_texts_def es')
  have "env_sha256 E (link_text E e) = env_sha256 E (link_text E f)" using same he hf by metis
  from link_text_inj [OF inj_onD [OF snoc.prems(4) this in_texts(1,2)]]
  have prev: "tip None es = tip None fs" and body: "ev_canonical_body_hash e = ev_canonical_body_hash f"
    using he hf by metis+
  have "env_sha256 E (body_text E e) = env_sha256 E (body_text E f)" using body he hf by metis
  from inj_onD [OF snoc.prems(4) this in_texts(3,4)] have "body_text E e = body_text E f" .
  moreover have "inj_on (env_sha256 E) (hashed_texts E (es @ fs))"
    by (rule inj_on_subset [OF snoc.prems(4)]) (auto simp: hashed_texts_def es')
  ultimately show ?case
    using snoc.IH [OF chains prev] same body es' by simp
qed

text \<open>
  C25. Verification notices tampering. Take the log as the writer left it and any other contents
  of the tables with the same head hash. If verification accepts them, then, unless two of the
  texts hashed collide, the two logs have as many events, with the same canonical bodies, the same
  body hashes and the same event hashes in the same order. Editing a canonical body, dropping,
  inserting or reordering events under an unchanged head is therefore reported. The verification
  reads nothing but the canonical bodies and the columns of the chain: a copy of a field in another
  column is not covered (the witness changes one). It is the verdict on one state of the tables;
  the source reads the pages in separate queries, between which events can be appended.
\<close>

theorem verification_detects_tampering:
  assumes "audit_ok E s" and "head_row orgId s = Some h"
    and "sequences_ok orgId s'" and "head_row orgId s' = Some h'"
    and "hd_last_event_hash h' = hd_last_event_hash h"
    and "verifyAuditChain E orgId s' = (Inr r, s')" and "vc_valid r"
    and "inj_on (env_sha256 E) (hashed_texts E (org_events orgId s @ ordered_events orgId s'))"
  shows "map (body_text E) (ordered_events orgId s') = map (body_text E) (org_events orgId s) \<and>
         map ev_canonical_body_hash (ordered_events orgId s') = map ev_canonical_body_hash (org_events orgId s) \<and>
         map ev_event_hash (ordered_events orgId s') = map ev_event_hash (org_events orgId s)"
proof -
  have "chained E None (ordered_events orgId s')"
    and tip': "hd_last_event_hash h' = tip None (ordered_events orgId s')"
    using verify_valid_iff [OF assms(3), of E r] assms(4,6,7) by (auto simp: opt_holds_def)
  moreover have "tip None (org_events orgId s) = tip None (ordered_events orgId s')"
    using audit_ok_verifies(2,4) [OF assms(1), of orgId] assms(2,5) tip' by (simp add: opt_holds_def)
  moreover have "chained E None (org_events orgId s)"
    using audit_ok_verifies(2,3) [OF assms(1), of orgId] by simp
  ultimately show ?thesis using tamper_evident [OF _ _ _ assms(8)] by simp
qed

text \<open>A log in which the time of recording of every event was changed, which no hash covers.\<close>

definition redated :: "'a audit_db_scheme \<Rightarrow> 'a audit_db_scheme" where
  "redated s = s\<lparr>audit_events := map (\<lambda>e. e\<lparr>ev_recorded_at := ev_recorded_at e + 1\<rparr>) (audit_events s)\<rparr>"

lemma redated_chained: "chained E prev (map (\<lambda>e. e\<lparr>ev_recorded_at := ev_recorded_at e + 1\<rparr>) es) = chained E prev es"
  by (induction es arbitrary: prev) (simp_all add: storedBodyHash_def expectedEventHash_def)

lemma redated_neq: "e\<lparr>ev_recorded_at := ev_recorded_at e + 1\<rparr> \<noteq> e"
proof
  assume "e\<lparr>ev_recorded_at := ev_recorded_at e + 1\<rparr> = e"
  from arg_cong [OF this, of ev_recorded_at] show False by simp
qed

lemma redated_events: "org_events og (redated s) = map (\<lambda>e. e\<lparr>ev_recorded_at := ev_recorded_at e + 1\<rparr>) (org_events og s)"
  by (simp add: org_events_def redated_def filter_map comp_def)

theorem verification_detects_tampering_witness:
  "\<exists>(s :: audit_db) (s' :: audit_db) h r. audit_ok sample_env s \<and> head_row ''o'' s = Some h \<and> sequences_ok ''o'' s' \<and> head_row ''o'' s' = Some h \<and>
     verifyAuditChain sample_env ''o'' s' = (Inr r, s') \<and> vc_valid r \<and>
     inj_on (env_sha256 sample_env) (hashed_texts sample_env (org_events ''o'' s @ ordered_events ''o'' s')) \<and>
     audit_events s' \<noteq> audit_events s \<and> length (ordered_events ''o'' s') = 1 \<and>
     map (body_text sample_env) (ordered_events ''o'' s') = map (body_text sample_env) (org_events ''o'' s) \<and>
     map ev_event_hash (ordered_events ''o'' s') = map ev_event_hash (org_events ''o'' s)"
proof -
  obtain e s where "recordAuditEvent sample_env (sample_input ''a'') sample_audit = (Inr e, s)"
    and es: "org_events ''o'' s = [e]" and ok: "audit_ok sample_env s" by (rule sample_log)
  note facts = audit_ok_verifies [OF ok, of "''o''"]
  let ?s' = "redated s"
  have es': "org_events ''o'' ?s' = [e\<lparr>ev_recorded_at := ev_recorded_at e + 1\<rparr>]" by (simp add: redated_events es)
  then have ord: "ordered_events ''o'' ?s' = [e\<lparr>ev_recorded_at := ev_recorded_at e + 1\<rparr>]" by (simp add: ordered_events_def)
  have seq: "sequences_ok ''o'' ?s'" using facts(1) by (simp add: sequences_ok_def es es')
  have "head_row ''o'' s \<noteq> None"
    using ok es by (auto simp: audit_ok_def head_agrees_def head_row_def split: option.splits)
  then obtain h where h: "head_row ''o'' s = Some h" by blast
  then have h': "head_row ''o'' ?s' = Some h" by (simp add: head_row_def redated_def)
  have chain: "chained sample_env None (ordered_events ''o'' ?s')"
    using facts(2,3) es ord redated_chained [of sample_env None "[e]"] by simp
  have "opt_holds (\<lambda>h. hd_last_sequence h = length (ordered_events ''o'' ?s') \<and>
      hd_last_event_hash h = tip None (ordered_events ''o'' ?s')) (head_row ''o'' ?s')"
    using facts(2,4) by (simp add: es ord h h' tip_def)
  then obtain r where r: "verifyAuditChain sample_env ''o'' ?s' = (Inr r, ?s')" "vc_valid r"
    using iffD2 [OF verify_valid_iff [OF seq, of sample_env]] chain by blast
  have inj: "inj_on (env_sha256 sample_env) S" for S by (simp add: sample_env_def inj_on_def)
  have "e \<in> set (audit_events s)" using es by (auto simp: org_events_def filter_eq_Cons_iff)
  then have differs: "audit_events ?s' \<noteq> audit_events s"
    by (auto simp: redated_def map_eq_conv [of _ _ id, simplified] intro!: bexI [of _ e] redated_neq)
  have one: "length (ordered_events ''o'' ?s') = 1" by (simp add: ord)
  note same = verification_detects_tampering [OF ok h seq h' refl r inj]
  show ?thesis
    by (rule exI [of _ s], rule exI [of _ ?s'], rule exI [of _ h], rule exI [of _ r], intro conjI)
       (rule ok h seq h' r inj differs one conjunct1 [OF same] conjunct2 [OF conjunct2 [OF same]])+
qed

end
