(* ===== verification/Identity.thy ===== *)
theory Identity
  imports AuditLog
begin

text \<open>
  The fleet as the policy and runtime engines read it, \<open>apps/api/src/engines/identity/store.ts\<close>
  and \<open>onboarding-progress.ts\<close> over the tables of migrations 0002 and 0004: teams, agents,
  connections and their credentials, the resolution of a bearer token to an agent, and the
  onboarding upsert that other engines call. Only the hash of a credential is stored.
\<close>

section \<open>Tables\<close>

datatype agent_status = AgentActive | AgentPaused | AgentDeactivated | AgentRetired | AgentSuspended

datatype live_status = Active | Revoked

datatype connection_kind =
    AgentCredential | McpLocal | McpRemote | McpHttp | ApiKey | Sdk | Cli | ProxyKind | ManualObserve

record team_row =
  tm_id :: string
  tm_org_id :: string
  tm_name :: string
  tm_description :: string
  tm_is_default :: bool
  tm_archived_at :: "int option"
  tm_created_at :: int
  tm_updated_at :: int

record agent_row =
  ag_id :: string
  ag_org_id :: string
  ag_team_id :: string
  ag_parent_agent_id :: "string option"
  ag_name :: string
  ag_status :: agent_status
  ag_description :: string
  ag_labels :: "string list"
  ag_default_environment :: "string option"
  ag_metadata :: obj
  ag_created_by_member_id :: string
  ag_created_at :: int
  ag_updated_at :: int

record connection_row =
  cn_id :: string
  cn_org_id :: string
  cn_agent_id :: string
  cn_created_by :: string
  cn_kind :: connection_kind
  cn_name :: string
  cn_status :: live_status
  cn_secret_last4 :: "string option"
  cn_revoked_at :: "int option"
  cn_created_at :: int
  cn_last_tested_at :: "int option"
  cn_last_used_at :: "int option"
  cn_updated_at :: int

record credential_row =
  cc_id :: string
  cc_org_id :: string
  cc_connection_id :: string
  cc_secret_hash :: string
  cc_status :: live_status
  cc_revoked_at :: "int option"

record onboarding_row =
  on_id :: string
  on_org_id :: string
  on_flow_key :: string
  on_status :: string
  on_payload :: obj
  on_completed_at :: "int option"
  on_created_by_user_id :: "string option"
  on_updated_at :: int

record user_row =
  us_id :: string
  us_email :: string
  us_name :: string
  us_avatar_url :: "string option"
  us_last_seen_at :: "int option"
  us_updated_at :: int

datatype member_status = MemberActive | MemberInvited | MemberRemoved

record membership_row =
  mb_id :: string
  mb_org_id :: string
  mb_user_id :: string
  mb_role :: role
  mb_status :: member_status
  mb_joined_at :: "int option"
  mb_created_at :: int
  mb_updated_at :: int

record wallet_ref_row =
  wr_id :: string
  wr_org_id :: string
  wr_agent_id :: string
  wr_provider :: string
  wr_external_wallet_id :: "string option"
  wr_address :: "string option"
  wr_chain :: "string option"
  wr_label :: string
  wr_attached :: bool
  wr_attached_at :: int
  wr_detached_at :: "int option"

record oauth_account_row =
  oa_id :: string
  oa_user_id :: string
  oa_provider :: string
  oa_provider_subject :: string
  oa_email :: string
  oa_email_verified :: bool

record session_row =
  se_id :: string
  se_user_id :: string
  se_token_hash :: string
  se_expires_at :: int
  se_revoked_at :: "int option"
  se_last_used_at :: "int option"

record join_invite_row =
  ji_id :: string
  ji_org_id :: string
  ji_created_by_member_id :: "string option"
  ji_token_hash :: string
  ji_label :: string
  ji_max_uses :: int
  ji_use_count :: int
  ji_expires_at :: "int option"
  ji_revoked_at :: "int option"
  ji_created_at :: int

record open_join_row =
  oj_id :: string
  oj_org_id :: string
  oj_agent_id :: string
  oj_client_fingerprint :: string
  oj_created_at :: int

record identity_db = audit_db +
  teams :: "team_row list"
  agents :: "agent_row list"
  connections :: "connection_row list"
  connection_credentials :: "credential_row list"
  org_onboarding_states :: "onboarding_row list"
  users :: "user_row list"
  memberships :: "membership_row list"
  wallet_refs :: "wallet_ref_row list"
  oauth_accounts :: "oauth_account_row list"
  auth_sessions :: "session_row list"
  join_invites :: "join_invite_row list"
  open_joins :: "open_join_row list"

text \<open>The caller of an operation: \<open>OperatorContext\<close>.\<close>

record operator_context =
  op_actorId :: string
  op_role :: role
  op_userId :: "string option"

section \<open>Audit entries\<close>

text \<open>An audit input with only its required members; call sites set the others.\<close>

definition audit_entry :: "string \<Rightarrow> string \<Rightarrow> string \<Rightarrow> string option \<Rightarrow> audit_outcome \<Rightarrow> audit_input" where
  "audit_entry orgId action actorType actorId outcome =
     \<lparr>ai_orgId = orgId, ai_idempotencyKey = None, ai_eventType = action, ai_occurredAt = None,
      ai_actorType = actorType, ai_actorId = actorId, ai_action = action, ai_outcome = outcome,
      ai_reasonCode = None, ai_resource = None,
      ai_classification = \<lparr>cl_domain = None, cl_category = None, cl_severity = None, cl_tags = None\<rparr>,
      ai_relations = \<lparr>rel_agent = None, rel_team = None, rel_connection = None, rel_walletRef = None,
        rel_policy = None, rel_wallet = None\<rparr>,
      ai_requestId = None, ai_source = \<lparr>src_section = None, src_system = None, src_ref = None\<rparr>,
      ai_refs = \<lparr>ref_policy = None, ref_decision = None, ref_approval = None\<rparr>,
      ai_externalRefs = None, ai_retentionClass = None, ai_payload = None\<rparr>"

section \<open>Authenticating a connection\<close>

definition find_agent :: "string \<Rightarrow> string \<Rightarrow> ('a identity_db_scheme) \<Rightarrow> agent_row option" where
  "find_agent orgId agentId s = find_row (\<lambda>a. ag_org_id a = orgId \<and> ag_id a = agentId) (agents s)"

definition find_connection :: "string \<Rightarrow> string \<Rightarrow> ('a identity_db_scheme) \<Rightarrow> connection_row option" where
  "find_connection orgId connectionId s =
     find_row (\<lambda>c. cn_org_id c = orgId \<and> cn_id c = connectionId) (connections s)"

record connection_auth =
  au_org_id :: string
  au_agent_id :: string
  au_connection_id :: string

definition hashSecret :: "env \<Rightarrow> string \<Rightarrow> string" where
  "hashSecret E secret = env_sha256 E secret"

text \<open>
  The join: a credential row that is active, its active connection in the same organisation,
  and that connection's active agent.
\<close>

definition credential_auth :: "('a identity_db_scheme) \<Rightarrow> credential_row \<Rightarrow> connection_auth option" where
  "credential_auth s cc =
     (if cc_status cc \<noteq> Active then None
      else case find_connection (cc_org_id cc) (cc_connection_id cc) s of
        None \<Rightarrow> None
      | Some c \<Rightarrow>
          if cn_status c \<noteq> Active then None
          else case find_agent (cn_org_id c) (cn_agent_id c) s of
            None \<Rightarrow> None
          | Some a \<Rightarrow>
              if ag_status a \<noteq> AgentActive then None
              else Some \<lparr>au_org_id = cn_org_id c, au_agent_id = cn_agent_id c, au_connection_id = cn_id c\<rparr>)"

definition matching_auth :: "env \<Rightarrow> string \<Rightarrow> ('a identity_db_scheme) \<Rightarrow> connection_auth option" where
  "matching_auth E token s =
     (case List.map_filter (credential_auth s)
             (filter (\<lambda>cc. cc_secret_hash cc = hashSecret E token) (connection_credentials s)) of
        [] \<Rightarrow> None
      | row # _ \<Rightarrow> Some row)"

text \<open>A successful lookup stamps the connection as used.\<close>

definition touch_connection :: "int \<Rightarrow> connection_row \<Rightarrow> connection_row" where
  "touch_connection t c =
     c\<lparr>cn_last_used_at := Some t, cn_last_tested_at := Some (or_else (cn_last_tested_at c) t),
       cn_updated_at := t\<rparr>"

definition authenticateConnection ::
  "env \<Rightarrow> string \<Rightarrow> ('a identity_db_scheme, connection_auth option) op" where
  "authenticateConnection E token =
     bindM (query (matching_auth E token)) (\<lambda>row.
     case row of
       None \<Rightarrow> ret None
     | Some auth \<Rightarrow>
         bindM (modify (\<lambda>s. s\<lparr>connections :=
           update_rows (\<lambda>c. cn_id c = au_connection_id auth) (touch_connection (clock s)) (connections s)\<rparr>)) (\<lambda>_.
         ret (Some auth)))"

section \<open>Onboarding progress\<close>

text \<open>
  \<open>completeProductOnboardingFlow\<close>: insert a completed row, or complete the existing one
  unless it is already completed without having been skipped.
\<close>

definition complete_row :: "int \<Rightarrow> obj \<Rightarrow> onboarding_row \<Rightarrow> onboarding_row" where
  "complete_row t payload r =
     (if on_status r \<noteq> ''completed'' \<or> (\<exists>kv \<in> set (on_payload r). fst kv = ''skipped'')
      then r\<lparr>on_status := ''completed'', on_payload := payload,
             on_completed_at := Some (or_else (on_completed_at r) t), on_updated_at := t\<rparr>
      else r)"

definition completeProductOnboardingFlow ::
  "env \<Rightarrow> string \<Rightarrow> string \<Rightarrow> obj \<Rightarrow> ('a identity_db_scheme, unit) op" where
  "completeProductOnboardingFlow E orgId flowKey payload =
     bindM (prefixedId E ''onb'') (\<lambda>i.
     bindM now (\<lambda>t.
     bindM (query (find_org orgId)) (\<lambda>org.
     bindM (guardM (org \<noteq> None) (PgForeignKeyViolation ''org_onboarding_states'')) (\<lambda>_.
     modify (\<lambda>s. s\<lparr>org_onboarding_states :=
       (if list_ex (\<lambda>r. on_org_id r = orgId \<and> on_flow_key r = flowKey) (org_onboarding_states s)
        then update_rows (\<lambda>r. on_org_id r = orgId \<and> on_flow_key r = flowKey) (complete_row t payload)
               (org_onboarding_states s)
        else org_onboarding_states s @
          [\<lparr>on_id = i, on_org_id = orgId, on_flow_key = flowKey, on_status = ''completed'',
            on_payload = payload, on_completed_at = Some t, on_created_by_user_id = None, on_updated_at = t\<rparr>])\<rparr>)))))"

section \<open>What a token gives\<close>

lemma credential_auth_Some:
  "credential_auth s cc = Some auth \<longleftrightarrow>
     (\<exists>c a. cc_status cc = Active \<and> find_connection (cc_org_id cc) (cc_connection_id cc) s = Some c \<and>
        cn_status c = Active \<and> find_agent (cn_org_id c) (cn_agent_id c) s = Some a \<and>
        ag_status a = AgentActive \<and>
        auth = \<lparr>au_org_id = cn_org_id c, au_agent_id = cn_agent_id c, au_connection_id = cn_id c\<rparr>)"
  by (auto simp: credential_auth_def split: option.splits if_splits)

lemma matching_auth_Some:
  assumes "matching_auth E token s = Some auth"
  obtains cc where "cc \<in> set (connection_credentials s)" and "cc_secret_hash cc = hashSecret E token"
    and "credential_auth s cc = Some auth"
proof -
  let ?rows = "filter (\<lambda>cc. cc_secret_hash cc = hashSecret E token) (connection_credentials s)"
  obtain rest where "List.map_filter (credential_auth s) ?rows = auth # rest"
    using assms by (auto simp: matching_auth_def split: list.splits)
  then have "auth \<in> set (List.map_filter (credential_auth s) ?rows)" by simp
  then show ?thesis using that by (auto simp: List.map_filter_def)
qed

lemma matching_auth_None:
  "matching_auth E token s = None \<longleftrightarrow>
     (\<forall>cc \<in> set (connection_credentials s). cc_secret_hash cc = hashSecret E token \<longrightarrow> credential_auth s cc = None)"
proof -
  let ?rows = "filter (\<lambda>cc. cc_secret_hash cc = hashSecret E token) (connection_credentials s)"
  have "List.map_filter (credential_auth s) ?rows = [] \<longleftrightarrow> (\<forall>cc \<in> set ?rows. credential_auth s cc = None)"
    by (auto simp: List.map_filter_def filter_empty_conv)
  moreover have "matching_auth E token s = None \<longleftrightarrow> List.map_filter (credential_auth s) ?rows = []"
    by (simp add: matching_auth_def split: list.split)
  ultimately show ?thesis by auto
qed

lemma authenticateConnection_Inr:
  "authenticateConnection E token s = (Inr r, s') \<longleftrightarrow>
     r = matching_auth E token s \<and>
     s' = (case r of None \<Rightarrow> s | Some auth \<Rightarrow>
       s\<lparr>connections := update_rows (\<lambda>c. cn_id c = au_connection_id auth) (touch_connection (clock s)) (connections s)\<rparr>)"
  by (auto simp: authenticateConnection_def bindM_Inr split: option.splits)

lemma preserves_authenticateConnection [preserve_intros]:
  "(\<And>s cs. I s \<Longrightarrow> I (s\<lparr>connections := cs\<rparr>)) \<Longrightarrow> preserves I (authenticateConnection E token)"
  unfolding authenticateConnection_def by (intro preserve_intros) auto

lemma preserves_completeProductOnboardingFlow [preserve_intros]:
  assumes "\<And>s n. I s \<Longrightarrow> I (s\<lparr>uuids := n\<rparr>)" and "\<And>s os. I s \<Longrightarrow> I (s\<lparr>org_onboarding_states := os\<rparr>)"
  shows "preserves I (completeProductOnboardingFlow E orgId flowKey payload)"
  unfolding completeProductOnboardingFlow_def by (intro preserve_intros) (simp_all add: assms)

end
