(* ===== verification/PolicyValidator.thy ===== *)
theory PolicyValidator
  imports PolicyDecision
begin

text \<open>
  The statement validator, \<open>apps/api/src/engines/policy/validator.ts\<close>: a loop over the
  statements that accumulates errors and warnings and the ids seen so far. The lemmas show
  that it accepts exactly the well-formed statement lists, and what that gives the decision
  engine.
\<close>

datatype condition_group = ResourceG | PaymentG | ToolG

fun group_name :: "condition_group \<Rightarrow> string" where
  "group_name ResourceG = ''resource''"
| "group_name PaymentG = ''payment''"
| "group_name ToolG = ''tool''"

definition conditionGroups :: "condition_group list" where
  "conditionGroups = [ResourceG, PaymentG, ToolG]"

definition supportedConditionGroups ::
  "string \<Rightarrow> (string \<rightharpoonup> condition_group list) \<Rightarrow> condition_group set" where
  "supportedConditionGroups action actionConditionGroups =
     (if action = ''*'' then set conditionGroups
      else set (case actionConditionGroups action of Some gs \<Rightarrow> gs | None \<Rightarrow> []))"

definition hasValues :: "'a list option \<Rightarrow> bool" where
  "hasValues value = (case value of None \<Rightarrow> False | Some xs \<Rightarrow> xs \<noteq> [])"

definition cond :: "policy_statement \<Rightarrow> (statement_conditions \<Rightarrow> 'a option) \<Rightarrow> 'a option" where
  "cond statement field = (case st_conditions statement of None \<Rightarrow> None | Some cs \<Rightarrow> field cs)"

definition hasResourceCondition :: "policy_statement \<Rightarrow> bool" where
  "hasResourceCondition statement =
     (case cond statement sc_resource of
        None \<Rightarrow> False
      | Some r \<Rightarrow> hasValues (rc_categories r) \<or> hasValues (rc_domains r))"

definition hasPaymentCondition :: "policy_statement \<Rightarrow> bool" where
  "hasPaymentCondition statement =
     (case cond statement sc_payment of
        None \<Rightarrow> False
      | Some p \<Rightarrow> pc_minAmount p \<noteq> None \<or> pc_maxAmount p \<noteq> None \<or> hasValues (pc_assets p) \<or>
                  hasValues (pc_networks p) \<or> hasValues (pc_recipients p))"

definition hasToolCondition :: "policy_statement \<Rightarrow> bool" where
  "hasToolCondition statement =
     (case cond statement sc_tool of
        None \<Rightarrow> False
      | Some t \<Rightarrow> hasValues (tc_names t) \<or> hasValues (tc_riskLevels t))"

definition usedConditionGroups :: "policy_statement \<Rightarrow> condition_group list" where
  "usedConditionGroups statement =
     (if hasResourceCondition statement then [ResourceG] else []) @
     (if hasPaymentCondition statement then [PaymentG] else []) @
     (if hasToolCondition statement then [ToolG] else [])"

record validation_result =
  vr_valid :: bool
  vr_errors :: "string list"
  vr_warnings :: "string list"

definition quoted :: "string \<Rightarrow> string" where
  "quoted s = [CHR 0x22] @ s @ [CHR 0x22]"

definition error_when :: "bool \<Rightarrow> string \<Rightarrow> string list" where
  "error_when b msg = (if b then [msg] else [])"

definition bad_amount :: "string option \<Rightarrow> bool" where
  "bad_amount a = (case a of None \<Rightarrow> False | Some s \<Rightarrow> \<not> isFinite (to_number s))"

text \<open>The body of the loop for the statement at \<open>index\<close>: the errors it pushes, in order.\<close>

definition statement_errors ::
  "string set \<Rightarrow> (string \<rightharpoonup> condition_group list) \<Rightarrow> nat \<Rightarrow> string list \<Rightarrow> policy_statement \<Rightarrow> string list" where
  "statement_errors knownActions actionConditionGroups index seen statement =
     (let sid = ''Statement '' @ quoted (st_id statement) in
      (if trim (st_id statement) = []
       then [''Statement '' @ show_nat (index + 1) @ '' is missing an id.'']
       else error_when (st_id statement \<in> set seen)
              (''Statement id '' @ quoted (st_id statement) @ '' is duplicated.'')) @
      error_when (st_decision statement \<notin> {Allow, Deny, ApprovalRequired, Observe})
        (sid @ '' has an unsupported decision.'') @
      error_when (st_actions statement = []) (sid @ '' must include at least one action.'') @
      concat (map (\<lambda>a. error_when (a \<noteq> ''*'' \<and> a \<notin> knownActions)
        (sid @ '' references unknown action '' @ quoted a @ ''.'')) (st_actions statement)) @
      concat (map (\<lambda>g. concat (map (\<lambda>a.
        error_when (g \<notin> supportedConditionGroups a actionConditionGroups)
          (sid @ '' action '' @ quoted a @ '' does not support '' @ group_name g @ '' conditions.''))
        (st_actions statement))) (usedConditionGroups statement)) @
      error_when (cond statement sc_resource \<noteq> None \<and> \<not> hasResourceCondition statement)
        (sid @ '' has an empty resource condition.'') @
      error_when (cond statement sc_payment \<noteq> None \<and> \<not> hasPaymentCondition statement)
        (sid @ '' has an empty payment condition.'') @
      error_when (cond statement sc_tool \<noteq> None \<and> \<not> hasToolCondition statement)
        (sid @ '' has an empty tool condition.'') @
      error_when (case cond statement sc_payment of None \<Rightarrow> False | Some p \<Rightarrow> bad_amount (pc_minAmount p))
        (sid @ '' has an invalid payment minAmount.'') @
      error_when (case cond statement sc_payment of None \<Rightarrow> False | Some p \<Rightarrow> bad_amount (pc_maxAmount p))
        (sid @ '' has an invalid payment maxAmount.'') @
      error_when (st_audit statement \<notin> {Standard, Detailed}) (sid @ '' has an unsupported audit level.''))"

definition statement_warnings :: "policy_statement \<Rightarrow> string list" where
  "statement_warnings statement =
     error_when (st_decision statement = Allow)
       (''Statement '' @ quoted (st_id statement) @
        '' allows a request but does not make enforcement stricter.'')"

fun validate_loop ::
  "string set \<Rightarrow> (string \<rightharpoonup> condition_group list) \<Rightarrow> nat \<Rightarrow> string list \<Rightarrow> string list \<Rightarrow> string list \<Rightarrow>
   policy_statement list \<Rightarrow> string list \<times> string list" where
  "validate_loop known groups index seen errors warnings [] = (errors, warnings)"
| "validate_loop known groups index seen errors warnings (st # sts) =
     validate_loop known groups (index + 1) (st_id st # seen)
       (errors @ statement_errors known groups index seen st)
       (warnings @ statement_warnings st) sts"

definition validatePolicyStatements ::
  "string set \<Rightarrow> (string \<rightharpoonup> condition_group list) \<Rightarrow> policy_statement list \<Rightarrow> validation_result" where
  "validatePolicyStatements knownActions actionConditionGroups statements =
     (let (errors, warnings) =
        validate_loop knownActions actionConditionGroups 0 []
          (error_when (statements = []) ''Policy must contain at least one statement.'') [] statements
      in \<lparr>vr_valid = (errors = []), vr_errors = errors, vr_warnings = warnings\<rparr>)"

section \<open>What validation accepts\<close>

definition statement_ok ::
  "string set \<Rightarrow> (string \<rightharpoonup> condition_group list) \<Rightarrow> policy_statement \<Rightarrow> bool" where
  "statement_ok known groups st \<longleftrightarrow>
     trim (st_id st) \<noteq> [] \<and>
     supported (st_decision st) \<and>
     st_actions st \<noteq> [] \<and>
     (\<forall>a \<in> set (st_actions st). a = ''*'' \<or> a \<in> known) \<and>
     (\<forall>g \<in> set (usedConditionGroups st). \<forall>a \<in> set (st_actions st). g \<in> supportedConditionGroups a groups) \<and>
     (cond st sc_resource = None \<or> hasResourceCondition st) \<and>
     (cond st sc_payment = None \<or> hasPaymentCondition st) \<and>
     (cond st sc_tool = None \<or> hasToolCondition st) \<and>
     (\<forall>p. cond st sc_payment = Some p \<longrightarrow> \<not> bad_amount (pc_minAmount p) \<and> \<not> bad_amount (pc_maxAmount p)) \<and>
     (st_audit st = Standard \<or> st_audit st = Detailed)"

lemma error_when_Nil [simp]: "error_when b m = [] \<longleftrightarrow> \<not> b"
  by (simp add: error_when_def)

lemma supported_listed: "supported d \<longleftrightarrow> d \<in> {Allow, Deny, ApprovalRequired, Observe}"
  by (cases d) auto

lemma statement_errors_Nil:
  "statement_errors known groups i seen st = [] \<longleftrightarrow> statement_ok known groups st \<and> st_id st \<notin> set seen"
  unfolding statement_errors_def statement_ok_def supported_listed Let_def
  by (cases "cond st sc_payment") auto

lemma validate_loop_errors_acc:
  "fst (validate_loop known groups i seen es ws sts) =
     es @ fst (validate_loop known groups i seen [] [] sts)"
proof (induction sts arbitrary: i seen es ws)
  case Nil
  then show ?case by simp
next
  case (Cons st sts)
  show ?case
    using Cons.IH [of "Suc i" "st_id st # seen" "es @ statement_errors known groups i seen st"]
      Cons.IH [of "Suc i" "st_id st # seen" "statement_errors known groups i seen st"]
    by simp
qed

lemma validate_loop_ok:
  "fst (validate_loop known groups i seen [] ws sts) = [] \<longleftrightarrow>
     (\<forall>st \<in> set sts. statement_ok known groups st) \<and> distinct (map st_id sts) \<and>
     set (map st_id sts) \<inter> set seen = {}"
proof (induction sts arbitrary: i seen ws)
  case Nil
  then show ?case by simp
next
  case (Cons st sts)
  show ?case
    using Cons.IH [of "Suc i" "st_id st # seen"]
      validate_loop_errors_acc [of known groups "Suc i" "st_id st # seen"
        "statement_errors known groups i seen st" "ws @ statement_warnings st" sts]
      validate_loop_errors_acc [of known groups "Suc i" "st_id st # seen" "[]" "[]" sts]
    by (auto simp: statement_errors_Nil)
qed

lemma validate_valid_iff:
  "vr_valid (validatePolicyStatements known groups sts) \<longleftrightarrow>
     sts \<noteq> [] \<and> distinct (map st_id sts) \<and> (\<forall>st \<in> set sts. statement_ok known groups st)"
  using validate_loop_errors_acc [of known groups 0 "[]"
      "error_when (sts = []) ''Policy must contain at least one statement.''" "[]" sts]
    validate_loop_ok [of known groups 0 "[]" "[]" sts]
  by (auto simp: validatePolicyStatements_def case_prod_beta)

text \<open>
  C27. The validator accepts exactly the non-empty statement lists with distinct ids in which
  every statement is well-formed on its own, whatever the loop accumulated before it.
\<close>

theorem validate_accepts_exactly:
  "vr_valid (validatePolicyStatements known groups sts) \<longleftrightarrow>
     sts \<noteq> [] \<and> distinct (map st_id sts) \<and> list_all (statement_ok known groups) sts"
  by (simp add: validate_valid_iff list_all_iff)

text \<open>
  C28. What validation buys the decision engine. A validated statement that matches a request
  uses only condition groups registered for the request's action (all three under the
  wildcard), its decision is one the engine ranks, and its amount bounds are finite numbers,
  so the engine never drops it for an unreadable bound.
\<close>

theorem validated_statement_enforceable:
  assumes "vr_valid (validatePolicyStatements known groups sts)"
    and "st \<in> set sts" and "matchesStatement st request"
  shows "supported (st_decision st) \<and>
     set (usedConditionGroups st) \<subseteq>
       (if ''*'' \<in> set (st_actions st) then {ResourceG, PaymentG, ToolG}
        else supportedConditionGroups (rq_action request) groups) \<and>
     (\<forall>p b. cond st sc_payment = Some p \<longrightarrow> pc_minAmount p = Some b \<or> pc_maxAmount p = Some b \<longrightarrow>
        isFinite (to_number b))"
proof -
  from assms(1,2) have ok: "statement_ok known groups st"
    by (simp add: validate_valid_iff)
  have groups: "set (usedConditionGroups st) \<subseteq> supportedConditionGroups (rq_action request) groups"
    if "''*'' \<notin> set (st_actions st)"
  proof -
    from assms(3) that have "rq_action request \<in> set (st_actions st)"
      by (auto simp: matchesStatement_def split: if_splits)
    with ok show ?thesis by (auto simp: statement_ok_def)
  qed
  have all: "set (usedConditionGroups st) \<subseteq> {ResourceG, PaymentG, ToolG}"
    by (auto simp: usedConditionGroups_def)
  have finite: "\<forall>p b. cond st sc_payment = Some p \<longrightarrow> pc_minAmount p = Some b \<or> pc_maxAmount p = Some b \<longrightarrow>
        isFinite (to_number b)"
    using ok by (auto simp: statement_ok_def bad_amount_def)
  from ok groups all finite show ?thesis by (simp add: statement_ok_def)
qed

definition payment_statement :: policy_statement where
  "payment_statement =
     \<lparr>st_id = ''cap'', st_decision = ApprovalRequired, st_actions = [''payment.x402.authorize''],
      st_roles = None, st_target_types = None, st_target_ids = None,
      st_conditions = Some \<lparr>sc_resource = None, sc_payment = Some bounded_condition, sc_tool = None\<rparr>,
      st_audit = Standard\<rparr>"

definition payment_request :: decision_request where
  "payment_request = plain_request\<lparr>rq_action := ''payment.x402.authorize'', rq_context := payment_context\<rparr>"

theorem validated_statement_enforceable_witness:
  "vr_valid (validatePolicyStatements {''payment.x402.authorize''}
     [''payment.x402.authorize'' \<mapsto> [PaymentG]] [payment_statement]) \<and>
   matchesStatement payment_statement payment_request \<and>
   supported (st_decision payment_statement) \<and> isFinite (to_number ''100'')"
  (is "?valid \<and> ?match \<and> _ \<and> _")
proof -
  have used: "usedConditionGroups payment_statement = [PaymentG]"
    by (simp add: usedConditionGroups_def hasResourceCondition_def hasPaymentCondition_def
        hasToolCondition_def cond_def payment_statement_def bounded_condition_def)
  have valid: ?valid
    by (simp add: validate_valid_iff statement_ok_def used)
       (simp add: payment_statement_def cond_def hasPaymentCondition_def bounded_condition_def
        supportedConditionGroups_def bad_amount_def to_number_100 to_number_tenth
        trim_def is_space_def code_def)
  have match: ?match
    by (simp add: matchesStatement_def payment_statement_def payment_request_def plain_request_def
        restricted_to_def matchesConditions_def opt_holds_def bounded_condition_matches)
  have "payment_statement \<in> set [payment_statement]" by simp
  from validated_statement_enforceable [OF valid this match]
  have "supported (st_decision payment_statement)"
    and "\<And>p b. cond payment_statement sc_payment = Some p \<Longrightarrow>
           pc_minAmount p = Some b \<or> pc_maxAmount p = Some b \<Longrightarrow> isFinite (to_number b)"
    by blast+
  moreover have "cond payment_statement sc_payment = Some bounded_condition"
    and "pc_maxAmount bounded_condition = Some ''100''"
    by (simp_all add: cond_def payment_statement_def bounded_condition_def)
  ultimately show ?thesis using valid match by blast
qed

end
