(* ===== verification/PolicyStore.thy ===== *)
theory PolicyStore
  imports Identity PolicyValidator
begin

text \<open>
  The stored policies and the recorded decision, \<open>apps/api/src/engines/policy/store.ts\<close>: the
  action catalogue, which policies are in force for a request, and the check that evaluates
  them, writes the audit event and the decision row in one transaction. A decision depends only
  on the active versions bound in the requester's own organisation along the target's path.
\<close>

section \<open>Tables\<close>

datatype version_status = VersionActive | VersionSuperseded | VersionArchived

datatype draft_status = DraftOpen | DraftValidated | DraftActivated | DraftDiscarded

datatype revision_mode = Revision | Restore

datatype binding_status = BindingActive | BindingRemoved

record policy_action_row =
  pa_action_id :: string
  pa_category :: string
  pa_label :: string
  pa_introduced_section :: int
  pa_condition_groups :: jsval
  pa_binding_target_types :: jsval

record restore_binding =
  rb_target_type :: target_type
  rb_target_id :: string

record policy_draft_row =
  pd_id :: string
  pd_org_id :: string
  pd_source :: string
  pd_name :: string
  pd_description :: string
  pd_category :: string
  pd_status :: draft_status
  pd_statements :: "policy_statement list"
  pd_validation :: validation_result
  pd_created_by :: string
  pd_updated_by :: string
  pd_activated :: "(string \<times> int) option"
  pd_revision_policy_id :: "string option"
  pd_revision_base_version :: "int option"
  pd_revision_mode :: "revision_mode option"
  pd_restore_bindings :: "restore_binding list"
  pd_updated_at :: int

record policy_version_row =
  pv_policy_id :: string
  pv_version :: int
  pv_org_id :: string
  pv_draft_id :: "string option"
  pv_name :: string
  pv_description :: string
  pv_category :: string
  pv_status :: version_status
  pv_statements :: "policy_statement list"
  pv_validation :: validation_result
  pv_change_reason :: string
  pv_created_by :: string
  pv_archived_by :: "string option"
  pv_archived_at :: "int option"
  pv_created_at :: int

record policy_binding_row =
  pb_id :: string
  pb_org_id :: string
  pb_policy_id :: string
  pb_policy_version :: int
  pb_target_type :: target_type
  pb_target_id :: string
  pb_status :: binding_status
  pb_created_by :: string
  pb_created_at :: int
  pb_removed_by :: "string option"
  pb_removed_at :: "int option"
  pb_removed_reason :: "string option"

record policy_decision_row =
  pc_id :: string
  pc_org_id :: string
  pc_actor_type :: actor_type
  pc_actor_id :: "string option"
  pc_actor_role :: "role option"
  pc_action_id :: string
  pc_target_type :: target_type
  pc_target_id :: "string option"
  pc_context :: obj
  pc_decision :: decision_value
  pc_enforceability :: string
  pc_reason_code :: string
  pc_explanation :: string
  pc_matched :: "decision_match list"
  pc_audit_event_id :: string
  pc_created_at :: int

record policy_simulation_row =
  ps_id :: string
  ps_org_id :: string
  ps_draft_id :: string
  ps_request :: decision_request
  ps_result :: decision_result
  ps_created_by :: string

record policy_db = identity_db +
  policy_action_registry :: "policy_action_row list"
  policy_drafts :: "policy_draft_row list"
  policy_versions :: "policy_version_row list"
  policy_bindings :: "policy_binding_row list"
  policy_decisions :: "policy_decision_row list"
  policy_simulations :: "policy_simulation_row list"

section \<open>Names as the code writes them\<close>

fun decision_name :: "decision_value \<Rightarrow> string" where
  "decision_name Allow = ''allow''"
| "decision_name Observe = ''observe''"
| "decision_name ApprovalRequired = ''approval_required''"
| "decision_name Deny = ''deny''"
| "decision_name (OtherDecision s) = s"

fun target_name :: "target_type \<Rightarrow> string" where
  "target_name OrgT = ''org''"
| "target_name TeamT = ''team''"
| "target_name AgentT = ''agent''"
| "target_name ConnectionT = ''connection''"

fun actor_name :: "actor_type \<Rightarrow> string" where
  "actor_name UserA = ''user''"
| "actor_name AgentA = ''agent''"
| "actor_name ConnectionA = ''connection''"
| "actor_name SystemA = ''system''"

definition match_json :: "decision_match \<Rightarrow> jsval" where
  "match_json m =
     VObj [(''policyId'', VStr (dm_policyId m)), (''policyVersion'', VNum (Fin (of_int (dm_policyVersion m)))),
           (''policyName'', VStr (dm_policyName m)), (''statementId'', VStr (dm_statementId m)),
           (''decision'', VStr (decision_name (dm_decision m)))]"

section \<open>The action catalogue\<close>

definition targetTypeOrder :: "target_type list" where
  "targetTypeOrder = [OrgT, TeamT, AgentT, ConnectionT]"

definition conditionGroupOrder :: "condition_group list" where
  "conditionGroupOrder = [ResourceG, PaymentG, ToolG]"

definition stringArrayFromJson :: "jsval \<Rightarrow> string list" where
  "stringArrayFromJson v =
     (case v of
        VArr vs \<Rightarrow> List.map_filter (\<lambda>x. case x of VStr s \<Rightarrow> Some s | _ \<Rightarrow> None) vs
      | _ \<Rightarrow> [])"

definition conditionGroupsFromJson :: "jsval \<Rightarrow> condition_group list" where
  "conditionGroupsFromJson v =
     filter (\<lambda>g. group_name g \<in> set (stringArrayFromJson v)) conditionGroupOrder"

definition targetTypesFromJson :: "jsval \<Rightarrow> target_type list" where
  "targetTypesFromJson v =
     filter (\<lambda>t. target_name t \<in> set (stringArrayFromJson v)) targetTypeOrder"

definition find_action :: "string \<Rightarrow> ('a policy_db_scheme) \<Rightarrow> policy_action_row option" where
  "find_action action s = find_row (\<lambda>a. pa_action_id a = action) (policy_action_registry s)"

definition actionConditionGroups :: "('a policy_db_scheme) \<Rightarrow> (string \<rightharpoonup> condition_group list)" where
  "actionConditionGroups s action =
     map_option (\<lambda>a. conditionGroupsFromJson (pa_condition_groups a)) (find_action action s)"

definition knownActions :: "('a policy_db_scheme) \<Rightarrow> string set" where
  "knownActions s = set (map pa_action_id (policy_action_registry s))"

definition bindingTargetTypesForAction :: "string \<Rightarrow> ('a policy_db_scheme) \<Rightarrow> target_type list" where
  "bindingTargetTypesForAction action s =
     (if action = ''*'' then targetTypeOrder
      else case find_action action s of
        None \<Rightarrow> []
      | Some a \<Rightarrow> targetTypesFromJson (pa_binding_target_types a))"

definition bindingTargetTypesForStatements ::
  "policy_statement list \<Rightarrow> ('a policy_db_scheme) \<Rightarrow> target_type list" where
  "bindingTargetTypesForStatements statements s =
     (let allowed = concat (map (\<lambda>st. concat (map (\<lambda>a. bindingTargetTypesForAction a s) (st_actions st))) statements)
      in filter (\<lambda>t. t \<in> set allowed) targetTypeOrder)"

definition assertBindingTargetTypeAllowed ::
  "policy_statement list \<Rightarrow> target_type \<Rightarrow> ('a policy_db_scheme, unit) op" where
  "assertBindingTargetTypeAllowed statements targetType =
     bindM (query (bindingTargetTypesForStatements statements)) (\<lambda>allowedTypes.
     guardM (targetType \<in> set allowedTypes)
       (badRequest ''invalid_policy_binding_target''
          (''This policy cannot be bound to a '' @ target_name targetType @ '' target.'')))"

definition validateStatements :: "policy_statement list \<Rightarrow> ('a policy_db_scheme, validation_result) op" where
  "validateStatements statements =
     query (\<lambda>s. validatePolicyStatements (knownActions s) (actionConditionGroups s) statements)"

definition binding_target_exists ::
  "string \<Rightarrow> target_type \<Rightarrow> string \<Rightarrow> ('a policy_db_scheme) \<Rightarrow> bool" where
  "binding_target_exists orgId targetType targetId s =
     (case targetType of
        AgentT \<Rightarrow> find_agent orgId targetId s \<noteq> None
      | ConnectionT \<Rightarrow> find_connection orgId targetId s \<noteq> None
      | OrgT \<Rightarrow> orgId = targetId \<and> find_org orgId s \<noteq> None
      | TeamT \<Rightarrow> list_ex (\<lambda>t. tm_org_id t = orgId \<and> tm_id t = targetId) (teams s))"

definition assertBindingTargetExists ::
  "string \<Rightarrow> target_type \<Rightarrow> string \<Rightarrow> ('a policy_db_scheme, unit) op" where
  "assertBindingTargetExists orgId targetType targetId =
     bindM (query (binding_target_exists orgId targetType targetId)) (\<lambda>found.
     guardM found (notFound ''Policy binding target was not found.''))"

section \<open>Policies in force for a request\<close>

definition orgDefaultPolicyEffect :: "string \<Rightarrow> ('a policy_db_scheme) \<Rightarrow> default_effect" where
  "orgDefaultPolicyEffect orgId s =
     (case find_org orgId s of None \<Rightarrow> DefaultDeny | Some o' \<Rightarrow> org_default_policy_effect o')"

text \<open>The path of a target: its organisation, its team, its agent, the connection itself.\<close>

definition targetBindingCandidates ::
  "string \<Rightarrow> target_type \<Rightarrow> string option \<Rightarrow> ('a policy_db_scheme) \<Rightarrow> (target_type \<times> string) list" where
  "targetBindingCandidates orgId targetType targetId s =
     (let candidates = [(OrgT, orgId)]
      in if targetType = OrgT then candidates
         else case targetId of
           None \<Rightarrow> candidates
         | Some i \<Rightarrow>
             if targetType = TeamT then candidates @ [(TeamT, i)]
             else if targetType = AgentT then
               (case find_agent orgId i s of
                  None \<Rightarrow> candidates
                | Some a \<Rightarrow> candidates @ [(TeamT, ag_team_id a), (AgentT, i)])
             else
               (case find_connection orgId i s of
                  None \<Rightarrow> candidates
                | Some c \<Rightarrow>
                    (case find_agent orgId (cn_agent_id c) s of
                       None \<Rightarrow> candidates
                     | Some a \<Rightarrow> candidates @
                         [(TeamT, ag_team_id a), (AgentT, cn_agent_id c), (ConnectionT, i)])))"

text \<open>The join condition between a version and a binding, with the \<open>WHERE\<close> clause.\<close>

definition binding_applies ::
  "string \<Rightarrow> (target_type \<times> string) list \<Rightarrow> policy_version_row \<Rightarrow> policy_binding_row \<Rightarrow> bool" where
  "binding_applies orgId candidates pv pb \<longleftrightarrow>
     pb_org_id pb = pv_org_id pv \<and> pb_policy_id pb = pv_policy_id pv \<and>
     pb_policy_version pb = pv_version pv \<and>
     pv_org_id pv = orgId \<and> pv_status pv = VersionActive \<and> pb_status pb = BindingActive \<and>
     (pb_target_type pb, pb_target_id pb) \<in> set candidates"

definition version_order :: "env \<Rightarrow> policy_version_row \<Rightarrow> policy_version_row \<Rightarrow> int" where
  "version_order E p q =
     (let c = env_collate E (pv_policy_id p) (pv_policy_id q)
      in if c \<noteq> 0 then c else pv_version p - pv_version q)"

text \<open>
  \<open>SELECT DISTINCT ON (policy_id, version) ... ORDER BY policy_id, version\<close>: the pair is the
  table's primary key, so each version with some applicable binding appears once.
\<close>

definition effectivePoliciesForRequest ::
  "env \<Rightarrow> string \<Rightarrow> decision_request \<Rightarrow> ('a policy_db_scheme) \<Rightarrow> effective_policy list" where
  "effectivePoliciesForRequest E orgId request s =
     (let candidates = targetBindingCandidates orgId (rq_target_type request) (rq_target_id request) s
      in map (\<lambda>pv. \<lparr>ep_policyId = pv_policy_id pv, ep_version = pv_version pv, ep_name = pv_name pv,
                    ep_statements = pv_statements pv\<rparr>)
           (sort_by (version_order E)
             (filter (\<lambda>pv. list_ex (binding_applies orgId candidates pv) (policy_bindings s))
               (policy_versions s))))"

section \<open>The recorded decision\<close>

record recorded_decision = decision_result +
  rd_id :: string

definition decisionOutcome :: "decision_value \<Rightarrow> audit_outcome" where
  "decisionOutcome decision =
     (if decision = Deny then Denied else if decision = ApprovalRequired then Pending else Success)"

definition decisionRelations :: "decision_request \<Rightarrow> audit_relations" where
  "decisionRelations request =
     \<lparr>rel_agent = (if rq_target_type request = AgentT then rq_target_id request else None), rel_team = None,
      rel_connection = (if rq_target_type request = ConnectionT then rq_target_id request else None),
      rel_walletRef = None, rel_policy = None, rel_wallet = None\<rparr>"

definition decision_audit ::
  "operator_context \<Rightarrow> string \<Rightarrow> decision_request \<Rightarrow> decision_result \<Rightarrow> string \<Rightarrow> audit_input" where
  "decision_audit operator orgId request result decisionId =
     (audit_entry orgId ''policy.decision.recorded'' (actor_name (rq_actor_type request))
        (Some (or_else (rq_actor_id request) (op_actorId operator))) (decisionOutcome (dr_decision result)))
     \<lparr>ai_idempotencyKey := Some (''policy.decision.recorded:'' @ decisionId),
      ai_reasonCode := Some (dr_reasonCode result),
      ai_resource := Some (''policy_decision'', decisionId),
      ai_classification := \<lparr>cl_domain = Some ''policy'', cl_category = Some ''policy'',
        cl_severity = Some (if dr_decision result = Deny then ''warning'' else ''info''),
        cl_tags = Some [''section_2'', ''policy'', ''decision'']\<rparr>,
      ai_source := \<lparr>src_section = Some ''section_2'', src_system = Some ''policy'', src_ref = None\<rparr>,
      ai_refs := \<lparr>ref_policy = None, ref_decision = Some decisionId, ref_approval = None\<rparr>,
      ai_payload := Some (VObj [(''action'', VStr (rq_action request)),
        (''target_type'', VStr (target_name (rq_target_type request))),
        (''target_id'', nullable (rq_target_id request)),
        (''decision'', VStr (decision_name (dr_decision result))),
        (''matched'', VArr (map match_json (dr_matched result)))]),
      ai_relations := decisionRelations request\<rparr>"

definition decision_row ::
  "string \<Rightarrow> decision_request \<Rightarrow> decision_result \<Rightarrow> string \<Rightarrow> string \<Rightarrow> int \<Rightarrow> policy_decision_row" where
  "decision_row orgId request result decisionId auditId t =
     \<lparr>pc_id = decisionId, pc_org_id = orgId, pc_actor_type = rq_actor_type request,
      pc_actor_id = rq_actor_id request, pc_actor_role = rq_actor_role request,
      pc_action_id = rq_action request, pc_target_type = rq_target_type request,
      pc_target_id = rq_target_id request, pc_context = rq_context request,
      pc_decision = dr_decision result, pc_enforceability = dr_enforceability result,
      pc_reason_code = dr_reasonCode result, pc_explanation = dr_explanation result,
      pc_matched = dr_matched result, pc_audit_event_id = auditId, pc_created_at = t\<rparr>"

definition insert_decision :: "policy_decision_row \<Rightarrow> ('a policy_db_scheme, unit) op" where
  "insert_decision row =
     bindM (query policy_decisions) (\<lambda>rows.
     bindM (guardM (\<not> list_ex (\<lambda>r. pc_id r = pc_id row) rows) (PgUniqueViolation ''policy_decisions'')) (\<lambda>_.
     bindM (guardM (pc_decision row \<in> {Allow, Deny, ApprovalRequired, Observe})
       (PgCheckViolation ''policy_decisions'')) (\<lambda>_.
     modify (\<lambda>s. s\<lparr>policy_decisions := policy_decisions s @ [row]\<rparr>))))"

definition with_id :: "string \<Rightarrow> decision_result \<Rightarrow> recorded_decision" where
  "with_id i r =
     \<lparr>dr_decision = dr_decision r, dr_enforceability = dr_enforceability r, dr_reasonCode = dr_reasonCode r,
      dr_explanation = dr_explanation r, dr_matched = dr_matched r, rd_id = i\<rparr>"

definition policy_verdict :: "env \<Rightarrow> string \<Rightarrow> decision_request \<Rightarrow> ('a policy_db_scheme) \<Rightarrow> decision_result" where
  "policy_verdict E orgId request s =
     evaluatePolicyDecision request (effectivePoliciesForRequest E orgId request s)
       (Some (orgDefaultPolicyEffect orgId s))"

definition checkPolicyDecision ::
  "env \<Rightarrow> operator_context \<Rightarrow> string \<Rightarrow> decision_request \<Rightarrow> ('a policy_db_scheme, recorded_decision) op" where
  "checkPolicyDecision E operator orgId request =
     withTransaction (
       bindM (query (find_action (rq_action request))) (\<lambda>action.
       bindM (guardM (action \<noteq> None)
         (badRequest ''unknown_policy_action'' ''Policy action is not registered.'')) (\<lambda>_.
       bindM (query (policy_verdict E orgId request)) (\<lambda>result.
       bindM (prefixedId E ''pdec'') (\<lambda>decisionId.
       bindM (recordAuditEvent E (decision_audit operator orgId request result decisionId)) (\<lambda>audit.
       bindM now (\<lambda>t.
       bindM (insert_decision (decision_row orgId request result decisionId (ev_id audit) t)) (\<lambda>_.
       ret (with_id decisionId result)))))))))"

definition assertPolicyAllows ::
  "env \<Rightarrow> operator_context \<Rightarrow> string \<Rightarrow> string \<Rightarrow> target_type \<Rightarrow> string option \<Rightarrow> obj \<Rightarrow>
   ('a policy_db_scheme, unit) op" where
  "assertPolicyAllows E operator orgId action targetType targetId context =
     bindM (checkPolicyDecision E operator orgId
       \<lparr>rq_actor_type = UserA, rq_actor_id = Some (op_actorId operator), rq_actor_role = Some (op_role operator),
        rq_action = action, rq_target_type = targetType, rq_target_id = targetId, rq_context = context\<rparr>) (\<lambda>decision.
     if dr_decision decision = Deny
     then throw (IdentityError (dr_reasonCode decision) 403 (dr_explanation decision))
     else if dr_decision decision = ApprovalRequired
     then throw (IdentityError (dr_reasonCode decision) 409 (dr_explanation decision))
     else ret ())"

section \<open>The assignments shown for an agent\<close>

datatype binding_scope = CredentialScope | DirectScope | TeamScope | WorkspaceScope

record binding_candidate =
  bc_type :: target_type
  bc_id :: string
  bc_label :: string
  bc_scope :: binding_scope

definition agentPolicyBindingCandidates ::
  "env \<Rightarrow> string \<Rightarrow> string \<Rightarrow> ('a policy_db_scheme, binding_candidate list) op" where
  "agentPolicyBindingCandidates E orgId agentId =
     bindM (query (\<lambda>s. (find_agent orgId agentId s, find_org orgId s))) (\<lambda>(agent, org).
     bindM (query (\<lambda>s. case agent of None \<Rightarrow> None | Some a \<Rightarrow>
        find_row (\<lambda>t. tm_org_id t = orgId \<and> tm_id t = ag_team_id a) (teams s))) (\<lambda>team.
     case (agent, org, team) of
       (Some a, Some o', Some t) \<Rightarrow>
         query (\<lambda>s.
           [\<lparr>bc_type = OrgT, bc_id = orgId, bc_label = org_display_name o', bc_scope = WorkspaceScope\<rparr>,
            \<lparr>bc_type = TeamT, bc_id = tm_id t, bc_label = tm_name t, bc_scope = TeamScope\<rparr>,
            \<lparr>bc_type = AgentT, bc_id = agentId, bc_label = ag_name a, bc_scope = DirectScope\<rparr>] @
           map (\<lambda>c. \<lparr>bc_type = ConnectionT, bc_id = cn_id c, bc_label = cn_name c, bc_scope = CredentialScope\<rparr>)
             (sort_by (\<lambda>c d. if cn_created_at c \<noteq> cn_created_at d then cn_created_at c - cn_created_at d
                             else env_collate E (cn_id c) (cn_id d))
               (filter (\<lambda>c. cn_org_id c = orgId \<and> cn_agent_id c = agentId \<and> cn_status c = Active)
                 (connections s))))
     | _ \<Rightarrow> throw (notFound ''Agent was not found.'')))"

record agent_assignment =
  aa_id :: string
  aa_version :: int
  aa_name :: string
  aa_description :: string
  aa_category :: string
  aa_binding_id :: string
  aa_scope :: binding_scope
  aa_target_type :: target_type
  aa_target_id :: string
  aa_target_label :: string

fun target_rank :: "target_type \<Rightarrow> int" where
  "target_rank AgentT = 1"
| "target_rank ConnectionT = 2"
| "target_rank TeamT = 3"
| "target_rank OrgT = 4"

definition assignment_order ::
  "env \<Rightarrow> policy_version_row \<times> policy_binding_row \<Rightarrow> policy_version_row \<times> policy_binding_row \<Rightarrow> int" where
  "assignment_order E x y =
     (let r = target_rank (pb_target_type (snd x)) - target_rank (pb_target_type (snd y));
          c = pv_created_at (fst y) - pv_created_at (fst x)
      in if r \<noteq> 0 then r else if c \<noteq> 0 then c
         else env_collate E (pv_policy_id (fst y)) (pv_policy_id (fst x)))"

text \<open>\<open>new Map(...)\<close> keeps the last candidate of a key.\<close>

definition assignment_of ::
  "binding_candidate list \<Rightarrow> policy_version_row \<times> policy_binding_row \<Rightarrow> agent_assignment" where
  "assignment_of candidates row =
     (let pv = fst row; pb = snd row;
          candidate = find_row (\<lambda>c. bc_type c = pb_target_type pb \<and> bc_id c = pb_target_id pb) (rev candidates)
      in \<lparr>aa_id = pv_policy_id pv, aa_version = pv_version pv, aa_name = pv_name pv,
          aa_description = pv_description pv, aa_category = pv_category pv, aa_binding_id = pb_id pb,
          aa_scope = (case candidate of None \<Rightarrow> DirectScope | Some c \<Rightarrow> bc_scope c),
          aa_target_type = pb_target_type pb, aa_target_id = pb_target_id pb,
          aa_target_label = (case candidate of None \<Rightarrow> pb_target_id pb | Some c \<Rightarrow> bc_label c)\<rparr>)"

definition listAgentEffectivePolicies ::
  "env \<Rightarrow> string \<Rightarrow> string \<Rightarrow> ('a policy_db_scheme, agent_assignment list) op" where
  "listAgentEffectivePolicies E orgId agentId =
     bindM (agentPolicyBindingCandidates E orgId agentId) (\<lambda>candidates.
     query (\<lambda>s.
       map (assignment_of candidates)
         (sort_by (assignment_order E)
           (concat (map (\<lambda>pv. map (Pair pv)
              (filter (binding_applies orgId (map (\<lambda>c. (bc_type c, bc_id c)) candidates) pv) (policy_bindings s)))
              (policy_versions s))))))"

section \<open>Which policies are in force\<close>

abbreviation request_path :: "string \<Rightarrow> decision_request \<Rightarrow> ('a policy_db_scheme) \<Rightarrow> (target_type \<times> string) list" where
  "request_path orgId request s \<equiv> targetBindingCandidates orgId (rq_target_type request) (rq_target_id request) s"

definition in_force ::
  "string \<Rightarrow> decision_request \<Rightarrow> ('a policy_db_scheme) \<Rightarrow> policy_version_row \<Rightarrow> bool" where
  "in_force orgId request s pv \<longleftrightarrow>
     pv \<in> set (policy_versions s) \<and>
     (\<exists>pb \<in> set (policy_bindings s). binding_applies orgId (request_path orgId request s) pv pb)"

lemma effective_iff:
  "ep \<in> set (effectivePoliciesForRequest E orgId request s) \<longleftrightarrow>
     (\<exists>pv. in_force orgId request s pv \<and>
        ep = \<lparr>ep_policyId = pv_policy_id pv, ep_version = pv_version pv, ep_name = pv_name pv,
              ep_statements = pv_statements pv\<rparr>)"
  by (auto simp: effectivePoliciesForRequest_def Let_def in_force_def list_ex_iff)

lemma some_match_in_force:
  "some_match request (effectivePoliciesForRequest E orgId request s) P \<longleftrightarrow>
     (\<exists>pv st. in_force orgId request s pv \<and> st \<in> set (pv_statements pv) \<and>
        matchesStatement st request \<and> P (st_decision st))"
proof -
  let ?ep = "\<lambda>pv. \<lparr>ep_policyId = pv_policy_id pv, ep_version = pv_version pv, ep_name = pv_name pv,
              ep_statements = pv_statements pv\<rparr>"
  have "set (effectivePoliciesForRequest E orgId request s) = ?ep ` {pv. in_force orgId request s pv}"
    using effective_iff [of _ E orgId request s] by auto
  then show ?thesis unfolding some_match_def by auto
qed

lemma verdict_form:
  "dr_decision (policy_verdict E orgId request s) =
     (let covers = \<lambda>d. \<exists>pv st. in_force orgId request s pv \<and> st \<in> set (pv_statements pv) \<and>
                         matchesStatement st request \<and> st_decision st = d
      in if covers Deny then Deny else if covers ApprovalRequired then ApprovalRequired
         else if covers Observe then Observe
         else if (\<exists>d. covers d) \<or> orgDefaultPolicyEffect orgId s = DefaultAllow then Allow else Deny)"
proof -
  have "(\<exists>pv st. in_force orgId request s pv \<and> st \<in> set (pv_statements pv) \<and> matchesStatement st request \<and> True) \<longleftrightarrow>
        (\<exists>d pv st. in_force orgId request s pv \<and> st \<in> set (pv_statements pv) \<and>
           matchesStatement st request \<and> st_decision st = d)"
    by blast
  then show ?thesis
    unfolding policy_verdict_def evaluate_decision_form some_match_in_force Let_def option.inject by presburger
qed

lemma verdict_supported: "dr_decision (policy_verdict E orgId request s) \<in> {Allow, Deny, ApprovalRequired, Observe}"
  by (simp add: verdict_form Let_def)

text \<open>
  C16. The verdict a request gets, read off the tables. Only versions that are active and
  actively bound, in the request's own organisation, to the organisation, team, agent or
  connection on the target's path are consulted; among their matching statements a deny wins,
  then an approval requirement, then an observation. Without any, the request is denied unless
  the organisation's row says otherwise: an unknown organisation denies.
\<close>

theorem stored_verdict_exact:
  "dr_decision (policy_verdict E orgId request s) =
     (let covers = \<lambda>d. \<exists>pv pb st. pv \<in> set (policy_versions s) \<and> pb \<in> set (policy_bindings s) \<and>
                         pv_org_id pv = orgId \<and> pb_org_id pb = orgId \<and>
                         pv_status pv = VersionActive \<and> pb_status pb = BindingActive \<and>
                         pb_policy_id pb = pv_policy_id pv \<and> pb_policy_version pb = pv_version pv \<and>
                         (pb_target_type pb, pb_target_id pb) \<in> set (request_path orgId request s) \<and>
                         st \<in> set (pv_statements pv) \<and> matchesStatement st request \<and> st_decision st = d
      in if covers Deny then Deny else if covers ApprovalRequired then ApprovalRequired
         else if covers Observe then Observe
         else if (\<exists>d. covers d) \<or> (\<exists>o'. find_org orgId s = Some o' \<and> org_default_policy_effect o' = DefaultAllow)
         then Allow else Deny)"
proof -
  have covers: "(\<exists>pv st. in_force orgId request s pv \<and> st \<in> set (pv_statements pv) \<and>
           matchesStatement st request \<and> st_decision st = d) \<longleftrightarrow>
        (\<exists>pv pb st. pv \<in> set (policy_versions s) \<and> pb \<in> set (policy_bindings s) \<and>
           pv_org_id pv = orgId \<and> pb_org_id pb = orgId \<and>
           pv_status pv = VersionActive \<and> pb_status pb = BindingActive \<and>
           pb_policy_id pb = pv_policy_id pv \<and> pb_policy_version pb = pv_version pv \<and>
           (pb_target_type pb, pb_target_id pb) \<in> set (request_path orgId request s) \<and>
           st \<in> set (pv_statements pv) \<and> matchesStatement st request \<and> st_decision st = d)" for d
    unfolding in_force_def binding_applies_def by blast
  have default: "orgDefaultPolicyEffect orgId s = DefaultAllow \<longleftrightarrow>
      (\<exists>o'. find_org orgId s = Some o' \<and> org_default_policy_effect o' = DefaultAllow)"
    by (simp add: orgDefaultPolicyEffect_def split: option.split)
  show ?thesis unfolding verdict_form covers default ..
qed

section \<open>Tenant isolation\<close>

lemma find_row_filter: "(\<And>r. p r \<Longrightarrow> q r) \<Longrightarrow> find_row p rows = find_row p (filter q rows)"
  by (induction rows) auto

lemma find_agent_slice:
  "find_agent orgId i s = find_row (\<lambda>a. ag_org_id a = orgId \<and> ag_id a = i) (filter (\<lambda>a. ag_org_id a = orgId) (agents s))"
  unfolding find_agent_def by (rule find_row_filter) simp

lemma find_connection_slice:
  "find_connection orgId i s =
     find_row (\<lambda>c. cn_org_id c = orgId \<and> cn_id c = i) (filter (\<lambda>c. cn_org_id c = orgId) (connections s))"
  unfolding find_connection_def by (rule find_row_filter) simp

lemma effective_slice:
  "effectivePoliciesForRequest E orgId request s =
     (let candidates = request_path orgId request s;
          pbs = filter (\<lambda>pb. pb_org_id pb = orgId) (policy_bindings s)
      in map (\<lambda>pv. \<lparr>ep_policyId = pv_policy_id pv, ep_version = pv_version pv, ep_name = pv_name pv,
                    ep_statements = pv_statements pv\<rparr>)
           (sort_by (version_order E)
             (filter (\<lambda>pv. list_ex (binding_applies orgId candidates pv) pbs)
               (filter (\<lambda>pv. pv_org_id pv = orgId) (policy_versions s)))))"
proof -
  have "list_ex (binding_applies orgId cs pv) (policy_bindings s) \<longleftrightarrow>
      pv_org_id pv = orgId \<and> list_ex (binding_applies orgId cs pv) (filter (\<lambda>pb. pb_org_id pb = orgId) (policy_bindings s))"
    for cs pv
    by (auto simp: list_ex_iff binding_applies_def)
  then have "filter (\<lambda>pv. list_ex (binding_applies orgId cs pv) (policy_bindings s)) (policy_versions s) =
     filter (\<lambda>pv. list_ex (binding_applies orgId cs pv) (filter (\<lambda>pb. pb_org_id pb = orgId) (policy_bindings s)))
       (filter (\<lambda>pv. pv_org_id pv = orgId) (policy_versions s))" for cs
    by (simp add: conj_commute)
  then show ?thesis unfolding effectivePoliciesForRequest_def Let_def by simp
qed

text \<open>
  C17. Tenants are isolated: two databases that agree on the rows of one organisation (its
  settings, agents, connections, policy versions and bindings) give every request of that
  organisation the same result, match for match, whatever other organisations have.
\<close>

theorem verdict_tenant_isolated:
  assumes "find_org orgId s = find_org orgId s'"
    and "filter (\<lambda>a. ag_org_id a = orgId) (agents s) = filter (\<lambda>a. ag_org_id a = orgId) (agents s')"
    and "filter (\<lambda>c. cn_org_id c = orgId) (connections s) = filter (\<lambda>c. cn_org_id c = orgId) (connections s')"
    and "filter (\<lambda>v. pv_org_id v = orgId) (policy_versions s) = filter (\<lambda>v. pv_org_id v = orgId) (policy_versions s')"
    and "filter (\<lambda>b. pb_org_id b = orgId) (policy_bindings s) = filter (\<lambda>b. pb_org_id b = orgId) (policy_bindings s')"
  shows "policy_verdict E orgId request s = policy_verdict E orgId request s'"
proof -
  have ag: "find_agent orgId i s = find_agent orgId i s'" for i
    by (simp only: find_agent_slice assms(2))
  have cn: "find_connection orgId i s = find_connection orgId i s'" for i
    by (simp only: find_connection_slice assms(3))
  have "request_path orgId request s = request_path orgId request s'"
    by (simp only: targetBindingCandidates_def ag cn)
  then show ?thesis
    by (simp only: policy_verdict_def effective_slice assms(4,5) orgDefaultPolicyEffect_def assms(1))
qed

definition sample_policy_db :: policy_db where
  "sample_policy_db =
     \<lparr>clock = 0, uuids = 0,
      orgs = [\<lparr>org_id = ''o'', org_display_name = ''O'', org_slug = ''o'', org_default_team_id = None,
        org_settings = [], org_active = True, org_created_at = 0, org_updated_at = 0, org_default_policy_effect = DefaultDeny, org_frozen = False\<rparr>],
      audit_event_heads = [], audit_events = [], teams = [], agents = [], connections = [],
      connection_credentials = [], org_onboarding_states = [], users = [], memberships = [], wallet_refs = [],
      oauth_accounts = [], auth_sessions = [], join_invites = [], open_joins = [], policy_action_registry = [], policy_drafts = [],
      policy_versions = [], policy_bindings = [], policy_decisions = [], policy_simulations = []\<rparr>"

definition sample_version :: "string \<Rightarrow> policy_version_row" where
  "sample_version orgId =
     \<lparr>pv_policy_id = ''pol_1'', pv_version = 1, pv_org_id = orgId, pv_draft_id = None, pv_name = ''P'',
      pv_description = [], pv_category = ''operational'', pv_status = VersionActive,
      pv_statements = [plain_statement ''s1'' Allow], pv_validation = \<lparr>vr_valid = True, vr_errors = [], vr_warnings = []\<rparr>,
      pv_change_reason = [], pv_created_by = ''u'', pv_archived_by = None, pv_archived_at = None, pv_created_at = 0\<rparr>"

definition sample_binding :: "string \<Rightarrow> policy_binding_row" where
  "sample_binding orgId =
     \<lparr>pb_id = ''pbind_1'', pb_org_id = orgId, pb_policy_id = ''pol_1'', pb_policy_version = 1, pb_target_type = OrgT,
      pb_target_id = orgId, pb_status = BindingActive, pb_created_by = ''u'', pb_created_at = 0,
      pb_removed_by = None, pb_removed_at = None, pb_removed_reason = None\<rparr>"

theorem verdict_tenant_isolated_witness:
  "policy_verdict sample_env ''o'' plain_request sample_policy_db =
   policy_verdict sample_env ''o'' plain_request
     (sample_policy_db\<lparr>policy_versions := [sample_version ''other''], policy_bindings := [sample_binding ''other'']\<rparr>)"
  by (rule verdict_tenant_isolated)
     (simp_all add: sample_policy_db_def sample_version_def sample_binding_def find_org_def)

section \<open>What a check leaves behind\<close>

lemma recorded_event:
  assumes "recordAuditEvent E input s = (Inr e, s')" and "ai_idempotencyKey input = Some key"
  shows "e \<in> set (audit_events s')" and "ev_org_id e = ai_orgId input" and "ev_idempotency_key e = Some key"
    and "digest E (VObj (buildCanonicalBody input)) = Inr (ev_canonical_body_hash e)"
proof -
  have "find_idempotent input s' = Some e" using recordAuditEvent_stores [OF assms(1)] assms(2) by simp
  then show "e \<in> set (audit_events s')" "ev_org_id e = ai_orgId input" "ev_idempotency_key e = Some key"
    by (auto simp: find_idempotent_def assms(2) dest: find_row_Some)
  show "digest E (VObj (buildCanonicalBody input)) = Inr (ev_canonical_body_hash e)"
    using assms(1) by (auto simp: recordAuditEvent_def bindM_Inr append_event_Inr append_after_Inr
        split: option.splits if_splits)
qed

lemma record_keeps_policy:
  assumes "recordAuditEvent E input s = (r, s')"
  shows "policy_decisions s' = policy_decisions s" and "policy_versions s' = policy_versions s"
    and "policy_bindings s' = policy_bindings s" and "policy_drafts s' = policy_drafts s"
    and "policy_simulations s' = policy_simulations s" and "policy_action_registry s' = policy_action_registry s"
    and "agents s' = agents s" and "connections s' = connections s" and "teams s' = teams s"
    and "clock s' = clock s" and "orgs s' = orgs s"
  by (rule keepsD [OF keeps_recordAuditEvent assms], simp_all)+

lemma checkPolicyDecision_Inl: "checkPolicyDecision E operator orgId request s = (Inl err, s') \<Longrightarrow> s' = s"
  unfolding checkPolicyDecision_def by (simp add: withTransaction_Inl)

lemma checkPolicyDecision_Inr:
  assumes "checkPolicyDecision E operator orgId request s = (Inr d, s')"
  obtains e s1 where
    "find_action (rq_action request) s \<noteq> None"
    "d = with_id (''pdec_'' @ env_uuid E (uuids s)) (policy_verdict E orgId request s)"
    "recordAuditEvent E (decision_audit operator orgId request (policy_verdict E orgId request s) (rd_id d))
       (s\<lparr>uuids := Suc (uuids s)\<rparr>) = (Inr e, s1)"
    "s' = s1\<lparr>policy_decisions := policy_decisions s @
       [decision_row orgId request (policy_verdict E orgId request s) (rd_id d) (ev_id e) (clock s)]\<rparr>"
proof -
  from assms obtain e s1 where
    "find_action (rq_action request) s \<noteq> None"
    "d = with_id (''pdec_'' @ env_uuid E (uuids s)) (policy_verdict E orgId request s)"
    and run: "recordAuditEvent E (decision_audit operator orgId request (policy_verdict E orgId request s)
       (''pdec_'' @ env_uuid E (uuids s))) (s\<lparr>uuids := Suc (uuids s)\<rparr>) = (Inr e, s1)"
    and s': "s' = s1\<lparr>policy_decisions := policy_decisions s1 @
       [decision_row orgId request (policy_verdict E orgId request s) (''pdec_'' @ env_uuid E (uuids s)) (ev_id e) (clock s1)]\<rparr>"
    by (auto simp: checkPolicyDecision_def bindM_Inr insert_decision_def)
  moreover have "policy_decisions s1 = policy_decisions s" "clock s1 = clock s"
    using record_keeps_policy [OF run] by simp_all
  ultimately show ?thesis by (intro that [of e s1]) (simp_all add: with_id_def)
qed

text \<open>
  C18. A policy check is atomic and accountable. Either it throws and the database is as before,
  or it stores exactly one decision row: the verdict of the policies in force at that moment,
  tied to an event of the organisation's audit chain whose hashed body is this decision. No
  policy, binding, agent or connection changes.
\<close>

theorem check_records_verdict:
  "case checkPolicyDecision E operator orgId request s of
     (Inl err, s') \<Rightarrow> s' = s
   | (Inr d, s') \<Rightarrow>
       (let verdict = policy_verdict E orgId request s
        in find_action (rq_action request) s \<noteq> None \<and>
           dr_decision d = dr_decision verdict \<and> dr_matched d = dr_matched verdict \<and>
           policy_versions s' = policy_versions s \<and> policy_bindings s' = policy_bindings s \<and>
           agents s' = agents s \<and> connections s' = connections s \<and>
           (\<exists>e. policy_decisions s' = policy_decisions s @
                  [decision_row orgId request verdict (rd_id d) (ev_id e) (clock s)] \<and>
                e \<in> set (audit_events s') \<and> ev_org_id e = orgId \<and>
                ev_idempotency_key e = Some (''policy.decision.recorded:'' @ rd_id d) \<and>
                digest E (VObj (buildCanonicalBody (decision_audit operator orgId request verdict (rd_id d)))) =
                  Inr (ev_canonical_body_hash e)))"
proof -
  obtain r s' where run: "checkPolicyDecision E operator orgId request s = (r, s')" by fastforce
  show ?thesis
  proof (cases r)
    case (Inl err)
    with run show ?thesis using checkPolicyDecision_Inl by simp
  next
    case (Inr d)
    from run [unfolded Inr] obtain e s1 where
      action: "find_action (rq_action request) s \<noteq> None"
      and d: "d = with_id (''pdec_'' @ env_uuid E (uuids s)) (policy_verdict E orgId request s)"
      and audit: "recordAuditEvent E (decision_audit operator orgId request (policy_verdict E orgId request s) (rd_id d))
         (s\<lparr>uuids := Suc (uuids s)\<rparr>) = (Inr e, s1)"
      and s': "s' = s1\<lparr>policy_decisions := policy_decisions s @
         [decision_row orgId request (policy_verdict E orgId request s) (rd_id d) (ev_id e) (clock s)]\<rparr>"
      by (rule checkPolicyDecision_Inr)
    have key: "ai_idempotencyKey (decision_audit operator orgId request v i) = Some (''policy.decision.recorded:'' @ i)"
      and org: "ai_orgId (decision_audit operator orgId request v i) = orgId" for v i
      by (simp_all add: decision_audit_def audit_entry_def)
    note ev = recorded_event [OF audit key] and kept = record_keeps_policy [OF audit]
    have "dr_decision d = dr_decision (policy_verdict E orgId request s)"
      "dr_matched d = dr_matched (policy_verdict E orgId request s)"
      by (simp_all add: d with_id_def)
    moreover have "audit_events s' = audit_events s1" "policy_versions s' = policy_versions s"
      "policy_bindings s' = policy_bindings s" "agents s' = agents s" "connections s' = connections s"
      "policy_decisions s' = policy_decisions s @
         [decision_row orgId request (policy_verdict E orgId request s) (rd_id d) (ev_id e) (clock s)]"
      using kept by (simp_all add: s')
    ultimately show ?thesis
      unfolding run Inr prod.case sum.case Let_def using action ev org by metis
  qed
qed


lemma preserves_insert_decision [preserve_intros]:
  "(\<And>s ds. I s \<Longrightarrow> I (s\<lparr>policy_decisions := ds\<rparr>)) \<Longrightarrow> preserves I (insert_decision row)"
  unfolding insert_decision_def by (intro preserve_intros) auto

end
