(* ===== verification/PolicyLifecycle.thy ===== *)
theory PolicyLifecycle
  imports PolicyStore
begin

text \<open>
  The life of a policy, \<open>apps/api/src/engines/policy/store.ts\<close> over migrations 0006 and 0017:
  drafts are written, validated, activated or discarded; an activated policy is a row per
  version, of which at most one is active; bindings attach a version to targets; revisions
  supersede a version and carry its bindings over; archiving ends both. Every operation is one
  transaction. The invariant \<open>policies_ok\<close> says what the tables always satisfy.
\<close>

section \<open>Rows and constraints\<close>

definition unvalidated :: "string \<Rightarrow> validation_result" where
  "unvalidated warning = \<lparr>vr_valid = False, vr_errors = [], vr_warnings = [warning]\<rparr>"

definition validation_json :: "validation_result \<Rightarrow> jsval" where
  "validation_json v =
     VObj [(''valid'', VBool (vr_valid v)), (''errors'', VArr (map VStr (vr_errors v))),
           (''warnings'', VArr (map VStr (vr_warnings v)))]"

definition jint :: "int \<Rightarrow> jsval" where
  "jint n = VNum (Fin (of_int n))"

fun draft_status_name :: "draft_status \<Rightarrow> string" where
  "draft_status_name DraftOpen = ''draft''"
| "draft_status_name DraftValidated = ''validated''"
| "draft_status_name DraftActivated = ''activated''"
| "draft_status_name DraftDiscarded = ''discarded''"

fun binding_status_name :: "binding_status \<Rightarrow> string" where
  "binding_status_name BindingActive = ''active''"
| "binding_status_name BindingRemoved = ''removed''"

definition find_draft :: "string \<Rightarrow> string \<Rightarrow> ('a policy_db_scheme) \<Rightarrow> policy_draft_row option" where
  "find_draft orgId draftId s = find_row (\<lambda>d. pd_org_id d = orgId \<and> pd_id d = draftId) (policy_drafts s)"

definition version_exists :: "string \<Rightarrow> int \<Rightarrow> ('a policy_db_scheme) \<Rightarrow> bool" where
  "version_exists policyId version s \<longleftrightarrow>
     list_ex (\<lambda>v. pv_policy_id v = policyId \<and> pv_version v = version) (policy_versions s)"

text \<open>Primary key, the organisation's foreign key and the revision's foreign key.\<close>

definition insert_draft :: "policy_draft_row \<Rightarrow> ('a policy_db_scheme, unit) op" where
  "insert_draft d =
     bindM (query (\<lambda>s. list_ex (\<lambda>r. pd_id r = pd_id d) (policy_drafts s))) (\<lambda>dup.
     bindM (guardM (\<not> dup) (PgUniqueViolation ''policy_drafts'')) (\<lambda>_.
     bindM (query (find_org (pd_org_id d))) (\<lambda>org.
     bindM (guardM (org \<noteq> None) (PgForeignKeyViolation ''policy_drafts'')) (\<lambda>_.
     bindM (query (\<lambda>s. case (pd_revision_policy_id d, pd_revision_base_version d) of
                        (Some p, Some v) \<Rightarrow> version_exists p v s | _ \<Rightarrow> True)) (\<lambda>base.
     bindM (guardM base (PgForeignKeyViolation ''policy_drafts_revision_fk'')) (\<lambda>_.
     modify (\<lambda>s. s\<lparr>policy_drafts := policy_drafts s @ [d]\<rparr>)))))))"

definition update_draft ::
  "string \<Rightarrow> string \<Rightarrow> (policy_draft_row \<Rightarrow> policy_draft_row) \<Rightarrow> ('a policy_db_scheme, unit) op" where
  "update_draft orgId draftId f =
     modify (\<lambda>s. s\<lparr>policy_drafts :=
       update_rows (\<lambda>d. pd_org_id d = orgId \<and> pd_id d = draftId) f (policy_drafts s)\<rparr>)"

text \<open>Primary key and the partial unique index on active versions.\<close>

definition insert_version :: "policy_version_row \<Rightarrow> ('a policy_db_scheme, unit) op" where
  "insert_version v =
     bindM (query (version_exists (pv_policy_id v) (pv_version v))) (\<lambda>dup.
     bindM (guardM (\<not> dup) (PgUniqueViolation ''policy_versions_pkey'')) (\<lambda>_.
     bindM (query (\<lambda>s. list_ex (\<lambda>r. pv_org_id r = pv_org_id v \<and> pv_policy_id r = pv_policy_id v \<and>
                                  pv_status r = VersionActive \<and> pv_status v = VersionActive)
                        (policy_versions s))) (\<lambda>two.
     bindM (guardM (\<not> two) (PgUniqueViolation ''policy_versions_one_active_idx'')) (\<lambda>_.
     modify (\<lambda>s. s\<lparr>policy_versions := policy_versions s @ [v]\<rparr>)))))"

text \<open>Primary key, the version's foreign key and the partial unique index on active bindings.\<close>

definition insert_binding :: "policy_binding_row \<Rightarrow> ('a policy_db_scheme, unit) op" where
  "insert_binding b =
     bindM (query (\<lambda>s. list_ex (\<lambda>r. pb_id r = pb_id b \<or>
              pb_org_id r = pb_org_id b \<and> pb_policy_id r = pb_policy_id b \<and>
              pb_policy_version r = pb_policy_version b \<and> pb_target_type r = pb_target_type b \<and>
              pb_target_id r = pb_target_id b \<and> pb_status r = BindingActive \<and> pb_status b = BindingActive)
            (policy_bindings s))) (\<lambda>dup.
     bindM (guardM (\<not> dup) (PgUniqueViolation ''policy_bindings'')) (\<lambda>_.
     bindM (query (version_exists (pb_policy_id b) (pb_policy_version b))) (\<lambda>known.
     bindM (guardM known (PgForeignKeyViolation ''policy_bindings'')) (\<lambda>_.
     modify (\<lambda>s. s\<lparr>policy_bindings := policy_bindings s @ [b]\<rparr>)))))"

definition new_binding ::
  "env \<Rightarrow> operator_context \<Rightarrow> string \<Rightarrow> string \<Rightarrow> int \<Rightarrow> target_type \<Rightarrow> string \<Rightarrow>
   ('a policy_db_scheme, policy_binding_row) op" where
  "new_binding E operator orgId policyId version targetType targetId =
     bindM (prefixedId E ''pbind'') (\<lambda>i.
     bindM now (\<lambda>t.
     let b = \<lparr>pb_id = i, pb_org_id = orgId, pb_policy_id = policyId, pb_policy_version = version,
              pb_target_type = targetType, pb_target_id = targetId, pb_status = BindingActive,
              pb_created_by = op_actorId operator, pb_created_at = t, pb_removed_by = None,
              pb_removed_at = None, pb_removed_reason = None\<rparr>
     in bindM (insert_binding b) (\<lambda>_. ret b)))"

definition removed_binding :: "operator_context \<Rightarrow> int \<Rightarrow> string \<Rightarrow> policy_binding_row \<Rightarrow> policy_binding_row" where
  "removed_binding operator t reason b =
     b\<lparr>pb_status := BindingRemoved, pb_removed_by := Some (op_actorId operator), pb_removed_at := Some t,
       pb_removed_reason := Some reason\<rparr>"

definition recordPolicyEvent ::
  "env \<Rightarrow> string \<Rightarrow> operator_context \<Rightarrow> string \<Rightarrow> string \<times> string \<Rightarrow> string option \<Rightarrow> audit_outcome \<Rightarrow>
   string option \<Rightarrow> jsval \<Rightarrow> ('a policy_db_scheme, audit_event) op" where
  "recordPolicyEvent E orgId operator action resource policyId outcome reason payload =
     bindM (prefixedId E ''idem'') (\<lambda>i.
     recordAuditEvent E
       ((audit_entry orgId action ''user'' (Some (op_actorId operator)) outcome)
        \<lparr>ai_idempotencyKey := Some (action @ '':'' @ snd resource @ '':'' @ i),
         ai_resource := Some resource,
         ai_classification := \<lparr>cl_domain = Some ''policy'', cl_category = Some ''policy'',
           cl_severity = Some (if outcome = Denied then ''warning'' else ''info''),
           cl_tags = Some [''section_2'', ''policy'']\<rparr>,
         ai_source := \<lparr>src_section = Some ''section_2'', src_system = Some ''policy'', src_ref = None\<rparr>,
         ai_payload := Some payload, ai_reasonCode := reason,
         ai_relations := \<lparr>rel_agent = None, rel_team = None, rel_connection = None, rel_walletRef = None,
           rel_policy = policyId, rel_wallet = None\<rparr>\<rparr>))"

section \<open>Drafts\<close>

record draft_input =
  di_source :: string
  di_name :: string
  di_description :: "string option"
  di_category :: string
  di_statements :: "policy_statement list"

record draft_update =
  du_name :: "string option"
  du_description :: "string option"
  du_category :: "string option"
  du_statements :: "policy_statement list option"

definition new_draft ::
  "operator_context \<Rightarrow> string \<Rightarrow> string \<Rightarrow> string \<Rightarrow> string \<Rightarrow> string \<Rightarrow> string \<Rightarrow> policy_statement list \<Rightarrow>
   string \<Rightarrow> int \<Rightarrow> policy_draft_row" where
  "new_draft operator draftId orgId source name description category statements warning t =
     \<lparr>pd_id = draftId, pd_org_id = orgId, pd_source = source, pd_name = name, pd_description = description,
      pd_category = category, pd_status = DraftOpen, pd_statements = statements,
      pd_validation = unvalidated warning, pd_created_by = op_actorId operator,
      pd_updated_by = op_actorId operator, pd_activated = None, pd_revision_policy_id = None,
      pd_revision_base_version = None, pd_revision_mode = None, pd_restore_bindings = [], pd_updated_at = t\<rparr>"

definition createPolicyDraft ::
  "env \<Rightarrow> operator_context \<Rightarrow> string \<Rightarrow> draft_input \<Rightarrow> ('a policy_db_scheme, policy_draft_row) op" where
  "createPolicyDraft E operator orgId input =
     withTransaction (
       bindM (prefixedId E ''pdraft'') (\<lambda>draftId.
       bindM now (\<lambda>t.
       let row = new_draft operator draftId orgId (di_source input) (di_name input)
                   (or_else (di_description input) []) (di_category input) (di_statements input)
                   ''Draft has not been validated yet.'' t
       in bindM (insert_draft row) (\<lambda>_.
          bindM (recordPolicyEvent E orgId operator ''policy.draft.created'' (''policy_draft'', draftId) None
            Success None (VObj [(''name'', VStr (di_name input)), (''category'', VStr (di_category input)),
              (''statements_count'', jint (int (length (di_statements input))))])) (\<lambda>_.
          ret row)))))"

definition lockedDraft :: "draft_status \<Rightarrow> bool" where
  "lockedDraft status \<longleftrightarrow> status = DraftActivated \<or> status = DraftDiscarded"

text \<open>The row after an \<open>UPDATE ... RETURNING *\<close>.\<close>

definition returned_draft :: "string \<Rightarrow> string \<Rightarrow> string \<Rightarrow> ('a policy_db_scheme, policy_draft_row) op" where
  "returned_draft orgId draftId failure =
     bindM (query (find_draft orgId draftId)) (\<lambda>row.
     case row of None \<Rightarrow> throw (JsError failure) | Some r \<Rightarrow> ret r)"

definition updatePolicyDraft ::
  "env \<Rightarrow> operator_context \<Rightarrow> string \<Rightarrow> string \<Rightarrow> draft_update \<Rightarrow> ('a policy_db_scheme, policy_draft_row) op" where
  "updatePolicyDraft E operator orgId draftId input =
     withTransaction (
       bindM (query (find_draft orgId draftId)) (\<lambda>current.
       case current of
         None \<Rightarrow> throw (notFound ''Policy draft was not found.'')
       | Some existing \<Rightarrow>
           bindM (guardM (\<not> lockedDraft (pd_status existing))
             (badRequest ''policy_draft_locked'' ''Policy draft can no longer be changed.'')) (\<lambda>_.
           bindM now (\<lambda>t.
           let name = or_else (du_name input) (pd_name existing);
               category = or_else (du_category input) (pd_category existing);
               statements = or_else (du_statements input) (pd_statements existing)
           in bindM (update_draft orgId draftId (\<lambda>d. d\<lparr>pd_name := name,
                  pd_description := or_else (du_description input) (pd_description existing),
                  pd_category := category, pd_statements := statements, pd_status := DraftOpen,
                  pd_validation := unvalidated ''Draft has changed and must be validated again.'',
                  pd_updated_by := op_actorId operator, pd_updated_at := t\<rparr>)) (\<lambda>_.
              bindM (recordPolicyEvent E orgId operator ''policy.draft.updated'' (''policy_draft'', draftId) None
                Success None (VObj [(''name'', VStr name), (''category'', VStr category),
                  (''statements_count'', jint (int (length statements)))])) (\<lambda>_.
              returned_draft orgId draftId ''policy_draft_update_failed''))))))"

definition discardPolicyDraft ::
  "env \<Rightarrow> operator_context \<Rightarrow> string \<Rightarrow> string \<Rightarrow> ('a policy_db_scheme, policy_draft_row) op" where
  "discardPolicyDraft E operator orgId draftId =
     withTransaction (
       bindM (query (find_draft orgId draftId)) (\<lambda>current.
       case current of
         None \<Rightarrow> throw (notFound ''Policy draft was not found.'')
       | Some existing \<Rightarrow>
           bindM (guardM (pd_status existing \<noteq> DraftActivated)
             (badRequest ''policy_draft_locked'' ''Activated drafts cannot be discarded.'')) (\<lambda>_.
           bindM now (\<lambda>t.
           bindM (update_draft orgId draftId (\<lambda>d. d\<lparr>pd_status := DraftDiscarded,
               pd_updated_by := op_actorId operator, pd_updated_at := t\<rparr>)) (\<lambda>_.
           bindM (recordPolicyEvent E orgId operator ''policy.draft.discarded'' (''policy_draft'', draftId) None
             Success None (VObj [(''previous_status'', VStr (draft_status_name (pd_status existing)))])) (\<lambda>_.
           returned_draft orgId draftId ''policy_draft_discard_failed''))))))"

definition validatePolicyDraft ::
  "env \<Rightarrow> operator_context \<Rightarrow> string \<Rightarrow> string \<Rightarrow>
   ('a policy_db_scheme, policy_draft_row \<times> validation_result) op" where
  "validatePolicyDraft E operator orgId draftId =
     withTransaction (
       bindM (query (find_draft orgId draftId)) (\<lambda>current.
       case current of
         None \<Rightarrow> throw (notFound ''Policy draft was not found.'')
       | Some row \<Rightarrow>
           bindM (guardM (\<not> lockedDraft (pd_status row))
             (badRequest ''policy_draft_locked'' ''Policy draft can no longer be changed.'')) (\<lambda>_.
           bindM (validateStatements (pd_statements row)) (\<lambda>validation.
           bindM now (\<lambda>t.
           bindM (update_draft orgId draftId (\<lambda>d. d\<lparr>
               pd_status := (if vr_valid validation then DraftValidated else DraftOpen),
               pd_validation := validation, pd_updated_by := op_actorId operator, pd_updated_at := t\<rparr>)) (\<lambda>_.
           bindM (recordPolicyEvent E orgId operator ''policy.validated'' (''policy_draft'', draftId) None
             (if vr_valid validation then Success else ErrorOutcome)
             (if vr_valid validation then None else Some ''policy_validation_failed'')
             (validation_json validation)) (\<lambda>_.
           bindM (returned_draft orgId draftId ''policy_draft_validate_failed'') (\<lambda>d.
           ret (d, validation)))))))))"

section \<open>Activation\<close>

record policy_version_record = policy_version_row +
  pv_binding_target_types :: "target_type list"
  pv_bindings_count :: int

definition versionFromRow ::
  "policy_version_row \<Rightarrow> int \<Rightarrow> ('a policy_db_scheme, policy_version_record) op" where
  "versionFromRow row n =
     bindM (query (bindingTargetTypesForStatements (pv_statements row))) (\<lambda>types.
     ret (policy_version_row.extend row (policy_version_record.fields types n)))"

definition new_version ::
  "operator_context \<Rightarrow> string \<Rightarrow> int \<Rightarrow> string \<Rightarrow> policy_draft_row \<Rightarrow> validation_result \<Rightarrow> string option \<Rightarrow> int \<Rightarrow>
   policy_version_row" where
  "new_version operator policyId version orgId draft validation changeReason t =
     \<lparr>pv_policy_id = policyId, pv_version = version, pv_org_id = orgId, pv_draft_id = Some (pd_id draft),
      pv_name = pd_name draft, pv_description = pd_description draft, pv_category = pd_category draft,
      pv_status = VersionActive, pv_statements = pd_statements draft, pv_validation = validation,
      pv_change_reason = or_else changeReason [], pv_created_by = op_actorId operator,
      pv_archived_by = None, pv_archived_at = None, pv_created_at = t\<rparr>"

definition mark_activated ::
  "operator_context \<Rightarrow> validation_result \<Rightarrow> string \<Rightarrow> int \<Rightarrow> int \<Rightarrow> policy_draft_row \<Rightarrow> policy_draft_row" where
  "mark_activated operator validation policyId version t d =
     d\<lparr>pd_status := DraftActivated, pd_validation := validation, pd_activated := Some (policyId, version),
       pd_updated_by := op_actorId operator, pd_updated_at := t\<rparr>"

text \<open>The status of the draft is not consulted here, unlike in every other draft operation.\<close>

definition activatePolicyDraft ::
  "env \<Rightarrow> operator_context \<Rightarrow> string \<Rightarrow> string \<Rightarrow> string option \<Rightarrow> ('a policy_db_scheme, policy_version_record) op" where
  "activatePolicyDraft E operator orgId draftId changeReason =
     withTransaction (
       bindM (query (find_draft orgId draftId)) (\<lambda>current.
       case current of
         None \<Rightarrow> throw (notFound ''Policy draft was not found.'')
       | Some draft \<Rightarrow>
           bindM (validateStatements (pd_statements draft)) (\<lambda>validation.
           bindM (guardM (vr_valid validation)
             (badRequest ''policy_validation_failed'' ''Policy draft must validate before activation.'')) (\<lambda>_.
           bindM (prefixedId E ''pol'') (\<lambda>policyId.
           bindM now (\<lambda>t.
           let row = new_version operator policyId 1 orgId draft validation changeReason t
           in bindM (insert_version row) (\<lambda>_.
              bindM (update_draft orgId draftId (mark_activated operator validation policyId 1 t)) (\<lambda>_.
              bindM (recordPolicyEvent E orgId operator ''policy.activated'' (''policy'', policyId) (Some policyId)
                Success None (VObj [(''draft_id'', VStr draftId), (''version'', jint 1),
                  (''change_reason'', VStr (or_else changeReason []))])) (\<lambda>_.
              versionFromRow row 0)))))))))"

section \<open>Revisions and restores\<close>

text \<open>\<open>ORDER BY version DESC LIMIT 1\<close>.\<close>

definition latest_version ::
  "string \<Rightarrow> string \<Rightarrow> version_status \<Rightarrow> ('a policy_db_scheme) \<Rightarrow> policy_version_row option" where
  "latest_version orgId policyId status s =
     (case rev (sort_key pv_version (filter (\<lambda>v. pv_org_id v = orgId \<and> pv_policy_id v = policyId \<and>
               pv_status v = status) (policy_versions s))) of
        [] \<Rightarrow> None
      | v # _ \<Rightarrow> Some v)"

definition createPolicyRevisionDraft ::
  "env \<Rightarrow> operator_context \<Rightarrow> string \<Rightarrow> string \<Rightarrow> draft_update \<Rightarrow> ('a policy_db_scheme, policy_draft_row) op" where
  "createPolicyRevisionDraft E operator orgId policyId input =
     withTransaction (
       bindM (query (latest_version orgId policyId VersionActive)) (\<lambda>current.
       case current of
         None \<Rightarrow> throw (notFound ''Active policy was not found.'')
       | Some active \<Rightarrow>
           bindM (prefixedId E ''pdraft'') (\<lambda>draftId.
           bindM now (\<lambda>t.
           let statements = or_else (du_statements input) (pv_statements active);
               row = (new_draft operator draftId orgId ''structured'' (or_else (du_name input) (pv_name active))
                       (or_else (du_description input) (pv_description active))
                       (or_else (du_category input) (pv_category active)) statements
                       ''Revision draft has not been validated yet.'' t)
                     \<lparr>pd_revision_policy_id := Some policyId,
                      pd_revision_base_version := Some (pv_version active), pd_revision_mode := Some Revision\<rparr>
           in bindM (insert_draft row) (\<lambda>_.
              bindM (recordPolicyEvent E orgId operator ''policy.revision_draft.created'' (''policy_draft'', draftId)
                (Some policyId) Success None (VObj [(''base_version'', jint (pv_version active)),
                  (''statements_count'', jint (int (length statements)))])) (\<lambda>_.
              ret row))))))"

definition createPolicyRestoreDraft ::
  "env \<Rightarrow> operator_context \<Rightarrow> string \<Rightarrow> string \<Rightarrow> draft_update \<Rightarrow> restore_binding list option \<Rightarrow>
   ('a policy_db_scheme, policy_draft_row) op" where
  "createPolicyRestoreDraft E operator orgId policyId input restoreBindings =
     withTransaction (
       bindM (query (latest_version orgId policyId VersionActive)) (\<lambda>active.
       bindM (guardM (active = None)
         (badRequest ''policy_restore_requires_archive'' ''Only archived policies can be restored.'')) (\<lambda>_.
       bindM (query (latest_version orgId policyId VersionArchived)) (\<lambda>archived.
       case archived of
         None \<Rightarrow> throw (notFound ''Archived policy was not found.'')
       | Some archivedRow \<Rightarrow>
           let statements = or_else (du_statements input) (pv_statements archivedRow);
               bindings = or_else restoreBindings []
           in bindM (foldM (\<lambda>_ b. bindM (assertBindingTargetTypeAllowed statements (rb_target_type b)) (\<lambda>_.
                      assertBindingTargetExists orgId (rb_target_type b) (rb_target_id b))) () bindings) (\<lambda>_.
              bindM (prefixedId E ''pdraft'') (\<lambda>draftId.
              bindM now (\<lambda>t.
              let row = (new_draft operator draftId orgId ''structured'' (or_else (du_name input) (pv_name archivedRow))
                          (or_else (du_description input) (pv_description archivedRow))
                          (or_else (du_category input) (pv_category archivedRow)) statements
                          ''Restore draft has not been validated yet.'' t)
                        \<lparr>pd_revision_policy_id := Some policyId,
                         pd_revision_base_version := Some (pv_version archivedRow),
                         pd_revision_mode := Some Restore, pd_restore_bindings := bindings\<rparr>
              in bindM (insert_draft row) (\<lambda>_.
                 bindM (recordPolicyEvent E orgId operator ''policy.restore_draft.created'' (''policy_draft'', draftId)
                   (Some policyId) Success None (VObj [(''base_version'', jint (pv_version archivedRow)),
                     (''restore_bindings_count'', jint (int (length bindings)))])) (\<lambda>_.
                 ret row)))))))))"

definition supersede_version :: "string \<Rightarrow> string \<Rightarrow> int \<Rightarrow> ('a policy_db_scheme, unit) op" where
  "supersede_version orgId policyId version =
     modify (\<lambda>s. s\<lparr>policy_versions :=
       update_rows (\<lambda>v. pv_org_id v = orgId \<and> pv_policy_id v = policyId \<and> pv_version v = version)
         (\<lambda>v. v\<lparr>pv_status := VersionSuperseded\<rparr>) (policy_versions s)\<rparr>)"

definition bindings_of ::
  "string \<Rightarrow> string \<Rightarrow> int \<Rightarrow> policy_binding_row \<Rightarrow> bool" where
  "bindings_of orgId policyId version b \<longleftrightarrow>
     pb_org_id b = orgId \<and> pb_policy_id b = policyId \<and> pb_policy_version b = version \<and> pb_status b = BindingActive"

text \<open>The active bindings of the superseded version move to the new one; the count is returned.\<close>

definition migrate_bindings ::
  "env \<Rightarrow> operator_context \<Rightarrow> string \<Rightarrow> string \<Rightarrow> int \<Rightarrow> int \<Rightarrow> ('a policy_db_scheme, int) op" where
  "migrate_bindings E operator orgId policyId oldVersion nextVersion =
     bindM (query (\<lambda>s. sort_key pb_created_at (filter (bindings_of orgId policyId oldVersion) (policy_bindings s)))) (\<lambda>bindings.
     bindM now (\<lambda>t.
     bindM (if bindings \<noteq> [] then
              modify (\<lambda>s. s\<lparr>policy_bindings :=
                update_rows (bindings_of orgId policyId oldVersion)
                  (removed_binding operator t ''policy_revision_migrated'') (policy_bindings s)\<rparr>)
            else ret ()) (\<lambda>_.
     foldM (\<lambda>n b. bindM (new_binding E operator orgId policyId nextVersion (pb_target_type b) (pb_target_id b))
              (\<lambda>_. ret (n + 1))) 0 bindings)))"

text \<open>The requested bindings of a restore; a target that is gone is skipped.\<close>

definition restore_bindings ::
  "env \<Rightarrow> operator_context \<Rightarrow> string \<Rightarrow> string \<Rightarrow> int \<Rightarrow> policy_statement list \<Rightarrow> restore_binding list \<Rightarrow>
   ('a policy_db_scheme, int \<times> int) op" where
  "restore_bindings E operator orgId policyId nextVersion statements bindings =
     foldM (\<lambda>(migrated, skipped) b.
       bindM (assertBindingTargetTypeAllowed statements (rb_target_type b)) (\<lambda>_.
       bindM (query (binding_target_exists orgId (rb_target_type b) (rb_target_id b))) (\<lambda>found.
       if \<not> found then ret (migrated, skipped + 1)
       else bindM (new_binding E operator orgId policyId nextVersion (rb_target_type b) (rb_target_id b))
              (\<lambda>_. ret (migrated + 1, skipped))))) (0, 0) bindings"

definition org_policy_versions :: "string \<Rightarrow> string \<Rightarrow> ('a policy_db_scheme) \<Rightarrow> policy_version_row list" where
  "org_policy_versions orgId policyId s =
     sort_key pv_version (filter (\<lambda>v. pv_org_id v = orgId \<and> pv_policy_id v = policyId) (policy_versions s))"

text \<open>What the revision needs of its draft and of the policy's versions, before it writes.\<close>

definition revision_guards ::
  "string \<Rightarrow> policy_draft_row \<Rightarrow>
   ('a policy_db_scheme, string \<times> int \<times> revision_mode \<times> policy_version_row option \<times> policy_version_row list) op" where
  "revision_guards orgId draft =
     (case (pd_revision_policy_id draft, pd_revision_base_version draft, pd_revision_mode draft) of
        (Some policyId, Some baseVersion, Some mode) \<Rightarrow>
          bindM (query (org_policy_versions orgId policyId)) (\<lambda>versions.
          bindM (guardM (versions \<noteq> []) (notFound ''Policy was not found.'')) (\<lambda>_.
          bindM (guardM (list_ex (\<lambda>v. pv_version v = baseVersion) versions)
            (notFound ''Policy base version was not found.'')) (\<lambda>_.
          let active = find_row (\<lambda>v. pv_status v = VersionActive) versions
          in bindM (guardM (mode = Revision \<longrightarrow> map_option pv_version active = Some baseVersion)
               (badRequest ''policy_revision_stale'' ''Revision draft is not based on the current active policy version.'')) (\<lambda>_.
             bindM (guardM (mode = Restore \<longrightarrow> active = None)
               (badRequest ''policy_restore_requires_archive'' ''Only archived policies can be restored.'')) (\<lambda>_.
             ret (policyId, baseVersion, mode, active, versions))))))
      | _ \<Rightarrow> throw (badRequest ''policy_revision_required'' ''Policy draft is not a revision draft.''))"

text \<open>The writes of a revision: supersede, insert, move or restore the bindings.\<close>

definition apply_revision ::
  "env \<Rightarrow> operator_context \<Rightarrow> string \<Rightarrow> revision_mode \<Rightarrow> policy_version_row option \<Rightarrow> policy_draft_row \<Rightarrow>
   policy_version_row \<Rightarrow> ('a policy_db_scheme, int \<times> int) op" where
  "apply_revision E operator orgId mode active draft row =
     bindM (case active of
         Some a \<Rightarrow> if mode = Revision then supersede_version orgId (pv_policy_id row) (pv_version a) else ret ()
       | None \<Rightarrow> ret ()) (\<lambda>_.
     bindM (insert_version row) (\<lambda>_.
     case (mode, active) of
       (Revision, Some a) \<Rightarrow>
         bindM (migrate_bindings E operator orgId (pv_policy_id row) (pv_version a) (pv_version row)) (\<lambda>n. ret (n, 0))
     | (Restore, _) \<Rightarrow>
         restore_bindings E operator orgId (pv_policy_id row) (pv_version row) (pd_statements draft)
           (pd_restore_bindings draft)
     | _ \<Rightarrow> ret (0, 0)))"

definition activatePolicyRevisionDraft ::
  "env \<Rightarrow> operator_context \<Rightarrow> string \<Rightarrow> string \<Rightarrow> string option \<Rightarrow> ('a policy_db_scheme, policy_version_record) op" where
  "activatePolicyRevisionDraft E operator orgId draftId changeReason =
     withTransaction (
       bindM (query (find_draft orgId draftId)) (\<lambda>current.
       case current of
         None \<Rightarrow> throw (notFound ''Policy draft was not found.'')
       | Some draft \<Rightarrow>
           bindM (guardM (\<not> lockedDraft (pd_status draft))
             (badRequest ''policy_draft_locked'' ''Policy draft can no longer be changed.'')) (\<lambda>_.
           bindM (revision_guards orgId draft) (\<lambda>(policyId, baseVersion, mode, active, versions).
           bindM (validateStatements (pd_statements draft)) (\<lambda>validation.
           bindM (guardM (vr_valid validation)
             (badRequest ''policy_validation_failed'' ''Policy revision draft must validate before activation.'')) (\<lambda>_.
           bindM now (\<lambda>t.
           let nextVersion = Max (set (map pv_version versions)) + 1;
               row = new_version operator policyId nextVersion orgId draft validation changeReason t
           in bindM (apply_revision E operator orgId mode active draft row) (\<lambda>(migrated, skipped).
              bindM (update_draft orgId draftId (mark_activated operator validation policyId nextVersion t)) (\<lambda>_.
              bindM (recordPolicyEvent E orgId operator
                (if mode = Restore then ''policy.restored'' else ''policy.revision.activated'')
                (''policy'', policyId) (Some policyId) Success None
                (VObj [(''draft_id'', VStr draftId), (''base_version'', jint baseVersion), (''version'', jint nextVersion),
                  (''migrated_bindings'', jint migrated), (''skipped_bindings'', jint skipped),
                  (''change_reason'', VStr (or_else changeReason []))])) (\<lambda>_.
              versionFromRow row migrated))))))))))"

section \<open>Bindings and archiving\<close>

definition bindPolicy ::
  "env \<Rightarrow> operator_context \<Rightarrow> string \<Rightarrow> string \<Rightarrow> int \<Rightarrow> target_type \<Rightarrow> string \<Rightarrow>
   ('a policy_db_scheme, policy_binding_row) op" where
  "bindPolicy E operator orgId policyId version targetType targetId =
     withTransaction (
       bindM (query (\<lambda>s. find_row (\<lambda>v. pv_org_id v = orgId \<and> pv_policy_id v = policyId \<and> pv_version v = version \<and>
                                   pv_status v = VersionActive) (policy_versions s))) (\<lambda>policy.
       case policy of
         None \<Rightarrow> throw (notFound ''Active policy version was not found.'')
       | Some policyRow \<Rightarrow>
           bindM (assertBindingTargetTypeAllowed (pv_statements policyRow) targetType) (\<lambda>_.
           bindM (assertBindingTargetExists orgId targetType targetId) (\<lambda>_.
           bindM (new_binding E operator orgId policyId version targetType targetId) (\<lambda>b.
           bindM (recordPolicyEvent E orgId operator ''policy.bound'' (''policy_binding'', pb_id b) (Some policyId)
             Success None (VObj [(''policy_version'', jint version), (''target_type'', VStr (target_name targetType)),
               (''target_id'', VStr targetId)])) (\<lambda>_.
           bindM (completeProductOnboardingFlow E orgId ''policy_setup''
             [(''binding_id'', VStr (pb_id b)), (''policy_id'', VStr policyId), (''policy_version'', jint version),
              (''source'', VStr ''policy_binding_created''), (''target_id'', VStr targetId),
              (''target_type'', VStr (target_name targetType))]) (\<lambda>_.
           ret b)))))))"

definition removePolicyBinding ::
  "env \<Rightarrow> operator_context \<Rightarrow> string \<Rightarrow> string \<Rightarrow> string \<Rightarrow> ('a policy_db_scheme, policy_binding_row) op" where
  "removePolicyBinding E operator orgId policyId bindingId =
     withTransaction (
       let named = (\<lambda>b. pb_org_id b = orgId \<and> pb_policy_id b = policyId \<and> pb_id b = bindingId)
       in bindM (query (\<lambda>s. find_row named (policy_bindings s))) (\<lambda>current.
          case current of
            None \<Rightarrow> throw (notFound ''Policy binding was not found.'')
          | Some existing \<Rightarrow>
              bindM now (\<lambda>t.
              bindM (modify (\<lambda>s. s\<lparr>policy_bindings :=
                update_rows named (removed_binding operator t ''manual_remove'') (policy_bindings s)\<rparr>)) (\<lambda>_.
              bindM (recordPolicyEvent E orgId operator ''policy.binding.removed'' (''policy_binding'', bindingId)
                (Some policyId) Success None
                (VObj [(''previous_status'', VStr (binding_status_name (pb_status existing))),
                  (''policy_version'', jint (pb_policy_version existing)),
                  (''target_type'', VStr (target_name (pb_target_type existing))),
                  (''target_id'', VStr (pb_target_id existing))])) (\<lambda>_.
              ret (removed_binding operator t ''manual_remove'' existing))))))"

definition archived_version :: "operator_context \<Rightarrow> string option \<Rightarrow> int \<Rightarrow> policy_version_row \<Rightarrow> policy_version_row" where
  "archived_version operator changeReason t v =
     v\<lparr>pv_status := VersionArchived, pv_archived_by := Some (op_actorId operator), pv_archived_at := Some t,
       pv_change_reason := (if or_else changeReason [] = [] then pv_change_reason v else or_else changeReason [])\<rparr>"

definition archivePolicy ::
  "env \<Rightarrow> operator_context \<Rightarrow> string \<Rightarrow> string \<Rightarrow> string option \<Rightarrow> ('a policy_db_scheme, policy_version_record) op" where
  "archivePolicy E operator orgId policyId changeReason =
     withTransaction (
       bindM (query (latest_version orgId policyId VersionActive)) (\<lambda>current.
       case current of
         None \<Rightarrow> throw (notFound ''Active policy was not found.'')
       | Some existing \<Rightarrow>
           bindM now (\<lambda>t.
           bindM (query (\<lambda>s. filter (\<lambda>v. pv_org_id v = orgId \<and> pv_policy_id v = policyId \<and>
                                  pv_status v = VersionActive) (policy_versions s))) (\<lambda>live.
           bindM (modify (\<lambda>s. s\<lparr>policy_versions :=
             update_rows (\<lambda>v. pv_org_id v = orgId \<and> pv_policy_id v = policyId \<and> pv_status v = VersionActive)
               (archived_version operator changeReason t) (policy_versions s)\<rparr>)) (\<lambda>_.
           bindM (modify (\<lambda>s. s\<lparr>policy_bindings :=
             update_rows (\<lambda>b. pb_org_id b = orgId \<and> pb_policy_id b = policyId \<and> pb_status b = BindingActive)
               (removed_binding operator t ''policy_archived'') (policy_bindings s)\<rparr>)) (\<lambda>_.
           bindM (recordPolicyEvent E orgId operator ''policy.archived'' (''policy'', policyId) (Some policyId)
             Success None (VObj [(''change_reason'', VStr (or_else changeReason [])),
               (''archived_versions'', jint (int (length live)))])) (\<lambda>_.
           versionFromRow (archived_version operator changeReason t existing) 0)))))))"

definition createPolicyVersion :: "string \<Rightarrow> string \<Rightarrow> ('a policy_db_scheme, policy_version_record) op" where
  "createPolicyVersion orgId policyId =
     throw (badRequest ''policy_versioning_deprecated''
       ''Direct version creation is disabled. Create a revision draft and activate it instead.'')"

section \<open>Simulation\<close>

definition simulatePolicyDraft ::
  "env \<Rightarrow> operator_context \<Rightarrow> string \<Rightarrow> string \<Rightarrow> decision_request \<Rightarrow> ('a policy_db_scheme, policy_simulation_row) op" where
  "simulatePolicyDraft E operator orgId draftId request =
     withTransaction (
       bindM (query (find_action (rq_action request))) (\<lambda>action.
       bindM (guardM (action \<noteq> None)
         (badRequest ''unknown_policy_action'' ''Policy action is not registered.'')) (\<lambda>_.
       bindM (query (find_draft orgId draftId)) (\<lambda>current.
       case current of
         None \<Rightarrow> throw (notFound ''Policy draft was not found.'')
       | Some draft \<Rightarrow>
           bindM (guardM (pd_status draft \<noteq> DraftDiscarded)
             (badRequest ''policy_draft_discarded'' ''Discarded drafts cannot be simulated.'')) (\<lambda>_.
           bindM (query (\<lambda>s. evaluatePolicyDecision request
             [\<lparr>ep_policyId = pd_id draft, ep_version = 0, ep_name = pd_name draft, ep_statements = pd_statements draft\<rparr>]
             (Some (orgDefaultPolicyEffect orgId s)))) (\<lambda>result.
           bindM (prefixedId E ''psim'') (\<lambda>simulationId.
           let row = \<lparr>ps_id = simulationId, ps_org_id = orgId, ps_draft_id = draftId, ps_request = request,
                      ps_result = result, ps_created_by = op_actorId operator\<rparr>
           in bindM (modify (\<lambda>s. s\<lparr>policy_simulations := policy_simulations s @ [row]\<rparr>)) (\<lambda>_.
              bindM (recordPolicyEvent E orgId operator ''policy.simulation.created''
                (''policy_simulation'', simulationId) None Success None
                (VObj [(''action'', VStr (rq_action request)), (''decision'', VStr (decision_name (dr_decision result))),
                  (''draft_id'', VStr draftId), (''reason_code'', VStr (dr_reasonCode result)),
                  (''target_id'', nullable (rq_target_id request)),
                  (''target_type'', VStr (target_name (rq_target_type request)))])) (\<lambda>_.
              ret row)))))))))"

section \<open>The invariant of the policy tables\<close>

definition version_key :: "policy_version_row \<Rightarrow> string \<times> int" where
  "version_key v = (pv_policy_id v, pv_version v)"

definition owner_key :: "policy_version_row \<Rightarrow> string \<times> string" where
  "owner_key v = (pv_org_id v, pv_policy_id v)"

definition is_active :: "policy_version_row \<Rightarrow> bool" where
  "is_active v \<longleftrightarrow> pv_status v = VersionActive"

definition live_version :: "policy_version_row list \<Rightarrow> string \<Rightarrow> string \<Rightarrow> int \<Rightarrow> bool" where
  "live_version vs orgId policyId version \<longleftrightarrow>
     (\<exists>v \<in> set vs. pv_org_id v = orgId \<and> pv_policy_id v = policyId \<and> pv_version v = version \<and> is_active v)"

definition binding_live :: "policy_version_row list \<Rightarrow> policy_binding_row \<Rightarrow> bool" where
  "binding_live vs b \<longleftrightarrow>
     (pb_status b = BindingActive \<longrightarrow> live_version vs (pb_org_id b) (pb_policy_id b) (pb_policy_version b))"

definition statements_valid :: "('a policy_db_scheme) \<Rightarrow> policy_statement list \<Rightarrow> bool" where
  "statements_valid s sts \<longleftrightarrow> vr_valid (validatePolicyStatements (knownActions s) (actionConditionGroups s) sts)"

text \<open>
  Version numbers identify the versions of a policy; a policy has at most one active version;
  an active binding refers to an active version of its own organisation; and the statements of
  every version pass validation against the action registry.
\<close>

definition policies_ok :: "('a policy_db_scheme) \<Rightarrow> bool" where
  "policies_ok s \<longleftrightarrow>
     distinct (map version_key (policy_versions s)) \<and>
     distinct (map owner_key (filter is_active (policy_versions s))) \<and>
     list_all (binding_live (policy_versions s)) (policy_bindings s) \<and>
     list_all (\<lambda>v. statements_valid s (pv_statements v)) (policy_versions s)"

lemma statements_valid_frame [simp]:
  "statements_valid (s\<lparr>uuids := n\<rparr>) sts = statements_valid s sts"
  "statements_valid (s\<lparr>audit_events := es\<rparr>) sts = statements_valid s sts"
  "statements_valid (s\<lparr>audit_event_heads := hs\<rparr>) sts = statements_valid s sts"
  "statements_valid (s\<lparr>org_onboarding_states := os\<rparr>) sts = statements_valid s sts"
  "statements_valid (s\<lparr>policy_drafts := ds\<rparr>) sts = statements_valid s sts"
  "statements_valid (s\<lparr>policy_versions := vs\<rparr>) sts = statements_valid s sts"
  "statements_valid (s\<lparr>policy_bindings := bs\<rparr>) sts = statements_valid s sts"
  "statements_valid (s\<lparr>policy_simulations := ps\<rparr>) sts = statements_valid s sts"
  "statements_valid (s\<lparr>policy_decisions := pds\<rparr>) sts = statements_valid s sts"
  by (simp_all add: statements_valid_def knownActions_def actionConditionGroups_def [abs_def] find_action_def)

lemma policies_ok_frame [simp]:
  "policies_ok (s\<lparr>uuids := n\<rparr>) = policies_ok s"
  "policies_ok (s\<lparr>audit_events := es\<rparr>) = policies_ok s"
  "policies_ok (s\<lparr>audit_event_heads := hs\<rparr>) = policies_ok s"
  "policies_ok (s\<lparr>org_onboarding_states := os\<rparr>) = policies_ok s"
  "policies_ok (s\<lparr>policy_drafts := ds\<rparr>) = policies_ok s"
  "policies_ok (s\<lparr>policy_simulations := ps\<rparr>) = policies_ok s"
  "policies_ok (s\<lparr>policy_decisions := pds\<rparr>) = policies_ok s"
  by (simp_all add: policies_ok_def)

lemma preserves_recordPolicyEvent [preserve_intros]:
  assumes "\<And>s n. P (s\<lparr>uuids := n\<rparr>) = P s" and "\<And>s hs. P (s\<lparr>audit_event_heads := hs\<rparr>) = P s"
    and "\<And>s es. P (s\<lparr>audit_events := es\<rparr>) = P s"
  shows "preserves P (recordPolicyEvent E orgId operator action resource policyId outcome reason payload)"
  unfolding recordPolicyEvent_def by (intro preserve_intros) (simp_all add: assms)

lemma preserves_insert_draft [preserve_intros]:
  "(\<And>s ds. P s \<Longrightarrow> P (s\<lparr>policy_drafts := ds\<rparr>)) \<Longrightarrow> preserves P (insert_draft d)"
  unfolding insert_draft_def by (intro preserve_intros) auto

lemma preserves_update_draft [preserve_intros]:
  "(\<And>s ds. P s \<Longrightarrow> P (s\<lparr>policy_drafts := ds\<rparr>)) \<Longrightarrow> preserves P (update_draft orgId draftId f)"
  unfolding update_draft_def by (intro preserve_intros) auto

lemma preserves_returned_draft [preserve_intros]: "preserves P (returned_draft orgId draftId failure)"
  unfolding returned_draft_def by (intro preserve_intros)

lemma preserves_versionFromRow [preserve_intros]: "preserves P (versionFromRow row n)"
  unfolding versionFromRow_def by (intro preserve_intros)

lemma preserves_validateStatements [preserve_intros]: "preserves P (validateStatements sts)"
  unfolding validateStatements_def by (intro preserve_intros)

lemma preserves_asserts [preserve_intros]:
  "preserves P (assertBindingTargetTypeAllowed sts tt)" "preserves P (assertBindingTargetExists orgId tt ti)"
  unfolding assertBindingTargetTypeAllowed_def assertBindingTargetExists_def by (intro preserve_intros)+

subsection \<open>Operations on drafts leave versions and bindings alone\<close>

lemma draft_operations_ok:
  "preserves policies_ok (createPolicyDraft E operator orgId input)"
  "preserves policies_ok (updatePolicyDraft E operator orgId draftId upd)"
  "preserves policies_ok (discardPolicyDraft E operator orgId draftId)"
  "preserves policies_ok (validatePolicyDraft E operator orgId draftId)"
  "preserves policies_ok (createPolicyRevisionDraft E operator orgId policyId upd)"
  "preserves policies_ok (createPolicyRestoreDraft E operator orgId policyId upd rbs)"
  "preserves policies_ok (simulatePolicyDraft E operator orgId draftId request)"
  "preserves policies_ok (createPolicyVersion orgId policyId)"
  unfolding createPolicyDraft_def updatePolicyDraft_def discardPolicyDraft_def validatePolicyDraft_def
    createPolicyRevisionDraft_def createPolicyRestoreDraft_def simulatePolicyDraft_def createPolicyVersion_def Let_def
  by (intro preserve_intros; simp)+

lemma version_exists_frame [simp]:
  "version_exists p v (s\<lparr>uuids := n\<rparr>) = version_exists p v s"
  by (simp add: version_exists_def)

subsection \<open>Steps on versions and bindings\<close>

lemma wp_insert_version:
  "wp (insert_version v) Q s =
     (\<not> version_exists (pv_policy_id v) (pv_version v) s \<and>
      \<not> list_ex (\<lambda>r. pv_org_id r = pv_org_id v \<and> pv_policy_id r = pv_policy_id v \<and>
           pv_status r = VersionActive \<and> pv_status v = VersionActive) (policy_versions s) \<longrightarrow>
      Q () (s\<lparr>policy_versions := policy_versions s @ [v]\<rparr>))"
  by (auto simp: insert_version_def wp_simps)

lemma binding_live_append: "binding_live vs b \<Longrightarrow> binding_live (vs @ ws) b"
  by (auto simp: binding_live_def live_version_def)

text \<open>Adding an active, validated version where the schema admits it.\<close>

lemma policies_ok_insert:
  assumes ok: "policies_ok s" and "pv_status v = VersionActive" and "statements_valid s (pv_statements v)"
    and "\<not> version_exists (pv_policy_id v) (pv_version v) s"
    and "\<not> list_ex (\<lambda>r. pv_org_id r = pv_org_id v \<and> pv_policy_id r = pv_policy_id v \<and>
           pv_status r = VersionActive \<and> pv_status v = VersionActive) (policy_versions s)"
  shows "policies_ok (s\<lparr>policy_versions := policy_versions s @ [v]\<rparr>)"
proof -
  have "version_key v \<notin> version_key ` set (policy_versions s)"
    using assms(4) by (auto simp: version_exists_def list_ex_iff version_key_def)
  moreover have "owner_key v \<notin> owner_key ` set (filter is_active (policy_versions s))"
    using assms(2,5) by (auto simp: list_ex_iff owner_key_def is_active_def)
  moreover have "is_active v" using assms(2) by (simp add: is_active_def)
  moreover have "list_all (binding_live (policy_versions s @ [v])) (policy_bindings s)"
    using ok by (auto simp: policies_ok_def list_all_iff intro: binding_live_append)
  ultimately show ?thesis using ok assms(3) by (auto simp: policies_ok_def)
qed

lemma policies_ok_insert_fresh:
  assumes "policies_ok s" and "pv_status v = VersionActive" and "statements_valid s (pv_statements v)"
    and "\<not> version_exists (pv_policy_id v) (pv_version v) s"
    and "\<not> list_ex (\<lambda>r. pv_org_id r = pv_org_id v \<and> pv_policy_id r = pv_policy_id v \<and>
           pv_status r = VersionActive) (policy_versions s)"
  shows "policies_ok (s\<lparr>uuids := n, policy_versions := policy_versions s @ [v], policy_drafts := ds\<rparr>)"
  using policies_ok_insert [of "s\<lparr>uuids := n\<rparr>" v] assms by simp

lemma wp_new_binding_ok:
  assumes "policies_ok s" and "live_version (policy_versions s) orgId policyId version"
  shows "wp (new_binding E operator orgId policyId version tt ti)
           (\<lambda>_ s'. policies_ok s' \<and> policy_versions s' = policy_versions s) s"
  using assms
  by (auto simp: new_binding_def insert_binding_def wp_simps Let_def policies_ok_def binding_live_def)

lemma policies_ok_remove:
  assumes "policies_ok s"
  shows "policies_ok (s\<lparr>policy_bindings := update_rows p (removed_binding operator t reason) (policy_bindings s)\<rparr>)"
  using assms
  by (auto simp: policies_ok_def list_all_iff set_update_rows binding_live_def removed_binding_def split: if_splits)

lemma wp_event:
  assumes "policies_ok s" and "\<And>a s'. policies_ok s' \<Longrightarrow> Q a s'"
  shows "wp (recordPolicyEvent E orgId operator action resource policyId outcome reason payload) Q s"
proof -
  have "preserves policies_ok (recordPolicyEvent E orgId operator action resource policyId outcome reason payload)"
    by (intro preserve_intros) simp_all
  from wp_preserves [OF this assms(1)] show ?thesis by (rule wp_mono) (rule assms(2))
qed

lemma activatePolicyDraft_ok: "preserves policies_ok (activatePolicyDraft E operator orgId draftId changeReason)"
  unfolding activatePolicyDraft_def
  by (rule preserves_transaction)
     (auto simp: wp_simps wp_insert_version validateStatements_def update_draft_def versionFromRow_def Let_def
        new_version_def statements_valid_def intro!: wp_event policies_ok_insert_fresh [simplified] split: option.split)

lemma wp_onboarding:
  assumes "policies_ok s" and "\<And>a s'. policies_ok s' \<Longrightarrow> Q a s'"
  shows "wp (completeProductOnboardingFlow E orgId flowKey payload) Q s"
proof -
  have "preserves policies_ok (completeProductOnboardingFlow E orgId flowKey payload)"
    by (intro preserve_intros) simp_all
  from wp_preserves [OF this assms(1)] show ?thesis by (rule wp_mono) (rule assms(2))
qed

lemma bindPolicy_ok: "preserves policies_ok (bindPolicy E operator orgId policyId version tt ti)"
  unfolding bindPolicy_def
proof (rule preserves_transaction, goal_cases)
  case (1 s)
  have live: "live_version (policy_versions s) orgId policyId version"
    if "find_row (\<lambda>v. pv_org_id v = orgId \<and> pv_policy_id v = policyId \<and> pv_version v = version \<and>
          pv_status v = VersionActive) (policy_versions s) = Some v" for v
    using find_row_Some [OF that] by (auto simp: live_version_def is_active_def)
  show ?case
    using 1 live
    by (auto simp: wp_simps assertBindingTargetTypeAllowed_def assertBindingTargetExists_def
        intro!: wp_mono [OF wp_new_binding_ok] wp_event wp_onboarding split: option.split)
qed

lemma removePolicyBinding_ok: "preserves policies_ok (removePolicyBinding E operator orgId policyId bindingId)"
  unfolding removePolicyBinding_def Let_def
  by (intro preserve_intros) (simp_all add: policies_ok_remove)

text \<open>Ending the active versions of a policy together with its active bindings.\<close>

lemma policies_ok_archive:
  assumes ok: "policies_ok s"
  shows "policies_ok (s\<lparr>
      policy_versions := update_rows (\<lambda>v. pv_org_id v = orgId \<and> pv_policy_id v = policyId \<and> pv_status v = VersionActive)
        (archived_version operator changeReason t) (policy_versions s),
      policy_bindings := update_rows (\<lambda>b. pb_org_id b = orgId \<and> pb_policy_id b = policyId \<and> pb_status b = BindingActive)
        (removed_binding operator t reason) (policy_bindings s)\<rparr>)" (is "policies_ok (s\<lparr>policy_versions := ?vs, policy_bindings := ?bs\<rparr>)")
proof -
  let ?p = "\<lambda>v. pv_org_id v = orgId \<and> pv_policy_id v = policyId \<and> pv_status v = VersionActive"
  have keys: "map version_key ?vs = map version_key (policy_versions s)"
    by (rule map_update_rows) (simp add: version_key_def archived_version_def)
  have active: "filter is_active ?vs = filter (\<lambda>v. is_active v \<and> \<not> ?p v) (policy_versions s)"
    by (rule filter_update_rows) (simp add: is_active_def archived_version_def)
  have live: "binding_live ?vs b" if b: "b \<in> set ?bs" for b
  proof (cases "pb_status b = BindingActive")
    case True
    have old: "b \<in> set (policy_bindings s)" and other: "\<not> (pb_org_id b = orgId \<and> pb_policy_id b = policyId)"
      using update_rows_survivor [OF b, of "\<lambda>b. pb_status b = BindingActive"] True
      by (simp_all add: removed_binding_def)
    from old ok True obtain v where "v \<in> set (policy_versions s)" "pv_org_id v = pb_org_id b"
      "pv_policy_id v = pb_policy_id b" "pv_version v = pb_policy_version b" "is_active v"
      by (auto simp: policies_ok_def list_all_iff binding_live_def live_version_def)
    with other have "v \<in> set ?vs" by (intro update_rows_other) auto
    with \<open>is_active v\<close> \<open>pv_org_id v = _\<close> \<open>pv_policy_id v = _\<close> \<open>pv_version v = _\<close> show ?thesis
      by (auto simp: binding_live_def live_version_def)
  qed (simp add: binding_live_def)
  have "list_all (\<lambda>v. statements_valid s (pv_statements v)) ?vs"
    using ok by (auto simp: policies_ok_def list_all_iff set_update_rows archived_version_def)
  moreover have "distinct (map owner_key (filter (\<lambda>v. is_active v \<and> \<not> ?p v) (policy_versions s)))"
    using ok by (intro distinct_filter_sub) (simp add: policies_ok_def)
  ultimately have "distinct (map version_key ?vs)" "distinct (map owner_key (filter is_active ?vs))"
    "list_all (binding_live ?vs) ?bs" "list_all (\<lambda>v. statements_valid s (pv_statements v)) ?vs"
    using ok keys live by (simp_all only: policies_ok_def active list_all_iff) auto
  then show ?thesis by (simp only: policies_ok_def) simp
qed

lemma archivePolicy_ok: "preserves policies_ok (archivePolicy E operator orgId policyId changeReason)"
  unfolding archivePolicy_def
  by (rule preserves_transaction)
     (auto simp: wp_simps versionFromRow_def intro!: wp_event policies_ok_archive split: option.split)


text \<open>
  Between superseding a version and moving its bindings the invariant holds of every binding
  but those about to move.
\<close>

definition moving_ok :: "string \<Rightarrow> string \<Rightarrow> int \<Rightarrow> ('a policy_db_scheme) \<Rightarrow> bool" where
  "moving_ok orgId policyId version s \<longleftrightarrow>
     policies_ok (s\<lparr>policy_bindings := filter (\<lambda>b. \<not> bindings_of orgId policyId version b) (policy_bindings s)\<rparr>)"

lemma moving_ok_supersede:
  assumes ok: "policies_ok s"
  shows "moving_ok orgId policyId version (s\<lparr>policy_versions :=
      update_rows (\<lambda>v. pv_org_id v = orgId \<and> pv_policy_id v = policyId \<and> pv_version v = version)
        (\<lambda>v. v\<lparr>pv_status := VersionSuperseded\<rparr>) (policy_versions s)\<rparr>)" (is "moving_ok _ _ _ (s\<lparr>policy_versions := ?vs\<rparr>)")
proof -
  let ?p = "\<lambda>v. pv_org_id v = orgId \<and> pv_policy_id v = policyId \<and> pv_version v = version"
  let ?bs = "filter (\<lambda>b. \<not> bindings_of orgId policyId version b) (policy_bindings s)"
  have keys: "map version_key ?vs = map version_key (policy_versions s)"
    by (rule map_update_rows) (simp add: version_key_def)
  have active: "filter is_active ?vs = filter (\<lambda>v. is_active v \<and> \<not> ?p v) (policy_versions s)"
    by (rule filter_update_rows) (simp add: is_active_def)
  have live: "binding_live ?vs b" if b: "b \<in> set ?bs" for b
  proof (cases "pb_status b = BindingActive")
    case True
    with b ok obtain v where v: "v \<in> set (policy_versions s)" "pv_org_id v = pb_org_id b"
      "pv_policy_id v = pb_policy_id b" "pv_version v = pb_policy_version b" "is_active v"
      by (auto simp: policies_ok_def list_all_iff binding_live_def live_version_def)
    with b True have "v \<in> set ?vs" by (intro update_rows_other) (auto simp: bindings_of_def)
    with v show ?thesis by (auto simp: binding_live_def live_version_def)
  qed (simp add: binding_live_def)
  have "list_all (\<lambda>v. statements_valid s (pv_statements v)) ?vs"
    using ok by (auto simp: policies_ok_def list_all_iff set_update_rows)
  moreover have "distinct (map owner_key (filter (\<lambda>v. is_active v \<and> \<not> ?p v) (policy_versions s)))"
    using ok by (intro distinct_filter_sub) (simp add: policies_ok_def)
  ultimately have "distinct (map version_key ?vs)" "distinct (map owner_key (filter is_active ?vs))"
    "list_all (binding_live ?vs) ?bs" "list_all (\<lambda>v. statements_valid s (pv_statements v)) ?vs"
    using ok keys live by (simp_all only: policies_ok_def active list_all_iff) auto
  then show ?thesis unfolding moving_ok_def by (simp only: policies_ok_def) simp
qed

lemma moving_ok_insert:
  assumes "moving_ok orgId policyId version s" and "pv_status v = VersionActive"
    and "statements_valid s (pv_statements v)"
    and "\<not> version_exists (pv_policy_id v) (pv_version v) s"
    and "\<not> list_ex (\<lambda>r. pv_org_id r = pv_org_id v \<and> pv_policy_id r = pv_policy_id v \<and>
           pv_status r = VersionActive \<and> pv_status v = VersionActive) (policy_versions s)"
  shows "moving_ok orgId policyId version (s\<lparr>policy_versions := policy_versions s @ [v]\<rparr>)"
proof -
  let ?bs = "filter (\<lambda>b. \<not> bindings_of orgId policyId version b) (policy_bindings s)"
  have "s\<lparr>policy_bindings := ?bs, policy_versions := policy_versions s @ [v]\<rparr> =
        s\<lparr>policy_versions := policy_versions s @ [v], policy_bindings := ?bs\<rparr>"
    by (cases s) simp
  with policies_ok_insert [OF assms(1) [unfolded moving_ok_def] assms(2)] assms(3-5) show ?thesis
    by (simp add: moving_ok_def version_exists_def)
qed

lemma moving_ok_remove:
  assumes "moving_ok orgId policyId version s"
  shows "policies_ok (s\<lparr>policy_bindings := update_rows (bindings_of orgId policyId version)
           (removed_binding operator t reason) (policy_bindings s)\<rparr>)"
proof -
  have live: "binding_live (policy_versions s) b"
    if b: "b \<in> set (update_rows (bindings_of orgId policyId version) (removed_binding operator t reason) (policy_bindings s))" for b
  proof (cases "pb_status b = BindingActive")
    case True
    have "b \<in> set (policy_bindings s) \<and> \<not> bindings_of orgId policyId version b"
      using update_rows_survivor [OF b, of "\<lambda>b. pb_status b = BindingActive"] True
      by (simp add: removed_binding_def)
    with assms show ?thesis by (simp add: moving_ok_def policies_ok_def list_all_iff)
  qed (simp add: binding_live_def)
  with assms show ?thesis by (simp add: moving_ok_def policies_ok_def list_all_iff)
qed

lemma wp_new_bindings_ok:
  assumes "policies_ok s" and "live_version (policy_versions s) orgId policyId version"
    and "\<And>n b s. policies_ok s \<Longrightarrow> live_version (policy_versions s) orgId policyId version \<Longrightarrow>
           wp (f n b) (\<lambda>_ s'. policies_ok s' \<and> policy_versions s' = policy_versions s) s"
  shows "wp (foldM f n bs) (\<lambda>_. policies_ok) s"
proof -
  let ?J = "\<lambda>s. policies_ok s \<and> live_version (policy_versions s) orgId policyId version"
  have "wp (foldM f n bs) (\<lambda>_. ?J) s"
    using assms(1,2) by (intro wp_foldM) (auto intro: wp_mono [OF assms(3)])
  then show ?thesis by (rule wp_mono) simp
qed

lemma wp_migrate_ok:
  assumes mid: "moving_ok orgId policyId oldVersion s"
    and live: "live_version (policy_versions s) orgId policyId nextVersion"
  shows "wp (migrate_bindings E operator orgId policyId oldVersion nextVersion) (\<lambda>_. policies_ok) s"
proof -
  let ?moved = "sort_key pb_created_at (filter (bindings_of orgId policyId oldVersion) (policy_bindings s))"
  let ?s = "if ?moved \<noteq> [] then s\<lparr>policy_bindings := update_rows (bindings_of orgId policyId oldVersion)
      (removed_binding operator (clock s) ''policy_revision_migrated'') (policy_bindings s)\<rparr> else s"
  have ok: "policies_ok ?s"
  proof (cases "?moved = []")
    case True
    then have "filter (bindings_of orgId policyId oldVersion) (policy_bindings s) = []" by simp
    then have "filter (\<lambda>b. \<not> bindings_of orgId policyId oldVersion b) (policy_bindings s) = policy_bindings s"
      by (simp add: filter_empty_conv filter_id_conv)
    with mid True show ?thesis by (simp add: moving_ok_def)
  qed (use moving_ok_remove [OF mid] in simp)
  have live': "live_version (policy_versions ?s) orgId policyId nextVersion" using live by simp
  have run: "wp (migrate_bindings E operator orgId policyId oldVersion nextVersion) Q s =
      wp (foldM (\<lambda>n b. bindM (new_binding E operator orgId policyId nextVersion (pb_target_type b) (pb_target_id b))
              (\<lambda>_. ret (n + 1))) 0 ?moved) Q ?s" for Q
    by (simp add: migrate_bindings_def wp_simps)
  show ?thesis
    unfolding run by (rule wp_new_bindings_ok [OF ok live']) (simp only: wp_bindM wp_ret, rule wp_new_binding_ok)
qed

lemma wp_restore_ok:
  assumes "policies_ok s" and "live_version (policy_versions s) orgId policyId nextVersion"
  shows "wp (restore_bindings E operator orgId policyId nextVersion statements bindings) (\<lambda>_. policies_ok) s"
  unfolding restore_bindings_def using assms
  by (rule wp_new_bindings_ok)
     (auto simp: wp_simps assertBindingTargetTypeAllowed_def intro!: wp_mono [OF wp_new_binding_ok])

lemma wp_revision_guards:
  assumes "\<And>policyId baseVersion mode active versions.
      (mode = Revision \<longrightarrow> active \<noteq> None) \<Longrightarrow> (mode = Restore \<longrightarrow> active = None) \<Longrightarrow>
      Q (policyId, baseVersion, mode, active, versions) s"
  shows "wp (revision_guards orgId draft) Q s"
  using assms
  by (auto simp: revision_guards_def wp_simps Let_def split: option.split)

lemma live_version_insert:
  "pv_status v = VersionActive \<Longrightarrow> live_version (vs @ [v]) (pv_org_id v) (pv_policy_id v) (pv_version v)"
  by (simp add: live_version_def is_active_def)

lemma wp_apply_revision_ok:
  assumes ok: "policies_ok s" and row: "pv_org_id row = orgId" "pv_status row = VersionActive"
      "statements_valid s (pv_statements row)"
    and mode: "mode = Revision \<longrightarrow> active \<noteq> None" "mode = Restore \<longrightarrow> active = None"
  shows "wp (apply_revision E operator orgId mode active draft row) (\<lambda>_. policies_ok) s"
proof (cases mode)
  case Restore
  have "wp (restore_bindings E operator orgId (pv_policy_id row) (pv_version row) sts bs) (\<lambda>_. policies_ok)
      (s\<lparr>policy_versions := policy_versions s @ [row]\<rparr>)"
    if "policies_ok (s\<lparr>policy_versions := policy_versions s @ [row]\<rparr>)" for sts bs
    using that live_version_insert [OF row(2)] row(1) by (intro wp_restore_ok) auto
  with Restore mode(2) policies_ok_insert [OF ok row(2,3)] show ?thesis
    by (simp add: apply_revision_def wp_simps wp_insert_version)
next
  case Revision
  with mode(1) obtain a where a: "active = Some a" by blast
  let ?s = "s\<lparr>policy_versions :=
      update_rows (\<lambda>v. pv_org_id v = orgId \<and> pv_policy_id v = pv_policy_id row \<and> pv_version v = pv_version a)
        (\<lambda>v. v\<lparr>pv_status := VersionSuperseded\<rparr>) (policy_versions s)\<rparr>"
  let ?s2 = "?s\<lparr>policy_versions := policy_versions ?s @ [row]\<rparr>"
  have mid: "moving_ok orgId (pv_policy_id row) (pv_version a) ?s" by (rule moving_ok_supersede [OF ok])
  have "wp (insert_version row) (\<lambda>_. wp (migrate_bindings E operator orgId (pv_policy_id row) (pv_version a) (pv_version row))
      (\<lambda>_. policies_ok)) ?s"
    unfolding wp_insert_version
  proof (rule impI, elim conjE)
    assume fresh: "\<not> version_exists (pv_policy_id row) (pv_version row) ?s"
      "\<not> list_ex (\<lambda>r. pv_org_id r = pv_org_id row \<and> pv_policy_id r = pv_policy_id row \<and>
           pv_status r = VersionActive \<and> pv_status row = VersionActive) (policy_versions ?s)"
    have "moving_ok orgId (pv_policy_id row) (pv_version a) ?s2"
      by (rule moving_ok_insert [OF mid row(2) _ fresh]) (simp add: row(3))
    moreover have "live_version (policy_versions ?s2) orgId (pv_policy_id row) (pv_version row)"
      using live_version_insert [OF row(2)] row(1) by simp
    ultimately show "wp (migrate_bindings E operator orgId (pv_policy_id row) (pv_version a) (pv_version row))
      (\<lambda>_. policies_ok) ?s2" by (rule wp_migrate_ok)
  qed
  with Revision a show ?thesis
    by (simp add: apply_revision_def supersede_version_def wp_simps)
qed

lemma activatePolicyRevisionDraft_ok:
  "preserves policies_ok (activatePolicyRevisionDraft E operator orgId draftId changeReason)"
  unfolding activatePolicyRevisionDraft_def
proof (rule preserves_transaction, goal_cases)
  case (1 s)
  note step = wp_mono [OF wp_apply_revision_ok [OF 1]]
  show ?case
    by (auto simp: wp_simps validateStatements_def Let_def update_draft_def versionFromRow_def
        new_version_def statements_valid_def intro!: wp_revision_guards step wp_event split: option.split)
qed

subsection \<open>Any sequence of operations\<close>

datatype policy_call =
    CreateDraft operator_context string draft_input
  | UpdateDraft operator_context string string draft_update
  | DiscardDraft operator_context string string
  | ValidateDraft operator_context string string
  | ActivateDraft operator_context string string "string option"
  | CreateRevision operator_context string string draft_update
  | CreateRestore operator_context string string draft_update "restore_binding list option"
  | ActivateRevision operator_context string string "string option"
  | BindPolicy operator_context string string int target_type string
  | RemoveBinding operator_context string string string
  | ArchivePolicy operator_context string string "string option"
  | SimulateDraft operator_context string string decision_request
  | CheckDecision operator_context string decision_request

fun policy_step :: "env \<Rightarrow> policy_call \<Rightarrow> 'a policy_db_scheme \<Rightarrow> 'a policy_db_scheme" where
  "policy_step E (CreateDraft u orgId i) s = snd (createPolicyDraft E u orgId i s)"
| "policy_step E (UpdateDraft u orgId d i) s = snd (updatePolicyDraft E u orgId d i s)"
| "policy_step E (DiscardDraft u orgId d) s = snd (discardPolicyDraft E u orgId d s)"
| "policy_step E (ValidateDraft u orgId d) s = snd (validatePolicyDraft E u orgId d s)"
| "policy_step E (ActivateDraft u orgId d r) s = snd (activatePolicyDraft E u orgId d r s)"
| "policy_step E (CreateRevision u orgId p i) s = snd (createPolicyRevisionDraft E u orgId p i s)"
| "policy_step E (CreateRestore u orgId p i bs) s = snd (createPolicyRestoreDraft E u orgId p i bs s)"
| "policy_step E (ActivateRevision u orgId d r) s = snd (activatePolicyRevisionDraft E u orgId d r s)"
| "policy_step E (BindPolicy u orgId p v tt ti) s = snd (bindPolicy E u orgId p v tt ti s)"
| "policy_step E (RemoveBinding u orgId p b) s = snd (removePolicyBinding E u orgId p b s)"
| "policy_step E (ArchivePolicy u orgId p r) s = snd (archivePolicy E u orgId p r s)"
| "policy_step E (SimulateDraft u orgId d rq) s = snd (simulatePolicyDraft E u orgId d rq s)"
| "policy_step E (CheckDecision u orgId rq) s = snd (checkPolicyDecision E u orgId rq s)"

text \<open>A database in which no policy has been activated yet.\<close>

definition no_policies :: "'a policy_db_scheme \<Rightarrow> 'a policy_db_scheme" where
  "no_policies s = s\<lparr>policy_drafts := [], policy_versions := [], policy_bindings := []\<rparr>"

lemma checkPolicyDecision_ok: "preserves policies_ok (checkPolicyDecision E operator orgId request)"
  unfolding checkPolicyDecision_def by (intro preserve_intros) simp_all

lemmas policy_operations_ok =
  draft_operations_ok activatePolicyDraft_ok activatePolicyRevisionDraft_ok bindPolicy_ok
  removePolicyBinding_ok archivePolicy_ok checkPolicyDecision_ok

lemma policy_step_ok: "policies_ok s \<Longrightarrow> policies_ok (policy_step E call s)"
  by (cases call) (simp_all add: policy_operations_ok [unfolded preserves_def, rule_format])

interpretation policy_machine: invariant_machine "no_policies s0" "policy_step E" policies_ok
  for s0 :: "'a policy_db_scheme" and E
  by unfold_locales (simp_all add: policy_step_ok, simp add: policies_ok_def no_policies_def)

text \<open>
  C20. The policy tables are always consistent. Start without policies and run any sequence of
  draft, activation, revision, restore, binding, archive, simulation and check calls, each of
  which may throw: version numbers stay unique, no policy has two active versions, every active
  binding refers to an active version of its own organisation, and every version in the table
  consists of statements the validator accepts.
\<close>

theorem policy_tables_always_ok:
  "let s = fold (policy_step E) calls (no_policies s0)
   in distinct (map version_key (policy_versions s)) \<and>
      distinct (map owner_key (filter is_active (policy_versions s))) \<and>
      list_all (binding_live (policy_versions s)) (policy_bindings s) \<and>
      list_all (\<lambda>v. statements_valid s (pv_statements v)) (policy_versions s)"
  using policy_machine.inv_reachable [of E calls s0] by (simp add: Let_def policies_ok_def)

section \<open>Archiving takes effect at once\<close>

lemma wp_event_frame:
  assumes "P s" and "\<And>a s'. P s' \<Longrightarrow> Q a s'"
    and "\<And>s n. P (s\<lparr>uuids := n\<rparr>) = P s" and "\<And>s hs. P (s\<lparr>audit_event_heads := hs\<rparr>) = P s"
    and "\<And>s es. P (s\<lparr>audit_events := es\<rparr>) = P s"
  shows "wp (recordPolicyEvent E orgId operator action resource policyId outcome reason payload) Q s"
  using wp_preserves [OF preserves_recordPolicyEvent [of P, OF assms(3-5)] assms(1)]
  by (rule wp_mono) (rule assms(2))

lemma archivePolicy_effect:
  assumes "archivePolicy E operator orgId policyId changeReason s = (Inr v, s')"
  shows "policy_versions s' =
      update_rows (\<lambda>v. pv_org_id v = orgId \<and> pv_policy_id v = policyId \<and> pv_status v = VersionActive)
        (archived_version operator changeReason (clock s)) (policy_versions s)"
    and "policy_bindings s' =
      update_rows (\<lambda>b. pb_org_id b = orgId \<and> pb_policy_id b = policyId \<and> pb_status b = BindingActive)
        (removed_binding operator (clock s) ''policy_archived'') (policy_bindings s)"
proof -
  let ?vs = "update_rows (\<lambda>v. pv_org_id v = orgId \<and> pv_policy_id v = policyId \<and> pv_status v = VersionActive)
        (archived_version operator changeReason (clock s)) (policy_versions s)"
  let ?bs = "update_rows (\<lambda>b. pb_org_id b = orgId \<and> pb_policy_id b = policyId \<and> pb_status b = BindingActive)
        (removed_binding operator (clock s) ''policy_archived'') (policy_bindings s)"
  have "wp (archivePolicy E operator orgId policyId changeReason)
          (\<lambda>_ s'. policy_versions s' = ?vs \<and> policy_bindings s' = ?bs) s"
    unfolding archivePolicy_def
    by (auto simp: wp_simps versionFromRow_def split: option.split
        intro!: wp_event_frame [of "\<lambda>s'. policy_versions s' = ?vs \<and> policy_bindings s' = ?bs"])
  from wpD [OF this assms] show "policy_versions s' = ?vs" "policy_bindings s' = ?bs" by simp_all
qed

text \<open>
  C22. Archiving a policy is atomic and immediate. It either throws and changes nothing, or no
  version of the policy applies to any request of the organisation any more and none of its
  bindings is active, while the versions and bindings of every other policy are untouched.
\<close>

theorem archived_policy_not_in_force:
  "case archivePolicy E operator orgId policyId changeReason s of
     (Inl err, s') \<Rightarrow> s' = s
   | (Inr v, s') \<Rightarrow>
       (\<nexists>request pv. in_force orgId request s' pv \<and> pv_policy_id pv = policyId) \<and>
       (\<nexists>b. b \<in> set (policy_bindings s') \<and> pb_org_id b = orgId \<and> pb_policy_id b = policyId \<and>
            pb_status b = BindingActive) \<and>
       filter (\<lambda>v. owner_key v \<noteq> (orgId, policyId)) (policy_versions s') =
         filter (\<lambda>v. owner_key v \<noteq> (orgId, policyId)) (policy_versions s) \<and>
       filter (\<lambda>b. (pb_org_id b, pb_policy_id b) \<noteq> (orgId, policyId)) (policy_bindings s') =
         filter (\<lambda>b. (pb_org_id b, pb_policy_id b) \<noteq> (orgId, policyId)) (policy_bindings s)"
proof -
  obtain r s' where run: "archivePolicy E operator orgId policyId changeReason s = (r, s')" by fastforce
  show ?thesis
  proof (cases r)
    case (Inl err)
    have "s' = s" using run unfolding Inl archivePolicy_def by (simp add: withTransaction_Inl)
    with run Inl show ?thesis by simp
  next
    case (Inr v)
    note effect = archivePolicy_effect [OF run [unfolded Inr]]
    have gone: "\<not> (b \<in> set (policy_bindings s') \<and> pb_org_id b = orgId \<and> pb_policy_id b = policyId \<and>
        pb_status b = BindingActive)" for b
    proof (rule notI, elim conjE)
      assume b: "b \<in> set (policy_bindings s')" and mine: "pb_org_id b = orgId" "pb_policy_id b = policyId"
        and active: "pb_status b = BindingActive"
      from update_rows_survivor [OF b [unfolded effect(2)], of "\<lambda>b. pb_status b = BindingActive"] mine active
      show False by (simp add: removed_binding_def)
    qed
    have "\<not> (in_force orgId request s' pv \<and> pv_policy_id pv = policyId)" for request pv
      using gone unfolding in_force_def binding_applies_def by metis
    moreover have "filter (\<lambda>v. owner_key v \<noteq> (orgId, policyId)) (policy_versions s') =
        filter (\<lambda>v. owner_key v \<noteq> (orgId, policyId)) (policy_versions s)"
      unfolding effect by (rule filter_update_rows_other) (simp add: owner_key_def archived_version_def)
    moreover have "filter (\<lambda>b. (pb_org_id b, pb_policy_id b) \<noteq> (orgId, policyId)) (policy_bindings s') =
        filter (\<lambda>b. (pb_org_id b, pb_policy_id b) \<noteq> (orgId, policyId)) (policy_bindings s)"
      unfolding effect by (rule filter_update_rows_other) (simp add: removed_binding_def)
    ultimately show ?thesis using run Inr gone by simp
  qed
qed

section \<open>A revision carries its bindings over\<close>

abbreviation targets :: "policy_binding_row list \<Rightarrow> (target_type \<times> string) list" where
  "targets \<equiv> map (\<lambda>b. (pb_target_type b, pb_target_id b))"

definition bound_targets :: "string \<Rightarrow> string \<Rightarrow> int \<Rightarrow> ('a policy_db_scheme) \<Rightarrow> (target_type \<times> string) set" where
  "bound_targets orgId policyId version s =
     set (targets (filter (bindings_of orgId policyId version) (policy_bindings s)))"

lemma wp_new_binding_target:
  "wp (new_binding E operator orgId policyId version tt ti)
     (\<lambda>_ s'. policy_versions s' = policy_versions s \<and>
        (\<exists>b. policy_bindings s' = policy_bindings s @ [b] \<and> bindings_of orgId policyId version b \<and>
           pb_target_type b = tt \<and> pb_target_id b = ti)) s"
  by (auto simp: new_binding_def insert_binding_def wp_simps Let_def bindings_of_def)

lemma wp_new_bindings_targets:
  fixes s :: "'a policy_db_scheme"
  shows
  "wp (foldM (\<lambda>n b. bindM (new_binding E operator orgId policyId version (pb_target_type b) (pb_target_id b))
         (\<lambda>_. ret (n + 1))) (n :: int) bs)
     (\<lambda>_ s'. policy_versions s' = policy_versions s \<and>
        (\<exists>new. policy_bindings s' = policy_bindings s @ new \<and> targets new = targets bs \<and>
           list_all (bindings_of orgId policyId version) new)) s"
proof (induction bs arbitrary: n s)
  case Nil
  then show ?case by (simp add: wp_simps)
next
  case (Cons b bs)
  show ?case unfolding foldM.simps wp_bindM wp_ret
  proof (rule wp_mono [OF wp_new_binding_target], elim conjE exE)
    fix s1 :: "'a policy_db_scheme" and b'
    assume s1: "policy_versions s1 = policy_versions s" "policy_bindings s1 = policy_bindings s @ [b']"
      and b': "bindings_of orgId policyId version b'" "pb_target_type b' = pb_target_type b" "pb_target_id b' = pb_target_id b"
    show "wp (foldM (\<lambda>n b. bindM (new_binding E operator orgId policyId version (pb_target_type b) (pb_target_id b))
         (\<lambda>_. ret (n + 1))) (n + 1) bs)
     (\<lambda>_ s'. policy_versions s' = policy_versions s \<and>
        (\<exists>new. policy_bindings s' = policy_bindings s @ new \<and> targets new = targets (b # bs) \<and>
           list_all (bindings_of orgId policyId version) new)) s1"
    proof (rule wp_mono [OF Cons.IH [of "n + 1" s1]], elim conjE exE)
      fix s' new
      assume "policy_versions s' = policy_versions s1" "policy_bindings s' = policy_bindings s1 @ new"
        "targets new = targets bs" "list_all (bindings_of orgId policyId version) new"
      with s1 b' show "policy_versions s' = policy_versions s \<and>
        (\<exists>new. policy_bindings s' = policy_bindings s @ new \<and> targets new = targets (b # bs) \<and>
           list_all (bindings_of orgId policyId version) new)"
        by (intro conjI exI [of _ "b' # new"]) simp_all
    qed
  qed
qed

lemma removed_binding_inactive [simp]: "\<not> bindings_of orgId policyId version (removed_binding operator t reason b)"
  by (simp add: bindings_of_def removed_binding_def)

lemma wp_migrate_targets:
  assumes other: "oldVersion \<noteq> nextVersion"
    and fresh: "bound_targets orgId policyId nextVersion s = {}"
  shows "wp (migrate_bindings E operator orgId policyId oldVersion nextVersion)
     (\<lambda>_ s'. policy_versions s' = policy_versions s \<and>
        bound_targets orgId policyId nextVersion s' = bound_targets orgId policyId oldVersion s \<and>
        bound_targets orgId policyId oldVersion s' = {}) s"
proof -
  let ?old = "bindings_of orgId policyId oldVersion" and ?next = "bindings_of orgId policyId nextVersion"
  let ?moved = "sort_key pb_created_at (filter ?old (policy_bindings s))"
  let ?bs = "update_rows ?old (removed_binding operator (clock s) ''policy_revision_migrated'') (policy_bindings s)"
  let ?s = "if ?moved \<noteq> [] then s\<lparr>policy_bindings := ?bs\<rparr> else s"
  have run: "wp (migrate_bindings E operator orgId policyId oldVersion nextVersion) Q s =
      wp (foldM (\<lambda>n b. bindM (new_binding E operator orgId policyId nextVersion (pb_target_type b) (pb_target_id b))
              (\<lambda>_. ret (n + 1))) 0 ?moved) Q ?s" for Q
    by (simp add: migrate_bindings_def wp_simps)
  have keep: "filter q (update_rows p f xs) = []"
    if "filter q xs = []" "\<And>r. \<not> q (f r)" for p q f and xs :: "policy_binding_row list"
    using that by (induction xs) (auto split: if_splits)
  have no_next: "filter ?next (policy_bindings s) = []"
    using fresh by (simp add: bound_targets_def)
  have no_old: "filter ?old (policy_bindings ?s) = []"
  proof (cases "?moved = []")
    case True
    then show ?thesis by simp
  next
    case False
    have "filter ?old ?bs = filter (\<lambda>b. ?old b \<and> \<not> ?old b) (policy_bindings s)"
      by (rule filter_update_rows) simp
    with False show ?thesis by simp
  qed
  have nexts: "filter ?next (policy_bindings ?s) = []"
    using no_next keep [OF no_next] by simp
  have split: "\<not> (?old b \<and> ?next b)" for b using other by (auto simp: bindings_of_def)
  show ?thesis
    unfolding run
  proof (rule wp_mono [OF wp_new_bindings_targets], elim conjE exE)
    fix s' new
    assume new: "policy_versions s' = policy_versions ?s" "policy_bindings s' = policy_bindings ?s @ new"
      "targets new = targets ?moved" "list_all ?next new"
    have "filter ?next new = new" "filter ?old new = []"
      using new(4) split by (auto simp: list_all_iff filter_id_conv filter_empty_conv)
    then have "bound_targets orgId policyId nextVersion s' = set (targets new)"
      "bound_targets orgId policyId oldVersion s' = {}"
      using new(2) nexts no_old by (simp_all add: bound_targets_def)
    moreover have "set (targets new) = bound_targets orgId policyId oldVersion s"
      unfolding new(3) bound_targets_def by simp
    ultimately show "policy_versions s' = policy_versions s \<and>
        bound_targets orgId policyId nextVersion s' = bound_targets orgId policyId oldVersion s \<and>
        bound_targets orgId policyId oldVersion s' = {}"
      using new(1) by simp
  qed
qed

lemma unbound_unknown_version:
  assumes "policies_ok s" and "\<not> version_exists policyId version s"
  shows "bound_targets orgId policyId version s = {}"
proof -
  have "\<not> bindings_of orgId policyId version b" if b: "b \<in> set (policy_bindings s)" for b
  proof
    assume "bindings_of orgId policyId version b"
    with assms(1) b obtain v where "v \<in> set (policy_versions s)" "pv_policy_id v = policyId" "pv_version v = version"
      by (auto simp: policies_ok_def list_all_iff binding_live_def live_version_def bindings_of_def)
    with assms(2) show False by (auto simp: version_exists_def list_ex_iff)
  qed
  then show ?thesis by (simp add: bound_targets_def filter_False)
qed

text \<open>What a revision of version \<open>base\<close> leaves behind.\<close>

definition revised ::
  "string \<Rightarrow> string \<Rightarrow> int \<Rightarrow> int \<Rightarrow> ('a policy_db_scheme) \<Rightarrow> ('a policy_db_scheme) \<Rightarrow> bool" where
  "revised orgId policyId base version s s' \<longleftrightarrow>
     live_version (policy_versions s') orgId policyId version \<and>
     \<not> live_version (policy_versions s') orgId policyId base \<and>
     bound_targets orgId policyId version s' = bound_targets orgId policyId base s \<and>
     bound_targets orgId policyId base s' = {}"

lemma revised_frame [simp]:
  "revised orgId policyId base version s (s'\<lparr>uuids := n\<rparr>) = revised orgId policyId base version s s'"
  "revised orgId policyId base version s (s'\<lparr>audit_events := es\<rparr>) = revised orgId policyId base version s s'"
  "revised orgId policyId base version s (s'\<lparr>audit_event_heads := hs\<rparr>) = revised orgId policyId base version s s'"
  "revised orgId policyId base version s (s'\<lparr>policy_drafts := ds\<rparr>) = revised orgId policyId base version s s'"
  by (simp_all add: revised_def bound_targets_def)

lemma wp_apply_revision_revised:
  fixes s :: "'a policy_db_scheme"
  assumes ok: "policies_ok s" and row: "pv_org_id row = orgId" "pv_status row = VersionActive"
    and later: "pv_version a < pv_version row"
  shows "wp (apply_revision E operator orgId Revision (Some a) draft row)
           (\<lambda>_. revised orgId (pv_policy_id row) (pv_version a) (pv_version row) s) s"
proof -
  let ?p = "pv_policy_id row"
  let ?vs = "update_rows (\<lambda>v. pv_org_id v = orgId \<and> pv_policy_id v = ?p \<and> pv_version v = pv_version a)
        (\<lambda>v. v\<lparr>pv_status := VersionSuperseded\<rparr>) (policy_versions s)"
  let ?s = "s\<lparr>policy_versions := ?vs @ [row]\<rparr>"
  have known: "version_exists p v (s\<lparr>policy_versions := ?vs\<rparr>) = version_exists p v s" for p v
  proof -
    have keys: "version_exists p v s = ((p, v) \<in> set (map version_key (policy_versions s)))" for s :: "'a policy_db_scheme"
      by (auto simp: version_exists_def list_ex_iff version_key_def)
    have "map version_key ?vs = map version_key (policy_versions s)"
      by (rule map_update_rows) (simp add: version_key_def)
    then show ?thesis by (simp add: keys del: set_map)
  qed
  have live: "live_version (?vs @ [row]) orgId ?p (pv_version row)"
    using live_version_insert [OF row(2)] row(1) by simp
  have dead: "\<not> live_version (?vs @ [row]) orgId ?p (pv_version a)"
  proof -
    have "filter (\<lambda>v. pv_org_id v = orgId \<and> pv_policy_id v = ?p \<and> pv_version v = pv_version a \<and> is_active v) ?vs = []"
      by (subst filter_update_rows) (auto simp: is_active_def filter_empty_conv)
    then show ?thesis using later by (auto simp: live_version_def filter_empty_conv)
  qed
  have "wp (insert_version row) (\<lambda>_. wp (migrate_bindings E operator orgId ?p (pv_version a) (pv_version row))
      (\<lambda>_. revised orgId ?p (pv_version a) (pv_version row) s)) (s\<lparr>policy_versions := ?vs\<rparr>)"
    unfolding wp_insert_version known
  proof (rule impI, elim conjE)
    assume "\<not> version_exists ?p (pv_version row) s"
    with ok have "bound_targets orgId ?p (pv_version row) s = {}" by (rule unbound_unknown_version)
    then have fresh: "bound_targets orgId ?p (pv_version row) ?s = {}" by (simp add: bound_targets_def)
    have "wp (migrate_bindings E operator orgId ?p (pv_version a) (pv_version row))
      (\<lambda>_ s'. policy_versions s' = policy_versions ?s \<and>
        bound_targets orgId ?p (pv_version row) s' = bound_targets orgId ?p (pv_version a) ?s \<and>
        bound_targets orgId ?p (pv_version a) s' = {}) ?s"
      using later fresh by (intro wp_migrate_targets) auto
    then show "wp (migrate_bindings E operator orgId ?p (pv_version a) (pv_version row))
      (\<lambda>_. revised orgId ?p (pv_version a) (pv_version row) s)
      (s\<lparr>policy_versions := ?vs, policy_versions := policy_versions (s\<lparr>policy_versions := ?vs\<rparr>) @ [row]\<rparr>)"
      using live dead by simp (erule wp_mono, simp add: revised_def bound_targets_def)
  qed
  then show ?thesis by (simp add: apply_revision_def supersede_version_def wp_simps)
qed

lemma wp_revision_guards_revision:
  assumes mode: "pd_revision_mode draft = Some Revision" "pd_revision_policy_id draft = Some policyId"
      "pd_revision_base_version draft = Some base"
    and step: "\<And>a. a \<in> set (org_policy_versions orgId policyId s) \<Longrightarrow> pv_version a = base \<Longrightarrow>
        Q (policyId, base, Revision, Some a, org_policy_versions orgId policyId s) s"
  shows "wp (revision_guards orgId draft) Q s"
  by (auto simp: revision_guards_def wp_simps Let_def mode) (metis find_row_Some step)

lemma activated_revision:
  assumes ok: "policies_ok s" and draft: "find_draft orgId draftId s = Some d"
    and mode: "pd_revision_mode d = Some Revision" "pd_revision_policy_id d = Some policyId"
      "pd_revision_base_version d = Some base"
  shows "wp (activatePolicyRevisionDraft E operator orgId draftId changeReason)
     (\<lambda>v s'. base < pv_version v \<and> pv_policy_id v = policyId \<and> pv_statements v = pd_statements d \<and>
        revised orgId policyId base (pv_version v) s s') s"
proof -
  have newest: "pv_version a < Max (pv_version ` set vs) + 1" if "a \<in> set vs" for a and vs :: "policy_version_row list"
    using that Max_ge [of "pv_version ` set vs" "pv_version a"] by fastforce
  show ?thesis
    unfolding activatePolicyRevisionDraft_def wp_withTransaction wp_bindM wp_query draft option.case wp_guardM
  proof (intro impI wp_revision_guards_revision [OF mode], goal_cases)
    case (1 a)
    note rev = wp_apply_revision_revised [OF ok, of _ orgId a E operator d]
    show ?case
      using 1 newest [OF 1(2)]
      by (auto simp: wp_simps validateStatements_def Let_def update_draft_def new_version_def versionFromRow_def
          policy_version_row.defs policy_version_record.defs
          intro!: wp_mono [OF rev] wp_event_frame [of "revised orgId policyId base
            (Max (pv_version ` set (org_policy_versions orgId policyId s)) + 1) s"])
  qed
qed

text \<open>
  C21. A revision takes the place of the version it is based on. In every reachable state, when a
  revision draft is activated the new version has a higher number and exactly the draft's
  statements, it is the active one and the base version no longer is, and it is bound to exactly
  the targets the base version was bound to, none of which stays bound to the base.
\<close>

theorem revision_carries_bindings:
  "let s = fold (policy_step E) calls (no_policies s0)
   in case (find_draft orgId draftId s, activatePolicyRevisionDraft E operator orgId draftId changeReason s) of
        (Some d, (Inr v, s')) \<Rightarrow>
          (case (pd_revision_mode d, pd_revision_policy_id d, pd_revision_base_version d) of
             (Some Revision, Some policyId, Some base) \<Rightarrow>
               base < pv_version v \<and> pv_policy_id v = policyId \<and> pv_statements v = pd_statements d \<and>
               live_version (policy_versions s') orgId policyId (pv_version v) \<and>
               \<not> live_version (policy_versions s') orgId policyId base \<and>
               bound_targets orgId policyId (pv_version v) s' = bound_targets orgId policyId base s \<and>
               bound_targets orgId policyId base s' = {}
           | _ \<Rightarrow> True)
      | _ \<Rightarrow> True"
proof -
  define s where "s = fold (policy_step E) calls (no_policies s0)"
  have ok: "policies_ok s" unfolding s_def by (rule policy_machine.inv_reachable)
  obtain r s' where run: "activatePolicyRevisionDraft E operator orgId draftId changeReason s = (r, s')" by fastforce
  have "base < pv_version v \<and> pv_policy_id v = policyId \<and> pv_statements v = pd_statements d \<and>
      live_version (policy_versions s') orgId policyId (pv_version v) \<and>
      \<not> live_version (policy_versions s') orgId policyId base \<and>
      bound_targets orgId policyId (pv_version v) s' = bound_targets orgId policyId base s \<and>
      bound_targets orgId policyId base s' = {}"
    if "find_draft orgId draftId s = Some d" "pd_revision_mode d = Some Revision"
      "pd_revision_policy_id d = Some policyId" "pd_revision_base_version d = Some base" "r = Inr v" for d policyId base v
    using wpD [OF activated_revision [OF ok that(1-4)] run [unfolded that(5)]] unfolding revised_def .
  then show ?thesis
    unfolding s_def [symmetric] Let_def run
    by (simp split: option.split sum.split revision_mode.split prod.split)
qed

section \<open>What policy operations never touch\<close>

lemma preserves_insert_version [preserve_intros]:
  "(\<And>s vs. P s \<Longrightarrow> P (s\<lparr>policy_versions := vs\<rparr>)) \<Longrightarrow> preserves P (insert_version v)"
  unfolding insert_version_def by (intro preserve_intros) auto

lemma preserves_new_binding [preserve_intros]:
  assumes "\<And>s n. P s \<Longrightarrow> P (s\<lparr>uuids := n\<rparr>)" and "\<And>s bs. P s \<Longrightarrow> P (s\<lparr>policy_bindings := bs\<rparr>)"
  shows "preserves P (new_binding E u orgId p v tt ti)"
  unfolding new_binding_def insert_binding_def Let_def by (intro preserve_intros) (simp_all add: assms)

lemma preserves_supersede [preserve_intros]:
  "(\<And>s vs. P s \<Longrightarrow> P (s\<lparr>policy_versions := vs\<rparr>)) \<Longrightarrow> preserves P (supersede_version orgId p v)"
  unfolding supersede_version_def by (intro preserve_intros) auto

lemma preserves_migrate [preserve_intros]:
  assumes "\<And>s n. P s \<Longrightarrow> P (s\<lparr>uuids := n\<rparr>)" and "\<And>s bs. P s \<Longrightarrow> P (s\<lparr>policy_bindings := bs\<rparr>)"
  shows "preserves P (migrate_bindings E u orgId p v w)"
  unfolding migrate_bindings_def by (intro preserve_intros) (simp_all add: assms)

lemma preserves_restore [preserve_intros]:
  assumes "\<And>s n. P s \<Longrightarrow> P (s\<lparr>uuids := n\<rparr>)" and "\<And>s bs. P s \<Longrightarrow> P (s\<lparr>policy_bindings := bs\<rparr>)"
  shows "preserves P (restore_bindings E u orgId p v sts bs)"
  unfolding restore_bindings_def case_prod_beta by (intro preserve_intros) (simp_all add: assms)

lemma preserves_revision_guards [preserve_intros]: "preserves P (revision_guards orgId d)"
  unfolding revision_guards_def Let_def
  by (simp split: option.split) (intro conjI allI impI preserve_intros)

lemma preserves_apply_revision [preserve_intros]:
  assumes "\<And>s n. P s \<Longrightarrow> P (s\<lparr>uuids := n\<rparr>)" and "\<And>s vs. P s \<Longrightarrow> P (s\<lparr>policy_versions := vs\<rparr>)"
    and "\<And>s bs. P s \<Longrightarrow> P (s\<lparr>policy_bindings := bs\<rparr>)"
  shows "preserves P (apply_revision E u orgId m a d row)"
proof -
  have tail: "preserves P (case (m, a) of
       (Revision, Some a) \<Rightarrow>
         bindM (migrate_bindings E u orgId (pv_policy_id row) (pv_version a) (pv_version row)) (\<lambda>n. ret (n, 0))
     | (Restore, _) \<Rightarrow>
         restore_bindings E u orgId (pv_policy_id row) (pv_version row) (pd_statements d) (pd_restore_bindings d)
     | _ \<Rightarrow> ret (0, 0))"
    by (cases m; cases a; simp) (intro preserve_intros; simp add: assms)+
  show ?thesis unfolding apply_revision_def by (intro preserve_intros tail) (simp_all add: assms)
qed

lemma policy_step_frame:
  assumes "\<And>s n. f (s\<lparr>uuids := n\<rparr>) = f s" and "\<And>s hs. f (s\<lparr>audit_event_heads := hs\<rparr>) = f s"
    and "\<And>s es. f (s\<lparr>audit_events := es\<rparr>) = f s" and "\<And>s os. f (s\<lparr>org_onboarding_states := os\<rparr>) = f s"
    and "\<And>s ds. f (s\<lparr>policy_drafts := ds\<rparr>) = f s" and "\<And>s vs. f (s\<lparr>policy_versions := vs\<rparr>) = f s"
    and "\<And>s bs. f (s\<lparr>policy_bindings := bs\<rparr>) = f s" and "\<And>s ds. f (s\<lparr>policy_decisions := ds\<rparr>) = f s"
    and "\<And>s ps. f (s\<lparr>policy_simulations := ps\<rparr>) = f s"
  shows "f (policy_step E c s) = f s"
proof -
  have ops:
    "preserves (\<lambda>s. f s = x) (createPolicyDraft E u orgId di)" "preserves (\<lambda>s. f s = x) (updatePolicyDraft E u orgId i du)"
    "preserves (\<lambda>s. f s = x) (discardPolicyDraft E u orgId i)" "preserves (\<lambda>s. f s = x) (validatePolicyDraft E u orgId i)"
    "preserves (\<lambda>s. f s = x) (activatePolicyDraft E u orgId i r)" "preserves (\<lambda>s. f s = x) (createPolicyRevisionDraft E u orgId i du)"
    "preserves (\<lambda>s. f s = x) (createPolicyRestoreDraft E u orgId i du rbs)"
    "preserves (\<lambda>s. f s = x) (activatePolicyRevisionDraft E u orgId i r)"
    "preserves (\<lambda>s. f s = x) (bindPolicy E u orgId i v tt ti)" "preserves (\<lambda>s. f s = x) (removePolicyBinding E u orgId i b)"
    "preserves (\<lambda>s. f s = x) (archivePolicy E u orgId i r)" "preserves (\<lambda>s. f s = x) (simulatePolicyDraft E u orgId i rq)"
    "preserves (\<lambda>s. f s = x) (checkPolicyDecision E u orgId rq)"
    for x u orgId i du di r rbs v tt ti b rq
    unfolding createPolicyDraft_def updatePolicyDraft_def discardPolicyDraft_def validatePolicyDraft_def
      activatePolicyDraft_def createPolicyRevisionDraft_def createPolicyRestoreDraft_def
      activatePolicyRevisionDraft_def bindPolicy_def removePolicyBinding_def archivePolicy_def
      simulatePolicyDraft_def checkPolicyDecision_def Let_def case_prod_beta
    by (intro preserve_intros; simp add: assms)+
  show ?thesis
    by (cases c) (simp_all add: ops [unfolded preserves_def, rule_format])
qed

end
