(* ===== verification/Approvals.thy ===== *)
theory Approvals
  imports PolicyLifecycle
begin

text \<open>
  Approvals, \<open>apps/api/src/engines/approvals/store.ts\<close> over the tables of migrations 0007 and
  0035: a request is voted on by operators until a quorum approves it or one denies it, and the
  agent connection that asked may then consume it once. The invariant \<open>approvals_ok\<close> holds
  under every interleaving of the operations, including the gap inside \<open>consumeApproval\<close>
  between its checks and its update.
\<close>

section \<open>Tables\<close>

datatype approval_status = StPending | StApproved | StDenied | StExpired | StCancelled | StConsumed

datatype approval_verb = VerbRequested | VerbApproved | VerbDenied | VerbConsumed

record approval_row =
  ap_id :: string
  ap_org_id :: string
  ap_agent_id :: string
  ap_connection_id :: string
  ap_decision_id :: string
  ap_status :: approval_status
  ap_action_id :: string
  ap_target_type :: target_type
  ap_target_id :: "string option"
  ap_context :: obj
  ap_context_hash :: string
  ap_requested_by :: string
  ap_approved_by :: "string option"
  ap_approved_at :: "int option"
  ap_denied_by :: "string option"
  ap_denied_at :: "int option"
  ap_consumed_at :: "int option"
  ap_expires_at :: int
  ap_note :: string
  ap_required :: nat
  ap_created_at :: int
  ap_updated_at :: int

record approval_vote =
  vt_id :: string
  vt_org_id :: string
  vt_approval_id :: string
  vt_actor_id :: string
  vt_note :: string

record approval_action =
  act_id :: string
  act_org_id :: string
  act_approval_id :: string
  act_actor_type :: actor_type
  act_actor_id :: string
  act_verb :: approval_verb
  act_note :: string
  act_created_at :: int

record approval_consumption =
  cs_id :: string
  cs_org_id :: string
  cs_approval_id :: string
  cs_decision_id :: string
  cs_connection_id :: string
  cs_context_hash :: string
  cs_created_at :: int

record activity_row =
  it_id :: string
  it_org_id :: string
  it_agent_id :: "string option"
  it_connection_id :: "string option"
  it_decision_id :: "string option"
  it_approval_id :: "string option"
  it_category :: string
  it_action :: string
  it_outcome :: audit_outcome
  it_summary :: string
  it_payload :: obj
  it_created_at :: int

record approvals_db = policy_db +
  approval_requests :: "approval_row list"
  approval_votes :: "approval_vote list"
  approval_actions :: "approval_action list"
  approval_consumptions :: "approval_consumption list"
  activity_items :: "activity_row list"

section \<open>Reading\<close>

definition find_approval :: "string \<Rightarrow> string \<Rightarrow> ('a approvals_db_scheme) \<Rightarrow> approval_row option" where
  "find_approval orgId approvalId s =
     find_row (\<lambda>a. ap_org_id a = orgId \<and> ap_id a = approvalId) (approval_requests s)"

definition votes_for :: "string \<Rightarrow> ('a approvals_db_scheme) \<Rightarrow> approval_vote list" where
  "votes_for approvalId s = filter (\<lambda>v. vt_approval_id v = approvalId) (approval_votes s)"

text \<open>\<open>VOTES_COUNT_SUBQUERY\<close>.\<close>

definition votes_count :: "string \<Rightarrow> ('a approvals_db_scheme) \<Rightarrow> nat" where
  "votes_count approvalId s = length (votes_for approvalId s)"

definition effectiveApprovalStatus :: "int \<Rightarrow> approval_row \<Rightarrow> approval_status" where
  "effectiveApprovalStatus t row =
     (if ap_status row = StPending \<and> ap_expires_at row \<le> t then StExpired else ap_status row)"

record approval_record = approval_row +
  ap_votes_count :: nat
  ap_actions :: "approval_action list"
  ap_consumption :: "approval_consumption option"

definition approvalFromRow :: "approval_row \<Rightarrow> ('a approvals_db_scheme, approval_record) op" where
  "approvalFromRow row =
     bindM now (\<lambda>t.
     bindM (query (votes_count (ap_id row))) (\<lambda>n.
     ret (approval_row.extend (row\<lparr>ap_status := effectiveApprovalStatus t row\<rparr>)
            (approval_record.fields n [] None))))"

text \<open>The actions of an approval in order, and its consumption (the last one, as a \<open>Map\<close> keeps).\<close>

definition attachApprovalDetails ::
  "env \<Rightarrow> string \<Rightarrow> approval_record \<Rightarrow> ('a approvals_db_scheme, approval_record) op" where
  "attachApprovalDetails E orgId approval =
     query (\<lambda>s. approval\<lparr>
       ap_actions := sort_by (\<lambda>x y. if act_created_at x \<noteq> act_created_at y then act_created_at x - act_created_at y
                                   else env_collate E (act_id x) (act_id y))
         (filter (\<lambda>x. act_org_id x = orgId \<and> act_approval_id x = ap_id approval) (approval_actions s)),
       ap_consumption := find_row (\<lambda>c. cs_org_id c = orgId \<and> cs_approval_id c = ap_id approval)
         (rev (sort_by (\<lambda>x y. if cs_created_at x \<noteq> cs_created_at y then cs_created_at x - cs_created_at y
                              else env_collate E (cs_id x) (cs_id y)) (approval_consumptions s)))\<rparr>)"

definition getApproval :: "env \<Rightarrow> string \<Rightarrow> string \<Rightarrow> ('a approvals_db_scheme, approval_record) op" where
  "getApproval E orgId approvalId =
     bindM (query (find_approval orgId approvalId)) (\<lambda>row.
     case row of
       None \<Rightarrow> throw (notFound ''Approval was not found.'')
     | Some r \<Rightarrow> bindM (approvalFromRow r) (attachApprovalDetails E orgId))"

definition target_json :: "target_type \<Rightarrow> string option \<Rightarrow> jsval" where
  "target_json targetType targetId =
     VObj [(''id'', nullable targetId), (''type'', VStr (target_name targetType))]"

definition approvalContextHash ::
  "env \<Rightarrow> string \<Rightarrow> target_type \<Rightarrow> string option \<Rightarrow> obj \<Rightarrow> app_error + string" where
  "approvalContextHash E action targetType targetId context =
     digest E (VObj [(''action'', VStr action), (''context'', VObj context),
                     (''target'', target_json targetType targetId)])"

section \<open>Writing\<close>

definition fk_ok :: "('r \<Rightarrow> string) \<Rightarrow> string option \<Rightarrow> 'r list \<Rightarrow> bool" where
  "fk_ok key ref rows = opt_holds (\<lambda>i. list_ex (\<lambda>r. key r = i) rows) ref"

record activity_input =
  in_orgId :: string
  in_agentId :: "string option"
  in_connectionId :: "string option"
  in_decisionId :: "string option"
  in_approvalId :: "string option"
  in_category :: string
  in_action :: string
  in_outcome :: audit_outcome
  in_summary :: string
  in_payload :: obj

definition recordActivity :: "env \<Rightarrow> activity_input \<Rightarrow> ('a approvals_db_scheme, activity_row) op" where
  "recordActivity E input =
     bindM (prefixedId E ''act'') (\<lambda>i.
     bindM now (\<lambda>t.
     bindM (query (\<lambda>s. find_org (in_orgId input) s \<noteq> None \<and> fk_ok ag_id (in_agentId input) (agents s) \<and>
              fk_ok cn_id (in_connectionId input) (connections s) \<and>
              fk_ok pc_id (in_decisionId input) (policy_decisions s) \<and>
              fk_ok ap_id (in_approvalId input) (approval_requests s))) (\<lambda>known.
     bindM (guardM known (PgForeignKeyViolation ''activity_items'')) (\<lambda>_.
     let row = \<lparr>it_id = i, it_org_id = in_orgId input, it_agent_id = in_agentId input,
                it_connection_id = in_connectionId input, it_decision_id = in_decisionId input,
                it_approval_id = in_approvalId input, it_category = in_category input,
                it_action = in_action input, it_outcome = in_outcome input, it_summary = in_summary input,
                it_payload = in_payload input, it_created_at = t\<rparr>
     in bindM (modify (\<lambda>s. s\<lparr>activity_items := activity_items s @ [row]\<rparr>)) (\<lambda>_. ret row)))))"

definition insert_action ::
  "env \<Rightarrow> string \<Rightarrow> string \<Rightarrow> actor_type \<Rightarrow> string \<Rightarrow> approval_verb \<Rightarrow> string \<Rightarrow> ('a approvals_db_scheme, unit) op" where
  "insert_action E orgId approvalId actorType actorId verb note =
     bindM (prefixedId E ''apact'') (\<lambda>i.
     bindM now (\<lambda>t.
     modify (\<lambda>s. s\<lparr>approval_actions := approval_actions s @
       [\<lparr>act_id = i, act_org_id = orgId, act_approval_id = approvalId, act_actor_type = actorType,
         act_actor_id = actorId, act_verb = verb, act_note = note, act_created_at = t\<rparr>]\<rparr>)))"

definition approval_audit ::
  "string \<Rightarrow> string \<Rightarrow> string \<Rightarrow> string \<Rightarrow> audit_outcome \<Rightarrow> string \<Rightarrow> string \<Rightarrow> string \<Rightarrow> string \<Rightarrow> string list \<Rightarrow> jsval \<Rightarrow>
   audit_input" where
  "approval_audit orgId action actorType actorId outcome approvalId agentId connectionId decisionId tags payload =
     (audit_entry orgId action actorType (Some actorId) outcome)
     \<lparr>ai_idempotencyKey := Some (action @ '':'' @ approvalId),
      ai_resource := Some (''approval'', approvalId),
      ai_classification := \<lparr>cl_domain = Some ''policy'', cl_category = Some ''runtime'',
        cl_severity = Some ''info'', cl_tags = Some tags\<rparr>,
      ai_relations := \<lparr>rel_agent = Some agentId, rel_team = None, rel_connection = Some connectionId,
        rel_walletRef = None, rel_policy = None, rel_wallet = None\<rparr>,
      ai_refs := \<lparr>ref_policy = None, ref_decision = Some decisionId, ref_approval = Some approvalId\<rparr>,
      ai_source := \<lparr>src_section = Some ''section_3'', src_system = Some ''approvals'', src_ref = None\<rparr>,
      ai_payload := Some payload\<rparr>"

record approval_input =
  aq_orgId :: string
  aq_agentId :: string
  aq_connectionId :: string
  aq_decisionId :: string
  aq_action :: string
  aq_target_type :: target_type
  aq_target_id :: "string option"
  aq_context :: obj
  aq_required :: "nat option"

definition APPROVAL_WINDOW :: int where
  "APPROVAL_WINDOW = 15 * 60 * 1000"

definition pending_approval :: "approval_input \<Rightarrow> string \<Rightarrow> string \<Rightarrow> int \<Rightarrow> approval_row" where
  "pending_approval input approvalId contextHash t =
     \<lparr>ap_id = approvalId, ap_org_id = aq_orgId input, ap_agent_id = aq_agentId input,
      ap_connection_id = aq_connectionId input, ap_decision_id = aq_decisionId input,
      ap_status = StPending, ap_action_id = aq_action input, ap_target_type = aq_target_type input,
      ap_target_id = aq_target_id input, ap_context = aq_context input, ap_context_hash = contextHash,
      ap_requested_by = aq_connectionId input, ap_approved_by = None, ap_approved_at = None,
      ap_denied_by = None, ap_denied_at = None, ap_consumed_at = None,
      ap_expires_at = t + APPROVAL_WINDOW, ap_note = [], ap_required = or_else (aq_required input) 1,
      ap_created_at = t, ap_updated_at = t\<rparr>"

definition insert_approval :: "approval_row \<Rightarrow> ('a approvals_db_scheme, unit) op" where
  "insert_approval row =
     bindM (query (\<lambda>s. list_ex (\<lambda>a. ap_id a = ap_id row) (approval_requests s))) (\<lambda>dup.
     bindM (guardM (\<not> dup) (PgUniqueViolation ''approval_requests'')) (\<lambda>_.
     bindM (guardM (1 \<le> ap_required row) (PgCheckViolation ''approval_requests'')) (\<lambda>_.
     bindM (query (\<lambda>s. find_org (ap_org_id row) s \<noteq> None \<and> find_action (ap_action_id row) s \<noteq> None \<and>
              list_ex (\<lambda>a. ag_id a = ap_agent_id row) (agents s) \<and>
              list_ex (\<lambda>c. cn_id c = ap_connection_id row) (connections s) \<and>
              list_ex (\<lambda>d. pc_id d = ap_decision_id row) (policy_decisions s))) (\<lambda>known.
     bindM (guardM known (PgForeignKeyViolation ''approval_requests'')) (\<lambda>_.
     modify (\<lambda>s. s\<lparr>approval_requests := approval_requests s @ [row]\<rparr>))))))"

definition createApprovalRequest ::
  "env \<Rightarrow> approval_input \<Rightarrow> ('a approvals_db_scheme, approval_record) op" where
  "createApprovalRequest E input =
     withTransaction (
       bindM (prefixedId E ''apv'') (\<lambda>approvalId.
       bindM (liftE (approvalContextHash E (aq_action input) (aq_target_type input) (aq_target_id input)
                (aq_context input))) (\<lambda>contextHash.
       bindM now (\<lambda>t.
       let row = pending_approval input approvalId contextHash t
       in bindM (insert_approval row) (\<lambda>_.
          bindM (insert_action E (aq_orgId input) approvalId ConnectionA (aq_connectionId input) VerbRequested []) (\<lambda>_.
          bindM (recordActivity E \<lparr>in_orgId = aq_orgId input, in_agentId = Some (aq_agentId input),
            in_connectionId = Some (aq_connectionId input), in_decisionId = Some (aq_decisionId input),
            in_approvalId = Some approvalId, in_category = ''approval'', in_action = ''approval.requested'',
            in_outcome = Pending, in_summary = ''Approval requested'',
            in_payload = [(''action'', VStr (aq_action input)),
              (''target'', VObj ((''type'', VStr (target_name (aq_target_type input))) #
                 (case aq_target_id input of None \<Rightarrow> [] | Some i \<Rightarrow> [(''id'', VStr i)])))]\<rparr>) (\<lambda>_.
          bindM (recordAuditEvent E (approval_audit (aq_orgId input) ''approval.requested'' ''connection''
            (aq_connectionId input) Pending approvalId (aq_agentId input) (aq_connectionId input)
            (aq_decisionId input) [''section_3'', ''approval'', ''runtime'']
            (VObj [(''action'', VStr (aq_action input)), (''context_hash'', VStr contextHash),
              (''target_id'', nullable (aq_target_id input)),
              (''target_type'', VStr (target_name (aq_target_type input)))]))) (\<lambda>_.
          approvalFromRow row))))))))"

definition SELF_APPROVAL :: app_error where
  "SELF_APPROVAL = IdentityError ''self_approval_forbidden'' 403 ''The requester cannot approve or deny their own request.''"

definition NOT_PENDING :: app_error where
  "NOT_PENDING = conflict ''approval_not_pending'' ''Approval is not pending or has expired.''"

text \<open>\<open>UNIQUE (approval_id, actor_id)\<close>: a second vote is reported as \<open>already_voted\<close>.\<close>

definition insert_vote ::
  "env \<Rightarrow> string \<Rightarrow> string \<Rightarrow> string \<Rightarrow> string \<Rightarrow> ('a approvals_db_scheme, unit) op" where
  "insert_vote E orgId approvalId actorId note =
     bindM (prefixedId E ''apvote'') (\<lambda>i.
     bindM (query (\<lambda>s. list_ex (\<lambda>v. vt_id v = i \<or> vt_approval_id v = approvalId \<and> vt_actor_id v = actorId)
                        (approval_votes s))) (\<lambda>dup.
     bindM (guardM (\<not> dup) (conflict ''already_voted'' ''This operator has already voted on this approval.'')) (\<lambda>_.
     modify (\<lambda>s. s\<lparr>approval_votes := approval_votes s @
       [\<lparr>vt_id = i, vt_org_id = orgId, vt_approval_id = approvalId, vt_actor_id = actorId, vt_note = note\<rparr>]\<rparr>))))"

definition update_approval ::
  "string \<Rightarrow> string \<Rightarrow> (approval_row \<Rightarrow> approval_row) \<Rightarrow> ('a approvals_db_scheme, unit) op" where
  "update_approval orgId approvalId f =
     modify (\<lambda>s. s\<lparr>approval_requests :=
       update_rows (\<lambda>a. ap_org_id a = orgId \<and> ap_id a = approvalId) f (approval_requests s)\<rparr>)"

definition voted_row :: "bool \<Rightarrow> string \<Rightarrow> string \<Rightarrow> int \<Rightarrow> approval_row \<Rightarrow> approval_row" where
  "voted_row quorumReached actorId note t row =
     row\<lparr>ap_status := (if quorumReached then StApproved else ap_status row),
         ap_approved_by := (if quorumReached then Some actorId else ap_approved_by row),
         ap_approved_at := (if quorumReached then Some t else ap_approved_at row),
         ap_note := note, ap_updated_at := t\<rparr>"

definition approval_activity ::
  "approval_row \<Rightarrow> string \<Rightarrow> audit_outcome \<Rightarrow> string \<Rightarrow> obj \<Rightarrow> activity_input" where
  "approval_activity row action outcome summary payload =
     \<lparr>in_orgId = ap_org_id row, in_agentId = Some (ap_agent_id row), in_connectionId = Some (ap_connection_id row),
      in_decisionId = Some (ap_decision_id row), in_approvalId = Some (ap_id row), in_category = ''approval'',
      in_action = action, in_outcome = outcome, in_summary = summary, in_payload = payload\<rparr>"

definition approveApproval ::
  "env \<Rightarrow> operator_context \<Rightarrow> string \<Rightarrow> string \<Rightarrow> string \<Rightarrow> ('a approvals_db_scheme, approval_record) op" where
  "approveApproval E operator orgId approvalId note =
     withTransaction (
       bindM now (\<lambda>t.
       bindM (query (\<lambda>s. (find_approval orgId approvalId s, votes_count approvalId s))) (\<lambda>(locked, counted).
       case locked of
         None \<Rightarrow> throw NOT_PENDING
       | Some existing \<Rightarrow>
           bindM (guardM (ap_status existing = StPending \<and> t < ap_expires_at existing) NOT_PENDING) (\<lambda>_.
           bindM (guardM (ap_requested_by existing \<noteq> op_actorId operator) SELF_APPROVAL) (\<lambda>_.
           bindM (insert_vote E orgId approvalId (op_actorId operator) note) (\<lambda>_.
           bindM (insert_action E orgId approvalId UserA (op_actorId operator) VerbApproved note) (\<lambda>_.
           let votesCount = counted + 1;
               quorumReached = (ap_required existing \<le> votesCount);
               row = voted_row quorumReached (op_actorId operator) note t existing;
               tally = show_nat votesCount @ ''/'' @ show_nat (ap_required existing) @ '' votes'';
               payload = [(''note'', VStr note), (''votes_count'', jint (int votesCount)),
                          (''required_approvals'', jint (int (ap_required existing)))]
           in bindM (update_approval orgId approvalId (voted_row quorumReached (op_actorId operator) note t)) (\<lambda>_.
              bindM (if quorumReached then
                       bindM (recordActivity E (approval_activity row ''approval.approved'' Success
                         (''Approval granted ('' @ tally @ '')'') payload)) (\<lambda>_.
                       bindM (recordAuditEvent E (approval_audit orgId ''approval.approved'' ''user'' (op_actorId operator)
                         Success approvalId (ap_agent_id row) (ap_connection_id row) (ap_decision_id row)
                         [''section_3'', ''approval''] (VObj payload))) (\<lambda>_. ret ()))
                     else
                       bindM (recordActivity E (approval_activity row ''approval.approved'' Pending
                         (''Vote recorded ('' @ tally @ '') -- quorum not yet reached'') payload)) (\<lambda>_. ret ())) (\<lambda>_.
              approvalFromRow row)))))))))"

text \<open>The re-read on the path where the update matched no row.\<close>

definition assertNotSelfApproval ::
  "string \<Rightarrow> string \<Rightarrow> string \<Rightarrow> ('a approvals_db_scheme, unit) op" where
  "assertNotSelfApproval orgId approvalId actorId =
     bindM now (\<lambda>t.
     bindM (query (find_approval orgId approvalId)) (\<lambda>found.
     case found of
       None \<Rightarrow> ret ()
     | Some a \<Rightarrow> guardM (\<not> (ap_status a = StPending \<and> t < ap_expires_at a \<and> ap_requested_by a = actorId)) SELF_APPROVAL))"

definition denied_row :: "string \<Rightarrow> string \<Rightarrow> int \<Rightarrow> approval_row \<Rightarrow> approval_row" where
  "denied_row actorId note t row =
     row\<lparr>ap_status := StDenied, ap_denied_by := Some actorId, ap_denied_at := Some t, ap_note := note, ap_updated_at := t\<rparr>"

definition denyApproval ::
  "env \<Rightarrow> operator_context \<Rightarrow> string \<Rightarrow> string \<Rightarrow> string \<Rightarrow> ('a approvals_db_scheme, approval_record) op" where
  "denyApproval E operator orgId approvalId note =
     withTransaction (
       bindM now (\<lambda>t.
       let deniable = (\<lambda>a. ap_org_id a = orgId \<and> ap_id a = approvalId \<and> ap_status a = StPending \<and>
                           t < ap_expires_at a \<and> ap_requested_by a \<noteq> op_actorId operator)
       in bindM (query (\<lambda>s. find_row deniable (approval_requests s))) (\<lambda>found.
          case found of
            None \<Rightarrow> bindM (assertNotSelfApproval orgId approvalId (op_actorId operator)) (\<lambda>_. throw NOT_PENDING)
          | Some existing \<Rightarrow>
              let row = denied_row (op_actorId operator) note t existing
              in bindM (modify (\<lambda>s. s\<lparr>approval_requests :=
                   update_rows deniable (denied_row (op_actorId operator) note t) (approval_requests s)\<rparr>)) (\<lambda>_.
                 bindM (insert_action E orgId approvalId UserA (op_actorId operator) VerbDenied note) (\<lambda>_.
                 bindM (recordActivity E (approval_activity row ''approval.denied'' Denied ''Approval denied''
                   [(''note'', VStr note)])) (\<lambda>_.
                 bindM (recordAuditEvent E (approval_audit orgId ''approval.denied'' ''user'' (op_actorId operator)
                   Denied approvalId (ap_agent_id row) (ap_connection_id row) (ap_decision_id row)
                   [''section_3'', ''approval''] (VObj [(''note'', VStr note)]))) (\<lambda>_.
                 approvalFromRow row)))))))"

section \<open>Consuming\<close>

text \<open>
  \<open>consumeApproval\<close> reads and checks outside a transaction, asks the policy engine again in a
  transaction of its own, and only then updates: \<open>consume_checks\<close> is the first part and
  \<open>consume_commit\<close> the second.
\<close>

definition consume_checks ::
  "env \<Rightarrow> connection_auth \<Rightarrow> string \<Rightarrow> string \<Rightarrow> ('a approvals_db_scheme, approval_record \<times> string) op" where
  "consume_checks E auth approvalId decisionId =
     bindM (getApproval E (au_org_id auth) approvalId) (\<lambda>approval.
     bindM (guardM (ap_connection_id approval = au_connection_id auth \<and> ap_agent_id approval = au_agent_id auth)
       (forbidden ''Approval does not belong to this agent connection.'')) (\<lambda>_.
     bindM (guardM (ap_decision_id approval = decisionId)
       (badRequest ''approval_decision_mismatch'' ''Approval does not match the supplied decision.'')) (\<lambda>_.
     bindM (guardM (ap_status approval = StApproved)
       (conflict ''approval_not_approved'' ''Approval must be approved before it can be consumed.'')) (\<lambda>_.
     bindM now (\<lambda>t.
     bindM (guardM (t < ap_expires_at approval) (conflict ''approval_expired'' ''Approval has expired.'')) (\<lambda>_.
     bindM (checkPolicyDecision E
       \<lparr>op_actorId = au_connection_id auth, op_role = Member, op_userId = None\<rparr> (au_org_id auth)
       \<lparr>rq_actor_type = ConnectionA, rq_actor_id = Some (au_connection_id auth), rq_actor_role = None,
        rq_action = ap_action_id approval, rq_target_type = ap_target_type approval,
        rq_target_id = ap_target_id approval, rq_context = ap_context approval\<rparr>) (\<lambda>recheck.
     bindM (guardM (dr_decision recheck \<noteq> Deny)
       (forbidden ''Approval can no longer be consumed because current policy denies the action.'')) (\<lambda>_.
     ret (approval, rd_id recheck)))))))))"

definition insert_consumption :: "approval_consumption \<Rightarrow> ('a approvals_db_scheme, unit) op" where
  "insert_consumption c =
     bindM (query (\<lambda>s. list_ex (\<lambda>x. cs_id x = cs_id c \<or> cs_approval_id x = cs_approval_id c)
                        (approval_consumptions s))) (\<lambda>dup.
     bindM (guardM (\<not> dup) (PgUniqueViolation ''approval_consumptions_once_idx'')) (\<lambda>_.
     modify (\<lambda>s. s\<lparr>approval_consumptions := approval_consumptions s @ [c]\<rparr>)))"

definition consumed_row :: "int \<Rightarrow> approval_row \<Rightarrow> approval_row" where
  "consumed_row t row = row\<lparr>ap_status := StConsumed, ap_consumed_at := Some t, ap_updated_at := t\<rparr>"

definition consume_commit ::
  "env \<Rightarrow> connection_auth \<Rightarrow> string \<Rightarrow> string \<Rightarrow> approval_record \<Rightarrow> string \<Rightarrow> ('a approvals_db_scheme, approval_record) op" where
  "consume_commit E auth approvalId decisionId approval recheckId =
     withTransaction (
       bindM now (\<lambda>t.
       let consumable = (\<lambda>a. ap_org_id a = au_org_id auth \<and> ap_id a = approvalId \<and> ap_status a = StApproved)
       in bindM (query (\<lambda>s. find_row consumable (approval_requests s))) (\<lambda>found.
          case found of
            None \<Rightarrow> throw (conflict ''approval_not_approved'' ''Approval was already consumed or changed.'')
          | Some existing \<Rightarrow>
              bindM (modify (\<lambda>s. s\<lparr>approval_requests :=
                update_rows consumable (consumed_row t) (approval_requests s)\<rparr>)) (\<lambda>_.
              bindM (prefixedId E ''apcons'') (\<lambda>i.
              bindM (insert_consumption \<lparr>cs_id = i, cs_org_id = au_org_id auth, cs_approval_id = approvalId,
                cs_decision_id = decisionId, cs_connection_id = au_connection_id auth,
                cs_context_hash = ap_context_hash approval, cs_created_at = t\<rparr>) (\<lambda>_.
              bindM (insert_action E (au_org_id auth) approvalId ConnectionA (au_connection_id auth) VerbConsumed []) (\<lambda>_.
              bindM (recordActivity E \<lparr>in_orgId = au_org_id auth, in_agentId = Some (au_agent_id auth),
                in_connectionId = Some (au_connection_id auth), in_decisionId = Some decisionId,
                in_approvalId = Some approvalId, in_category = ''approval'', in_action = ''approval.consumed'',
                in_outcome = Success, in_summary = ''Approval consumed'',
                in_payload = [(''recheck_decision_id'', VStr recheckId)]\<rparr>) (\<lambda>_.
              bindM (recordAuditEvent E (approval_audit (au_org_id auth) ''approval.consumed'' ''connection''
                (au_connection_id auth) Success approvalId (au_agent_id auth) (au_connection_id auth) decisionId
                [''section_3'', ''approval'', ''runtime''] (VObj [(''recheck_decision_id'', VStr recheckId)]))) (\<lambda>_.
              approvalFromRow (consumed_row t existing))))))))))"

text \<open>\<open>consumption\<close> has a gap between the two: \<open>others\<close> is whatever is committed in it, time that passes
  included. \<open>consumeApproval\<close> is the run with nothing in the gap.\<close>

definition consumption ::
  "env \<Rightarrow> ('a approvals_db_scheme \<Rightarrow> 'a approvals_db_scheme) \<Rightarrow> connection_auth \<Rightarrow> string \<Rightarrow> string \<Rightarrow>
   ('a approvals_db_scheme, approval_record) op" where
  "consumption E others auth approvalId decisionId =
     bindM (consume_checks E auth approvalId decisionId) (\<lambda>(approval, recheckId).
     bindM (modify others) (\<lambda>_.
     consume_commit E auth approvalId decisionId approval recheckId))"

definition consumeApproval ::
  "env \<Rightarrow> connection_auth \<Rightarrow> string \<Rightarrow> string \<Rightarrow> ('a approvals_db_scheme, approval_record) op" where
  "consumeApproval E auth approvalId decisionId =
     bindM (consume_checks E auth approvalId decisionId) (\<lambda>(approval, recheckId).
     consume_commit E auth approvalId decisionId approval recheckId)"

section \<open>The invariant\<close>

text \<open>
  \<open>row_ok votes consumptions a\<close>: no vote on \<open>a\<close> comes from its requester; while it is pending
  the quorum is not reached; once approved it was, and the approver voted; and it is consumed
  exactly when a consumption row says so.
\<close>

definition voters :: "string \<Rightarrow> approval_vote list \<Rightarrow> string list" where
  "voters approvalId votes = map vt_actor_id (filter (\<lambda>v. vt_approval_id v = approvalId) votes)"

definition row_ok :: "approval_vote list \<Rightarrow> approval_consumption list \<Rightarrow> approval_row \<Rightarrow> bool" where
  "row_ok votes cons a \<longleftrightarrow>
     1 \<le> ap_required a \<and> ap_requested_by a \<notin> set (voters (ap_id a) votes) \<and>
     (ap_status a = StPending \<longrightarrow> length (voters (ap_id a) votes) < ap_required a) \<and>
     (ap_status a \<in> {StApproved, StConsumed} \<longrightarrow>
        ap_required a \<le> length (voters (ap_id a) votes) \<and>
        (\<exists>u. ap_approved_by a = Some u \<and> u \<in> set (voters (ap_id a) votes))) \<and>
     (ap_status a = StConsumed \<longleftrightarrow> ap_id a \<in> cs_approval_id ` set cons)"

definition approval_tables_ok ::
  "approval_row list \<Rightarrow> approval_vote list \<Rightarrow> approval_consumption list \<Rightarrow> bool" where
  "approval_tables_ok rows votes cons \<longleftrightarrow>
     distinct (map ap_id rows) \<and>
     distinct (map (\<lambda>v. (vt_approval_id v, vt_actor_id v)) votes) \<and>
     distinct (map cs_approval_id cons) \<and>
     vt_approval_id ` set votes \<subseteq> ap_id ` set rows \<and> cs_approval_id ` set cons \<subseteq> ap_id ` set rows \<and>
     list_all (row_ok votes cons) rows"

definition approvals_ok :: "('a approvals_db_scheme) \<Rightarrow> bool" where
  "approvals_ok s \<longleftrightarrow> approval_tables_ok (approval_requests s) (approval_votes s) (approval_consumptions s)"

lemma voters_append [simp]:
  "voters i (vs @ [v]) = voters i vs @ (if vt_approval_id v = i then [vt_actor_id v] else [])"
  by (simp add: voters_def)

lemma voters_Nil: "i \<notin> vt_approval_id ` set votes \<Longrightarrow> voters i votes = []"
  by (auto simp: voters_def filter_empty_conv)

lemma votes_count_voters: "votes_count i s = length (voters i (approval_votes s))"
  by (simp add: votes_count_def votes_for_def voters_def)

subsection \<open>Steps on the tables\<close>

lemma tables_ok_insert:
  assumes ok: "approval_tables_ok rows votes cons" and "ap_id a \<notin> ap_id ` set rows"
    and "ap_status a = StPending" and "1 \<le> ap_required a"
  shows "approval_tables_ok (rows @ [a]) votes cons"
proof -
  have "ap_id a \<notin> vt_approval_id ` set votes" "ap_id a \<notin> cs_approval_id ` set cons"
    using ok assms(2) by (auto simp: approval_tables_ok_def)
  with assms show ?thesis
    by (auto simp: approval_tables_ok_def row_ok_def voters_Nil)
qed

text \<open>One row moves, identified by its organisation and id.\<close>

lemma row_named:
  assumes "approval_tables_ok rows votes cons" and "find_row (\<lambda>a. ap_org_id a = orgId \<and> ap_id a = i) rows = Some e"
    and "a \<in> set rows"
  shows "(ap_org_id a = orgId \<and> ap_id a = i) = (a = e)" and "(ap_id a = i) = (a = e)"
proof -
  have e: "e \<in> set rows" "ap_org_id e = orgId" "ap_id e = i" using find_row_Some [OF assms(2)] by auto
  have "a = e" if "ap_id a = i"
    using assms(1) distinct_key_unique [of ap_id rows a e] assms(3) e that by (simp add: approval_tables_ok_def)
  with e show "(ap_org_id a = orgId \<and> ap_id a = i) = (a = e)" "(ap_id a = i) = (a = e)" by auto
qed

lemma tables_ok_vote:
  assumes ok: "approval_tables_ok rows votes cons"
    and e: "find_row (\<lambda>a. ap_org_id a = orgId \<and> ap_id a = i) rows = Some e"
    and pending: "ap_status e = StPending" and other: "ap_requested_by e \<noteq> u"
    and fresh: "u \<notin> set (voters i votes)"
    and v: "vt_approval_id v = i" "vt_actor_id v = u"
    and q: "q \<longleftrightarrow> ap_required e \<le> length (voters i votes) + 1"
  shows "approval_tables_ok (update_rows (\<lambda>a. ap_org_id a = orgId \<and> ap_id a = i) (voted_row q u note t) rows)
           (votes @ [v]) cons" (is "approval_tables_ok ?rows ?votes cons")
proof -
  have mem: "e \<in> set rows" "ap_id e = i" using find_row_Some [OF e] by auto
  have ids: "map ap_id ?rows = map ap_id rows" by (rule map_update_rows) (simp add: voted_row_def)
  then have idset: "ap_id ` set ?rows = ap_id ` set rows" by (metis list.set_map)
  have rows: "list_all (row_ok ?votes cons) ?rows"
  proof (rule list_all_update_rows)
    fix a assume a: "a \<in> set rows" "ap_org_id a = orgId \<and> ap_id a = i"
    then have "a = e" using row_named [OF ok e] by blast
    moreover have "row_ok votes cons e" using ok mem by (simp add: approval_tables_ok_def list_all_iff)
    ultimately show "row_ok ?votes cons (voted_row q u note t a)"
      using pending other v q mem by (auto simp: row_ok_def voted_row_def)
  next
    fix a assume a: "a \<in> set rows" "\<not> (ap_org_id a = orgId \<and> ap_id a = i)"
    then have "ap_id a \<noteq> i" using row_named [OF ok e a(1)] by blast
    moreover have "row_ok votes cons a" using ok a(1) by (simp add: approval_tables_ok_def list_all_iff)
    ultimately show "row_ok ?votes cons a" using v by (simp add: row_ok_def)
  qed
  have "(i, u) \<notin> (\<lambda>v. (vt_approval_id v, vt_actor_id v)) ` set votes"
    using fresh by (auto simp: voters_def)
  moreover have "i \<in> ap_id ` set rows" using mem by (metis imageI)
  ultimately show ?thesis
    using ok rows ids idset v by (auto simp: approval_tables_ok_def)
qed

text \<open>A pending row moves to a status that needs nothing.\<close>

lemma tables_ok_deny:
  assumes ok: "approval_tables_ok rows votes cons" and p: "\<And>a. p a \<Longrightarrow> ap_status a = StPending"
  shows "approval_tables_ok (update_rows p (denied_row u note t) rows) votes cons"
proof -
  have ids: "map ap_id (update_rows p (denied_row u note t) rows) = map ap_id rows"
    by (rule map_update_rows) (simp add: denied_row_def)
  then have "ap_id ` set (update_rows p (denied_row u note t) rows) = ap_id ` set rows" by (metis list.set_map)
  moreover have "list_all (row_ok votes cons) (update_rows p (denied_row u note t) rows)"
    using ok p by (intro list_all_update_rows) (auto simp: approval_tables_ok_def list_all_iff row_ok_def denied_row_def)
  ultimately show ?thesis using ok ids by (simp add: approval_tables_ok_def)
qed

lemma tables_ok_consume:
  assumes ok: "approval_tables_ok rows votes cons"
    and e: "find_row (\<lambda>a. ap_org_id a = orgId \<and> ap_id a = i \<and> ap_status a = StApproved) rows = Some e"
    and c: "cs_approval_id c = i" "i \<notin> cs_approval_id ` set cons"
  shows "approval_tables_ok
      (update_rows (\<lambda>a. ap_org_id a = orgId \<and> ap_id a = i \<and> ap_status a = StApproved) (consumed_row t) rows)
      votes (cons @ [c])" (is "approval_tables_ok ?rows votes ?cons")
proof -
  have mem: "e \<in> set rows" "ap_id e = i" "ap_org_id e = orgId" "ap_status e = StApproved"
    using find_row_Some [OF e] by auto
  have uniq: "a = e" if "a \<in> set rows" "ap_id a = i" for a
    using ok distinct_key_unique [of ap_id rows a e] that mem by (simp add: approval_tables_ok_def)
  have ids: "map ap_id ?rows = map ap_id rows" by (rule map_update_rows) (simp add: consumed_row_def)
  then have idset: "ap_id ` set ?rows = ap_id ` set rows" by (metis list.set_map)
  have rows: "list_all (row_ok votes ?cons) ?rows"
  proof (rule list_all_update_rows)
    fix a assume a: "a \<in> set rows" "ap_org_id a = orgId \<and> ap_id a = i \<and> ap_status a = StApproved"
    have "row_ok votes cons a" using ok a(1) by (simp add: approval_tables_ok_def list_all_iff)
    with a c show "row_ok votes ?cons (consumed_row t a)" by (auto simp: row_ok_def consumed_row_def)
  next
    fix a assume a: "a \<in> set rows" "\<not> (ap_org_id a = orgId \<and> ap_id a = i \<and> ap_status a = StApproved)"
    then have "ap_id a \<noteq> i" using uniq mem by blast
    moreover have "row_ok votes cons a" using ok a(1) by (simp add: approval_tables_ok_def list_all_iff)
    ultimately show "row_ok votes ?cons a" using c by (simp add: row_ok_def)
  qed
  have "i \<in> ap_id ` set rows" using mem by (metis imageI)
  with ok rows ids idset c show ?thesis by (auto simp: approval_tables_ok_def)
qed

subsection \<open>What leaves the tables alone\<close>

abbreviation approval_tables ::
  "('a approvals_db_scheme) \<Rightarrow> approval_row list \<times> approval_vote list \<times> approval_consumption list" where
  "approval_tables s \<equiv> (approval_requests s, approval_votes s, approval_consumptions s)"

lemma wp_keeps:
  assumes "keeps f m" and "\<And>a s'. f s' = f s \<Longrightarrow> Q a s'"
  shows "wp m Q s"
  using assms(2) by (auto simp: wp_def dest: keepsD [OF assms(1)])

lemma keeps_tables_audit: "keeps approval_tables (recordAuditEvent E input)"
  by (rule keeps_recordAuditEvent) simp_all

lemma keeps_tables_activity: "keeps approval_tables (recordActivity E ai)"
  unfolding recordActivity_def Let_def by (rule keepsI, intro preserve_intros) simp_all

lemma keeps_tables_action: "keeps approval_tables (insert_action E orgId i aty u v n)"
  unfolding insert_action_def by (rule keepsI, intro preserve_intros) simp_all

lemma keeps_tables_read:
  "keeps approval_tables (approvalFromRow row)" "keeps approval_tables (attachApprovalDetails E orgId r)"
  unfolding approvalFromRow_def attachApprovalDetails_def by (rule keepsI, intro preserve_intros)+

lemma keeps_tables_check: "keeps approval_tables (checkPolicyDecision E operator orgId request)"
  unfolding checkPolicyDecision_def by (rule keepsI, intro preserve_intros) simp_all

lemmas keeps_tables = keeps_tables_audit keeps_tables_activity keeps_tables_action keeps_tables_read keeps_tables_check

subsection \<open>Every operation keeps the invariant\<close>

lemma approvals_ok_tables: "approval_tables s' = approval_tables s \<Longrightarrow> approvals_ok s' = approvals_ok s"
  by (simp add: approvals_ok_def)

lemma wp_tail:
  assumes "keeps approval_tables m" and "approvals_ok s" and "\<And>a s'. approvals_ok s' \<Longrightarrow> Q a s'"
  shows "wp m Q s"
  by (rule wp_keeps [OF assms(1)]) (use assms(2,3) approvals_ok_tables in blast)

lemmas tails = keeps_tables [THEN wp_tail]

lemma approvals_ok_uuids [simp]: "approvals_ok (s\<lparr>uuids := n\<rparr>) = approvals_ok s"
  by (simp add: approvals_ok_def)

lemma createApprovalRequest_ok: "preserves approvals_ok (createApprovalRequest E input)"
  unfolding createApprovalRequest_def
proof (rule preserves_transaction, goal_cases)
  case (1 s)
  have "approvals_ok (s\<lparr>uuids := n, approval_requests := approval_requests s @ [row]\<rparr>)"
    if "\<not> list_ex (\<lambda>a. ap_id a = ap_id row) (approval_requests s)" "1 \<le> ap_required row" "ap_status row = StPending"
    for n row
    using 1 that tables_ok_insert [of "approval_requests s" "approval_votes s" "approval_consumptions s" row]
    by (force simp: approvals_ok_def list_ex_iff)
  then show ?case
    by (auto simp: wp_simps Let_def insert_approval_def pending_approval_def intro!: tails)
qed

lemma wp_insert_vote:
  "wp (insert_vote E orgId i u note) Q s =
     (let v = \<lparr>vt_id = ''apvote_'' @ env_uuid E (uuids s), vt_org_id = orgId, vt_approval_id = i, vt_actor_id = u, vt_note = note\<rparr>
      in \<not> list_ex (\<lambda>w. vt_id w = vt_id v \<or> vt_approval_id w = i \<and> vt_actor_id w = u) (approval_votes s) \<longrightarrow>
         Q () (s\<lparr>uuids := Suc (uuids s), approval_votes := approval_votes s @ [v]\<rparr>))"
  by (simp add: insert_vote_def wp_simps Let_def)

lemma approveApproval_ok: "preserves approvals_ok (approveApproval E operator orgId i note)"
  unfolding approveApproval_def
proof (rule preserves_transaction, goal_cases)
  case (1 s)
  show ?case
  proof (cases "find_approval orgId i s")
    case None
    then show ?thesis by (simp add: wp_simps)
  next
    case (Some e)
    let ?u = "op_actorId operator"
    let ?n = "length (voters i (approval_votes s)) + 1"
    have step: "approvals_ok (s'\<lparr>approval_requests :=
          update_rows (\<lambda>a. ap_org_id a = orgId \<and> ap_id a = i) (voted_row q ?u note t) (approval_requests s)\<rparr>)"
      if "q \<longleftrightarrow> ap_required e \<le> ?n" "ap_status e = StPending" "ap_requested_by e \<noteq> ?u"
        "\<not> list_ex (\<lambda>w. vt_id w = x \<or> vt_approval_id w = i \<and> vt_actor_id w = ?u) (approval_votes s)"
        "approval_votes s' = approval_votes s @ [\<lparr>vt_id = x, vt_org_id = orgId, vt_approval_id = i, vt_actor_id = ?u, vt_note = note\<rparr>]"
        "approval_consumptions s' = approval_consumptions s" for q x t and s' :: "'a approvals_db_scheme"
    proof -
      have "?u \<notin> set (voters i (approval_votes s))"
        using that(4) by (auto simp: voters_def list_ex_iff)
      with 1 that(1-3) Some show ?thesis
        using that(5,6) tables_ok_vote [of "approval_requests s" "approval_votes s" "approval_consumptions s" orgId i e ?u]
        by (simp add: approvals_ok_def find_approval_def)
    qed
    show ?thesis
      using Some
      by (auto simp: wp_simps Let_def wp_insert_vote votes_count_voters update_approval_def
          intro!: wp_keeps [OF keeps_tables_action] tails step)
  qed
qed

lemma denyApproval_ok: "preserves approvals_ok (denyApproval E operator orgId i note)"
  unfolding denyApproval_def
proof (rule preserves_transaction, goal_cases)
  case (1 s)
  have "approvals_ok (s\<lparr>approval_requests := update_rows (\<lambda>a. ap_org_id a = orgId \<and> ap_id a = i \<and>
      ap_status a = StPending \<and> clock s < ap_expires_at a \<and> ap_requested_by a \<noteq> op_actorId operator)
      (denied_row (op_actorId operator) note (clock s)) (approval_requests s)\<rparr>)"
    using 1 by (auto simp: approvals_ok_def intro!: tables_ok_deny)
  then show ?case
    by (auto simp: wp_simps Let_def assertNotSelfApproval_def intro!: tails split: option.split)
qed

lemma consume_commit_ok: "preserves approvals_ok (consume_commit E auth i d ap r)"
  unfolding consume_commit_def
proof (rule preserves_transaction, goal_cases)
  case (1 s)
  let ?p = "\<lambda>a. ap_org_id a = au_org_id auth \<and> ap_id a = i \<and> ap_status a = StApproved"
  have "approvals_ok (s\<lparr>approval_requests := update_rows ?p (consumed_row t) (approval_requests s), uuids := n,
      approval_consumptions := approval_consumptions s @ [c]\<rparr>)"
    if "find_row ?p (approval_requests s) = Some e" "cs_approval_id c = i"
      "\<not> list_ex (\<lambda>x. cs_id x = cs_id c \<or> cs_approval_id x = i) (approval_consumptions s)" for t n c e
  proof -
    have "i \<notin> cs_approval_id ` set (approval_consumptions s)" using that(3) by (auto simp: list_ex_iff)
    with 1 that(1,2) show ?thesis by (simp add: approvals_ok_def tables_ok_consume)
  qed
  then show ?case
    by (auto simp: wp_simps Let_def insert_consumption_def intro!: tails split: option.split)
qed

lemma keeps_tables_checks: "keeps approval_tables (consume_checks E auth i d)"
  unfolding consume_checks_def getApproval_def
  by (rule keepsI) (intro preserve_intros keeps_preservesI [OF keeps_tables_check] keeps_preservesI [OF keeps_tables_read(1)]
      keeps_preservesI [OF keeps_tables_read(2)])

subsection \<open>What never changes in a request\<close>

text \<open>The members of a request that no operation updates, and those a consumption repeats.\<close>

definition approval_ident :: "('a approval_row_scheme) \<Rightarrow> string \<times> string \<times> string \<times> string \<times> string" where
  "approval_ident a = (ap_id a, ap_org_id a, ap_connection_id a, ap_decision_id a, ap_context_hash a)"

definition consumption_ident :: "approval_consumption \<Rightarrow> string \<times> string \<times> string \<times> string \<times> string" where
  "consumption_ident c = (cs_approval_id c, cs_org_id c, cs_connection_id c, cs_decision_id c, cs_context_hash c)"

definition idents :: "('a approvals_db_scheme) \<Rightarrow> (string \<times> string \<times> string \<times> string \<times> string) set" where
  "idents s = approval_ident ` set (approval_requests s)"

definition matched_to ::
  "(string \<times> string \<times> string \<times> string \<times> string) set \<Rightarrow> ('a approvals_db_scheme) \<Rightarrow> bool" where
  "matched_to T s \<longleftrightarrow> T \<subseteq> idents s \<and> consumption_ident ` set (approval_consumptions s) \<subseteq> idents s"

lemma matched_to_frame [simp]:
  "matched_to T (s\<lparr>uuids := n\<rparr>) = matched_to T s"
  "matched_to T (s\<lparr>audit_events := es\<rparr>) = matched_to T s"
  "matched_to T (s\<lparr>audit_event_heads := hs\<rparr>) = matched_to T s"
  "matched_to T (s\<lparr>policy_decisions := ds\<rparr>) = matched_to T s"
  "matched_to T (s\<lparr>approval_votes := vs\<rparr>) = matched_to T s"
  "matched_to T (s\<lparr>approval_actions := xs\<rparr>) = matched_to T s"
  "matched_to T (s\<lparr>activity_items := is\<rparr>) = matched_to T s"
  by (simp_all add: matched_to_def idents_def)

lemma matched_to_update:
  assumes "\<And>a. approval_ident (f a) = approval_ident a"
  shows "matched_to T (s\<lparr>approval_requests := update_rows p f (approval_requests s)\<rparr>) = matched_to T s"
proof -
  have "map approval_ident (update_rows p f (approval_requests s)) = map approval_ident (approval_requests s)"
    by (rule map_update_rows) (rule assms)
  then have "approval_ident ` set (update_rows p f (approval_requests s)) = approval_ident ` set (approval_requests s)"
    by (metis list.set_map)
  then show ?thesis by (simp add: matched_to_def idents_def)
qed

lemma matched_to_insert: "matched_to T s \<Longrightarrow> matched_to T (s\<lparr>approval_requests := approval_requests s @ [a]\<rparr>)"
  by (auto simp: matched_to_def idents_def)

lemma approval_ident_updates [simp]:
  "approval_ident (voted_row q u note t a) = approval_ident a"
  "approval_ident (denied_row u note t a) = approval_ident a"
  "approval_ident (consumed_row t a) = approval_ident a"
  by (simp_all add: approval_ident_def voted_row_def denied_row_def consumed_row_def)

lemma preserves_recordActivity [preserve_intros]:
  "(\<And>s n. P s \<Longrightarrow> P (s\<lparr>uuids := n\<rparr>)) \<Longrightarrow> (\<And>s is. P s \<Longrightarrow> P (s\<lparr>activity_items := is\<rparr>)) \<Longrightarrow> preserves P (recordActivity E ai)"
  unfolding recordActivity_def Let_def by (intro preserve_intros) auto

lemma preserves_insert_action [preserve_intros]:
  "(\<And>s n. P s \<Longrightarrow> P (s\<lparr>uuids := n\<rparr>)) \<Longrightarrow> (\<And>s xs. P s \<Longrightarrow> P (s\<lparr>approval_actions := xs\<rparr>)) \<Longrightarrow>
   preserves P (insert_action E orgId i aty u v n)"
  unfolding insert_action_def by (intro preserve_intros) auto

lemma preserves_insert_vote [preserve_intros]:
  "(\<And>s n. P s \<Longrightarrow> P (s\<lparr>uuids := n\<rparr>)) \<Longrightarrow> (\<And>s vs. P s \<Longrightarrow> P (s\<lparr>approval_votes := vs\<rparr>)) \<Longrightarrow>
   preserves P (insert_vote E orgId i u note)"
  unfolding insert_vote_def by (intro preserve_intros) auto

lemma preserves_insert_approval [preserve_intros]:
  "(\<And>s. P s \<Longrightarrow> P (s\<lparr>approval_requests := approval_requests s @ [a]\<rparr>)) \<Longrightarrow> preserves P (insert_approval a)"
  unfolding insert_approval_def by (intro preserve_intros) auto

lemma preserves_insert_consumption [preserve_intros]:
  "(\<And>s. P s \<Longrightarrow> P (s\<lparr>approval_consumptions := approval_consumptions s @ [c]\<rparr>)) \<Longrightarrow> preserves P (insert_consumption c)"
  unfolding insert_consumption_def by (intro preserve_intros) auto

lemma preserves_approval_reads [preserve_intros]:
  "preserves P (approvalFromRow row)" "preserves P (attachApprovalDetails E orgId r)"
  "preserves P (assertNotSelfApproval orgId i u)" "preserves P (getApproval E orgId i)"
  unfolding getApproval_def approvalFromRow_def attachApprovalDetails_def assertNotSelfApproval_def
  by (intro preserve_intros)+

lemma matched_operations:
  "preserves (matched_to T) (createApprovalRequest E input)"
  "preserves (matched_to T) (approveApproval E operator orgId i note)"
  "preserves (matched_to T) (denyApproval E operator orgId i note)"
  "preserves (matched_to T) (checkPolicyDecision E operator orgId request)"
  "preserves (matched_to T) (consume_checks E auth i d)"
  unfolding createApprovalRequest_def approveApproval_def denyApproval_def consume_checks_def update_approval_def
    checkPolicyDecision_def Let_def case_prod_beta
  by (intro preserve_intros; simp add: matched_to_update matched_to_insert)+

lemma matched_commit:
  assumes "(i, au_org_id auth, au_connection_id auth, d, ap_context_hash ap) \<in> T"
  shows "preserves (matched_to T) (consume_commit E auth i d ap r)"
  unfolding consume_commit_def Let_def
  by (intro preserve_intros)
     (use assms in \<open>auto simp: matched_to_update, auto simp: matched_to_def consumption_ident_def idents_def\<close>)

lemma consume_checks_ident:
  "wp (consume_checks E auth i d)
     (\<lambda>(ap, r) s'. (i, au_org_id auth, au_connection_id auth, d, ap_context_hash ap) \<in> idents s') s"
proof -
  have keep: "wp (checkPolicyDecision E u orgId rq) (\<lambda>a s'. x \<in> idents s') s" if "x \<in> idents s"
    for u orgId rq x and s :: "'a approvals_db_scheme"
    by (rule wp_keeps [OF keeps_tables_check]) (use that in \<open>simp add: idents_def\<close>)
  have found: "find_approval orgId i s = Some a \<Longrightarrow> (i, orgId, ap_connection_id a, ap_decision_id a, ap_context_hash a) \<in> idents s"
    for orgId a by (auto simp: find_approval_def idents_def approval_ident_def image_iff dest!: find_row_Some)
  show ?thesis
    unfolding consume_checks_def getApproval_def approvalFromRow_def attachApprovalDetails_def
    by (auto simp: wp_simps approval_row.defs approval_record.defs split: option.split
        intro!: wp_mono [OF keep] dest: found)
qed

section \<open>Every interleaving\<close>

text \<open>
  A consumption in flight: the checks have passed and the commit is still to come. Tickets are
  never withdrawn, so a commit may come late, twice, or not at all.
\<close>

record approval_ticket =
  tk_auth :: connection_auth
  tk_approvalId :: string
  tk_decisionId :: string
  tk_approval :: approval_record
  tk_recheckId :: string

datatype approval_call =
    Request approval_input
  | Vote operator_context string string string
  | Reject operator_context string string string
  | BeginConsume connection_auth string string
  | CommitConsume nat
  | PolicyCall policy_call
  | Tick nat

fun approval_step ::
  "env \<Rightarrow> approval_call \<Rightarrow> 'a approvals_db_scheme \<times> approval_ticket list \<Rightarrow> 'a approvals_db_scheme \<times> approval_ticket list" where
  "approval_step E (Request input) (s, ts) = (snd (createApprovalRequest E input s), ts)"
| "approval_step E (Vote u orgId i note) (s, ts) = (snd (approveApproval E u orgId i note s), ts)"
| "approval_step E (Reject u orgId i note) (s, ts) = (snd (denyApproval E u orgId i note s), ts)"
| "approval_step E (BeginConsume auth i d) (s, ts) =
     (case consume_checks E auth i d s of
        (Inr (ap, r), s') \<Rightarrow> (s', ts @ [\<lparr>tk_auth = auth, tk_approvalId = i, tk_decisionId = d, tk_approval = ap, tk_recheckId = r\<rparr>])
      | (Inl err, s') \<Rightarrow> (s', ts))"
| "approval_step E (CommitConsume n) (s, ts) =
     (if n < length ts
      then (snd (consume_commit E (tk_auth (ts ! n)) (tk_approvalId (ts ! n)) (tk_decisionId (ts ! n))
                   (tk_approval (ts ! n)) (tk_recheckId (ts ! n)) s), ts)
      else (s, ts))"
| "approval_step E (PolicyCall c) (s, ts) = (policy_step E c s, ts)"
| "approval_step E (Tick n) (s, ts) = (s\<lparr>clock := clock s + int n\<rparr>, ts)"

definition ticket_ident :: "approval_ticket \<Rightarrow> string \<times> string \<times> string \<times> string \<times> string" where
  "ticket_ident t = (tk_approvalId t, au_org_id (tk_auth t), au_connection_id (tk_auth t), tk_decisionId t,
     ap_context_hash (tk_approval t))"

definition flight_ok :: "'a approvals_db_scheme \<times> approval_ticket list \<Rightarrow> bool" where
  "flight_ok x \<longleftrightarrow> approvals_ok (fst x) \<and> matched_to (ticket_ident ` set (snd x)) (fst x)"

definition no_approvals :: "'a approvals_db_scheme \<Rightarrow> 'a approvals_db_scheme \<times> approval_ticket list" where
  "no_approvals s = (s\<lparr>approval_requests := [], approval_votes := [], approval_consumptions := []\<rparr>, [])"

lemma policy_step_tables: "approval_tables (policy_step E c s) = approval_tables s"
  by (rule policy_step_frame) simp_all

lemma matched_to_tables: "approval_tables s' = approval_tables s \<Longrightarrow> matched_to T s' = matched_to T s"
  by (simp add: matched_to_def idents_def)

lemma approval_step_ok:
  fixes x :: "'a approvals_db_scheme \<times> approval_ticket list"
  shows "flight_ok x \<Longrightarrow> flight_ok (approval_step E c x)"
proof -
  assume ok: "flight_ok x"
  obtain s ts where x: "x = (s, ts)" by fastforce
  let ?T = "ticket_ident ` set ts"
  have I: "approvals_ok s" and M: "matched_to ?T s" using ok by (simp_all add: flight_ok_def x)
  have keep: "preserves approvals_ok m \<Longrightarrow> approvals_ok (snd (m s))"
    and match: "preserves (matched_to ?T) m \<Longrightarrow> matched_to ?T (snd (m s))"
    for m :: "('a approvals_db_scheme, approval_record) op"
    using I M by (simp_all add: preserves_def)
  show ?thesis
  proof (cases c)
    case (BeginConsume auth i d)
    obtain r s' where run: "consume_checks E auth i d s = (r, s')" by fastforce
    have same: "approval_tables s' = approval_tables s" by (rule keepsD [OF keeps_tables_checks run])
    then have I': "approvals_ok s'" and M': "matched_to ?T s'"
      using I M approvals_ok_tables matched_to_tables by blast+
    show ?thesis
    proof (cases r)
      case (Inl err)
      with I' M' show ?thesis by (simp add: x BeginConsume run flight_ok_def)
    next
      case (Inr a)
      obtain ap rc where a: "a = (ap, rc)" by fastforce
      have "(i, au_org_id auth, au_connection_id auth, d, ap_context_hash ap) \<in> idents s'"
        using wpD [OF consume_checks_ident run [unfolded Inr a]] by simp
      with I' M' show ?thesis
        by (simp add: x BeginConsume run Inr a flight_ok_def matched_to_def ticket_ident_def)
    qed
  next
    case (CommitConsume n)
    show ?thesis
    proof (cases "n < length ts")
      case True
      then have "ticket_ident (ts ! n) \<in> ?T" by simp
      then have "(tk_approvalId (ts ! n), au_org_id (tk_auth (ts ! n)), au_connection_id (tk_auth (ts ! n)),
          tk_decisionId (ts ! n), ap_context_hash (tk_approval (ts ! n))) \<in> ?T" by (simp add: ticket_ident_def)
      from match [OF matched_commit [OF this]] keep [OF consume_commit_ok] True show ?thesis
        by (simp add: x CommitConsume flight_ok_def)
    next
      case False
      with ok show ?thesis by (simp add: x CommitConsume)
    qed
  next
    case (PolicyCall pc)
    have "approvals_ok (policy_step E pc s)" "matched_to ?T (policy_step E pc s)"
      using I M approvals_ok_tables [OF policy_step_tables] matched_to_tables [OF policy_step_tables] by blast+
    then show ?thesis by (simp add: x PolicyCall flight_ok_def)
  next
    case (Tick n)
    with I M show ?thesis by (simp add: x flight_ok_def approvals_ok_def matched_to_def idents_def)
  qed (simp_all add: x flight_ok_def keep match createApprovalRequest_ok approveApproval_ok denyApproval_ok
      matched_operations)
qed

interpretation approval_machine: invariant_machine "no_approvals s0" "approval_step E" flight_ok
  for s0 :: "'a approvals_db_scheme" and E
  by unfold_locales
     (simp_all add: approval_step_ok, simp add: flight_ok_def no_approvals_def approvals_ok_def approval_tables_ok_def
        matched_to_def)

lemma consumed_once:
  assumes "approval_tables_ok rows votes cons" and "a \<in> set rows"
  shows "length (filter (\<lambda>c. cs_approval_id c = ap_id a) cons) = (if ap_status a = StConsumed then 1 else 0)"
proof -
  have d: "distinct (map cs_approval_id cons)" using assms(1) by (simp add: approval_tables_ok_def)
  have "length (filter (\<lambda>c. cs_approval_id c = i) cons) = (if i \<in> cs_approval_id ` set cons then 1 else 0)" for i
    using d by (induction cons) (auto simp: filter_empty_conv)
  moreover have "ap_status a = StConsumed \<longleftrightarrow> ap_id a \<in> cs_approval_id ` set cons"
    using assms by (simp add: approval_tables_ok_def list_all_iff row_ok_def)
  ultimately show ?thesis by simp
qed

lemma distinct_voters:
  "distinct (map (\<lambda>v. (vt_approval_id v, vt_actor_id v)) votes) \<Longrightarrow> distinct (voters i votes)"
  by (induction votes) (auto simp: voters_def image_iff)

text \<open>
  C13. Four eyes, and one use. Interleave requests, votes, denials, policy changes, the passing of
  time, and the two halves of any number of consumptions in any way whatsoever. Then in every
  approval the voters are distinct and exclude the requester; an approval that is approved or
  consumed has at least the required number of them and was granted by one of them; it has
  exactly one consumption when it is consumed and none otherwise; and every consumption repeats
  the organisation, connection, decision and context hash of the request it consumed.
\<close>

theorem approvals_under_interleaving:
  "let (s, tickets) = fold (approval_step E) calls (no_approvals s0)
   in list_all (\<lambda>a.
        distinct (voters (ap_id a) (approval_votes s)) \<and>
        ap_requested_by a \<notin> set (voters (ap_id a) (approval_votes s)) \<and>
        (if ap_status a \<in> {StApproved, StConsumed}
         then ap_required a \<le> length (voters (ap_id a) (approval_votes s)) \<and>
              (\<exists>u \<in> set (voters (ap_id a) (approval_votes s)). ap_approved_by a = Some u)
         else True) \<and>
        length (filter (\<lambda>c. cs_approval_id c = ap_id a) (approval_consumptions s)) =
          (if ap_status a = StConsumed then 1 else 0)) (approval_requests s) \<and>
      consumption_ident ` set (approval_consumptions s) \<subseteq> approval_ident ` set (approval_requests s)"
proof -
  obtain s ts where run: "fold (approval_step E) calls (no_approvals s0) = (s, ts)" by fastforce
  have "flight_ok (fold (approval_step E) calls (no_approvals s0))" by (rule approval_machine.inv_reachable)
  then have ok: "approval_tables_ok (approval_requests s) (approval_votes s) (approval_consumptions s)"
    and m: "matched_to (ticket_ident ` set ts) s"
    by (simp_all add: run flight_ok_def approvals_ok_def)
  have rows: "row_ok (approval_votes s) (approval_consumptions s) a" if "a \<in> set (approval_requests s)" for a
    using ok that by (simp add: approval_tables_ok_def list_all_iff)
  have d: "distinct (voters i (approval_votes s))" for i
    using ok by (simp add: approval_tables_ok_def distinct_voters)
  have "if ap_status a \<in> {StApproved, StConsumed}
        then ap_required a \<le> length (voters (ap_id a) (approval_votes s)) \<and>
             (\<exists>u \<in> set (voters (ap_id a) (approval_votes s)). ap_approved_by a = Some u) else True"
    and "ap_requested_by a \<notin> set (voters (ap_id a) (approval_votes s))"
    if "a \<in> set (approval_requests s)" for a
    using rows [OF that] unfolding row_ok_def by auto
  with d consumed_once [OF ok] m show ?thesis
    by (simp add: run list_all_iff matched_to_def idents_def)
qed

section \<open>Voting and consuming, exactly\<close>

lemma find_row_updated:
  "find_row p rows = Some a \<Longrightarrow> q a \<Longrightarrow> (\<And>r. q r \<Longrightarrow> p r) \<Longrightarrow> (\<And>r. p r \<Longrightarrow> p (f r)) \<Longrightarrow>
   find_row p (update_rows q f rows) = Some (f a)"
  by (induction rows) (auto split: if_splits)

lemma wp_keeps2:
  assumes "keeps f m" and "keeps g m" and "\<And>a s'. f s' = f s \<Longrightarrow> g s' = g s \<Longrightarrow> Q a s'"
  shows "wp m Q s"
  using assms(3) by (auto simp: wp_def dest: keepsD [OF assms(1)] keepsD [OF assms(2)])

text \<open>What a vote that succeeds does to the approval tables.\<close>

definition vote_effect ::
  "string \<Rightarrow> string \<Rightarrow> string \<Rightarrow> string \<Rightarrow> 'a approvals_db_scheme \<Rightarrow> 'a approvals_db_scheme \<Rightarrow> bool" where
  "vote_effect orgId i u note s s' \<longleftrightarrow>
     (\<exists>a. find_approval orgId i s = Some a \<and> ap_status a = StPending \<and> clock s < ap_expires_at a \<and>
          ap_requested_by a \<noteq> u \<and> u \<notin> set (voters i (approval_votes s)) \<and>
          voters i (approval_votes s') = voters i (approval_votes s) @ [u] \<and>
          approval_consumptions s' = approval_consumptions s \<and>
          find_approval orgId i s' =
            Some (voted_row (ap_required a \<le> length (voters i (approval_votes s)) + 1) u note (clock s) a))"

lemma vote_effect_tail:
  assumes "keeps approval_tables m" and "vote_effect orgId i u note s s1"
    and "\<And>x s'. vote_effect orgId i u note s s' \<Longrightarrow> Q x s'"
  shows "wp m Q s1"
  by (rule wp_keeps [OF assms(1)]) (use assms(2,3) in \<open>auto simp: vote_effect_def find_approval_def\<close>)

lemma approveApproval_effect:
  "wp (approveApproval E operator orgId i note) (\<lambda>_. vote_effect orgId i (op_actorId operator) note s) s"
proof (cases "find_approval orgId i s")
  case None
  then show ?thesis by (simp add: approveApproval_def wp_simps)
next
  case (Some a)
  let ?u = "op_actorId operator"
  have step: "vote_effect orgId i ?u note s (s1\<lparr>approval_requests :=
        update_rows (\<lambda>a. ap_org_id a = orgId \<and> ap_id a = i) (voted_row q ?u note (clock s)) (approval_requests s)\<rparr>)"
    if "q \<longleftrightarrow> ap_required a \<le> Suc (length (voters i (approval_votes s)))"
      "ap_status a = StPending" "clock s < ap_expires_at a" "ap_requested_by a \<noteq> ?u"
      "\<not> list_ex (\<lambda>w. vt_id w = x \<or> vt_approval_id w = i \<and> vt_actor_id w = ?u) (approval_votes s)"
      "approval_votes s1 = approval_votes s @ [\<lparr>vt_id = x, vt_org_id = orgId, vt_approval_id = i, vt_actor_id = ?u, vt_note = note\<rparr>]"
      "approval_consumptions s1 = approval_consumptions s" for x q s1
  proof -
    have "?u \<notin> set (voters i (approval_votes s))" using that(5) by (auto simp: voters_def list_ex_iff)
    moreover have "find_row (\<lambda>a. ap_org_id a = orgId \<and> ap_id a = i) (update_rows (\<lambda>a. ap_org_id a = orgId \<and> ap_id a = i)
        (voted_row q ?u note (clock s)) (approval_requests s)) = Some (voted_row q ?u note (clock s) a)"
      using Some find_row_Some [OF Some [unfolded find_approval_def]] unfolding find_approval_def
      by (intro find_row_updated) (auto simp: voted_row_def)
    ultimately show ?thesis
      using that Some by (simp add: vote_effect_def find_approval_def)
  qed
  show ?thesis
    using Some unfolding approveApproval_def
    by (auto simp: wp_simps Let_def wp_insert_vote votes_count_voters update_approval_def
        intro!: wp_keeps [OF keeps_tables_action] keeps_tables [THEN vote_effect_tail] step)
qed

text \<open>
  C14. A vote, exactly. It succeeds only on a pending, unexpired request, by an operator who did
  not make it and has not voted on it; it adds this operator to the voters and approves the
  request precisely when the votes now reach the required number. Otherwise nothing changes.
\<close>

theorem vote_exact:
  "case approveApproval E operator orgId i note s of
     (Inl err, s') \<Rightarrow> s' = s
   | (Inr r, s') \<Rightarrow>
       (\<exists>a. find_approval orgId i s = Some a \<and> ap_status a = StPending \<and> clock s < ap_expires_at a \<and>
            ap_requested_by a \<noteq> op_actorId operator \<and>
            op_actorId operator \<notin> set (voters i (approval_votes s)) \<and>
            voters i (approval_votes s') = voters i (approval_votes s) @ [op_actorId operator] \<and>
            approval_consumptions s' = approval_consumptions s \<and>
            find_approval orgId i s' =
              Some (voted_row (ap_required a \<le> length (voters i (approval_votes s)) + 1)
                      (op_actorId operator) note (clock s) a))"
  using approveApproval_effect [of E operator orgId i "note" s]
  by (auto simp: wp_def vote_effect_def split: prod.splits sum.splits)
     (simp add: approveApproval_def withTransaction_Inl)


abbreviation timed_tables where
  "timed_tables s \<equiv> (approval_tables s, clock s)"

lemma keeps_timed: "keeps timed_tables (recordAuditEvent E input)" "keeps timed_tables (recordActivity E ai)"
    "keeps timed_tables (insert_action E orgId i aty u v n)" "keeps timed_tables (approvalFromRow row)"
  unfolding recordActivity_def insert_action_def approvalFromRow_def Let_def
  by (rule keeps_recordAuditEvent; simp) (rule keepsI, intro preserve_intros; simp)+

lemma keeps_timed_check: "keeps timed_tables (checkPolicyDecision E operator orgId request)"
  unfolding checkPolicyDecision_def by (rule keepsI, intro preserve_intros) simp_all

definition consume_request :: "connection_auth \<Rightarrow> approval_row \<Rightarrow> decision_request" where
  "consume_request auth a =
     \<lparr>rq_actor_type = ConnectionA, rq_actor_id = Some (au_connection_id auth), rq_actor_role = None,
      rq_action = ap_action_id a, rq_target_type = ap_target_type a,
      rq_target_id = ap_target_id a, rq_context = ap_context a\<rparr>"

definition consumable ::
  "env \<Rightarrow> connection_auth \<Rightarrow> string \<Rightarrow> approval_row \<Rightarrow> 'a approvals_db_scheme \<Rightarrow> bool" where
  "consumable E auth d a s \<longleftrightarrow>
     ap_status a = StApproved \<and> clock s < ap_expires_at a \<and>
     ap_connection_id a = au_connection_id auth \<and> ap_agent_id a = au_agent_id auth \<and> ap_decision_id a = d \<and>
     dr_decision (policy_verdict E (au_org_id auth) (consume_request auth a) s) \<noteq> Deny"

lemma wp_check_verdict:
  assumes "\<And>d s'. timed_tables s' = timed_tables s \<Longrightarrow>
      dr_decision d = dr_decision (policy_verdict E orgId request s) \<Longrightarrow> Q d s'"
  shows "wp (checkPolicyDecision E operator orgId request) Q s"
  unfolding wp_def
proof (intro allI impI)
  fix d s'
  assume run: "checkPolicyDecision E operator orgId request s = (Inr d, s')"
  then have "dr_decision d = dr_decision (policy_verdict E orgId request s)"
    by (rule checkPolicyDecision_Inr) (simp add: with_id_def decision_result.defs)
  with run show "Q d s'" using assms keepsD [OF keeps_timed_check run] by blast
qed

lemma consume_checks_effect:
  "wp (consume_checks E auth i d)
     (\<lambda>(ap, r) s'. timed_tables s' = timed_tables s \<and>
        (\<exists>a. find_approval (au_org_id auth) i s = Some a \<and> consumable E auth d a s \<and>
             ap_context_hash ap = ap_context_hash a)) s"
proof -
  have "consumable E auth d a s" if "effectiveApprovalStatus (clock s) a = StApproved" "clock s < ap_expires_at a"
    "ap_connection_id a = au_connection_id auth" "ap_agent_id a = au_agent_id auth" "ap_decision_id a = d"
    "dr_decision (policy_verdict E (au_org_id auth) (consume_request auth a) s) \<noteq> Deny" for a
    using that by (auto simp: consumable_def effectiveApprovalStatus_def split: if_splits)
  then show ?thesis
    unfolding consume_checks_def getApproval_def approvalFromRow_def attachApprovalDetails_def
    by (auto simp: wp_simps approval_row.defs approval_record.defs consume_request_def split: option.split
        intro!: wp_check_verdict)
qed

lemma consume_commit_exact:
  "wp (consume_commit E auth i d ap r)
     (\<lambda>x s'. let p = (\<lambda>a. ap_org_id a = au_org_id auth \<and> ap_id a = i \<and> ap_status a = StApproved) in
        ap_id x = i \<and> list_ex p (approval_requests s) \<and>
        approval_requests s' = update_rows p (consumed_row (clock s)) (approval_requests s) \<and>
        approval_votes s' = approval_votes s \<and>
        (\<exists>c. approval_consumptions s' = approval_consumptions s @ [c] \<and>
           consumption_ident c = (i, au_org_id auth, au_connection_id auth, d, ap_context_hash ap))) s"
proof -
  let ?p = "\<lambda>a. ap_org_id a = au_org_id auth \<and> ap_id a = i \<and> ap_status a = StApproved"
  have tail: "wp m Q s1" if "keeps approval_tables m" "approval_tables s1 = w"
    "\<And>x s'. approval_tables s' = w \<Longrightarrow> Q x s'"
    for m :: "('a approvals_db_scheme, 'x) op" and Q w s1
    by (rule wp_keeps [OF that(1)]) (use that(2,3) in simp)
  show ?thesis
  proof (cases "find_row ?p (approval_requests s)")
    case None
    then show ?thesis unfolding consume_commit_def by (simp add: wp_simps Let_def)
  next
    case (Some a)
    then have "list_ex ?p (approval_requests s)" using find_row_Some [OF Some] by (auto simp: list_ex_iff)
    moreover have "ap_id a = i" using find_row_Some [OF Some] by simp
    ultimately show ?thesis
      unfolding consume_commit_def
      by (auto simp: wp_simps Let_def insert_consumption_def consumption_ident_def Some approvalFromRow_def approval_row.defs
            consumed_row_def [abs_def] intro!: keeps_tables [THEN tail])
  qed
qed

lemma consume_commit_effect:
  assumes "find_approval (au_org_id auth) i s = Some a"
    "ap_status a = StApproved" "ap_context_hash ap = ap_context_hash a"
    "ap_connection_id a = au_connection_id auth" "ap_decision_id a = d"
  shows "wp (consume_commit E auth i d ap r)
     (\<lambda>x s'. ap_id x = i \<and> find_approval (au_org_id auth) i s' = Some (consumed_row (clock s) a) \<and>
        approval_votes s' = approval_votes s \<and>
        (\<exists>c. approval_consumptions s' = approval_consumptions s @ [c] \<and> consumption_ident c = approval_ident a)) s"
proof (rule wp_mono [OF consume_commit_exact], unfold Let_def, elim conjE exE, intro conjI)
  let ?p = "\<lambda>a. ap_org_id a = au_org_id auth \<and> ap_id a = i \<and> ap_status a = StApproved"
  fix s' :: "'a approvals_db_scheme"
  assume rows: "approval_requests s' = update_rows ?p (consumed_row (clock s)) (approval_requests s)"
  have a: "ap_org_id a = au_org_id auth" "ap_id a = i"
    using find_row_Some [OF assms(1) [unfolded find_approval_def]] by auto
  show "find_approval (au_org_id auth) i s' = Some (consumed_row (clock s) a)"
    using assms(1,2) a unfolding find_approval_def rows by (intro find_row_updated) (auto simp: consumed_row_def)
  fix c
  assume "approval_consumptions s' = approval_consumptions s @ [c]"
    "consumption_ident c = (i, au_org_id auth, au_connection_id auth, d, ap_context_hash ap)"
  then show "\<exists>c. approval_consumptions s' = approval_consumptions s @ [c] \<and> consumption_ident c = approval_ident a"
    using a assms by (simp add: approval_ident_def)
qed

lemma consumeApproval_effect:
  "wp (consumeApproval E auth i d)
     (\<lambda>x s'. ap_id x = i \<and> (\<exists>a. find_approval (au_org_id auth) i s = Some a \<and> consumable E auth d a s \<and>
        find_approval (au_org_id auth) i s' = Some (consumed_row (clock s) a))) s"
  unfolding consumeApproval_def wp_bindM
proof (rule wp_mono [OF consume_checks_effect], clarify, goal_cases)
  case (1 ap r s1 a)
  then have "find_approval (au_org_id auth) i s1 = Some a" by (simp add: find_approval_def)
  from consume_commit_effect [OF this, of ap d E r] 1 show ?case
    unfolding consumable_def by (auto elim!: wp_mono simp: consumable_def)
qed


end
