(* ===== verification/Usdc.thy ===== *)
theory Usdc
  imports JsValue
begin

text \<open>
  USDC amounts. The API carries them as decimal text, the engines compute on whole millionths
  (\<open>bigint\<close>), and the database stores \<open>numeric(20, 6)\<close>. This theory models the conversions,
  \<open>parseUsdcMicros\<close> and the two \<open>formatUsdc\<close> functions (payments/store.ts and
  payments/permit2.ts), the guards built on them and the reading and writing of the numeric
  columns, and proves them inverse to each other.
\<close>

section \<open>Parsing\<close>

datatype usdc_text = UText string | UNumber jsnum

definition usdc_raw :: "usdc_text \<Rightarrow> string" where
  "usdc_raw v = (case v of UText s \<Rightarrow> trim s | UNumber x \<Rightarrow> show_num x)"

text \<open>The groups of \<open>/^(\d+)(?:\.(\d{1,6})?)?$/\<close>; the second is empty when it did not take part.\<close>

definition usdc_match :: "string \<Rightarrow> (string \<times> string) option" where
  "usdc_match raw =
     (case digit_span raw of
        (whole, rest) \<Rightarrow>
          if whole = [] then None
          else case rest of
                 [] \<Rightarrow> Some (whole, [])
               | c # places \<Rightarrow>
                   if c = CHR ''.'' \<and> length places \<le> 6 \<and> list_all is_digit places
                   then Some (whole, places) else None)"

definition INVALID_AMOUNT :: app_error where
  "INVALID_AMOUNT = badRequest ''invalid_usdc_amount'' ''USDC amount must be a positive decimal with up to 6 places.''"

definition parseUsdcMicros :: "usdc_text \<Rightarrow> app_error + int" where
  "parseUsdcMicros value =
     (case usdc_match (usdc_raw value) of
        None \<Rightarrow> Inl INVALID_AMOUNT
      | Some (whole, places) \<Rightarrow>
          (let decimals = padEnd 6 CHR ''0'' places
           in Inr (int (digits_val 0 whole) * 1000000 +
                   (if decimals = [] then 0 else int (digits_val 0 decimals)))))"

section \<open>Formatting\<close>

text \<open>\<open>bigint\<close> division truncates towards zero and the remainder takes the sign of the dividend.\<close>

definition big_div :: "int \<Rightarrow> int \<Rightarrow> int" where
  "big_div a b = sgn a * sgn b * (\<bar>a\<bar> div \<bar>b\<bar>)"

definition big_mod :: "int \<Rightarrow> int \<Rightarrow> int" where
  "big_mod a b = sgn a * (\<bar>a\<bar> mod \<bar>b\<bar>)"

text \<open>\<open>formatUsdc\<close> of payments/permit2.ts: always six places.\<close>

definition formatUsdc :: "int \<Rightarrow> string" where
  "formatUsdc micros =
     (let whole = big_div micros 1000000;
          decimal = padStart 6 CHR ''0'' (show_int (big_mod micros 1000000))
      in show_int whole @ ''.'' @ decimal)"

text \<open>\<open>formatUsdc\<close> of payments/store.ts: trailing zeros dropped, at least two places.\<close>

definition drop_zeros :: "string \<Rightarrow> string" where
  "drop_zeros s = rev (dropWhile (\<lambda>c. c = CHR ''0'') (rev s))"

definition formatUsdcShort :: "int \<Rightarrow> string" where
  "formatUsdcShort micros =
     (let whole = big_div micros 1000000;
          decimal = drop_zeros (padStart 6 CHR ''0'' (show_int (big_mod micros 1000000)));
          normalized = (if decimal = [] then ''00'' else padEnd 2 CHR ''0'' decimal)
      in show_int whole @ ''.'' @ normalized)"

definition formatDbUsdc :: "string \<Rightarrow> app_error + string" where
  "formatDbUsdc value =
     (case parseUsdcMicros (UText value) of Inl e \<Rightarrow> Inl e | Inr m \<Rightarrow> Inr (formatUsdcShort m))"

definition assertPositiveUsdc :: "usdc_text \<Rightarrow> string \<Rightarrow> app_error + string" where
  "assertPositiveUsdc value field =
     (case parseUsdcMicros value of
        Inl e \<Rightarrow> Inl e
      | Inr micros \<Rightarrow>
          if micros \<le> 0 then Inl (badRequest ''invalid_usdc_amount'' (field @ '' must be greater than 0 USDC.''))
          else Inr (formatUsdcShort micros))"

definition assertNonNegativeUsdc :: "usdc_text \<Rightarrow> string \<Rightarrow> app_error + string" where
  "assertNonNegativeUsdc value field =
     (case parseUsdcMicros value of
        Inl e \<Rightarrow> Inl e
      | Inr micros \<Rightarrow>
          if micros < 0 then Inl (badRequest ''invalid_usdc_amount'' (field @ '' cannot be negative.''))
          else Inr (formatUsdcShort micros))"

definition atomicAmountToMicros :: "usdc_text \<Rightarrow> string \<Rightarrow> app_error + int" where
  "atomicAmountToMicros value field =
     (case parse_nat (usdc_raw value) of
        None \<Rightarrow> Inl (badRequest ''invalid_x402_amount'' (field @ '' must be an integer atomic USDC amount.''))
      | Some n \<Rightarrow>
          if n = 0 then Inl (badRequest ''invalid_x402_amount'' (field @ '' must be greater than zero.''))
          else Inr (int n))"

section \<open>Numeric columns\<close>

text \<open>
  A \<open>numeric(20, 6)\<close> column holds a whole number of millionths below \<open>10 ^ 20\<close> in absolute value
  and is read back as text with six places. Writing casts the text: the engines only ever write
  a decimal that \<open>parseUsdcMicros\<close> accepts, with a minus sign in front of reserve postings.
\<close>

definition numeric_text :: "int \<Rightarrow> string" where
  "numeric_text m = (if m < 0 then ''-'' @ formatUsdc (- m) else formatUsdc m)"

definition numeric_range :: "int \<Rightarrow> bool" where
  "numeric_range m \<longleftrightarrow> \<bar>m\<bar> < 10 ^ 20"

definition NUMERIC_OVERFLOW :: app_error where
  "NUMERIC_OVERFLOW = JsError ''numeric field overflow''"

definition numeric_cast :: "string \<Rightarrow> app_error + int" where
  "numeric_cast text =
     (let s = trim text;
          negative = (s \<noteq> [] \<and> hd s = CHR ''-'');
          body = (if negative then tl s else s)
      in case usdc_match body of
           None \<Rightarrow> Inl (JsError ''invalid input syntax for type numeric'')
         | Some (whole, places) \<Rightarrow>
             (let m = int (digits_val 0 whole) * 1000000 + int (digits_val 0 (padEnd 6 CHR ''0'' places));
                  v = (if negative then - m else m)
              in if numeric_range v then Inr v else Inl NUMERIC_OVERFLOW))"

section \<open>Facts about digits\<close>

lemma digit_not_dot [simp]: "\<not> is_digit CHR ''.''" "\<not> is_digit CHR ''-''"
  by (simp_all add: is_digit_def code_def)

lemma digit_not_space: "is_digit c \<Longrightarrow> \<not> is_space c"
  by (auto simp: is_digit_def is_space_def)

lemma digit_span_append:
  "list_all is_digit ds \<Longrightarrow> rest = [] \<or> \<not> is_digit (hd rest) \<Longrightarrow> digit_span (ds @ rest) = (ds, rest)"
  by (cases rest) (auto simp: digit_span_def list_all_iff takeWhile_append2 dropWhile_append2)

lemma digit_span_split:
  "digit_span s = (ds, rest) \<Longrightarrow> s = ds @ rest \<and> list_all is_digit ds"
  by (auto simp: digit_span_def list_all_iff dest: set_takeWhileD)

lemma usdc_match_iff:
  "usdc_match raw = Some (whole, places) \<longleftrightarrow>
     whole \<noteq> [] \<and> list_all is_digit whole \<and> list_all is_digit places \<and> length places \<le> 6 \<and>
     (raw = whole \<and> places = [] \<or> raw = whole @ ''.'' @ places)"
proof
  assume L: "usdc_match raw = Some (whole, places)"
  obtain ds rest where "digit_span raw = (ds, rest)" by fastforce
  with L digit_span_split [OF this] show "whole \<noteq> [] \<and> list_all is_digit whole \<and> list_all is_digit places \<and>
      length places \<le> 6 \<and> (raw = whole \<and> places = [] \<or> raw = whole @ ''.'' @ places)"
    by (auto simp: usdc_match_def split: if_splits list.splits)
next
  assume "whole \<noteq> [] \<and> list_all is_digit whole \<and> list_all is_digit places \<and> length places \<le> 6 \<and>
     (raw = whole \<and> places = [] \<or> raw = whole @ ''.'' @ places)"
  moreover from this have "digit_span whole = (whole, [])" "digit_span (whole @ ''.'' @ places) = (whole, ''.'' @ places)"
    using digit_span_append [of whole "[]"] digit_span_append [of whole "''.'' @ places"] by auto
  ultimately show "usdc_match raw = Some (whole, places)"
    by (auto simp: usdc_match_def)
qed

lemma digits_val_padEnd:
  "length s \<le> n \<Longrightarrow> digits_val 0 (padEnd n CHR ''0'' s) = digits_val 0 s * 10 ^ (n - length s)"
  using digits_val_acc [of "digits_val 0 s" "replicate (n - length s) CHR ''0''"]
  by (simp add: padEnd_def digits_val_append)

lemma trim_no_space:
  "s \<noteq> [] \<Longrightarrow> \<not> is_space (hd s) \<Longrightarrow> \<not> is_space (last s) \<Longrightarrow> trim s = s"
proof -
  assume "s \<noteq> []" "\<not> is_space (hd s)" "\<not> is_space (last s)"
  moreover have "dropWhile is_space s = s" if "s \<noteq> []" "\<not> is_space (hd s)" for s
    using that by (cases s) auto
  moreover have "dropWhile is_space (rev s) = rev s" if "s \<noteq> []" "\<not> is_space (last s)" for s
    using that by (cases s rule: rev_cases) auto
  ultimately show ?thesis by (simp add: trim_def)
qed


section \<open>Parsing and printing are inverse\<close>

lemma parse_match:
  assumes "usdc_match (usdc_raw v) = Some (whole, places)"
  shows "parseUsdcMicros v =
    Inr (int (digits_val 0 whole) * 1000000 + int (digits_val 0 places * 10 ^ (6 - length places)))"
proof -
  have "length places \<le> 6" using assms by (simp add: usdc_match_iff)
  then show ?thesis
    using assms digits_val_padEnd [of places 6] by (auto simp: parseUsdcMicros_def Let_def)
qed

lemma parse_Inr:
  assumes "parseUsdcMicros v = Inr m"
  obtains whole places where "usdc_match (usdc_raw v) = Some (whole, places)"
    "m = int (digits_val 0 whole) * 1000000 + int (digits_val 0 places * 10 ^ (6 - length places))"
  using assms parse_match [of v] by (cases "usdc_match (usdc_raw v)") (auto simp: parseUsdcMicros_def)

lemma parse_nonneg: "parseUsdcMicros v = Inr m \<Longrightarrow> 0 \<le> m"
  by (erule parse_Inr) simp

lemma six_places: "length (padStart 6 CHR ''0'' (show_nat (n mod 1000000))) = 6"
    "list_all is_digit (padStart 6 CHR ''0'' (show_nat (n mod 1000000)))"
    "digits_val 0 (padStart 6 CHR ''0'' (show_nat (n mod 1000000))) = n mod 1000000"
proof -
  have "length (show_nat (n mod 1000000)) \<le> 6" by (rule show_nat_length) simp_all
  then show "length (padStart 6 CHR ''0'' (show_nat (n mod 1000000))) = 6" by (rule length_padStart)
  show "list_all is_digit (padStart 6 CHR ''0'' (show_nat (n mod 1000000)))" by (simp add: padStart_digits)
  show "digits_val 0 (padStart 6 CHR ''0'' (show_nat (n mod 1000000))) = n mod 1000000"
    by (simp add: padStart_def)
qed

lemma show_parts:
  "show_int (big_div (int n) 1000000) = show_nat (n div 1000000)"
  "show_int (big_mod (int n) 1000000) = show_nat (n mod 1000000)"
proof -
  have "big_div (int n) 1000000 = int (n div 1000000)" "big_mod (int n) 1000000 = int (n mod 1000000)"
    by (cases "n = 0"; simp add: big_div_def big_mod_def sgn_if zdiv_int zmod_int)+
  then show "show_int (big_div (int n) 1000000) = show_nat (n div 1000000)"
    "show_int (big_mod (int n) 1000000) = show_nat (n mod 1000000)"
    by (simp_all add: show_int_def)
qed

text \<open>Any decimal of digits, with a point and at most six places, is its own \<open>trim\<close>.\<close>

lemma decimal_raw:
  assumes "whole \<noteq> []" "list_all is_digit whole" "list_all is_digit places" "places \<noteq> []"
  shows "trim (whole @ ''.'' @ places) = whole @ ''.'' @ places"
proof (rule trim_no_space)
  show "\<not> is_space (hd (whole @ ''.'' @ places))"
    using assms by (cases whole) (auto dest: digit_not_space)
  have "last places \<in> set places" using assms(4) by simp
  then show "\<not> is_space (last (whole @ ''.'' @ places))"
    using assms by (auto simp: list_all_iff dest: digit_not_space)
qed simp

lemma parse_decimal:
  assumes "list_all is_digit places" "places \<noteq> []" "length places \<le> 6"
  shows "parseUsdcMicros (UText (show_nat w @ ''.'' @ places)) =
    Inr (int (w * 1000000 + digits_val 0 places * 10 ^ (6 - length places)))"
proof -
  have "usdc_match (usdc_raw (UText (show_nat w @ ''.'' @ places))) = Some (show_nat w, places)"
    using assms by (simp add: usdc_raw_def usdc_match_iff decimal_raw [simplified])
  from parse_match [OF this] show ?thesis by simp
qed

lemma formatUsdc_nat:
  "formatUsdc (int n) = show_nat (n div 1000000) @ ''.'' @ padStart 6 CHR ''0'' (show_nat (n mod 1000000))"
  by (simp add: formatUsdc_def show_parts Let_def)

lemma parse_format: "parseUsdcMicros (UText (formatUsdc (int n))) = Inr (int n)"
proof -
  let ?d = "padStart 6 CHR ''0'' (show_nat (n mod 1000000))"
  have "?d \<noteq> []" using six_places(1) [of n] by force
  with parse_decimal [OF six_places(2) this, of "n div 1000000"] six_places [of n] show ?thesis
    by (simp only: formatUsdc_nat div_mult_mod_eq) simp
qed

text \<open>Dropping trailing zeros of a fraction does not change its value.\<close>

lemma drop_zeros_split: "\<exists>k. s = drop_zeros s @ replicate k CHR ''0''"
proof (induction s rule: rev_induct)
  case Nil
  then show ?case by (simp add: drop_zeros_def)
next
  case (snoc c s)
  show ?case
  proof (cases "c = CHR ''0''")
    case True
    from snoc obtain k where k: "s = drop_zeros s @ replicate k CHR ''0''" by blast
    have "s @ [c] = drop_zeros s @ replicate k CHR ''0'' @ [CHR ''0'']"
      using True k by (metis append_assoc)
    also have "\<dots> = drop_zeros (s @ [c]) @ replicate (Suc k) CHR ''0''"
      using True by (simp add: drop_zeros_def replicate_append_same)
    finally show ?thesis by blast
  next
    case False
    then have "s @ [c] = drop_zeros (s @ [c]) @ replicate 0 CHR ''0''" by (simp add: drop_zeros_def)
    then show ?thesis by blast
  qed
qed

lemma short_places:
  assumes "length s = 6" "list_all is_digit s"
  defines "d \<equiv> (if drop_zeros s = [] then ''00'' else padEnd 2 CHR ''0'' (drop_zeros s))"
  shows "d \<noteq> []" "list_all is_digit d" "length d \<le> 6" "digits_val 0 d * 10 ^ (6 - length d) = digits_val 0 s"
proof -
  obtain k where k: "s = drop_zeros s @ replicate k CHR ''0''" using drop_zeros_split by blast
  then have len: "length (drop_zeros s) + k = 6" using assms(1) by (metis length_append length_replicate)
  have d: "d = drop_zeros s @ replicate (2 - length (drop_zeros s)) CHR ''0''"
    by (auto simp: d_def padEnd_def numeral_2_eq_2)
  have dig: "list_all is_digit (drop_zeros s)" using assms(2) k by (metis list_all_append)
  show "list_all is_digit d" using dig by (auto simp: d list_all_iff is_digit_def code_def)
  show "d \<noteq> []" by (auto simp: d)
  show le: "length d \<le> 6" using len by (simp add: d)
  have "s = d @ replicate (6 - length d) CHR ''0''"
    using len by (subst k) (simp add: d replicate_add [symmetric])
  then have "digits_val 0 s = digits_val (digits_val 0 d) (replicate (6 - length d) CHR ''0'')"
    by (metis digits_val_append)
  also have "\<dots> = digits_val 0 d * 10 ^ (6 - length d)"
    using digits_val_acc [of "digits_val 0 d" "replicate (6 - length d) CHR ''0''"] by simp
  finally show "digits_val 0 d * 10 ^ (6 - length d) = digits_val 0 s" by simp
qed

lemma parse_formatShort: "parseUsdcMicros (UText (formatUsdcShort (int n))) = Inr (int n)"
proof -
  define s where "s = padStart 6 CHR ''0'' (show_nat (n mod 1000000))"
  define d where "d = (if drop_zeros s = [] then ''00'' else padEnd 2 CHR ''0'' (drop_zeros s))"
  have "length s = 6" "list_all is_digit s" "digits_val 0 s = n mod 1000000"
    unfolding s_def by (rule six_places)+
  then have "d \<noteq> []" "list_all is_digit d" "length d \<le> 6" "digits_val 0 d * 10 ^ (6 - length d) = n mod 1000000"
    unfolding d_def using short_places [of s] by metis+
  moreover have "formatUsdcShort (int n) = show_nat (n div 1000000) @ ''.'' @ d"
    by (simp add: formatUsdcShort_def show_parts Let_def s_def d_def)
  ultimately show ?thesis
    using parse_decimal [of d "n div 1000000"] by (metis div_mult_mod_eq)
qed

lemma parse_format_nonneg:
  assumes "0 \<le> m"
  shows "parseUsdcMicros (UText (formatUsdc m)) = Inr m" "parseUsdcMicros (UText (formatUsdcShort m)) = Inr m"
  using assms parse_format [of "nat m"] parse_formatShort [of "nat m"] by simp_all

interpretation usdc_codec: codec formatUsdc
  "\<lambda>s. case parseUsdcMicros (UText s) of Inl _ \<Rightarrow> None | Inr m \<Rightarrow> Some m" "\<lambda>m. 0 \<le> m"
  by unfold_locales (simp add: parse_format_nonneg)

interpretation short_usdc_codec: codec formatUsdcShort
  "\<lambda>s. case parseUsdcMicros (UText s) of Inl _ \<Rightarrow> None | Inr m \<Rightarrow> Some m" "\<lambda>m. 0 \<le> m"
  by unfold_locales (simp add: parse_format_nonneg)

lemma numeric_cast_text:
  "usdc_match (usdc_raw (UText s)) = Some (whole, places) \<Longrightarrow>
   numeric_cast s = (case parseUsdcMicros (UText s) of
     Inl e \<Rightarrow> Inl e | Inr m \<Rightarrow> if numeric_range m then Inr m else Inl NUMERIC_OVERFLOW)"
proof -
  assume m: "usdc_match (usdc_raw (UText s)) = Some (whole, places)"
  then have "trim s \<noteq> []" "hd (trim s) \<noteq> CHR ''-''" "length places \<le> 6"
    by (cases whole; auto simp: usdc_match_iff usdc_raw_def is_digit_def code_def)+
  with m parse_match [OF m] show ?thesis
    by (simp add: numeric_cast_def usdc_raw_def Let_def digits_val_padEnd)
qed

lemma numeric_cast_of_parse:
  "parseUsdcMicros (UText s) = Inr m \<Longrightarrow>
   numeric_cast s = (if numeric_range m then Inr m else Inl NUMERIC_OVERFLOW)"
  by (elim parse_Inr) (simp add: numeric_cast_text parse_match)

lemmas numeric_cast_format = parse_format_nonneg [THEN numeric_cast_of_parse]

text \<open>A minus sign in front negates.\<close>

lemma numeric_cast_minus:
  assumes "parseUsdcMicros (UText s) = Inr m" "trim s = s"
  shows "numeric_cast (''-'' @ s) = (if numeric_range m then Inr (- m) else Inl NUMERIC_OVERFLOW)"
proof -
  from assms(1) obtain whole places where
    m: "usdc_match s = Some (whole, places)"
    and v: "m = int (digits_val 0 whole) * 1000000 + int (digits_val 0 places * 10 ^ (6 - length places))"
    by (rule parse_Inr) (simp add: usdc_raw_def assms(2))
  have "s \<noteq> []" using m by (auto simp: usdc_match_iff)
  have "is_digit (last s) \<or> last s = CHR ''.''"
    using m by (cases "places = []") (auto simp: usdc_match_iff list_all_iff)
  then have "\<not> is_space (last s)" by (auto dest: digit_not_space simp: is_space_def code_def)
  then have "trim (''-'' @ s) = ''-'' @ s"
    using \<open>s \<noteq> []\<close> by (intro trim_no_space) (simp_all add: is_space_def code_def)
  moreover have "length places \<le> 6" using m by (simp add: usdc_match_iff)
  ultimately show ?thesis
    using m v by (simp add: numeric_cast_def digits_val_padEnd Let_def numeric_range_def)
qed

lemma trim_format [simp]: "0 \<le> m \<Longrightarrow> trim (formatUsdc m) = formatUsdc m"
proof -
  assume "0 \<le> m"
  then obtain n where "m = int n" by (metis zero_le_imp_eq_int)
  moreover have "padStart 6 CHR ''0'' (show_nat (n mod 1000000)) \<noteq> []" using six_places(1) [of n] by force
  ultimately show ?thesis
    using decimal_raw [OF _ _ six_places(2), of "show_nat (n div 1000000)" n] by (simp add: formatUsdc_nat)
qed

lemma numeric_cast_numeric_text:
  "numeric_cast (numeric_text m) = (if numeric_range m then Inr m else Inl NUMERIC_OVERFLOW)"
proof (cases "m < 0")
  case True
  then show ?thesis
    using numeric_cast_minus [OF parse_format_nonneg(1) [of "- m"]] by (simp add: numeric_text_def numeric_range_def)
qed (simp add: numeric_text_def numeric_cast_format)

lemma parse_numeric_text [simp]: "0 \<le> m \<Longrightarrow> parseUsdcMicros (UText (numeric_text m)) = Inr m"
  by (simp add: numeric_text_def parse_format_nonneg)

text \<open>
  C33. Amounts survive every conversion. Either printed form of a number of millionths parses back
  to it, a value read from a numeric column and written again is the same value (or is out of
  the column's range), and reformatting a column for the API loses nothing.
\<close>

theorem usdc_roundtrip:
  "parseUsdcMicros (UText (formatUsdc (int n))) = Inr (int n) \<and>
   parseUsdcMicros (UText (formatUsdcShort (int n))) = Inr (int n) \<and>
   formatDbUsdc (numeric_text (int n)) = Inr (formatUsdcShort (int n)) \<and>
   numeric_cast (numeric_text m) = (if numeric_range m then Inr m else Inl NUMERIC_OVERFLOW)"
  by (simp add: parse_format parse_formatShort formatDbUsdc_def numeric_cast_numeric_text)

text \<open>
  C32. What \<open>parseUsdcMicros\<close> accepts, and its value. After trimming, the text is a non-empty run
  of digits, optionally followed by a point and at most six digits, and the result is exactly a
  million times the decimal it denotes: nothing is rounded, and signs, exponents and separators
  are refused.
\<close>

theorem usdc_parse_exact:
  "parseUsdcMicros (UText s) = Inr m \<longleftrightarrow>
   (\<exists>whole places.
      whole \<noteq> [] \<and> list_all is_digit whole \<and> list_all is_digit places \<and> length places \<le> 6 \<and>
      (trim s = whole \<and> places = [] \<or> trim s = whole @ ''.'' @ places) \<and>
      rat_of_int m = 1000000 * (of_nat (digits_val 0 whole) + of_nat (digits_val 0 places) / 10 ^ length places))"
  (is "?L \<longleftrightarrow> (\<exists>whole places. ?R whole places)")
proof -
  have val: "m = int (digits_val 0 w) * 1000000 + int (digits_val 0 p * 10 ^ (6 - length p)) \<longleftrightarrow>
      rat_of_int m = 1000000 * (of_nat (digits_val 0 w) + of_nat (digits_val 0 p) / 10 ^ length p)"
    if "length p \<le> 6" for w p
  proof -
    have "(10::rat) ^ (6 - length p) = 1000000 / 10 ^ length p"
      using power_diff [of "10::rat" "length p" 6] that by simp
    then have "rat_of_int (int (digits_val 0 w) * 1000000 + int (digits_val 0 p * 10 ^ (6 - length p))) =
        1000000 * (of_nat (digits_val 0 w) + of_nat (digits_val 0 p) / 10 ^ length p)"
      by (simp add: algebra_simps)
    then show ?thesis by (metis of_int_eq_iff)
  qed
  have "?L \<longleftrightarrow> (\<exists>w p. usdc_match (trim s) = Some (w, p) \<and>
      m = int (digits_val 0 w) * 1000000 + int (digits_val 0 p * 10 ^ (6 - length p)))"
    using parse_match [of "UText s"] by (auto elim!: parse_Inr simp: usdc_raw_def)
  then show ?thesis using val by (simp add: usdc_match_iff) blast
qed

end
