(* ===== verification/X402Quote.thy ===== *)
theory X402Quote
  imports Store Redaction Usdc
begin

text \<open>
  Reading an x402 payment offer, \<open>apps/api/src/engines/payments/store.ts\<close> lines 350 to 975: the
  chains, rails and networks the product supports, the USDC contract of each chain and mode, the
  amount of an offer, and the selection of a quote among the offers a paid resource makes.
\<close>

section \<open>Chains, rails and modes\<close>

datatype payment_mode = Test | Live

datatype payment_chain = Base | Arbitrum | Polygon | Optimism | Avalanche | Arc

datatype settlement_kind = DirectExact | Gateway

datatype payment_rail = GatewayRail payment_chain | ExactRail payment_chain

fun mode_name :: "payment_mode \<Rightarrow> string" where
  "mode_name Test = ''test''"
| "mode_name Live = ''live''"

fun chain_name :: "payment_chain \<Rightarrow> string" where
  "chain_name Base = ''base''"
| "chain_name Arbitrum = ''arbitrum''"
| "chain_name Polygon = ''polygon''"
| "chain_name Optimism = ''optimism''"
| "chain_name Avalanche = ''avalanche''"
| "chain_name Arc = ''arc''"

fun rail_name :: "payment_rail \<Rightarrow> string" where
  "rail_name (GatewayRail c) = ''gateway_'' @ chain_name c"
| "rail_name (ExactRail c) = ''exact_'' @ chain_name c"

definition all_chains :: "payment_chain list" where
  "all_chains = [Base, Arbitrum, Polygon, Optimism, Avalanche, Arc]"

definition all_rails :: "payment_rail list" where
  "all_rails = map GatewayRail all_chains @ map ExactRail all_chains"

definition normalizeRail :: "string \<Rightarrow> app_error + payment_rail" where
  "normalizeRail input =
     (case find (\<lambda>r. rail_name r = input) all_rails of
        Some r \<Rightarrow> Inr r
      | None \<Rightarrow> Inl (badRequest ''unsupported_payment_rail'' ''Payment rail is not supported.''))"

definition normalizeChain :: "string \<Rightarrow> app_error + payment_chain" where
  "normalizeChain input =
     (case find (\<lambda>c. chain_name c = input) all_chains of
        Some c \<Rightarrow> Inr c
      | None \<Rightarrow> Inl (badRequest ''unsupported_payment_chain''
                  ''Section 9 supports Base, Arbitrum, Polygon, Optimism, Avalanche, and Arc.''))"

fun railKind :: "payment_rail \<Rightarrow> settlement_kind" where
  "railKind (GatewayRail c) = Gateway"
| "railKind (ExactRail c) = DirectExact"

definition gatewayRailForChain :: "payment_chain \<Rightarrow> app_error + payment_rail" where
  "gatewayRailForChain chain = normalizeRail (''gateway_'' @ chain_name chain)"

definition exactRailForChain :: "payment_chain \<Rightarrow> app_error + payment_rail" where
  "exactRailForChain chain = normalizeRail (''exact_'' @ chain_name chain)"

text \<open>\<open>rail.replace(/^gateway_/, '').replace(/^exact_/, '')\<close>.\<close>

definition strip_prefix :: "string \<Rightarrow> string \<Rightarrow> string" where
  "strip_prefix p s = (if starts_with p s then drop (length p) s else s)"

definition chainFromRail :: "payment_rail \<Rightarrow> app_error + payment_chain" where
  "chainFromRail rail = normalizeChain (strip_prefix ''exact_'' (strip_prefix ''gateway_'' (rail_name rail)))"

section \<open>Values of an offer\<close>

definition objectFromJson :: "jsval \<Rightarrow> obj" where
  "objectFromJson v = (case as_object v of Some o' \<Rightarrow> o' | None \<Rightarrow> [])"

definition stringValue :: "jsval \<Rightarrow> string option" where
  "stringValue v = (case v of VStr s \<Rightarrow> if trim s \<noteq> [] then Some (trim s) else None | _ \<Rightarrow> None)"

record x402_accept =
  ac_scheme :: string
  ac_network :: string
  ac_asset :: jsval
  ac_amount :: "usdc_text option"
  ac_maxAmountRequired :: "usdc_text option"
  ac_payTo :: jsval
  ac_extra :: "obj option"

definition accept_extra :: "x402_accept \<Rightarrow> obj" where
  "accept_extra accept = (case ac_extra accept of Some o' \<Rightarrow> o' | None \<Rightarrow> [])"

record x402_input =
  xi_resource :: "obj option"
  xi_accepts :: "x402_accept list"
  xi_context :: "obj option"

record x402_resource =
  xr_url :: "string option"
  xr_category :: "string option"
  xr_domain :: "string option"

definition domainFromUrl :: "env \<Rightarrow> string option \<Rightarrow> string option" where
  "domainFromUrl E url = (case url of None \<Rightarrow> None | Some u \<Rightarrow> env_hostname E u)"

definition x402Resource :: "env \<Rightarrow> x402_input \<Rightarrow> x402_resource" where
  "x402Resource E input =
     (let resource = (case xi_resource input of Some o' \<Rightarrow> o' | None \<Rightarrow> []);
          url = stringValue (get_prop resource ''url'')
      in \<lparr>xr_url = url, xr_category = stringValue (get_prop resource ''category''),
          xr_domain = (case domainFromUrl E url of Some d \<Rightarrow> Some d
                       | None \<Rightarrow> stringValue (get_prop resource ''domain''))\<rparr>)"

definition gatewayMarker :: "x402_accept \<Rightarrow> bool" where
  "gatewayMarker accept =
     (let extra = accept_extra accept
      in stringValue (get_prop extra ''name'') = Some ''GatewayWalletBatched'' \<or>
         stringValue (get_prop extra ''paymentMethod'') = Some ''circle_gateway'' \<or>
         get_prop extra ''gateway'' = VBool True)"

section \<open>Networks and contracts\<close>

fun TEST_GATEWAY_NETWORKS :: "payment_chain \<Rightarrow> string" where
  "TEST_GATEWAY_NETWORKS Arbitrum = ''eip155:421614''"
| "TEST_GATEWAY_NETWORKS Avalanche = ''eip155:43113''"
| "TEST_GATEWAY_NETWORKS Base = ''eip155:84532''"
| "TEST_GATEWAY_NETWORKS Optimism = ''eip155:11155420''"
| "TEST_GATEWAY_NETWORKS Polygon = ''eip155:80002''"
| "TEST_GATEWAY_NETWORKS Arc = ''eip155:5042002''"

fun LIVE_GATEWAY_NETWORKS :: "payment_chain \<Rightarrow> string" where
  "LIVE_GATEWAY_NETWORKS Arbitrum = ''eip155:42161''"
| "LIVE_GATEWAY_NETWORKS Avalanche = ''eip155:43114''"
| "LIVE_GATEWAY_NETWORKS Base = ''eip155:8453''"
| "LIVE_GATEWAY_NETWORKS Optimism = ''eip155:10''"
| "LIVE_GATEWAY_NETWORKS Polygon = ''eip155:137''"
| "LIVE_GATEWAY_NETWORKS Arc = ''eip155:0''"

fun TEST_GATEWAY_USDC :: "payment_chain \<Rightarrow> string" where
  "TEST_GATEWAY_USDC Arbitrum = ''0x75faf114eafb1bdbe2f0316DF893fd58CE46AA4d''"
| "TEST_GATEWAY_USDC Avalanche = ''0x5425890298aed601595a70AB815c96711a31Bc65''"
| "TEST_GATEWAY_USDC Base = ''0x036CbD53842c5426634e7929541eC2318f3dCF7e''"
| "TEST_GATEWAY_USDC Optimism = ''0x5fd84259d66Cd46123540766Be93DFE6D43130D7''"
| "TEST_GATEWAY_USDC Polygon = ''0x41E94Eb019C0762f9Bfcf9Fb1E58725BfB0e7582''"
| "TEST_GATEWAY_USDC Arc = ''0x3600000000000000000000000000000000000000''"

fun LIVE_GATEWAY_USDC :: "payment_chain \<Rightarrow> string" where
  "LIVE_GATEWAY_USDC Arbitrum = ''0xaf88d065e77c8cC2239327C5EDb3A432268e5831''"
| "LIVE_GATEWAY_USDC Avalanche = ''0xB97EF9Ef8734C71904D8002F8b6Bc66Dd9c48a6E''"
| "LIVE_GATEWAY_USDC Base = ''0x833589fCD6eDb6E08f4c7C32D4f71b54bdA02913''"
| "LIVE_GATEWAY_USDC Optimism = ''0x0b2C639c533813f4Aa9D7837CAf62653d097Ff85''"
| "LIVE_GATEWAY_USDC Polygon = ''0x3c499c542cef5e3811e1192ce70d8cc03d5c3359''"
| "LIVE_GATEWAY_USDC Arc = ''0x0000000000000000000000000000000000000000''"

text \<open>The names \<open>networkToChain\<close> recognises for each chain, in the order of its tests.\<close>

fun chain_networks :: "payment_chain \<Rightarrow> string list" where
  "chain_networks Base = [''base'', ''base-sepolia'', ''eip155:84532'', ''eip155:8453'']"
| "chain_networks Arbitrum = [''arbitrum'', ''arbitrum-sepolia'', ''arb-sepolia'', ''eip155:421614'', ''eip155:42161'']"
| "chain_networks Polygon = [''polygon'', ''polygon-amoy'', ''matic-amoy'', ''eip155:80002'', ''eip155:137'']"
| "chain_networks Optimism = [''optimism'', ''op-sepolia'', ''eip155:11155420'', ''eip155:10'']"
| "chain_networks Avalanche = [''avalanche'', ''avalanche-fuji'', ''avax-fuji'', ''eip155:43113'', ''eip155:43114'']"
| "chain_networks Arc = [''arc'', ''arc-testnet'', ''eip155:5042002'']"

definition networkToChain :: "string \<Rightarrow> payment_chain option" where
  "networkToChain network =
     (let normalized = toLowerCase (trim network)
      in find (\<lambda>c. normalized \<in> set (chain_networks c)) all_chains)"

definition assertNotLiveArc :: "payment_chain \<Rightarrow> payment_mode \<Rightarrow> app_error + unit" where
  "assertNotLiveArc chain mode =
     guardE (\<not> (chain = Arc \<and> mode = Live)) (badRequest ''arc_mainnet_not_supported'' ''Arc mainnet is not supported.'')"

definition gatewayNetworkForMode :: "payment_chain \<Rightarrow> payment_mode \<Rightarrow> app_error + string" where
  "gatewayNetworkForMode chain mode =
     bindE (assertNotLiveArc chain mode) (\<lambda>_.
     Inr (if mode = Test then TEST_GATEWAY_NETWORKS chain else LIVE_GATEWAY_NETWORKS chain))"

definition gatewayUsdcForMode :: "payment_chain \<Rightarrow> payment_mode \<Rightarrow> app_error + string" where
  "gatewayUsdcForMode chain mode =
     bindE (assertNotLiveArc chain mode) (\<lambda>_.
     Inr (if mode = Test then TEST_GATEWAY_USDC chain else LIVE_GATEWAY_USDC chain))"

fun testAliases :: "payment_chain \<Rightarrow> string list" where
  "testAliases Arbitrum = [''arbitrum-sepolia'', ''arb-sepolia'']"
| "testAliases Avalanche = [''avalanche-fuji'', ''avax-fuji'']"
| "testAliases Base = [''base-sepolia'']"
| "testAliases Optimism = [''op-sepolia'']"
| "testAliases Polygon = [''polygon-amoy'', ''matic-amoy'']"
| "testAliases Arc = [''arc-testnet'']"

definition networkMatchesMode :: "string \<Rightarrow> payment_chain \<Rightarrow> payment_mode \<Rightarrow> app_error + bool" where
  "networkMatchesMode network chain mode =
     (let normalized = toLowerCase (trim network)
      in bindE (gatewayNetworkForMode chain mode) (\<lambda>network'.
         let expected = toLowerCase network'
         in Inr (if starts_with ''eip155:'' normalized then normalized = expected
                 else if normalized = chain_name chain then True
                 else if mode = Live then False
                 else normalized \<in> set (testAliases chain))))"

definition canonicalUsdcAsset :: "string option \<Rightarrow> payment_chain \<Rightarrow> payment_mode \<Rightarrow> app_error + string option" where
  "canonicalUsdcAsset asset chain mode =
     bindE (gatewayUsdcForMode chain mode) (\<lambda>expected.
     Inr (case asset of
            None \<Rightarrow> Some expected
          | Some a \<Rightarrow>
              if toLowerCase a = ''usdc'' then Some expected
              else if toLowerCase a = toLowerCase expected then Some expected else None))"

section \<open>The amount of an offer\<close>

definition x402AtomicNetwork :: "string \<Rightarrow> bool" where
  "x402AtomicNetwork network =
     (let normalized = toLowerCase (trim network)
      in starts_with ''eip155:'' normalized \<or> includes_text normalized ''-sepolia'' \<or>
         includes_text normalized ''-amoy'' \<or> includes_text normalized ''-fuji'')"

definition x402UsdcMicrosFromAccept :: "x402_accept \<Rightarrow> app_error + int" where
  "x402UsdcMicrosFromAccept accept =
     (case ac_maxAmountRequired accept of
        Some m \<Rightarrow> atomicAmountToMicros m ''maxAmountRequired''
      | None \<Rightarrow>
          (case ac_amount accept of
             None \<Rightarrow> Inl (badRequest ''payment_amount_required'' ''x402 accept entry must include amount.'')
           | Some amount \<Rightarrow>
               (let raw = usdc_raw amount
                in if CHR ''.'' \<notin> set raw \<and> x402AtomicNetwork (ac_network accept)
                   then atomicAmountToMicros (UText raw) ''amount''
                   else bindE (parseUsdcMicros (UText raw)) (\<lambda>micros.
                        if micros \<le> 0
                        then Inl (badRequest ''invalid_usdc_amount'' ''Payment amount must be greater than zero.'')
                        else Inr micros))))"

section \<open>Quotes\<close>

record x402_requirements =
  rq_amount :: string
  rq_asset :: string
  rq_extra :: obj
  rq_network :: string
  rq_payTo :: string

record runtime_quote =
  qt_accept :: x402_accept
  qt_amount :: string
  qt_amountMicros :: int
  qt_chain :: payment_chain
  qt_rail :: payment_rail
  qt_recipient :: string
  qt_settlementKind :: settlement_kind
  qt_x402Amount :: string
  qt_x402Network :: string
  qt_requirements :: x402_requirements

definition normalizedPaymentNetwork :: "x402_accept \<Rightarrow> payment_chain \<Rightarrow> payment_mode \<Rightarrow> app_error + string" where
  "normalizedPaymentNetwork accept chain mode =
     (if starts_with ''eip155:'' (toLowerCase (trim (ac_network accept))) then Inr (ac_network accept)
      else gatewayNetworkForMode chain mode)"

definition exactExtra :: "x402_accept \<Rightarrow> obj" where
  "exactExtra accept = spread [(''name'', VStr ''USDC''), (''version'', VStr ''2'')] (accept_extra accept)"

definition gatewayExtra :: "x402_accept \<Rightarrow> payment_mode \<Rightarrow> obj" where
  "gatewayExtra accept mode =
     spread (accept_extra accept)
       [(''name'', VStr ''GatewayWalletBatched''),
        (''verifyingContract'', VStr
           (case stringValue (get_prop (accept_extra accept) ''verifyingContract'') of
              Some c \<Rightarrow> c
            | None \<Rightarrow> if mode = Test then ''0x0077777d7EBA4688BDeF3E311b846F25870A19B9''
                      else ''0x77777777Dcc4d5A8B6E418Fd04D8997ef11000eE'')),
        (''version'', VStr ''1'')]"

text \<open>
  \<open>null\<close> (here \<open>Inr None\<close>) when the offer is not one the product can pay; an amount that does not
  parse throws. \<open>maxTimeoutSeconds\<close>, which is only handed on to the provider, is left out.
\<close>

definition quoteFromAccept :: "x402_accept \<Rightarrow> payment_mode \<Rightarrow> app_error + runtime_quote option" where
  "quoteFromAccept accept mode =
     (if ac_scheme accept \<noteq> ''exact'' then Inr None
      else case networkToChain (ac_network accept) of
        None \<Rightarrow> Inr None
      | Some chain \<Rightarrow>
          if chain = Arc \<and> mode = Live then Inr None
          else bindE (networkMatchesMode (ac_network accept) chain mode) (\<lambda>matches.
            if \<not> matches then Inr None
            else bindE (canonicalUsdcAsset (stringValue (ac_asset accept)) chain mode) (\<lambda>assetAddress.
              case assetAddress of
                None \<Rightarrow> Inr None
              | Some asset \<Rightarrow>
                  bindE (x402UsdcMicrosFromAccept accept) (\<lambda>amountMicros.
                  case stringValue (ac_payTo accept) of
                    None \<Rightarrow> Inr None
                  | Some recipient \<Rightarrow>
                      (let kind = (if gatewayMarker accept then Gateway else DirectExact)
                       in bindE (if kind = Gateway then gatewayNetworkForMode chain mode
                                 else normalizedPaymentNetwork accept chain mode) (\<lambda>x402Network.
                          bindE (if kind = Gateway then gatewayRailForChain chain
                                 else exactRailForChain chain) (\<lambda>rail.
                          Inr (Some \<lparr>qt_accept = accept, qt_amount = formatUsdcShort amountMicros,
                            qt_amountMicros = amountMicros, qt_chain = chain, qt_rail = rail,
                            qt_recipient = recipient, qt_settlementKind = kind,
                            qt_x402Amount = show_int amountMicros, qt_x402Network = x402Network,
                            qt_requirements = \<lparr>rq_amount = show_int amountMicros, rq_asset = asset,
                              rq_extra = (if kind = Gateway then gatewayExtra accept mode else exactExtra accept),
                              rq_network = x402Network, rq_payTo = recipient\<rparr>\<rparr>))))))))"

fun supportedRuntimeQuotes :: "x402_accept list \<Rightarrow> payment_mode \<Rightarrow> app_error + runtime_quote list" where
  "supportedRuntimeQuotes [] mode = Inr []"
| "supportedRuntimeQuotes (accept # accepts) mode =
     bindE (quoteFromAccept accept mode) (\<lambda>quote.
     bindE (supportedRuntimeQuotes accepts mode) (\<lambda>quotes.
     Inr (case quote of Some q \<Rightarrow> q # quotes | None \<Rightarrow> quotes)))"

definition selectRuntimeQuote ::
  "x402_accept list \<Rightarrow> payment_mode \<Rightarrow> payment_rail list \<Rightarrow> app_error + runtime_quote option" where
  "selectRuntimeQuote accepts mode allowedRails =
     bindE (supportedRuntimeQuotes accepts mode) (\<lambda>quotes.
     Inr (find (\<lambda>q. qt_rail q \<in> set allowedRails) quotes))"

section \<open>What a quote guarantees\<close>

lemma chain_name_inj [simp]: "chain_name c = chain_name c' \<longleftrightarrow> c = c'"
  by (cases c; cases c') simp_all

lemma rail_name_inj: "rail_name r = rail_name r' \<Longrightarrow> r = r'"
  by (cases r; cases r') simp_all

lemma all_rails_complete: "r \<in> set all_rails"
proof -
  have "c \<in> set all_chains" for c by (cases c) (simp_all add: all_chains_def)
  then show ?thesis by (cases r) (simp_all add: all_rails_def)
qed

lemma find_unique:
  assumes "x \<in> set xs" "P x" "\<And>y. P y \<Longrightarrow> y = x"
  shows "find P xs = Some x"
proof (cases "find P xs")
  case None
  with assms(1,2) show ?thesis by (simp add: find_None_iff)
next
  case (Some y)
  then have "P y" by (auto simp: find_Some_iff)
  with assms(3) Some show ?thesis by blast
qed

lemma normalizeRail_name: "normalizeRail (rail_name r) = Inr r"
  using find_unique [of r all_rails "\<lambda>x. rail_name x = rail_name r"]
  by (simp add: normalizeRail_def all_rails_complete rail_name_inj)

lemma railForChain [simp]:
  "gatewayRailForChain c = Inr (GatewayRail c)" "exactRailForChain c = Inr (ExactRail c)"
  using normalizeRail_name [of "GatewayRail c"] normalizeRail_name [of "ExactRail c"]
  by (simp_all add: gatewayRailForChain_def exactRailForChain_def)

lemma chainFromRail_simp [simp]:
  "chainFromRail (GatewayRail c) = Inr c" "chainFromRail (ExactRail c) = Inr c"
  by (cases c; simp add: chainFromRail_def strip_prefix_def starts_with_def normalizeChain_def all_chains_def)+

lemma forMode_simp:
  "\<not> (chain = Arc \<and> mode = Live) \<Longrightarrow> gatewayNetworkForMode chain mode =
     Inr (if mode = Test then TEST_GATEWAY_NETWORKS chain else LIVE_GATEWAY_NETWORKS chain)"
  "\<not> (chain = Arc \<and> mode = Live) \<Longrightarrow> gatewayUsdcForMode chain mode =
     Inr (if mode = Test then TEST_GATEWAY_USDC chain else LIVE_GATEWAY_USDC chain)"
  by (auto simp: gatewayNetworkForMode_def gatewayUsdcForMode_def assertNotLiveArc_def guardE_def)

lemma atomic_positive: "atomicAmountToMicros v f = Inr m \<Longrightarrow> 0 < m"
  by (auto simp: atomicAmountToMicros_def split: option.splits if_splits)

lemma amount_positive: "x402UsdcMicrosFromAccept a = Inr m \<Longrightarrow> 0 < m"
  by (auto simp: x402UsdcMicrosFromAccept_def Let_def bindE_Inr dest: atomic_positive split: option.splits if_splits)

text \<open>
  A quote as the selection returns it: a positive amount, printed so that it reads back as the
  same amount, in the USDC contract of a chain that exists in this mode, on the rail and network
  of that chain, to the recipient the offer names.
\<close>

definition quote_ok :: "payment_mode \<Rightarrow> runtime_quote \<Rightarrow> bool" where
  "quote_ok mode q \<longleftrightarrow>
     0 < qt_amountMicros q \<and>
     parseUsdcMicros (UText (qt_amount q)) = Inr (qt_amountMicros q) \<and>
     parse_nat (qt_x402Amount q) = Some (nat (qt_amountMicros q)) \<and>
     rq_amount (qt_requirements q) = qt_x402Amount q \<and>
     \<not> (qt_chain q = Arc \<and> mode = Live) \<and>
     gatewayUsdcForMode (qt_chain q) mode = Inr (rq_asset (qt_requirements q)) \<and>
     chainFromRail (qt_rail q) = Inr (qt_chain q) \<and>
     railKind (qt_rail q) = qt_settlementKind q \<and>
     rq_network (qt_requirements q) = qt_x402Network q \<and>
     (case gatewayNetworkForMode (qt_chain q) mode of
        Inl e \<Rightarrow> False
      | Inr network \<Rightarrow> toLowerCase (trim (qt_x402Network q)) = toLowerCase (trim network)) \<and>
     rq_payTo (qt_requirements q) = qt_recipient q \<and>
     stringValue (ac_payTo (qt_accept q)) = Some (qt_recipient q)"

lemma canonical_asset:
  "canonicalUsdcAsset a chain mode = Inr (Some asset) \<Longrightarrow> gatewayUsdcForMode chain mode = Inr asset"
  by (auto simp: canonicalUsdcAsset_def bindE_Inr split: option.splits if_splits)

lemma parse_show_int: "0 < m \<Longrightarrow> parse_nat (show_int m) = Some (nat m)"
  by (simp add: show_int_def parse_show_nat)

lemma network_trimmed: "trim (if mode = Test then TEST_GATEWAY_NETWORKS chain else LIVE_GATEWAY_NETWORKS chain) =
    (if mode = Test then TEST_GATEWAY_NETWORKS chain else LIVE_GATEWAY_NETWORKS chain)"
  by (cases chain; cases mode; simp add: trim_def is_space_def code_def)

lemma quoteFromAccept_ok:
  assumes "quoteFromAccept accept mode = Inr (Some q)"
  shows "quote_ok mode q \<and> qt_accept q = accept \<and> ac_scheme accept = ''exact''"
proof -
  from assms obtain chain where exact: "ac_scheme accept = ''exact''"
    and chain: "networkToChain (ac_network accept) = Some chain" and live: "\<not> (chain = Arc \<and> mode = Live)"
    by (auto simp: quoteFromAccept_def split: if_splits option.splits)
  define net where "net = (if mode = Test then TEST_GATEWAY_NETWORKS chain else LIVE_GATEWAY_NETWORKS chain)"
  have net: "gatewayNetworkForMode chain mode = Inr net" unfolding net_def by (rule forMode_simp(1) [OF live])
  have trim_net: "trim net = net" unfolding net_def by (rule network_trimmed)
  from assms exact chain live obtain asset micros recipient where
    m: "networkMatchesMode (ac_network accept) chain mode = Inr True"
    and asset: "canonicalUsdcAsset (stringValue (ac_asset accept)) chain mode = Inr (Some asset)"
    and micros: "x402UsdcMicrosFromAccept accept = Inr micros"
    and recipient: "stringValue (ac_payTo accept) = Some recipient"
    by (auto simp: quoteFromAccept_def bindE_Inr split: if_splits option.splits)
  have same: "toLowerCase (trim (ac_network accept)) = toLowerCase net"
    if "starts_with ''eip155:'' (toLowerCase (trim (ac_network accept)))"
    using m that by (simp add: networkMatchesMode_def net Let_def)
  show ?thesis
    using assms exact chain live m asset micros recipient net trim_net same
      amount_positive [OF micros] canonical_asset [OF asset]
    by (auto simp: quoteFromAccept_def quote_ok_def Let_def parse_format_nonneg parse_show_int normalizedPaymentNetwork_def
        split: if_splits)
qed

lemma supported_quotes:
  "supportedRuntimeQuotes accepts mode = Inr quotes \<Longrightarrow>
   (\<forall>q \<in> set quotes. quote_ok mode q \<and> qt_accept q \<in> set accepts \<and> ac_scheme (qt_accept q) = ''exact'')"
proof (induction accepts arbitrary: quotes)
  case (Cons a accepts)
  then obtain quote quotes' where q: "quoteFromAccept a mode = Inr quote"
    and rest: "supportedRuntimeQuotes accepts mode = Inr quotes'"
    and qs: "quotes = (case quote of Some q \<Rightarrow> q # quotes' | None \<Rightarrow> quotes')"
    by (auto simp: bindE_Inr)
  have IH: "\<forall>q \<in> set quotes'. quote_ok mode q \<and> qt_accept q \<in> set accepts \<and> ac_scheme (qt_accept q) = ''exact''"
    by (rule Cons.IH [OF rest])
  show ?case
  proof (cases quote)
    case None
    with IH qs show ?thesis by simp
  next
    case (Some x)
    with quoteFromAccept_ok [OF q [unfolded Some]] IH qs show ?thesis by simp
  qed
qed simp


section \<open>Offers that do not parse\<close>

definition offer :: "string \<Rightarrow> x402_accept" where
  "offer amount = \<lparr>ac_scheme = ''exact'', ac_network = ''base'', ac_asset = VUndef, ac_amount = Some (UText amount),
     ac_maxAmountRequired = None, ac_payTo = VStr ''0xpayee'', ac_extra = None\<rparr>"

lemmas offer_eval = offer_def quoteFromAccept_def networkToChain_def all_chains_def networkMatchesMode_def
  canonicalUsdcAsset_def gatewayNetworkForMode_def gatewayUsdcForMode_def assertNotLiveArc_def guardE_def
  x402UsdcMicrosFromAccept_def x402AtomicNetwork_def stringValue_def gatewayMarker_def accept_extra_def
  normalizedPaymentNetwork_def starts_with_def toLowerCase_def lower_char_def usdc_raw_def trim_def is_space_def
  parseUsdcMicros_def usdc_match_def digit_span_def is_digit_def digit_val_def padEnd_def code_def Let_def

text \<open>
  Selection is all or nothing: quotes are returned only when every offer parses, and then they
  are exactly the payable ones in the order offered; a single offer with an unreadable amount
  makes the whole selection throw, also when another offer could be paid.
\<close>

theorem selection_all_or_nothing:
  "(case supportedRuntimeQuotes accepts mode of
      Inr quotes \<Rightarrow> list_all (\<lambda>a. \<exists>q. quoteFromAccept a mode = Inr q) accepts \<and>
        quotes = List.map_filter (\<lambda>a. case quoteFromAccept a mode of Inr q \<Rightarrow> q | Inl e \<Rightarrow> None) accepts
    | Inl e \<Rightarrow> list_ex (\<lambda>a. quoteFromAccept a mode = Inl e) accepts) \<and>
   map_sum id (map qt_amountMicros) (supportedRuntimeQuotes [offer ''1.500000''] Test) = Inr [1500000] \<and>
   supportedRuntimeQuotes [offer ''1.500000'', offer ''a lot''] Test = Inl INVALID_AMOUNT"
proof (intro conjI)
  show "case supportedRuntimeQuotes accepts mode of
      Inr quotes \<Rightarrow> list_all (\<lambda>a. \<exists>q. quoteFromAccept a mode = Inr q) accepts \<and>
        quotes = List.map_filter (\<lambda>a. case quoteFromAccept a mode of Inr q \<Rightarrow> q | Inl e \<Rightarrow> None) accepts
    | Inl e \<Rightarrow> list_ex (\<lambda>a. quoteFromAccept a mode = Inl e) accepts"
  proof (induction accepts)
    case (Cons a accepts)
    show ?case
    proof (cases "quoteFromAccept a mode")
      case (Inr q)
      with Cons.IH show ?thesis
        by (cases "supportedRuntimeQuotes accepts mode"; cases q) (simp_all add: map_filter_simps)
    qed simp
  qed (simp add: map_filter_simps)
  show "map_sum id (map qt_amountMicros) (supportedRuntimeQuotes [offer ''1.500000''] Test) = Inr [1500000]"
    by (simp add: offer_eval)
  show "supportedRuntimeQuotes [offer ''1.500000'', offer ''a lot''] Test = Inl INVALID_AMOUNT"
    by (simp add: offer_eval)
qed

end
