(* ===== verification/Ledger.thy ===== *)
theory Ledger
  imports Approvals X402Quote
begin

text \<open>
  The append-only ledger of payments/ledger.ts over the table of migration 0034: postings are only
  ever inserted, a correction is a posting of the opposite amount that names the one it offsets,
  and the amount an agent has spent is derived by summation. Two conversions go through a double,
  \<open>Number(text).toFixed(6)\<close>; the theory proves for which amounts they are exact.
\<close>

section \<open>Tables\<close>

datatype entry_type = EReserve | ERelease | ESettle | ETopup | ESweep | EDeposit | ECorrection

datatype reservation_status = RsReserved | RsSettled | RsReleased | RsFailed

record reservation_row =
  rs_id :: string
  rs_org_id :: string
  rs_agent_id :: string
  rs_connection_id :: "string option"
  rs_source_id :: string
  rs_amount :: int
  rs_asset :: string
  rs_rail :: payment_rail
  rs_status :: reservation_status
  rs_reason_code :: string
  rs_quote_hash :: string
  rs_quote :: obj
  rs_expires_at :: int
  rs_created_at :: int

record posting_row =
  po_id :: string
  po_org_id :: string
  po_agent_id :: "string option"
  po_mode :: payment_mode
  po_chain :: "payment_chain option"
  po_entry_type :: entry_type
  po_amount :: int
  po_reservation_id :: "string option"
  po_attempt_id :: "string option"
  po_job_id :: "string option"
  po_corrects :: "string option"
  po_reason_code :: string
  po_created_by :: string
  po_created_at :: int

record ledger_db = approvals_db +
  payment_reservations :: "reservation_row list"
  ledger_postings :: "posting_row list"

section \<open>Writing postings\<close>

record posting_input =
  wi_orgId :: string
  wi_agentId :: "string option"
  wi_mode :: payment_mode
  wi_chain :: "payment_chain option"
  wi_entryType :: entry_type
  wi_amountUsdc :: string
  wi_reservationId :: "string option"
  wi_attemptId :: "string option"
  wi_jobId :: "string option"
  wi_reasonCode :: string
  wi_createdBy :: string

text \<open>The constraints of the table: primary key, foreign keys, and at least one cause.\<close>

definition insert_posting :: "posting_row \<Rightarrow> ('a ledger_db_scheme, unit) op" where
  "insert_posting p =
     bindM (query (\<lambda>s. list_ex (\<lambda>q. po_id q = po_id p) (ledger_postings s))) (\<lambda>dup.
     bindM (guardM (\<not> dup) (PgUniqueViolation ''ledger_postings_pkey'')) (\<lambda>_.
     bindM (query (\<lambda>s. find_org (po_org_id p) s \<noteq> None \<and> fk_ok ag_id (po_agent_id p) (agents s) \<and>
              fk_ok rs_id (po_reservation_id p) (payment_reservations s) \<and>
              fk_ok po_id (po_corrects p) (ledger_postings s))) (\<lambda>known.
     bindM (guardM known (PgForeignKeyViolation ''ledger_postings'')) (\<lambda>_.
     bindM (guardM (po_reservation_id p \<noteq> None \<or> po_attempt_id p \<noteq> None \<or> po_job_id p \<noteq> None \<or> po_corrects p \<noteq> None)
       (PgCheckViolation ''ledger_postings_check'')) (\<lambda>_.
     modify (\<lambda>s. s\<lparr>ledger_postings := ledger_postings s @ [p]\<rparr>))))))"

definition writePosting :: "env \<Rightarrow> posting_input \<Rightarrow> ('a ledger_db_scheme, posting_row) op" where
  "writePosting E input =
     bindM (prefixedId E ''post'') (\<lambda>i.
     bindM now (\<lambda>t.
     bindM (liftE (numeric_cast (wi_amountUsdc input))) (\<lambda>amount.
     let row = \<lparr>po_id = i, po_org_id = wi_orgId input, po_agent_id = wi_agentId input, po_mode = wi_mode input,
                po_chain = wi_chain input, po_entry_type = wi_entryType input, po_amount = amount,
                po_reservation_id = wi_reservationId input, po_attempt_id = wi_attemptId input,
                po_job_id = wi_jobId input, po_corrects = None, po_reason_code = wi_reasonCode input,
                po_created_by = wi_createdBy input, po_created_at = t\<rparr>
     in bindM (insert_posting row) (\<lambda>_. ret row))))"

text \<open>
  \<open>x.toFixed(6)\<close> below \<open>10 ^ 21\<close>: the sign, then the nearest multiple of a millionth, the larger
  one on a tie.
\<close>

definition toFixed6 :: "jsnum \<Rightarrow> string" where
  "toFixed6 x =
     (case x of
        Fin r \<Rightarrow> if 10 ^ 21 \<le> \<bar>r\<bar> then show_num x
                 else if r < 0 then ''-'' @ formatUsdc \<lfloor>- r * 1000000 + 1 / 2\<rfloor>
                 else formatUsdc \<lfloor>r * 1000000 + 1 / 2\<rfloor>
      | _ \<Rightarrow> show_num x)"

definition find_posting :: "string \<Rightarrow> ('a ledger_db_scheme) \<Rightarrow> posting_row option" where
  "find_posting i s = find_row (\<lambda>p. po_id p = i) (ledger_postings s)"

definition offsetAmount :: "posting_row \<Rightarrow> string" where
  "offsetAmount p = toFixed6 (num_neg (to_number (numeric_text (po_amount p))))"

definition correctPosting ::
  "env \<Rightarrow> string \<Rightarrow> string \<Rightarrow> string option \<Rightarrow> ('a ledger_db_scheme, posting_row) op" where
  "correctPosting E postingId reason createdBy =
     bindM (query (find_posting postingId)) (\<lambda>original.
     case original of
       None \<Rightarrow> throw (JsError ''ledger_posting_not_found'')
     | Some row \<Rightarrow>
         bindM (prefixedId E ''post'') (\<lambda>i.
         bindM now (\<lambda>t.
         bindM (liftE (numeric_cast (offsetAmount row))) (\<lambda>amount.
         let correction = \<lparr>po_id = i, po_org_id = po_org_id row, po_agent_id = po_agent_id row, po_mode = po_mode row,
                po_chain = po_chain row, po_entry_type = ECorrection, po_amount = amount,
                po_reservation_id = None, po_attempt_id = None, po_job_id = None, po_corrects = Some postingId,
                po_reason_code = reason, po_created_by = or_else createdBy ''system'', po_created_at = t\<rparr>
         in bindM (insert_posting correction) (\<lambda>_. ret correction)))))"

text \<open>The postings that count as spent: settlements, and corrections of settlements.\<close>

definition spent_posting :: "posting_row list \<Rightarrow> string \<Rightarrow> string \<Rightarrow> payment_mode \<Rightarrow> posting_row \<Rightarrow> bool" where
  "spent_posting all orgId agentId mode p \<longleftrightarrow>
     po_org_id p = orgId \<and> po_agent_id p = Some agentId \<and> po_mode p = mode \<and>
     (po_entry_type p = ESettle \<or>
      list_ex (\<lambda>c. po_corrects p = Some (po_id c) \<and> po_entry_type c = ESettle) all)"

definition spent_total :: "string \<Rightarrow> string \<Rightarrow> payment_mode \<Rightarrow> ('a ledger_db_scheme) \<Rightarrow> int" where
  "spent_total orgId agentId mode s =
     sum_list (map po_amount (filter (spent_posting (ledger_postings s) orgId agentId mode) (ledger_postings s)))"

definition deriveSpentUsdc :: "string \<Rightarrow> string \<Rightarrow> payment_mode \<Rightarrow> ('a ledger_db_scheme, string) op" where
  "deriveSpentUsdc orgId agentId mode =
     query (\<lambda>s. toFixed6 (to_number (numeric_text (spent_total orgId agentId mode s))))"

section \<open>How exact a double is\<close>

lemma bit_length_nonneg [simp]: "0 \<le> bit_length n"
proof (induction n rule: bit_length.induct)
  case (1 n)
  then show ?case by (subst bit_length.simps) auto
qed

lemma bit_length_upper: "n < 2 ^ nat (bit_length n)"
proof (induction n rule: bit_length.induct)
  case (1 n)
  show ?case
  proof (cases "n = 0")
    case False
    with 1 have "n div 2 < 2 ^ nat (bit_length (n div 2))" by blast
    then have "n < 2 * 2 ^ nat (bit_length (n div 2))" by linarith
    then show ?thesis
      using False by (subst bit_length.simps) (simp add: nat_add_distrib)
  qed simp
qed

lemma bit_length_lower: "0 < n \<Longrightarrow> 2 ^ nat (bit_length n - 1) \<le> n"
proof (induction n rule: bit_length.induct)
  case (1 n)
  then have eq: "bit_length n - 1 = bit_length (n div 2)" by (subst bit_length.simps) simp
  show ?case
  proof (cases "n = 1")
    case True
    then show ?thesis by simp
  next
    case False
    with 1 have pos: "0 < n div 2" by auto
    with 1 have IH: "2 ^ nat (bit_length (n div 2) - 1) \<le> n div 2" by auto
    have "1 \<le> bit_length (n div 2)" using pos by (subst bit_length.simps) simp
    then have "nat (bit_length (n div 2)) = Suc (nat (bit_length (n div 2) - 1))" by simp
    then have "(2::nat) ^ nat (bit_length (n div 2)) = 2 * 2 ^ nat (bit_length (n div 2) - 1)" by simp
    also have "\<dots> \<le> 2 * (n div 2)" using IH by simp
    finally show ?thesis unfolding eq by linarith
  qed
qed

lemma pow2_pos [simp]: "0 < pow2 k"
  by (simp add: pow2_def)

lemma pow2_nonzero [simp]: "pow2 k \<noteq> 0"
  by (simp add: pow2_def)

lemma exp2_le:
  assumes "0 < x"
  shows "pow2 (exp2 x) \<le> x"
proof (cases "1 \<le> x")
  case True
  then have "0 < nat \<lfloor>x\<rfloor>" by simp
  then have "(2::nat) ^ nat (bit_length (nat \<lfloor>x\<rfloor>) - 1) \<le> nat \<lfloor>x\<rfloor>" by (rule bit_length_lower)
  then have "rat_of_nat (2 ^ nat (bit_length (nat \<lfloor>x\<rfloor>) - 1)) \<le> of_nat (nat \<lfloor>x\<rfloor>)" using of_nat_le_iff by blast
  also have "\<dots> \<le> x" using True by simp
  finally have "rat_of_nat (2 ^ nat (bit_length (nat \<lfloor>x\<rfloor>) - 1)) \<le> x" .
  moreover have "1 \<le> bit_length (nat \<lfloor>x\<rfloor>)" using \<open>0 < nat \<lfloor>x\<rfloor>\<close> by (subst bit_length.simps) simp
  ultimately show ?thesis using True by (simp add: exp2_def pow2_def)
next
  case False
  define k where "k = nat (bit_length (nat (\<lceil>1 / x\<rceil> - 1)))"
  have "nat (\<lceil>1 / x\<rceil> - 1) < 2 ^ k" unfolding k_def by (rule bit_length_upper)
  then have "\<lceil>1 / x\<rceil> \<le> 2 ^ k" by (simp add: nat_less_iff)
  then have "1 / x \<le> 2 ^ k" by (metis ceiling_le_iff of_int_numeral of_int_power)
  then have "1 / 2 ^ k \<le> x" using assms by (simp add: field_simps)
  moreover have "pow2 (exp2 x) = 1 / 2 ^ k"
    using False by (simp add: exp2_def pow2_def k_def)
  ultimately show ?thesis by simp
qed

lemma round_even_close: "\<bar>of_int (round_even x) - x\<bar> \<le> 1 / 2"
proof -
  have "of_int \<lfloor>x\<rfloor> \<le> x" "x < of_int \<lfloor>x\<rfloor> + 1" by linarith+
  then show ?thesis unfolding round_even_def Let_def abs_if by (simp; linarith)
qed

lemma pow2_diff: "pow2 (a - int n) = pow2 a / 2 ^ n"
proof -
  have "pow2 k = 2 powi k" for k by (simp add: pow2_def power_int_def inverse_eq_divide power_one_over)
  then show ?thesis by (simp add: power_int_diff)
qed

lemma round_pos_close:
  assumes "0 < x" "x < 2 ^ 100"
  shows "\<exists>r. round_pos x = Fin r \<and> \<bar>r - x\<bar> \<le> max (x / 2 ^ 53) (1 / 2 ^ 1075)"
proof -
  define e where "e = max (exp2 x - 52) (- 1074)"
  define r where "r = of_int (round_even (x / pow2 e)) * pow2 e"
  have "\<bar>of_int (round_even (x / pow2 e)) - x / pow2 e\<bar> * pow2 e \<le> 1 / 2 * pow2 e"
    by (intro mult_right_mono round_even_close) (simp add: less_imp_le)
  moreover have "\<bar>of_int (round_even (x / pow2 e)) - x / pow2 e\<bar> * pow2 e = \<bar>r - x\<bar>"
  proof -
    have "r - x = (of_int (round_even (x / pow2 e)) - x / pow2 e) * pow2 e"
      using pow2_pos [of e] by (simp add: r_def field_simps)
    then show ?thesis by (simp only: abs_mult abs_of_pos [OF pow2_pos])
  qed
  ultimately have close: "\<bar>r - x\<bar> \<le> pow2 e / 2" by simp
  have "pow2 e / 2 \<le> max (x / 2 ^ 53) (1 / 2 ^ 1075)"
  proof (cases "exp2 x - 52 \<le> - 1074")
    case True
    then have "pow2 e = 1 / 2 ^ 1074" by (simp add: e_def pow2_def)
    then show ?thesis by simp
  next
    case False
    then have "pow2 e = pow2 (exp2 x) / 2 ^ 52" using pow2_diff [of "exp2 x" 52] by (simp add: e_def)
    with exp2_le [OF assms(1)] show ?thesis by simp
  qed
  with close have bound: "\<bar>r - x\<bar> \<le> max (x / 2 ^ 53) (1 / 2 ^ 1075)" by linarith
  have "r \<le> x + max (x / 2 ^ 53) (1 / 2 ^ 1075)" using bound by linarith
  also have "\<dots> \<le> x + (x + 1)" using assms(1) by (intro add_left_mono) (simp add: field_simps)
  also have "\<dots> < 2 ^ 1024" using assms(2) by simp
  finally have "\<not> pow2 1024 \<le> r" by (simp add: pow2_def)
  then have "round_pos x = Fin r" by (simp add: round_pos_def Let_def e_def [symmetric] r_def [symmetric])
  with bound show ?thesis by blast
qed

text \<open>\<open>Number\<close> of a decimal with six places.\<close>

lemma decimal_head:
  assumes "list_all is_digit w" "w \<noteq> []"
  shows "\<exists>c r. w @ ''.'' @ d = c # r \<and> is_digit c \<and> r \<noteq> [] \<and> (is_digit (hd r) \<or> hd r = CHR ''.'')"
proof -
  obtain c w' where w: "w = c # w'" using assms(2) by (cases w) auto
  show ?thesis
  proof (cases w')
    case Nil
    with assms(1) w show ?thesis by simp
  next
    case (Cons a list)
    with assms(1) w show ?thesis by simp
  qed
qed

lemma unsigned_decimal:
  assumes "list_all is_digit w" "w \<noteq> []" "list_all is_digit d" "length d = 6"
  shows "unsigned_number (w @ ''.'' @ d) = round64 (of_nat (digits_val 0 w * 1000000 + digits_val 0 d) / 1000000)"
proof -
  have "w @ ''.'' @ d \<noteq> ''Infinity''"
    using assms(1,2) by (cases w) (auto simp: is_digit_def code_def)
  moreover have "digit_span (w @ ''.'' @ d) = (w, ''.'' @ d)" "digit_span d = (d, [])"
    using digit_span_append [of w "''.'' @ d"] digit_span_append [of d "[]"] assms by auto
  moreover have "digits_val 0 (w @ d) = digits_val 0 w * 1000000 + digits_val 0 d"
    using digits_val_acc [of "digits_val 0 w" d] assms(4) by (simp add: digits_val_append)
  moreover have "d \<noteq> []" using assms(4) by auto
  ultimately show ?thesis
    using assms(2,4) by (simp add: unsigned_number_def parse_udec_def num_of_option_def pow10_def Let_def)
qed

lemma decimal_number:
  assumes "list_all is_digit w" "w \<noteq> []" "list_all is_digit d" "length d = 6"
  shows "to_number (w @ ''.'' @ d) = round64 (of_nat (digits_val 0 w * 1000000 + digits_val 0 d) / 1000000)"
    and "to_number (''-'' @ w @ ''.'' @ d) = num_neg (round64 (of_nat (digits_val 0 w * 1000000 + digits_val 0 d) / 1000000))"
proof -
  have d: "d \<noteq> []" using assms(4) by auto
  have trim: "trim (w @ ''.'' @ d) = w @ ''.'' @ d" by (rule decimal_raw) (use assms d in simp_all)
  have "last d \<in> set d" using d by simp
  then have "\<not> is_space (last d)" using assms(3) by (auto simp: list_all_iff dest: digit_not_space)
  then have trim': "trim (''-'' @ w @ ''.'' @ d) = ''-'' @ w @ ''.'' @ d"
    using d by (intro trim_no_space) (simp_all add: is_space_def code_def)
  obtain c r where cr: "w @ ''.'' @ d = c # r" "is_digit c" "r \<noteq> []" "is_digit (hd r) \<or> hd r = CHR ''.''"
    using decimal_head [OF assms(1,2)] by blast
  then obtain h r' where r: "r = h # r'" by (cases r) auto
  have "c \<noteq> CHR ''+''" "c \<noteq> CHR ''-''" "h \<notin> {CHR ''x'', CHR ''X'', CHR ''o'', CHR ''O'', CHR ''b'', CHR ''B''}"
    using cr r by (auto simp: is_digit_def code_def)
  then have "to_number (c # r) = unsigned_number (c # r)"
    using trim cr r by (simp add: to_number_def)
  with unsigned_decimal [OF assms] cr
  show "to_number (w @ ''.'' @ d) = round64 (of_nat (digits_val 0 w * 1000000 + digits_val 0 d) / 1000000)" by simp
  show "to_number (''-'' @ w @ ''.'' @ d) = num_neg (round64 (of_nat (digits_val 0 w * 1000000 + digits_val 0 d) / 1000000))"
    using trim' unsigned_decimal [OF assms] by (simp add: to_number_def)
qed

lemma round64_neg: "num_neg (round64 x) = round64 (- x)"
proof -
  have "num_neg (num_neg y) = y" for y by (cases y) auto
  then show ?thesis by (auto simp: round64_def)
qed

lemma to_number_numeric_text: "to_number (numeric_text m) = round64 (of_int m / 1000000)"
proof -
  have nat: "to_number (formatUsdc (int n)) = round64 (of_nat n / 1000000)"
    "to_number (''-'' @ formatUsdc (int n)) = num_neg (round64 (of_nat n / 1000000))" for n
    using decimal_number [OF show_nat_digits show_nat_nonempty six_places(2,1), of "n div 1000000" n]
    by (simp_all only: formatUsdc_nat digits_val_show_nat six_places(3) div_mult_mod_eq)
  show ?thesis
  proof (cases "m < 0")
    case True
    with nat(2) [of "nat (- m)"] show ?thesis
      by (simp add: numeric_text_def round64_neg)
  next
    case False
    with nat(1) [of "nat m"] show ?thesis by (simp add: numeric_text_def)
  qed
qed

text \<open>
  Below \<open>2 ^ 52\<close> millionths, some four and a half billion USDC, the nearest double lies within half
  a millionth, and printing it with six places gives the amount back.
\<close>

lemma nearest_millionth:
  assumes "0 < m" "m < 2 ^ 52"
  shows "\<exists>r. round_pos (of_int m / 1000000) = Fin r \<and> 0 < r \<and> r < 10 ^ 21 \<and> \<lfloor>r * 1000000 + 1 / 2\<rfloor> = m"
proof -
  let ?x = "rat_of_int m / 1000000"
  have "rat_of_int m < rat_of_int (2 ^ 52)" using assms(2) by (simp only: of_int_less_iff)
  moreover have "rat_of_int 1 \<le> rat_of_int m" using assms(1) by (simp only: of_int_le_iff)
  ultimately have m: "rat_of_int m < 2 ^ 52" "1 \<le> rat_of_int m" by simp_all
  have "0 < ?x" "?x < 2 ^ 100" using m by simp_all
  from round_pos_close [OF this] obtain r where r: "round_pos ?x = Fin r"
    and close: "\<bar>r - ?x\<bar> \<le> max (?x / 2 ^ 53) (1 / 2 ^ 1075)" by blast
  have "max (?x / 2 ^ 53) (1 / 2 ^ 1075) < 1 / 2000000"
    using m by (simp add: field_simps)
  with close have "\<bar>r - ?x\<bar> < 1 / 2000000" by linarith
  then have near: "\<bar>r * 1000000 - of_int m\<bar> < 1 / 2" by (simp add: abs_if field_simps split: if_splits)
  then have "\<lfloor>r * 1000000 + 1 / 2\<rfloor> = m" unfolding floor_eq_iff by (intro conjI) linarith+
  moreover have "0 < r" using near m by linarith
  moreover have "r < 10 ^ 21"
  proof -
    have "r * 1000000 < 2 ^ 52 + 1" using near m(1) by linarith
    then show ?thesis by simp
  qed
  ultimately show ?thesis using r by blast
qed

lemma toFixed6_exact:
  assumes "\<bar>m\<bar> < 2 ^ 52"
  shows "numeric_cast (toFixed6 (round64 (of_int m / 1000000))) = Inr m"
proof -
  have range: "numeric_range m" "numeric_range (- m)" using assms by (simp_all add: numeric_range_def)
  consider "m = 0" | "0 < m" | "m < 0" by linarith
  then show ?thesis
  proof cases
    case 1
    with range show ?thesis
      using numeric_cast_format(1) [of 0] floor_rat_numeral [of num.One "num.Bit0 num.One"]
      by (simp add: round64_def toFixed6_def)
  next
    case 2
    then obtain r where "round_pos (of_int m / 1000000) = Fin r" "0 < r" "r < 10 ^ 21" "\<lfloor>r * 1000000 + 1 / 2\<rfloor> = m"
      using nearest_millionth assms by auto
    with 2 range show ?thesis by (simp add: round64_def toFixed6_def numeric_cast_format)
  next
    case 3
    then obtain r where "round_pos (of_int (- m) / 1000000) = Fin r" "0 < r" "r < 10 ^ 21" "\<lfloor>r * 1000000 + 1 / 2\<rfloor> = - m"
      using nearest_millionth [of "- m"] assms by auto
    with 3 range show ?thesis
      using numeric_cast_minus [OF parse_format_nonneg(1) [of "- m"]] by (simp add: round64_def toFixed6_def)
  qed
qed

section \<open>Corrections and the derived total\<close>

lemma wp_insert_posting:
  "wp (insert_posting p) Q s =
     (\<not> list_ex (\<lambda>q. po_id q = po_id p) (ledger_postings s) \<and>
      find_org (po_org_id p) s \<noteq> None \<and> fk_ok ag_id (po_agent_id p) (agents s) \<and>
      fk_ok rs_id (po_reservation_id p) (payment_reservations s) \<and> fk_ok po_id (po_corrects p) (ledger_postings s) \<and>
      (po_reservation_id p \<noteq> None \<or> po_attempt_id p \<noteq> None \<or> po_job_id p \<noteq> None \<or> po_corrects p \<noteq> None) \<longrightarrow>
      Q () (s\<lparr>ledger_postings := ledger_postings s @ [p]\<rparr>))"
  by (auto simp: insert_posting_def wp_simps)

lemma insert_posting_Inl: "insert_posting p s = (Inl e, s') \<Longrightarrow> s' = s"
  by (auto simp: insert_posting_def bindM_Inl query_def guardM_def throw_def ret_def modify_def split: if_splits)

lemma writePosting_Inl: "writePosting E input s = (Inl e, s') \<Longrightarrow> ledger_postings s' = ledger_postings s"
  by (auto simp: writePosting_def bindM_Inl Let_def prefixedId_def now_def query_def liftE_def ret_def
      dest!: insert_posting_Inl split: sum.splits)

lemma correctPosting_Inl: "correctPosting E i r by' s = (Inl e, s') \<Longrightarrow> ledger_postings s' = ledger_postings s"
  by (auto simp: correctPosting_def bindM_Inl Let_def prefixedId_def now_def query_def liftE_def ret_def throw_def
      dest!: insert_posting_Inl split: sum.splits option.splits)

lemma offset_exact: "\<bar>po_amount p\<bar> < 2 ^ 52 \<Longrightarrow> numeric_cast (offsetAmount p) = Inr (- po_amount p)"
  using toFixed6_exact [of "- po_amount p"] by (simp add: offsetAmount_def to_number_numeric_text round64_neg)

lemma wp_correctPosting:
  "wp (correctPosting E i r by')
     (\<lambda>c s'. \<exists>p. find_posting i s = Some p \<and> ledger_postings s' = ledger_postings s @ [c] \<and>
        po_id c \<notin> po_id ` set (ledger_postings s) \<and>
        po_org_id c = po_org_id p \<and> po_agent_id c = po_agent_id p \<and> po_mode c = po_mode p \<and>
        po_entry_type c = ECorrection \<and> po_corrects c = Some i \<and>
        numeric_cast (offsetAmount p) = Inr (po_amount c)) s"
  unfolding correctPosting_def
  by (auto simp: wp_simps wp_insert_posting Let_def list_ex_iff image_iff split: option.splits)

lemma correctPosting_Inr:
  assumes "correctPosting E i r by' s = (Inr c, s')"
  obtains p where "find_posting i s = Some p" "ledger_postings s' = ledger_postings s @ [c]"
    "po_org_id c = po_org_id p" "po_agent_id c = po_agent_id p" "po_mode c = po_mode p"
    "po_entry_type c = ECorrection" "po_corrects c = Some i" "numeric_cast (offsetAmount p) = Inr (po_amount c)"
  using wpD [OF wp_correctPosting assms] by blast

text \<open>
  A correction offsets its posting exactly. Nothing is edited: a correction only appends, and
  only one posting, which names the one it corrects, belongs to the same organisation, agent and
  mode, and carries the exact negation of its amount, for every amount below \<open>2 ^ 52\<close> millionths.
  (The amount goes through a double; at 8589934592.000001 USDC the offset is a millionth off.)
\<close>

theorem correction_offsets:
  "(case correctPosting E i reason createdBy s of
      (Inl e, s') \<Rightarrow> ledger_postings s' = ledger_postings s
    | (Inr c, s') \<Rightarrow>
        (\<exists>p. find_posting i s = Some p \<and> ledger_postings s' = ledger_postings s @ [c] \<and>
           po_org_id c = po_org_id p \<and> po_agent_id c = po_agent_id p \<and> po_mode c = po_mode p \<and>
           po_entry_type c = ECorrection \<and> po_corrects c = Some i \<and>
           (if \<bar>po_amount p\<bar> < 2 ^ 52 then po_amount c = - po_amount p else True))) \<and>
   numeric_cast (toFixed6 (num_neg (to_number (numeric_text 8589934592000001)))) = Inr (- 8589934592000002)"
proof (intro conjI)
  show "case correctPosting E i reason createdBy s of
      (Inl e, s') \<Rightarrow> ledger_postings s' = ledger_postings s
    | (Inr c, s') \<Rightarrow>
        (\<exists>p. find_posting i s = Some p \<and> ledger_postings s' = ledger_postings s @ [c] \<and>
           po_org_id c = po_org_id p \<and> po_agent_id c = po_agent_id p \<and> po_mode c = po_mode p \<and>
           po_entry_type c = ECorrection \<and> po_corrects c = Some i \<and>
           (if \<bar>po_amount p\<bar> < 2 ^ 52 then po_amount c = - po_amount p else True))"
  proof (cases "correctPosting E i reason createdBy s")
    case (Pair x s')
    show ?thesis
    proof (cases x)
      case (Inl e)
      with Pair show ?thesis by (simp add: correctPosting_Inl)
    next
      case (Inr c)
      with Pair have run: "correctPosting E i reason createdBy s = (Inr c, s')" by simp
      obtain p where "find_posting i s = Some p" "ledger_postings s' = ledger_postings s @ [c]"
        "po_org_id c = po_org_id p" "po_agent_id c = po_agent_id p" "po_mode c = po_mode p"
        "po_entry_type c = ECorrection" "po_corrects c = Some i" "numeric_cast (offsetAmount p) = Inr (po_amount c)"
        by (rule correctPosting_Inr [OF run])
      with Pair Inr offset_exact [of p] show ?thesis by auto
    qed
  qed
  have "to_number (numeric_text 8589934592000001) = Fin (4503599627370497 / 524288)"
    unfolding to_number_numeric_text by (simp add: round64_def round_pos_def exp2_def pow2_def round_even_def Let_def)
  moreover have "\<lfloor>4503599627370497 / 524288 * 1000000 + 1 / 2 :: rat\<rfloor> = 8589934592000002"
    by (simp add: floor_eq_iff)
  ultimately show "numeric_cast (toFixed6 (num_neg (to_number (numeric_text 8589934592000001)))) = Inr (- 8589934592000002)"
    using numeric_cast_minus [OF parse_format_nonneg(1) [of 8589934592000002]]
    by (simp add: toFixed6_def numeric_range_def)
qed

lemma spent_total_frame:
  "ledger_postings s' = ledger_postings s \<Longrightarrow> spent_total orgId agentId mode s' = spent_total orgId agentId mode s"
  by (simp add: spent_total_def)

lemma spent_total_correction:
  assumes "find_posting i s = Some p" "ledger_postings s' = ledger_postings s @ [c]"
    "po_org_id c = orgId" "po_agent_id c = Some agentId" "po_mode c = mode" "po_entry_type c = ECorrection"
    "po_corrects c = Some i" "po_amount c = - po_amount p" "po_entry_type p = ESettle"
  shows "spent_total orgId agentId mode s' = spent_total orgId agentId mode s - po_amount p"
proof -
  have p: "p \<in> set (ledger_postings s)" "po_id p = i"
    using assms(1) by (auto simp: find_posting_def dest!: find_row_Some)
  have "spent_posting (ledger_postings s @ [c]) orgId agentId mode q =
      spent_posting (ledger_postings s) orgId agentId mode q" for q
    using assms(6) by (auto simp: spent_posting_def)
  moreover have "spent_posting (ledger_postings s) orgId agentId mode c"
    using assms p by (auto simp: spent_posting_def list_ex_iff)
  ultimately show ?thesis
    using assms by (simp add: spent_total_def cong: filter_cong)
qed

text \<open>
  C34. The derived total is the sum of the settlements and of the corrections of settlements of one
  agent and mode, rendered without loss below \<open>2 ^ 52\<close> millionths; correcting a settlement with
  such an amount takes exactly it out of the total.
\<close>

theorem derived_spent_exact:
  "(case deriveSpentUsdc orgId agentId mode s of
      (Inl e, s') \<Rightarrow> False
    | (Inr text, s') \<Rightarrow> s' = s \<and>
        (if \<bar>spent_total orgId agentId mode s\<bar> < 2 ^ 52
         then numeric_cast text = Inr (spent_total orgId agentId mode s) else True)) \<and>
   (case correctPosting E i reason createdBy s of
      (Inl e, s') \<Rightarrow> spent_total orgId agentId mode s' = spent_total orgId agentId mode s
    | (Inr c, s') \<Rightarrow>
        (\<exists>p. find_posting i s = Some p \<and>
          (if po_entry_type p = ESettle \<and> po_org_id p = orgId \<and> po_agent_id p = Some agentId \<and> po_mode p = mode \<and>
              \<bar>po_amount p\<bar> < 2 ^ 52
           then spent_total orgId agentId mode s' = spent_total orgId agentId mode s - po_amount p else True)))"
proof (intro conjI)
  show "case deriveSpentUsdc orgId agentId mode s of
      (Inl e, s') \<Rightarrow> False
    | (Inr text, s') \<Rightarrow> s' = s \<and>
        (if \<bar>spent_total orgId agentId mode s\<bar> < 2 ^ 52
         then numeric_cast text = Inr (spent_total orgId agentId mode s) else True)"
    using toFixed6_exact [of "spent_total orgId agentId mode s"]
    by (simp add: deriveSpentUsdc_def query_def to_number_numeric_text)
  show "case correctPosting E i reason createdBy s of
      (Inl e, s') \<Rightarrow> spent_total orgId agentId mode s' = spent_total orgId agentId mode s
    | (Inr c, s') \<Rightarrow>
        (\<exists>p. find_posting i s = Some p \<and>
          (if po_entry_type p = ESettle \<and> po_org_id p = orgId \<and> po_agent_id p = Some agentId \<and> po_mode p = mode \<and>
              \<bar>po_amount p\<bar> < 2 ^ 52
           then spent_total orgId agentId mode s' = spent_total orgId agentId mode s - po_amount p else True))"
  proof (cases "correctPosting E i reason createdBy s")
    case (Pair x s')
    show ?thesis
    proof (cases x)
      case (Inl e)
      with Pair have "correctPosting E i reason createdBy s = (Inl e, s')" by simp
      from spent_total_frame [OF correctPosting_Inl [OF this]] Pair Inl show ?thesis by simp
    next
      case (Inr c)
      with Pair have run: "correctPosting E i reason createdBy s = (Inr c, s')" by simp
      obtain p where p: "find_posting i s = Some p" "ledger_postings s' = ledger_postings s @ [c]"
        "po_org_id c = po_org_id p" "po_agent_id c = po_agent_id p" "po_mode c = po_mode p"
        "po_entry_type c = ECorrection" "po_corrects c = Some i" "numeric_cast (offsetAmount p) = Inr (po_amount c)"
        by (rule correctPosting_Inr [OF run])
      have "spent_total orgId agentId mode s' = spent_total orgId agentId mode s - po_amount p"
        if "po_entry_type p = ESettle" "po_org_id p = orgId" "po_agent_id p = Some agentId" "po_mode p = mode"
          "\<bar>po_amount p\<bar> < 2 ^ 52"
        using that p offset_exact [OF that(5)] by (intro spent_total_correction [OF p(1,2)]) simp_all
      with Pair Inr p(1) show ?thesis by auto
    qed
  qed
qed

end
