(* ===== verification/X402Attempts.thy ===== *)
theory X402Attempts
  imports Ledger
begin

text \<open>
  The payment tables and the x402 attempt store, payments/x402-attempt-store.ts over migrations
  0009, 0021, 0025 and 0027. An attempt is \<open>reserved\<close>, then \<open>submitting\<close>, then \<open>settled\<close>,
  \<open>failed\<close> or \<open>unknown\<close>; each transition is one guarded UPDATE. The encryption of stored results
  (x402-result-crypto.ts, AES over node:crypto) is the parameter \<open>x402_codec\<close>.
\<close>

section \<open>Tables\<close>

datatype attempt_status = AtReserved | AtSubmitting | AtSettled | AtFailed | AtUnknown

datatype source_provider = CircleGatewayP | CircleWalletsP | ManualP | SimulationP

datatype provider_mode = SimulationMode | ProviderMode payment_mode

record attempt_row =
  at_id :: string
  at_org_id :: string
  at_agent_id :: string
  at_connection_id :: "string option"
  at_source_id :: "string option"
  at_idempotency_key :: string
  at_request_hash :: string
  at_quote_hash :: "string option"
  at_amount :: "int option"
  at_asset :: "string option"
  at_rail :: "payment_rail option"
  at_network :: "string option"
  at_recipient :: "string option"
  at_status :: attempt_status
  at_payment_metadata :: obj
  at_response_metadata :: obj
  at_encrypted_result :: "string option"
  at_result_expires_at :: "int option"
  at_error_code :: "string option"
  at_created_at :: int
  at_updated_at :: int
  at_submitted_at :: "int option"
  at_finalized_at :: "int option"

record account_row =
  pa_id :: string
  pa_org_id :: string
  pa_agent_id :: string
  pa_active :: bool
  pa_payment_access :: bool
  pa_budget :: int
  pa_spent :: int
  pa_reserved :: int
  pa_per_request_cap :: int
  pa_approval_threshold :: "int option"
  pa_dedicated_wallet_required :: bool
  pa_allowed_rails :: "payment_rail list"
  pa_updated_at :: int

record source_row =
  so_id :: string
  so_org_id :: string
  so_provider :: source_provider
  so_rail :: payment_rail
  so_chain :: payment_chain
  so_active :: bool
  so_address :: "string option"
  so_external_wallet_id :: "string option"
  so_simulated_balance :: int
  so_created_at :: int

record payment_event_row =
  pe_id :: string
  pe_org_id :: string
  pe_agent_id :: string
  pe_connection_id :: "string option"
  pe_source_id :: "string option"
  pe_reservation_id :: "string option"
  pe_decision :: string
  pe_provider_mode :: provider_mode
  pe_rail :: payment_rail
  pe_chain :: payment_chain
  pe_amount :: int
  pe_asset :: string
  pe_recipient :: string
  pe_network :: string
  pe_resource_url :: "string option"
  pe_resource_category :: "string option"
  pe_quote :: obj
  pe_result :: obj
  pe_activity_id :: "string option"

record observation_row =
  ob_id :: string
  ob_org_id :: string
  ob_agent_id :: string
  ob_connection_id :: "string option"
  ob_rail :: "string option"
  ob_amount :: "int option"
  ob_accepted :: bool
  ob_reason_code :: string

datatype allowlist_source = MarketplaceSource | TenantConfigured | AgentWalletSource

record allowlist_row =
  al_id :: string
  al_org_id :: string
  al_chain :: payment_chain
  al_address :: string
  al_label :: string
  al_source :: allowlist_source
  al_active :: bool
  al_created_by :: string
  al_approved_by :: "string option"

record capability_row =
  cap_mode :: payment_mode
  cap_chain :: payment_chain
  cap_active :: bool
  cap_gateway_supported :: bool
  cap_nanopayments_supported :: bool
  cap_wallet_supported :: bool
  cap_exact_settlement_verified :: bool
  cap_gateway_settlement_verified :: bool

datatype wallet_status = WalletProvisioning | WalletActive | WalletSwept | WalletDisabled

record agent_wallet_row =
  aw_id :: string
  aw_org_id :: string
  aw_agent_id :: string
  aw_mode :: payment_mode
  aw_chain :: payment_chain
  aw_address :: string
  aw_status :: wallet_status

datatype job_status = JobQueued | JobSubmitted | JobComplete | JobFailed | JobBlocked

record provider_job_row =
  pj_id :: string
  pj_org_id :: string
  pj_mode :: payment_mode
  pj_job_type :: string
  pj_chain :: "payment_chain option"
  pj_status :: job_status
  pj_amount :: "int option"
  pj_error_code :: "string option"
  pj_metadata :: obj
  pj_created_by :: string

record payments_db = ledger_db +
  payment_attempts :: "attempt_row list"
  payment_accounts :: "account_row list"
  payment_sources :: "source_row list"
  payment_events :: "payment_event_row list"
  route_observations :: "observation_row list"
  destination_allowlist :: "allowlist_row list"
  chain_capabilities :: "capability_row list"
  agent_chain_wallets :: "agent_wallet_row list"
  org_payment_modes :: "(string \<times> payment_mode) list"
  provider_jobs :: "provider_job_row list"

section \<open>Results of a payment\<close>

datatype settlement_status = SpSettled | SpFailed | SpUnknown

record settlement_payment =
  sp_status :: settlement_status
  sp_network :: string
  sp_transaction :: "string option"
  sp_payer :: "string option"
  sp_errorCode :: "string option"

record paid_response =
  re_sizeBytes :: nat
  re_contentType :: "string option"
  re_status :: nat

record settlement =
  st_payment :: "settlement_payment option"
  st_providerMode :: provider_mode
  st_response :: "paid_response option"

record payment_result =
  pr_id :: "string option"
  pr_attemptId :: string
  pr_status :: attempt_status
  pr_providerMode :: "provider_mode option"
  pr_rail :: "payment_rail option"
  pr_amount :: "string option"
  pr_asset :: "string option"
  pr_agentId :: string
  pr_connectionId :: string
  pr_sourceId :: "string option"
  pr_reservationId :: "string option"
  pr_recipient :: "string option"
  pr_network :: "string option"
  pr_transaction :: "string option"
  pr_payer :: "string option"
  pr_errorCode :: "string option"
  pr_response :: "paid_response option"

text \<open>What an attempt keeps under encryption: the provider's evidence, or the final result.\<close>

datatype stored_result = StoredResult payment_result | StoredEvidence settlement

record attempt_scope =
  sc_connectionId :: string
  sc_orgId :: string

record x402_codec =
  cx_encrypt :: "string \<Rightarrow> attempt_scope \<Rightarrow> stored_result \<Rightarrow> string"
  cx_decrypt :: "string \<Rightarrow> attempt_scope \<Rightarrow> string \<Rightarrow> app_error + stored_result"

definition RESULT_RETENTION :: int where
  "RESULT_RETENTION = 15 * 60 * 1000"

section \<open>Accounts\<close>

definition find_account :: "string \<Rightarrow> string \<Rightarrow> ('a payments_db_scheme) \<Rightarrow> account_row option" where
  "find_account orgId agentId s = find_row (\<lambda>a. pa_org_id a = orgId \<and> pa_agent_id a = agentId) (payment_accounts s)"

text \<open>The CHECK constraints and the range of the columns of \<open>agent_payment_accounts\<close>.\<close>

definition account_checks :: "account_row \<Rightarrow> bool" where
  "account_checks a \<longleftrightarrow>
     0 \<le> pa_budget a \<and> 0 \<le> pa_spent a \<and> 0 \<le> pa_reserved a \<and> 0 \<le> pa_per_request_cap a \<and>
     numeric_range (pa_budget a) \<and> numeric_range (pa_spent a) \<and> numeric_range (pa_reserved a) \<and>
     numeric_range (pa_per_request_cap a)"

text \<open>An UPDATE of the accounts that match, refused when a row it writes violates a constraint; it returns how many.\<close>

definition update_accounts ::
  "(account_row \<Rightarrow> bool) \<Rightarrow> (account_row \<Rightarrow> account_row) \<Rightarrow> ('a payments_db_scheme, nat) op" where
  "update_accounts p f =
     bindM (query (\<lambda>s. filter p (payment_accounts s))) (\<lambda>rows.
     bindM (guardM (list_all (\<lambda>a. account_checks (f a)) rows) (PgCheckViolation ''agent_payment_accounts_check'')) (\<lambda>_.
     bindM (modify (\<lambda>s. s\<lparr>payment_accounts := update_rows p f (payment_accounts s)\<rparr>)) (\<lambda>_.
     ret (length rows))))"

definition reserve_in :: "int \<Rightarrow> int \<Rightarrow> account_row \<Rightarrow> account_row" where
  "reserve_in amount t a = a\<lparr>pa_reserved := pa_reserved a + amount, pa_updated_at := t\<rparr>"

definition release_in :: "int \<Rightarrow> int \<Rightarrow> account_row \<Rightarrow> account_row" where
  "release_in amount t a = a\<lparr>pa_reserved := pa_reserved a - amount, pa_updated_at := t\<rparr>"

definition settle_in :: "int \<Rightarrow> int \<Rightarrow> account_row \<Rightarrow> account_row" where
  "settle_in amount t a = a\<lparr>pa_reserved := pa_reserved a - amount, pa_spent := pa_spent a + amount, pa_updated_at := t\<rparr>"

definition of_agent :: "string \<Rightarrow> string \<Rightarrow> account_row \<Rightarrow> bool" where
  "of_agent orgId agentId a \<longleftrightarrow> pa_org_id a = orgId \<and> pa_agent_id a = agentId"

text \<open>\<open>UPDATE payment_reservations SET status = ... WHERE id AND org_id AND status = 'reserved'\<close>.\<close>

definition close_reservation ::
  "string \<Rightarrow> string \<Rightarrow> reservation_status \<Rightarrow> ('a payments_db_scheme, nat) op" where
  "close_reservation orgId i status =
     bindM (query (\<lambda>s. filter (\<lambda>r. rs_id r = i \<and> rs_org_id r = orgId \<and> rs_status r = RsReserved) (payment_reservations s))) (\<lambda>rows.
     bindM (modify (\<lambda>s. s\<lparr>payment_reservations :=
       update_rows (\<lambda>r. rs_id r = i \<and> rs_org_id r = orgId \<and> rs_status r = RsReserved)
         (\<lambda>r. r\<lparr>rs_status := status\<rparr>) (payment_reservations s)\<rparr>)) (\<lambda>_.
     ret (length rows)))"

definition orgPaymentMode :: "string \<Rightarrow> ('a payments_db_scheme) \<Rightarrow> payment_mode" where
  "orgPaymentMode orgId s = (case map_of (org_payment_modes s) orgId of Some m \<Rightarrow> m | None \<Rightarrow> Test)"

section \<open>The attempt store\<close>

definition stateConflict :: "('s, 'a) op" where
  "stateConflict = throw (conflict ''payment_attempt_state_conflict'' ''The payment attempt is not in the required state.'')"

definition scopeInvalid :: "('s, 'a) op" where
  "scopeInvalid = throw (IdentityError ''payment_attempt_scope_invalid'' 404
     ''The payment attempt was not found in this tenant scope.'')"

definition in_scope :: "attempt_scope \<Rightarrow> string \<Rightarrow> attempt_row \<Rightarrow> bool" where
  "in_scope scope i a \<longleftrightarrow> at_id a = i \<and> at_org_id a = sc_orgId scope \<and> at_connection_id a = Some (sc_connectionId scope)"

text \<open>
  A guarded transition: the row in scope and in the required state is updated and returned;
  otherwise the error says whether the row exists in scope at all.
\<close>

definition transition ::
  "attempt_scope \<Rightarrow> string \<Rightarrow> attempt_status \<Rightarrow> (attempt_row \<Rightarrow> attempt_row) \<Rightarrow> ('a payments_db_scheme, attempt_row) op" where
  "transition scope i required f =
     bindM (query (\<lambda>s. find_row (\<lambda>a. in_scope scope i a \<and> at_status a = required) (payment_attempts s))) (\<lambda>found.
     case found of
       Some row \<Rightarrow>
         bindM (modify (\<lambda>s. s\<lparr>payment_attempts :=
           update_rows (\<lambda>a. in_scope scope i a \<and> at_status a = required) f (payment_attempts s)\<rparr>)) (\<lambda>_.
         ret (f row))
     | None \<Rightarrow>
         bindM (query (\<lambda>s. list_ex (in_scope scope i) (payment_attempts s))) (\<lambda>scoped.
         if scoped then stateConflict else scopeInvalid))"

definition markSubmitting :: "attempt_scope \<Rightarrow> string \<Rightarrow> ('a payments_db_scheme, attempt_row) op" where
  "markSubmitting scope i =
     bindM now (\<lambda>t.
     transition scope i AtReserved (\<lambda>a. a\<lparr>at_status := AtSubmitting, at_submitted_at := Some t, at_updated_at := t\<rparr>))"

definition PAYMENT_METADATA_KEYS :: "string list" where
  "PAYMENT_METADATA_KEYS = [''approvalId'', ''decisionId'', ''eventId'', ''payer'', ''providerMode'',
     ''providerReference'', ''reservationId'', ''resumeReason'', ''receiptId'', ''transactionHash'']"

definition RESPONSE_METADATA_KEYS :: "string list" where
  "RESPONSE_METADATA_KEYS = [''contentLength'', ''contentType'', ''statusCode'']"

definition validatePaymentMetadata :: "obj option \<Rightarrow> app_error + unit" where
  "validatePaymentMetadata metadata =
     (case metadata of
        None \<Rightarrow> Inr ()
      | Some m \<Rightarrow>
          guardE (list_all (\<lambda>(k, v). k \<in> set PAYMENT_METADATA_KEYS \<and>
                    (case v of VUndef \<Rightarrow> True | VStr _ \<Rightarrow> True | _ \<Rightarrow> False)) m)
            (JsError ''payment_attempt_unsafe_payment_metadata''))"

definition is_integer :: "jsnum \<Rightarrow> bool" where
  "is_integer x = (case x of Fin r \<Rightarrow> r = of_int \<lfloor>r\<rfloor> | _ \<Rightarrow> False)"

definition number_between :: "rat \<Rightarrow> rat \<Rightarrow> jsval \<Rightarrow> bool" where
  "number_between lo hi v =
     (case v of VUndef \<Rightarrow> True
      | VNum x \<Rightarrow> is_integer x \<and> (case x of Fin r \<Rightarrow> lo \<le> r \<and> r \<le> hi | _ \<Rightarrow> False)
      | _ \<Rightarrow> False)"

definition validateResponseMetadata :: "obj option \<Rightarrow> app_error + unit" where
  "validateResponseMetadata metadata =
     (case metadata of
        None \<Rightarrow> Inr ()
      | Some m \<Rightarrow>
          guardE (list_all (\<lambda>(k, v). k \<in> set RESPONSE_METADATA_KEYS) m \<and>
              number_between 0 (2 ^ 53 - 1) (get_prop m ''contentLength'') \<and>
              (case get_prop m ''contentType'' of VUndef \<Rightarrow> True | VStr _ \<Rightarrow> True | _ \<Rightarrow> False) \<and>
              number_between 100 599 (get_prop m ''statusCode''))
            (JsError ''payment_attempt_unsafe_response_metadata''))"

record finalization =
  fi_paymentMetadata :: "obj option"
  fi_responseMetadata :: "obj option"
  fi_result :: "stored_result option"

text \<open>The common part of the three finalizing updates, with their \<open>COALESCE\<close>s.\<close>

definition finalized ::
  "x402_codec \<Rightarrow> attempt_scope \<Rightarrow> string \<Rightarrow> finalization \<Rightarrow> attempt_status \<Rightarrow> string option \<Rightarrow> int \<Rightarrow> attempt_row \<Rightarrow> attempt_row" where
  "finalized K scope i input status errorCode t a =
     a\<lparr>at_status := status,
       at_payment_metadata := or_else (fi_paymentMetadata input) (at_payment_metadata a),
       at_response_metadata := or_else (fi_responseMetadata input) (at_response_metadata a),
       at_encrypted_result := (case fi_result input of Some r \<Rightarrow> Some (cx_encrypt K i scope r) | None \<Rightarrow> at_encrypted_result a),
       at_result_expires_at := (case fi_result input of Some r \<Rightarrow> Some (t + RESULT_RETENTION) | None \<Rightarrow> at_result_expires_at a),
       at_error_code := errorCode, at_finalized_at := Some t, at_updated_at := t\<rparr>"

definition finalize ::
  "x402_codec \<Rightarrow> attempt_scope \<Rightarrow> string \<Rightarrow> finalization \<Rightarrow> attempt_status \<Rightarrow> attempt_status \<Rightarrow> string option \<Rightarrow>
   ('a payments_db_scheme, attempt_row) op" where
  "finalize K scope i input required status errorCode =
     bindM (liftE (bindE (validatePaymentMetadata (fi_paymentMetadata input)) (\<lambda>_.
       validateResponseMetadata (fi_responseMetadata input)))) (\<lambda>_.
     bindM now (\<lambda>t.
     transition scope i required (finalized K scope i input status errorCode t)))"

definition finalizeSettled ::
  "x402_codec \<Rightarrow> attempt_scope \<Rightarrow> string \<Rightarrow> finalization \<Rightarrow> ('a payments_db_scheme, attempt_row) op" where
  "finalizeSettled K scope i input = finalize K scope i input AtSubmitting AtSettled None"

definition finalizeFailed ::
  "x402_codec \<Rightarrow> attempt_scope \<Rightarrow> string \<Rightarrow> finalization \<Rightarrow> string \<Rightarrow> bool \<Rightarrow> ('a payments_db_scheme, attempt_row) op" where
  "finalizeFailed K scope i input errorCode providerCallMade =
     finalize K scope i input (if providerCallMade then AtSubmitting else AtReserved) AtFailed (Some errorCode)"

definition finalizeUnknown ::
  "x402_codec \<Rightarrow> attempt_scope \<Rightarrow> string \<Rightarrow> finalization \<Rightarrow> string \<Rightarrow> ('a payments_db_scheme, attempt_row) op" where
  "finalizeUnknown K scope i input errorCode = finalize K scope i input AtSubmitting AtUnknown (Some errorCode)"

text \<open>Expired results are scrubbed before they are read.\<close>

definition result_expired :: "int \<Rightarrow> attempt_row \<Rightarrow> bool" where
  "result_expired t a = (case at_result_expires_at a of Some e \<Rightarrow> e \<le> t | None \<Rightarrow> False)"

definition scrubbed :: "int \<Rightarrow> attempt_row \<Rightarrow> attempt_row" where
  "scrubbed t a = a\<lparr>at_encrypted_result := None, at_result_expires_at := None, at_updated_at := t\<rparr>"

definition has_key :: "string \<Rightarrow> string \<Rightarrow> attempt_row \<Rightarrow> bool" where
  "has_key connectionId key a \<longleftrightarrow> at_connection_id a = Some connectionId \<and> at_idempotency_key a = key"

definition findAttempt :: "string \<Rightarrow> string \<Rightarrow> ('a payments_db_scheme, attempt_row option) op" where
  "findAttempt connectionId key =
     bindM now (\<lambda>t.
     bindM (modify (\<lambda>s. s\<lparr>payment_attempts :=
       update_rows (\<lambda>a. has_key connectionId key a \<and> result_expired t a) (scrubbed t) (payment_attempts s)\<rparr>)) (\<lambda>_.
     query (\<lambda>s. find_row (has_key connectionId key) (payment_attempts s))))"

definition purgeExpiredX402Results :: "env \<Rightarrow> jsnum \<Rightarrow> ('a payments_db_scheme, nat) op" where
  "purgeExpiredX402Results E batchLimit =
     (case batchLimit of
        Fin r \<Rightarrow>
          if is_integer batchLimit \<and> 1 \<le> r then
            bindM now (\<lambda>t.
            bindM (query (\<lambda>s. map at_id (take (nat \<lfloor>min r 1000\<rfloor>)
              (sort_by (\<lambda>a b. let c = (case (at_result_expires_at a, at_result_expires_at b) of
                                         (Some x, Some y) \<Rightarrow> x - y | _ \<Rightarrow> 0)
                               in if c \<noteq> 0 then c else env_collate E (at_id a) (at_id b))
                (filter (result_expired t) (payment_attempts s)))))) (\<lambda>expired.
            bindM (modify (\<lambda>s. s\<lparr>payment_attempts :=
              update_rows (\<lambda>a. at_id a \<in> set expired) (scrubbed t) (payment_attempts s)\<rparr>)) (\<lambda>_.
            ret (length expired))))
          else throw (RangeErr ''payment_attempt_purge_batch_limit_invalid'')
      | _ \<Rightarrow> throw (RangeErr ''payment_attempt_purge_batch_limit_invalid''))"

record attempt_input =
  ci_orgId :: string
  ci_agentId :: string
  ci_connectionId :: string
  ci_sourceId :: string
  ci_idempotencyKey :: string
  ci_requestHash :: string
  ci_quoteHash :: string
  ci_amountUsdc :: string
  ci_asset :: string
  ci_rail :: payment_rail
  ci_network :: string
  ci_recipient :: string

definition attempt_scope_ok :: "attempt_input \<Rightarrow> ('a payments_db_scheme) \<Rightarrow> bool" where
  "attempt_scope_ok input s \<longleftrightarrow>
     list_ex (\<lambda>c. cn_id c = ci_connectionId input \<and> cn_org_id c = ci_orgId input \<and> cn_agent_id c = ci_agentId input \<and>
       list_ex (\<lambda>a. ag_id a = cn_agent_id c \<and> ag_org_id a = cn_org_id c) (agents s) \<and>
       list_ex (\<lambda>p. so_id p = ci_sourceId input \<and> so_org_id p = cn_org_id c) (payment_sources s)) (connections s)"

definition new_attempt :: "attempt_input \<Rightarrow> string \<Rightarrow> int \<Rightarrow> int \<Rightarrow> attempt_row" where
  "new_attempt input i amount t =
     \<lparr>at_id = i, at_org_id = ci_orgId input, at_agent_id = ci_agentId input,
      at_connection_id = Some (ci_connectionId input), at_source_id = Some (ci_sourceId input),
      at_idempotency_key = ci_idempotencyKey input, at_request_hash = ci_requestHash input,
      at_quote_hash = Some (ci_quoteHash input), at_amount = Some amount, at_asset = Some (ci_asset input),
      at_rail = Some (ci_rail input), at_network = Some (ci_network input), at_recipient = Some (ci_recipient input),
      at_status = AtReserved, at_payment_metadata = [], at_response_metadata = [], at_encrypted_result = None,
      at_result_expires_at = None, at_error_code = None, at_created_at = t, at_updated_at = t,
      at_submitted_at = None, at_finalized_at = None\<rparr>"

definition IDEMPOTENCY_CONFLICT :: app_error where
  "IDEMPOTENCY_CONFLICT = conflict ''payment_idempotency_conflict''
     ''This idempotency key is already bound to a different payment request.''"

text \<open>\<open>INSERT ... ON CONFLICT (connection_id, idempotency_key) DO NOTHING\<close>, then the row that is there.\<close>

definition createAttempt :: "env \<Rightarrow> attempt_input \<Rightarrow> ('a payments_db_scheme, attempt_row) op" where
  "createAttempt E input =
     bindM (query (attempt_scope_ok input)) (\<lambda>valid.
     if \<not> valid then scopeInvalid
     else
       bindM (prefixedId E ''rpa'') (\<lambda>i.
       bindM now (\<lambda>t.
       bindM (liftE (numeric_cast (ci_amountUsdc input))) (\<lambda>amount.
       bindM (query (\<lambda>s. find_row (has_key (ci_connectionId input) (ci_idempotencyKey input)) (payment_attempts s))) (\<lambda>existing.
       case existing of
         None \<Rightarrow>
           bindM (query (\<lambda>s. list_ex (\<lambda>a. at_id a = i) (payment_attempts s))) (\<lambda>dup.
           bindM (guardM (\<not> dup) (PgUniqueViolation ''runtime_payment_attempts_pkey'')) (\<lambda>_.
           bindM (guardM (0 < amount) (PgCheckViolation ''runtime_payment_attempts_amount_usdc_check'')) (\<lambda>_.
           bindM (modify (\<lambda>s. s\<lparr>payment_attempts := payment_attempts s @ [new_attempt input i amount t]\<rparr>)) (\<lambda>_.
           ret (new_attempt input i amount t)))))
       | Some row \<Rightarrow>
           bindM (guardM (at_request_hash row = ci_requestHash input) IDEMPOTENCY_CONFLICT) (\<lambda>_.
           if result_expired t row then
             bindM (modify (\<lambda>s. s\<lparr>payment_attempts :=
               update_rows (\<lambda>a. at_id a = at_id row \<and> result_expired t a) (scrubbed t) (payment_attempts s)\<rparr>)) (\<lambda>_.
             ret (scrubbed t row))
           else ret row))))))"

section \<open>Releasing what will not be paid\<close>

definition attempt_reason :: "string \<Rightarrow> string" where
  "attempt_reason attemptId = ''x402_attempt:'' @ attemptId"

definition json_text :: "jsval \<Rightarrow> string option" where
  "json_text v = (case v of VStr s \<Rightarrow> Some s | _ \<Rightarrow> None)"

definition attempt_approval :: "attempt_row \<Rightarrow> ('a payments_db_scheme) \<Rightarrow> approval_row option" where
  "attempt_approval a s =
     (case json_text (get_prop (at_payment_metadata a) ''approvalId'') of
        None \<Rightarrow> None
      | Some i \<Rightarrow> find_row (\<lambda>p. ap_id p = i \<and> ap_org_id p = at_org_id a \<and> ap_agent_id p = at_agent_id a \<and>
                              at_connection_id a = Some (ap_connection_id p)) (approval_requests s))"

definition approval_lapsed :: "int \<Rightarrow> approval_row \<Rightarrow> bool" where
  "approval_lapsed t p \<longleftrightarrow> ap_status p = StExpired \<or> ap_status p \<in> {StPending, StApproved} \<and> ap_expires_at p \<le> t"

definition stranded_code :: "int \<Rightarrow> approval_row option \<Rightarrow> string" where
  "stranded_code t approval =
     (case approval of
        None \<Rightarrow> ''payment_reservation_expired''
      | Some p \<Rightarrow> if ap_status p = StDenied then ''payment_approval_denied''
                  else if approval_lapsed t p then ''payment_approval_expired''
                  else ''payment_reservation_expired'')"

definition stranded :: "int \<Rightarrow> reservation_row \<Rightarrow> approval_row option \<Rightarrow> bool" where
  "stranded t r approval \<longleftrightarrow>
     rs_expires_at r \<le> t \<or>
     (case approval of None \<Rightarrow> False | Some p \<Rightarrow> ap_status p = StDenied \<or> approval_lapsed t p)"

record stranded_row =
  sr_attempt :: attempt_row
  sr_reservation :: reservation_row
  sr_error_code :: string

definition stranded_rows :: "env \<Rightarrow> string \<Rightarrow> string \<Rightarrow> ('a payments_db_scheme) \<Rightarrow> stranded_row list" where
  "stranded_rows E orgId agentId s =
     sort_by (\<lambda>x y. let c = rs_expires_at (sr_reservation x) - rs_expires_at (sr_reservation y)
                    in if c \<noteq> 0 then c else env_collate E (at_id (sr_attempt x)) (at_id (sr_attempt y)))
       (concat (map (\<lambda>a.
          map (\<lambda>r. \<lparr>sr_attempt = a, sr_reservation = r, sr_error_code = stranded_code (clock s) (attempt_approval a s)\<rparr>)
            (filter (\<lambda>r. rs_reason_code r = attempt_reason (at_id a) \<and> rs_org_id r = at_org_id a \<and>
                         rs_agent_id r = at_agent_id a \<and> rs_status r = RsReserved \<and>
                         stranded (clock s) r (attempt_approval a s)) (payment_reservations s)))
          (filter (\<lambda>a. at_org_id a = orgId \<and> at_agent_id a = agentId \<and> at_status a = AtReserved) (payment_attempts s))))"

definition fail_attempt :: "string \<Rightarrow> int \<Rightarrow> attempt_row \<Rightarrow> attempt_row" where
  "fail_attempt reason t a = a\<lparr>at_status := AtFailed, at_error_code := Some reason, at_finalized_at := Some t, at_updated_at := t\<rparr>"

text \<open>One round of the loop: a reservation that is no longer reserved is passed over.\<close>

definition release_stranded :: "string \<Rightarrow> string \<Rightarrow> nat \<Rightarrow> stranded_row \<Rightarrow> ('a payments_db_scheme, nat) op" where
  "release_stranded orgId agentId n c =
     bindM now (\<lambda>t.
     bindM (close_reservation orgId (rs_id (sr_reservation c)) RsReleased) (\<lambda>released.
     if released \<noteq> 1 then ret n
     else
       bindM (update_accounts
         (\<lambda>a. of_agent orgId agentId a \<and> rs_amount (sr_reservation c) \<le> pa_reserved a)
         (release_in (rs_amount (sr_reservation c)) t)) (\<lambda>accounts.
       bindM (guardM (accounts = 1) (JsError ''payment_attempt_reserved_budget_invalid'')) (\<lambda>_.
       bindM (query (\<lambda>s. length (filter (\<lambda>a. at_id a = at_id (sr_attempt c) \<and> at_org_id a = orgId \<and>
                at_agent_id a = agentId \<and> at_status a = AtReserved) (payment_attempts s)))) (\<lambda>attempts.
       bindM (modify (\<lambda>s. s\<lparr>payment_attempts :=
         update_rows (\<lambda>a. at_id a = at_id (sr_attempt c) \<and> at_org_id a = orgId \<and> at_agent_id a = agentId \<and>
                          at_status a = AtReserved) (fail_attempt (sr_error_code c) t) (payment_attempts s)\<rparr>)) (\<lambda>_.
       bindM (guardM (attempts = 1) (JsError ''payment_attempt_state_conflict'')) (\<lambda>_.
       ret (n + 1))))))))"

definition cancelStrandedReservedAttempts ::
  "env \<Rightarrow> string \<Rightarrow> string \<Rightarrow> ('a payments_db_scheme, nat) op" where
  "cancelStrandedReservedAttempts E orgId agentId =
     withTransaction (
       bindM (query (stranded_rows E orgId agentId)) (\<lambda>candidates.
       foldM (release_stranded orgId agentId) 0 candidates))"

text \<open>The death predicate of an EIP-3009 authorization, and the release that needs it.\<close>

definition isProvablyDead :: "int \<Rightarrow> bool \<Rightarrow> int \<Rightarrow> bool" where
  "isProvablyDead validBefore authorizationUsed nowSeconds \<longleftrightarrow> validBefore < nowSeconds \<and> \<not> authorizationUsed"

definition release_posting ::
  "string \<Rightarrow> string \<Rightarrow> payment_mode \<Rightarrow> entry_type \<Rightarrow> int \<Rightarrow> string \<Rightarrow> string \<Rightarrow> string \<Rightarrow> posting_input" where
  "release_posting orgId agentId mode entry amount reservationId reason createdBy =
     \<lparr>wi_orgId = orgId, wi_agentId = Some agentId, wi_mode = mode, wi_chain = None, wi_entryType = entry,
      wi_amountUsdc = numeric_text amount, wi_reservationId = Some reservationId, wi_attemptId = None,
      wi_jobId = None, wi_reasonCode = reason, wi_createdBy = createdBy\<rparr>"

definition reservation_status_name :: "reservation_status \<Rightarrow> string" where
  "reservation_status_name st =
     (case st of RsReserved \<Rightarrow> ''reserved'' | RsSettled \<Rightarrow> ''settled'' | RsReleased \<Rightarrow> ''released'' | RsFailed \<Rightarrow> ''failed'')"

definition releaseOnProof ::
  "env \<Rightarrow> (string \<Rightarrow> app_error + (int \<times> bool)) \<Rightarrow> string \<Rightarrow> ('a payments_db_scheme, unit) op" where
  "releaseOnProof E chainReader reservationId =
     withTransaction (
       bindM (query (\<lambda>s. find_row (\<lambda>r. rs_id r = reservationId) (payment_reservations s))) (\<lambda>found.
       case found of
         None \<Rightarrow> throw (IdentityError ''reservation_not_found'' 404 ''Payment reservation was not found.'')
       | Some row \<Rightarrow>
           bindM (guardM (rs_status row = RsReserved) (conflict ''reservation_not_reserved''
             (''Reservation is '' @ reservation_status_name (rs_status row) @ '', not reserved.''))) (\<lambda>_.
           bindM now (\<lambda>t.
           bindM (liftE (chainReader reservationId)) (\<lambda>(validBefore, used).
           bindM (guardM (isProvablyDead validBefore used (t div 1000)) (badRequest ''not_provably_dead''
             ''not_provably_dead: the authorization has not both expired and gone unused, so releasing now could double-count money that may still settle.'')) (\<lambda>_.
           bindM (close_reservation (rs_org_id row) (rs_id row) RsReleased) (\<lambda>_.
           bindM (update_accounts (of_agent (rs_org_id row) (rs_agent_id row)) (release_in (rs_amount row) t)) (\<lambda>_.
           bindM (query (orgPaymentMode (rs_org_id row))) (\<lambda>mode.
           bindM (writePosting E (release_posting (rs_org_id row) (rs_agent_id row) mode ERelease (rs_amount row)
             (rs_id row) ''death_predicate_proven'' ''system'')) (\<lambda>_.
           ret ()))))))))))"

end
