(* ===== verification/PaidHttp.thy ===== *)
theory PaidHttp
  imports X402Attempts
begin

text \<open>
  Paying for a resource over x402, payments/store.ts: the authorisation and reservation of a payment
  (\<open>preparePaidHttpPayment\<close>), the policy and approval gate in front of it, the bookkeeping of a
  settled, failed or ambiguous outcome, and the resolution of ambiguous ones by an operator.
  The chain's balance reader and the encryption of results are parameters, in \<open>pay_world\<close>.
\<close>

section \<open>Data\<close>

record pay_world =
  pw_balance :: "string \<Rightarrow> payment_chain \<Rightarrow> payment_mode \<Rightarrow> app_error + int"
  pw_codec :: x402_codec

text \<open>\<open>PaymentApprovalRequiredError\<close> carries the ids of the decision and of the approval.\<close>

record approval_needed =
  an_decisionId :: string
  an_approvalId :: string
  an_message :: string

record policy_gate =
  pg_approvalId :: "string option"
  pg_decisionId :: string

record prepared_payment =
  pp_approvalRequired :: "approval_needed option"
  pp_attempt :: attempt_row
  pp_destination :: string
  pp_mode :: payment_mode
  pp_paymentInput :: x402_input
  pp_policyGate :: policy_gate
  pp_quote :: runtime_quote
  pp_quoteHash :: string
  pp_quotePayload :: obj
  pp_reservationId :: string
  pp_resource :: x402_resource
  pp_source :: source_row

datatype prepare_outcome = Existing attempt_row | Prepared prepared_payment

fun provider_mode_name :: "provider_mode \<Rightarrow> string" where
  "provider_mode_name SimulationMode = ''simulation''"
| "provider_mode_name (ProviderMode m) = mode_name m"

fun attempt_status_name :: "attempt_status \<Rightarrow> string" where
  "attempt_status_name AtReserved = ''reserved''"
| "attempt_status_name AtSubmitting = ''submitting''"
| "attempt_status_name AtSettled = ''settled''"
| "attempt_status_name AtFailed = ''failed''"
| "attempt_status_name AtUnknown = ''unknown''"

text \<open>A property that is spread in only when its value is there.\<close>

definition when_some :: "string \<Rightarrow> string option \<Rightarrow> obj" where
  "when_some k v = (case v of None \<Rightarrow> [] | Some x \<Rightarrow> [(k, VStr x)])"

definition usdc_json :: "usdc_text \<Rightarrow> jsval" where
  "usdc_json u = (case u of UText t \<Rightarrow> VStr t | UNumber n \<Rightarrow> VNum n)"

definition present :: "string \<Rightarrow> jsval \<Rightarrow> obj" where
  "present k v = (if v = VUndef then [] else [(k, v)])"

definition accept_json :: "x402_accept \<Rightarrow> obj" where
  "accept_json a =
     [(''scheme'', VStr (ac_scheme a)), (''network'', VStr (ac_network a))] @
     present ''asset'' (ac_asset a) @
     (case ac_amount a of None \<Rightarrow> [] | Some u \<Rightarrow> [(''amount'', usdc_json u)]) @
     (case ac_maxAmountRequired a of None \<Rightarrow> [] | Some u \<Rightarrow> [(''maxAmountRequired'', usdc_json u)]) @
     present ''payTo'' (ac_payTo a) @
     (case ac_extra a of None \<Rightarrow> [] | Some e \<Rightarrow> [(''extra'', VObj e)])"

section \<open>The policy gate\<close>

definition requestContextForPolicy :: "obj option \<Rightarrow> obj" where
  "requestContextForPolicy context =
     filter (\<lambda>(k, v). k \<notin> {''approval_id'', ''approvalId'', ''decision_id'', ''decisionId''}) (or_else context [])"

definition approvalProofFromContext :: "obj option \<Rightarrow> string option \<times> string option" where
  "approvalProofFromContext context =
     (let c = or_else context []
      in (case stringValue (get_prop c ''approval_id'') of Some i \<Rightarrow> Some i | None \<Rightarrow> stringValue (get_prop c ''approvalId''),
          case stringValue (get_prop c ''decision_id'') of Some i \<Rightarrow> Some i | None \<Rightarrow> stringValue (get_prop c ''decisionId'')))"

definition x402PolicyContext :: "x402_input \<Rightarrow> runtime_quote \<Rightarrow> x402_resource \<Rightarrow> obj" where
  "x402PolicyContext paymentInput quote resource =
     [(''payment'', VObj [(''amount'', VStr (qt_amount quote)), (''asset'', VStr ''USDC''),
         (''network'', VStr (chain_name (qt_chain quote))), (''rail'', VStr (rail_name (qt_rail quote))),
         (''recipient'', VStr (qt_recipient quote))]),
      (''request'', VObj (requestContextForPolicy (xi_context paymentInput))),
      (''resource'', VObj [(''category'', nullable (xr_category resource)), (''domain'', nullable (xr_domain resource)),
         (''url'', nullable (xr_url resource))])]"

definition over_threshold :: "int option \<Rightarrow> runtime_quote \<Rightarrow> bool" where
  "over_threshold threshold quote = (case threshold of None \<Rightarrow> False | Some m \<Rightarrow> m \<le> qt_amountMicros quote)"

definition gate_context :: "x402_input \<Rightarrow> runtime_quote \<Rightarrow> x402_resource \<Rightarrow> int option \<Rightarrow> obj" where
  "gate_context input quote resource threshold =
     x402PolicyContext input quote resource @
     (if over_threshold threshold quote
      then [(''control'', VObj [(''approval_threshold_usdc'', VStr (formatUsdcShort (the threshold))),
              (''source'', VStr ''agent_payment_account'')])]
      else [])"

definition gate_request :: "connection_auth \<Rightarrow> obj \<Rightarrow> decision_request" where
  "gate_request auth context =
     \<lparr>rq_actor_type = ConnectionA, rq_actor_id = Some (au_connection_id auth), rq_actor_role = None,
      rq_action = ''payment.x402.authorize'', rq_target_type = AgentT, rq_target_id = Some (au_agent_id auth),
      rq_context = context\<rparr>"

text \<open>
  \<open>Inl\<close> of the result is the \<open>PaymentApprovalRequiredError\<close> that the only caller catches;
  every other error is thrown.
\<close>

definition enforceX402Policy ::
  "env \<Rightarrow> connection_auth \<Rightarrow> x402_input \<Rightarrow> runtime_quote \<Rightarrow> x402_resource \<Rightarrow> int option \<Rightarrow>
   ('a payments_db_scheme, approval_needed + policy_gate) op" where
  "enforceX402Policy E auth input quote resource threshold =
     (let context = gate_context input quote resource threshold
      in bindM (checkPolicyDecision E \<lparr>op_actorId = au_connection_id auth, op_role = Member, op_userId = None\<rparr>
           (au_org_id auth) (gate_request auth context)) (\<lambda>decision.
         bindM (guardM (dr_decision decision \<noteq> Deny)
           (IdentityError (dr_reasonCode decision) 403 (dr_explanation decision))) (\<lambda>_.
         if \<not> (dr_decision decision = ApprovalRequired \<or> over_threshold threshold quote)
         then ret (Inr \<lparr>pg_approvalId = None, pg_decisionId = rd_id decision\<rparr>)
         else case approvalProofFromContext (xi_context input) of
           (Some approvalId, Some decisionId) \<Rightarrow>
             bindM (getApproval E (au_org_id auth) approvalId) (\<lambda>approval.
             bindM (liftE (approvalContextHash E ''payment.x402.authorize'' AgentT (Some (au_agent_id auth)) context)) (\<lambda>expectedHash.
             bindM (guardM (ap_context_hash approval = expectedHash)
               (badRequest ''approval_context_mismatch'' ''Approval does not match this x402 payment request.'')) (\<lambda>_.
             bindM (consumeApproval E auth approvalId decisionId) (\<lambda>consumed.
             ret (Inr \<lparr>pg_approvalId = Some (ap_id consumed), pg_decisionId = rd_id decision\<rparr>)))))
         | _ \<Rightarrow>
             bindM (createApprovalRequest E \<lparr>aq_orgId = au_org_id auth, aq_agentId = au_agent_id auth,
               aq_connectionId = au_connection_id auth, aq_decisionId = rd_id decision,
               aq_action = ''payment.x402.authorize'', aq_target_type = AgentT, aq_target_id = Some (au_agent_id auth),
               aq_context = context, aq_required = None\<rparr>) (\<lambda>approval.
             ret (Inl \<lparr>an_decisionId = rd_id decision, an_approvalId = ap_id approval,
               an_message = (if over_threshold threshold quote \<and> dr_decision decision \<noteq> ApprovalRequired
                 then ''Payment amount is at or above the agent approval threshold of '' @
                      formatUsdcShort (the threshold) @ '' USDC.''
                 else dr_explanation decision)\<rparr>)))))"

section \<open>Accounts, sources and rails\<close>

definition ACCESS_DISABLED :: app_error where
  "ACCESS_DISABLED = IdentityError ''payment_access_disabled'' 403 ''Payment access is disabled for this agent.''"

definition activePaymentAccount :: "connection_auth \<Rightarrow> ('a payments_db_scheme, account_row) op" where
  "activePaymentAccount auth =
     bindM (query (\<lambda>s. (find_account (au_org_id auth) (au_agent_id auth) s, find_org (au_org_id auth) s,
       find_row (\<lambda>a. ag_id a = au_agent_id auth) (agents s)))) (\<lambda>joined.
     case joined of
       (Some row, Some org, Some agent) \<Rightarrow>
         bindM (guardM (\<not> org_frozen org)
           (IdentityError ''org_frozen'' 403 ''This workspace is frozen. No actions can proceed.'')) (\<lambda>_.
         bindM (guardM (ag_status agent \<notin> {AgentPaused, AgentSuspended})
           (IdentityError ''agent_frozen'' 403 ''This agent is frozen. No actions can proceed.'')) (\<lambda>_.
         bindM (guardM (pa_active row \<and> pa_payment_access row) ACCESS_DISABLED) (\<lambda>_.
         ret row)))
     | _ \<Rightarrow> throw ACCESS_DISABLED)"

definition activePaymentSource ::
  "string \<Rightarrow> payment_rail \<Rightarrow> payment_chain \<Rightarrow> ('a payments_db_scheme, source_row) op" where
  "activePaymentSource orgId rail chain =
     bindM (query (\<lambda>s. sort_by (\<lambda>x y. so_created_at y - so_created_at x)
       (filter (\<lambda>p. so_org_id p = orgId \<and> so_rail p = rail \<and> so_chain p = chain \<and> so_active p) (payment_sources s)))) (\<lambda>rows.
     case rows of
       [] \<Rightarrow> throw (conflict ''payment_source_unavailable'' ''No active payment source is available for this rail.'')
     | row # _ \<Rightarrow> ret row)"

text \<open>
  The table's row, or the built-in capability of the chain: \<open>CAPABILITIES\<close> in circle-provider.ts
  lists the same five chains for both modes, with every support flag set.
\<close>

definition getCircleChainCapability ::
  "payment_mode \<Rightarrow> payment_chain \<Rightarrow> ('a payments_db_scheme) \<Rightarrow> capability_row option" where
  "getCircleChainCapability mode chain s =
     (case find_row (\<lambda>c. cap_mode c = mode \<and> cap_chain c = chain \<and> cap_active c) (chain_capabilities s) of
        Some row \<Rightarrow> Some row
      | None \<Rightarrow>
          if chain \<in> {Base, Arbitrum, Polygon, Optimism, Avalanche}
          then Some \<lparr>cap_mode = mode, cap_chain = chain, cap_active = True, cap_gateway_supported = True,
                 cap_nanopayments_supported = True, cap_wallet_supported = True,
                 cap_exact_settlement_verified = True, cap_gateway_settlement_verified = (chain = Base)\<rparr>
          else None)"

definition railVerificationFailure :: "capability_row option \<Rightarrow> runtime_quote \<Rightarrow> (string \<times> string) option" where
  "railVerificationFailure capability quote =
     (case capability of
        None \<Rightarrow> Some (''payment_rail_unavailable'',
          ''No active Circle capability is configured for '' @ chain_name (qt_chain quote) @ ''.'')
      | Some c \<Rightarrow>
          if qt_settlementKind quote = Gateway then
            if \<not> cap_gateway_supported c \<or> \<not> cap_nanopayments_supported c
            then Some (''payment_rail_unavailable'',
              ''Gateway nanopayments are not supported for '' @ chain_name (qt_chain quote) @ ''.'')
            else if \<not> cap_gateway_settlement_verified c
            then Some (''payment_rail_unverified'',
              rail_name (qt_rail quote) @ '' liquidity can be prepared, but x402 settlement is not verified yet.'')
            else None
          else if \<not> cap_wallet_supported c
          then Some (''payment_rail_unavailable'',
            ''Exact wallet payments are not supported for '' @ chain_name (qt_chain quote) @ ''.'')
          else if \<not> cap_exact_settlement_verified c
          then Some (''payment_rail_unverified'', rail_name (qt_rail quote) @ '' settlement is not verified yet.'')
          else None)"

definition assertRailVerified :: "payment_mode \<Rightarrow> runtime_quote \<Rightarrow> ('a payments_db_scheme, unit) op" where
  "assertRailVerified mode quote =
     bindM (query (getCircleChainCapability mode (qt_chain quote))) (\<lambda>capability.
     case railVerificationFailure capability quote of
       None \<Rightarrow> ret ()
     | Some (reason, message) \<Rightarrow> throw (conflict reason message))"

definition findAgentWallet ::
  "string \<Rightarrow> payment_mode \<Rightarrow> payment_chain \<Rightarrow> ('a payments_db_scheme) \<Rightarrow> agent_wallet_row option" where
  "findAgentWallet agentId mode chain s =
     find_row (\<lambda>w. aw_agent_id w = agentId \<and> aw_mode w = mode \<and> aw_chain w = chain \<and> aw_status w = WalletActive)
       (agent_chain_wallets s)"

definition readSpendableMicros :: "pay_world \<Rightarrow> agent_wallet_row \<Rightarrow> int \<Rightarrow> payment_mode \<Rightarrow> app_error + int" where
  "readSpendableMicros W wallet gasReserve mode =
     bindE (pw_balance W (aw_address wallet) (aw_chain wallet) mode) (\<lambda>balance. Inr (max 0 (balance - gasReserve)))"

definition destination_allowed :: "string \<Rightarrow> payment_chain \<Rightarrow> string \<Rightarrow> ('a payments_db_scheme) \<Rightarrow> bool" where
  "destination_allowed orgId chain address s =
     list_ex (\<lambda>d. al_org_id d = orgId \<and> al_chain d = chain \<and> toLowerCase (al_address d) = toLowerCase address \<and> al_active d)
       (destination_allowlist s)"

section \<open>Reserving a payment\<close>

definition undo_payments :: "'a payments_db_scheme \<Rightarrow> 'a payments_db_scheme \<Rightarrow> 'a payments_db_scheme" where
  "undo_payments s s' =
     s'\<lparr>payment_reservations := payment_reservations s, ledger_postings := ledger_postings s,
        payment_attempts := payment_attempts s, payment_accounts := payment_accounts s\<rparr>"

definition assertSourceUsable :: "source_row \<Rightarrow> runtime_quote \<Rightarrow> app_error + unit" where
  "assertSourceUsable source quote =
     bindE (guardE (\<not> (so_provider source \<in> {CircleGatewayP, CircleWalletsP} \<and>
                      (so_external_wallet_id source = None \<or> so_address source = None)))
       (conflict ''payment_source_not_live'' ''Circle payment source is missing its wallet address or Circle wallet id.'')) (\<lambda>_.
     bindE (guardE (\<not> (qt_settlementKind quote = Gateway \<and> so_provider source \<notin> {CircleGatewayP, SimulationP}))
       (conflict ''payment_source_incompatible'' ''Gateway x402 payments require a Gateway payment source.'')) (\<lambda>_.
     bindE (guardE (\<not> (qt_settlementKind quote = DirectExact \<and> so_provider source \<notin> {CircleWalletsP, SimulationP}))
       (conflict ''payment_source_incompatible'' ''Exact x402 payments require a Circle Wallets payment source.'')) (\<lambda>_.
     guardE (\<not> (so_provider source = SimulationP \<and> so_simulated_balance source < qt_amountMicros quote))
       (conflict ''insufficient_payment_source_balance'' ''Payment source does not have enough simulated balance.''))))"

definition source_mode :: "source_row \<Rightarrow> payment_mode \<Rightarrow> provider_mode" where
  "source_mode source mode = (if so_provider source = SimulationP then SimulationMode else ProviderMode mode)"

definition quote_payload :: "runtime_quote \<Rightarrow> x402_input \<Rightarrow> provider_mode \<Rightarrow> obj" where
  "quote_payload quote paymentInput providerMode =
     [(''accept'', VObj (accept_json (qt_accept quote))), (''resource'', VObj (or_else (xi_resource paymentInput) [])),
      (''mode'', VStr (provider_mode_name providerMode)),
      (''x402'', VObj [(''amount'', VStr (qt_x402Amount quote)), (''network'', VStr (qt_x402Network quote))])]"

definition bound_input :: "x402_input \<Rightarrow> string \<Rightarrow> string \<Rightarrow> x402_input" where
  "bound_input paymentInput quoteHash requestHash =
     paymentInput\<lparr>xi_context := Some (spread (or_else (xi_context paymentInput) [])
       [(''quote_hash'', VStr quoteHash), (''request_hash'', VStr requestHash)])\<rparr>"

text \<open>Cap, budget and the agent's own balance on the chain.\<close>

definition assertWithinBudget :: "account_row \<Rightarrow> runtime_quote \<Rightarrow> app_error + unit" where
  "assertWithinBudget account quote =
     bindE (guardE (\<not> (0 < pa_per_request_cap account \<and> pa_per_request_cap account < qt_amountMicros quote))
       (conflict ''per_request_cap_exceeded'' ''Payment amount exceeds the agent per-request cap.'')) (\<lambda>_.
     guardE (pa_spent account + pa_reserved account + qt_amountMicros quote \<le> pa_budget account)
       (conflict ''budget_exceeded'' ''Payment amount exceeds the agent budget.''))"

definition assertWalletBalance ::
  "pay_world \<Rightarrow> string \<Rightarrow> payment_mode \<Rightarrow> runtime_quote \<Rightarrow> ('a payments_db_scheme, unit) op" where
  "assertWalletBalance W agentId mode quote =
     bindM (query (findAgentWallet agentId mode (qt_chain quote))) (\<lambda>wallet.
     case wallet of
       None \<Rightarrow> ret ()
     | Some w \<Rightarrow>
         bindM (liftE (readSpendableMicros W w 0 mode)) (\<lambda>spendable.
         guardM (qt_amountMicros quote \<le> spendable) (conflict ''insufficient_agent_wallet_balance''
           ''Payment amount exceeds the agent wallet spendable balance.'')))"

definition insert_reservation :: "reservation_row \<Rightarrow> ('a payments_db_scheme, unit) op" where
  "insert_reservation r =
     bindM (query (\<lambda>s. list_ex (\<lambda>q. rs_id q = rs_id r) (payment_reservations s))) (\<lambda>dup.
     bindM (guardM (\<not> dup) (PgUniqueViolation ''payment_reservations_pkey'')) (\<lambda>_.
     bindM (guardM (0 < rs_amount r) (PgCheckViolation ''payment_reservations_amount_usdc_check'')) (\<lambda>_.
     bindM (query (\<lambda>s. find_org (rs_org_id r) s \<noteq> None \<and> list_ex (\<lambda>a. ag_id a = rs_agent_id r) (agents s) \<and>
              fk_ok cn_id (rs_connection_id r) (connections s) \<and>
              list_ex (\<lambda>p. so_id p = rs_source_id r) (payment_sources s))) (\<lambda>known.
     bindM (guardM known (PgForeignKeyViolation ''payment_reservations'')) (\<lambda>_.
     modify (\<lambda>s. s\<lparr>payment_reservations := payment_reservations s @ [r]\<rparr>))))))"

definition RESERVATION_WINDOW :: int where
  "RESERVATION_WINDOW = 15 * 60 * 1000"

definition merge_metadata :: "obj \<Rightarrow> int \<Rightarrow> attempt_row \<Rightarrow> attempt_row" where
  "merge_metadata m t a = a\<lparr>at_payment_metadata := spread (at_payment_metadata a) m, at_updated_at := t\<rparr>"

text \<open>The writes of a preparation, after every check has passed.\<close>

definition reserve_payment ::
  "env \<Rightarrow> connection_auth \<Rightarrow> string \<Rightarrow> string \<Rightarrow> payment_mode \<Rightarrow> runtime_quote \<Rightarrow> string \<Rightarrow> obj \<Rightarrow> source_row \<Rightarrow>
   policy_gate \<Rightarrow> ('a payments_db_scheme, attempt_row \<times> string) op" where
  "reserve_payment E auth key requestHash mode quote quoteHash quotePayload source gate =
     bindM (createAttempt E \<lparr>ci_orgId = au_org_id auth, ci_agentId = au_agent_id auth,
       ci_connectionId = au_connection_id auth, ci_sourceId = so_id source, ci_idempotencyKey = key,
       ci_requestHash = requestHash, ci_quoteHash = quoteHash, ci_amountUsdc = qt_amount quote, ci_asset = ''USDC'',
       ci_rail = qt_rail quote, ci_network = qt_x402Network quote, ci_recipient = qt_recipient quote\<rparr>) (\<lambda>attempt.
     bindM (prefixedId E ''payres'') (\<lambda>reservationId.
     bindM now (\<lambda>t.
     bindM (liftE (numeric_cast (qt_amount quote))) (\<lambda>amount.
     bindM (insert_reservation \<lparr>rs_id = reservationId, rs_org_id = au_org_id auth, rs_agent_id = au_agent_id auth,
       rs_connection_id = Some (au_connection_id auth), rs_source_id = so_id source, rs_amount = amount, rs_asset = ''USDC'',
       rs_rail = qt_rail quote, rs_status = RsReserved, rs_reason_code = attempt_reason (at_id attempt),
       rs_quote_hash = quoteHash, rs_quote = quotePayload, rs_expires_at = t + RESERVATION_WINDOW, rs_created_at = t\<rparr>) (\<lambda>_.
     bindM (update_accounts (of_agent (au_org_id auth) (au_agent_id auth)) (reserve_in amount t)) (\<lambda>_.
     bindM (writePosting E \<lparr>wi_orgId = au_org_id auth, wi_agentId = Some (au_agent_id auth), wi_mode = mode,
       wi_chain = Some (qt_chain quote), wi_entryType = EReserve, wi_amountUsdc = ''-'' @ qt_amount quote,
       wi_reservationId = Some reservationId, wi_attemptId = Some (at_id attempt), wi_jobId = None,
       wi_reasonCode = ''x402_attempt_prepared'', wi_createdBy = ''system''\<rparr>) (\<lambda>_.
     bindM (modify (\<lambda>s. s\<lparr>payment_attempts := update_rows (\<lambda>a. at_id a = at_id attempt)
       (merge_metadata (when_some ''approvalId'' (pg_approvalId gate) @
          [(''decisionId'', VStr (pg_decisionId gate)), (''providerMode'', VStr (provider_mode_name (source_mode source mode))),
           (''reservationId'', VStr reservationId)]) t) (payment_attempts s)\<rparr>)) (\<lambda>_.
     ret (attempt, reservationId)))))))))"

definition gate_of :: "approval_needed + policy_gate \<Rightarrow> policy_gate" where
  "gate_of g = (case g of Inl e \<Rightarrow> \<lparr>pg_approvalId = Some (an_approvalId e), pg_decisionId = an_decisionId e\<rparr> | Inr p \<Rightarrow> p)"

definition needed_of :: "approval_needed + policy_gate \<Rightarrow> approval_needed option" where
  "needed_of g = (case g of Inl e \<Rightarrow> Some e | Inr p \<Rightarrow> None)"

text \<open>Everything after the lookup of the idempotency key, for the account found active.\<close>

definition prepare_new ::
  "env \<Rightarrow> pay_world \<Rightarrow> connection_auth \<Rightarrow> string \<Rightarrow> string \<Rightarrow> string \<Rightarrow> x402_input \<Rightarrow> account_row \<Rightarrow>
   ('a payments_db_scheme, prepare_outcome) op" where
  "prepare_new E W auth key requestHash destination paymentInput account =
     bindM (query (orgPaymentMode (au_org_id auth))) (\<lambda>mode.
     bindM (liftE (supportedRuntimeQuotes (xi_accepts paymentInput) mode)) (\<lambda>supportedQuotes.
     bindM (guardM (supportedQuotes \<noteq> []) (conflict ''unsupported_payment_rail''
       ''The x402 payment request is not compatible with this workspace's supported USDC rails.'')) (\<lambda>_.
     case find (\<lambda>q. qt_rail q \<in> set (pa_allowed_rails account)) supportedQuotes of
       None \<Rightarrow> throw (IdentityError ''payment_rail_not_allowed'' 403
         ''This agent is not allowed to use the requested payment rail.'')
     | Some quote \<Rightarrow>
         bindM (query (destination_allowed (au_org_id auth) (qt_chain quote) (qt_recipient quote))) (\<lambda>allowed.
         bindM (guardM allowed (conflict ''payment_destination_not_allowed''
           ''Payment destination is not on the org's verified allowlist.'')) (\<lambda>_.
         bindM (activePaymentSource (au_org_id auth) (qt_rail quote) (qt_chain quote)) (\<lambda>source.
         bindM (liftE (assertSourceUsable source quote)) (\<lambda>_.
         let resource = x402Resource E paymentInput;
             quotePayload = quote_payload quote paymentInput (source_mode source mode)
         in bindM (liftE (digest E (VObj quotePayload))) (\<lambda>quoteHash.
            let boundInput = bound_input paymentInput quoteHash requestHash
            in bindM (enforceX402Policy E auth boundInput quote resource (pa_approval_threshold account)) (\<lambda>gate.
               bindM (if needed_of gate = None \<and> so_provider source \<noteq> SimulationP then assertRailVerified mode quote
                      else ret ()) (\<lambda>_.
               bindM (liftE (assertWithinBudget account quote)) (\<lambda>_.
               bindM (assertWalletBalance W (au_agent_id auth) mode quote) (\<lambda>_.
               bindM (reserve_payment E auth key requestHash mode quote quoteHash quotePayload source (gate_of gate)) (\<lambda>(attempt, reservationId).
               ret (Prepared \<lparr>pp_approvalRequired = needed_of gate, pp_attempt = attempt, pp_destination = destination,
                 pp_mode = mode, pp_paymentInput = boundInput, pp_policyGate = gate_of gate, pp_quote = quote,
                 pp_quoteHash = quoteHash, pp_quotePayload = quotePayload, pp_reservationId = reservationId,
                 pp_resource = resource, pp_source = source\<rparr>))))))))))))))"

definition preparePaidHttpPayment ::
  "env \<Rightarrow> pay_world \<Rightarrow> connection_auth \<Rightarrow> string \<Rightarrow> string \<Rightarrow> string \<Rightarrow> x402_input \<Rightarrow> ('a payments_db_scheme, prepare_outcome) op" where
  "preparePaidHttpPayment E W auth key requestHash destination paymentInput =
     transactionOn undo_payments (
       bindM (activePaymentAccount auth) (\<lambda>account.
       bindM (findAttempt (au_connection_id auth) key) (\<lambda>raced.
       case raced of
         Some attempt \<Rightarrow>
           bindM (guardM (at_request_hash attempt = requestHash) IDEMPOTENCY_CONFLICT) (\<lambda>_.
           ret (Existing attempt))
       | None \<Rightarrow> prepare_new E W auth key requestHash destination paymentInput account)))"

section \<open>Recording an outcome\<close>

definition safeResponseMetadata :: "paid_response option \<Rightarrow> obj" where
  "safeResponseMetadata response =
     (case response of
        None \<Rightarrow> []
      | Some r \<Rightarrow> [(''contentLength'', jint (int (re_sizeBytes r)))] @ when_some ''contentType'' (re_contentType r) @
          [(''statusCode'', jint (int (re_status r)))])"

definition recordRouteObservation :: "env \<Rightarrow> (string \<Rightarrow> observation_row) \<Rightarrow> ('a payments_db_scheme, unit) op" where
  "recordRouteObservation E row =
     bindM (prefixedId E ''payobs'') (\<lambda>i.
     bindM (query (\<lambda>s. find_org (ob_org_id (row i)) s \<noteq> None \<and> list_ex (\<lambda>a. ag_id a = ob_agent_id (row i)) (agents s) \<and>
              fk_ok cn_id (ob_connection_id (row i)) (connections s))) (\<lambda>known.
     bindM (guardM known (PgForeignKeyViolation ''payment_route_observations'')) (\<lambda>_.
     modify (\<lambda>s. s\<lparr>route_observations := route_observations s @ [row i]\<rparr>))))"

definition insert_event :: "payment_event_row \<Rightarrow> ('a payments_db_scheme, unit) op" where
  "insert_event e =
     bindM (query (\<lambda>s. list_ex (\<lambda>x. pe_id x = pe_id e) (payment_events s))) (\<lambda>dup.
     bindM (guardM (\<not> dup) (PgUniqueViolation ''payment_events_pkey'')) (\<lambda>_.
     bindM (guardM (0 < pe_amount e) (PgCheckViolation ''payment_events_amount_usdc_check'')) (\<lambda>_.
     bindM (query (\<lambda>s. find_org (pe_org_id e) s \<noteq> None \<and> list_ex (\<lambda>a. ag_id a = pe_agent_id e) (agents s) \<and>
              fk_ok cn_id (pe_connection_id e) (connections s) \<and> fk_ok so_id (pe_source_id e) (payment_sources s) \<and>
              fk_ok rs_id (pe_reservation_id e) (payment_reservations s))) (\<lambda>known.
     bindM (guardM known (PgForeignKeyViolation ''payment_events'')) (\<lambda>_.
     modify (\<lambda>s. s\<lparr>payment_events := payment_events s @ [e]\<rparr>))))))"

definition draw_simulated :: "source_row \<Rightarrow> int \<Rightarrow> ('a payments_db_scheme, unit) op" where
  "draw_simulated source amount =
     (if so_provider source \<noteq> SimulationP then ret ()
      else
        bindM (query (\<lambda>s. list_all (\<lambda>p. amount \<le> so_simulated_balance p) (filter (\<lambda>p. so_id p = so_id source) (payment_sources s)))) (\<lambda>covered.
        bindM (guardM covered (PgCheckViolation ''payment_sources_simulated_balance_usdc_check'')) (\<lambda>_.
        modify (\<lambda>s. s\<lparr>payment_sources := update_rows (\<lambda>p. so_id p = so_id source)
          (\<lambda>p. p\<lparr>so_simulated_balance := so_simulated_balance p - amount\<rparr>) (payment_sources s)\<rparr>))))"

text \<open>The event row shared by the outcomes.\<close>

definition outcome_event ::
  "connection_auth \<Rightarrow> prepared_payment \<Rightarrow> settlement \<Rightarrow> string \<Rightarrow> string \<Rightarrow> int \<Rightarrow> obj \<Rightarrow> string \<Rightarrow> payment_event_row" where
  "outcome_event auth p settlement eventId decision amount result activityId =
     \<lparr>pe_id = eventId, pe_org_id = au_org_id auth, pe_agent_id = au_agent_id auth,
      pe_connection_id = Some (au_connection_id auth), pe_source_id = Some (so_id (pp_source p)),
      pe_reservation_id = Some (pp_reservationId p), pe_decision = decision,
      pe_provider_mode = st_providerMode settlement, pe_rail = qt_rail (pp_quote p), pe_chain = qt_chain (pp_quote p),
      pe_amount = amount, pe_asset = ''USDC'', pe_recipient = qt_recipient (pp_quote p),
      pe_network = qt_x402Network (pp_quote p), pe_resource_url = xr_url (pp_resource p),
      pe_resource_category = xr_category (pp_resource p), pe_quote = pp_quotePayload p, pe_result = result,
      pe_activity_id = Some activityId\<rparr>"

definition outcome_result ::
  "connection_auth \<Rightarrow> prepared_payment \<Rightarrow> settlement \<Rightarrow> string \<Rightarrow> attempt_status \<Rightarrow> string option \<Rightarrow> payment_result" where
  "outcome_result auth p settlement eventId status errorCode =
     \<lparr>pr_id = Some eventId, pr_attemptId = at_id (pp_attempt p), pr_status = status,
      pr_providerMode = Some (st_providerMode settlement), pr_rail = Some (qt_rail (pp_quote p)),
      pr_amount = Some (qt_amount (pp_quote p)), pr_asset = Some ''USDC'', pr_agentId = au_agent_id auth,
      pr_connectionId = au_connection_id auth, pr_sourceId = Some (so_id (pp_source p)),
      pr_reservationId = Some (pp_reservationId p), pr_recipient = Some (qt_recipient (pp_quote p)),
      pr_network = Some (case st_payment settlement of Some y \<Rightarrow> sp_network y | None \<Rightarrow> qt_x402Network (pp_quote p)),
      pr_transaction = Option.bind (st_payment settlement) sp_transaction,
      pr_payer = Option.bind (st_payment settlement) sp_payer,
      pr_errorCode = errorCode, pr_response = st_response settlement\<rparr>"

definition outcome_metadata :: "prepared_payment \<Rightarrow> settlement \<Rightarrow> string \<Rightarrow> obj" where
  "outcome_metadata p settlement eventId =
     [(''eventId'', VStr eventId)] @ when_some ''payer'' (Option.bind (st_payment settlement) sp_payer) @
     [(''providerMode'', VStr (provider_mode_name (st_providerMode settlement))),
      (''reservationId'', VStr (pp_reservationId p))] @
     when_some ''transactionHash'' (Option.bind (st_payment settlement) sp_transaction)"

text \<open>
  The final \<open>UPDATE runtime_payment_attempts ... WHERE ... status = 'submitting'\<close>, with its row
  count check. A settlement replaces the stored metadata, the other outcomes merge into it.
\<close>

definition close_attempt ::
  "pay_world \<Rightarrow> connection_auth \<Rightarrow> string \<Rightarrow> attempt_status \<Rightarrow> (obj \<Rightarrow> obj) \<Rightarrow> settlement \<Rightarrow> stored_result \<Rightarrow> string option \<Rightarrow>
   ('a payments_db_scheme, unit) op" where
  "close_attempt W auth i status metadata settlement stored errorCode =
     (let scope = \<lparr>sc_connectionId = au_connection_id auth, sc_orgId = au_org_id auth\<rparr>;
          open' = (\<lambda>a. in_scope scope i a \<and> at_status a = AtSubmitting)
      in bindM now (\<lambda>t.
         bindM (query (\<lambda>s. length (filter open' (payment_attempts s)))) (\<lambda>updated.
         bindM (modify (\<lambda>s. s\<lparr>payment_attempts := update_rows open' (\<lambda>a. a\<lparr>at_status := status,
             at_payment_metadata := metadata (at_payment_metadata a),
             at_response_metadata := safeResponseMetadata (st_response settlement),
             at_encrypted_result := Some (cx_encrypt (pw_codec W) i scope stored),
             at_result_expires_at := Some (t + RESULT_RETENTION), at_error_code := errorCode,
             at_finalized_at := Some t, at_updated_at := t\<rparr>) (payment_attempts s)\<rparr>)) (\<lambda>_.
         guardM (updated = 1) (conflict ''payment_attempt_state_conflict'' ''Payment attempt state changed.'')))))"

definition outcome_audit ::
  "connection_auth \<Rightarrow> prepared_payment \<Rightarrow> string \<Rightarrow> audit_outcome \<Rightarrow> string \<Rightarrow> string \<Rightarrow> string option \<Rightarrow> obj \<Rightarrow> audit_input" where
  "outcome_audit auth p status outcome level eventId approvalId payload =
     (audit_entry (au_org_id auth) (''payment.x402.'' @ status) ''connection'' (Some (au_connection_id auth)) outcome)
     \<lparr>ai_idempotencyKey := Some (''payment.x402.'' @ status @ '':'' @ at_id (pp_attempt p)),
      ai_resource := Some (''payment_event'', eventId),
      ai_classification := \<lparr>cl_domain = Some ''payment'', cl_category = Some ''financial'',
        cl_severity = Some level, cl_tags = Some [''section_9'', ''x402'', chain_name (qt_chain (pp_quote p))]\<rparr>,
      ai_relations := \<lparr>rel_agent = Some (au_agent_id auth), rel_team = None, rel_connection = Some (au_connection_id auth),
        rel_walletRef = None, rel_policy = None, rel_wallet = None\<rparr>,
      ai_refs := \<lparr>ref_policy = None, ref_decision = Some (pg_decisionId (pp_policyGate p)), ref_approval = approvalId\<rparr>,
      ai_source := \<lparr>src_section = Some ''section_9'', src_system = Some ''payments'', src_ref = None\<rparr>,
      ai_retentionClass := Some ''payment'',
      ai_payload := Some (VObj payload)\<rparr>"

definition outcome_activity ::
  "connection_auth \<Rightarrow> prepared_payment \<Rightarrow> string \<Rightarrow> audit_outcome \<Rightarrow> obj \<Rightarrow> activity_input" where
  "outcome_activity auth p status outcome payload =
     \<lparr>in_orgId = au_org_id auth, in_agentId = Some (au_agent_id auth), in_connectionId = Some (au_connection_id auth),
      in_decisionId = Some (pg_decisionId (pp_policyGate p)), in_approvalId = pg_approvalId (pp_policyGate p),
      in_category = ''payment'', in_action = ''payment.x402.'' @ status, in_outcome = outcome,
      in_summary = ''x402 payment '' @ status @ '' on '' @ rail_name (qt_rail (pp_quote p)), in_payload = payload\<rparr>"

definition outcome_posting ::
  "connection_auth \<Rightarrow> prepared_payment \<Rightarrow> entry_type \<Rightarrow> string \<Rightarrow> posting_input" where
  "outcome_posting auth p entry reason =
     \<lparr>wi_orgId = au_org_id auth, wi_agentId = Some (au_agent_id auth), wi_mode = pp_mode p,
      wi_chain = Some (qt_chain (pp_quote p)), wi_entryType = entry, wi_amountUsdc = qt_amount (pp_quote p),
      wi_reservationId = Some (pp_reservationId p), wi_attemptId = Some (at_id (pp_attempt p)), wi_jobId = None,
      wi_reasonCode = reason, wi_createdBy = ''system''\<rparr>"

definition finalizeSettledPaidHttpPayment ::
  "env \<Rightarrow> pay_world \<Rightarrow> connection_auth \<Rightarrow> prepared_payment \<Rightarrow> settlement \<Rightarrow> ('a payments_db_scheme, payment_result) op" where
  "finalizeSettledPaidHttpPayment E W auth p settlement =
     (case st_payment settlement of
        None \<Rightarrow> throw (conflict ''payment_settlement_unresolved'' ''The x402 payment did not reach confirmed settlement.'')
      | Some payment \<Rightarrow>
          bindM (guardM (sp_status payment = SpSettled) (conflict (or_else (sp_errorCode payment) ''payment_settlement_unresolved'')
            ''The x402 payment did not reach confirmed settlement.'')) (\<lambda>_.
          withTransaction (
            bindM now (\<lambda>t.
            bindM (close_reservation (au_org_id auth) (pp_reservationId p) RsSettled) (\<lambda>_.
            bindM (liftE (numeric_cast (qt_amount (pp_quote p)))) (\<lambda>amount.
            bindM (update_accounts (of_agent (au_org_id auth) (au_agent_id auth)) (settle_in amount t)) (\<lambda>_.
            bindM (writePosting E (outcome_posting auth p ESettle ''x402_payment_settled'')) (\<lambda>_.
            bindM (draw_simulated (pp_source p) amount) (\<lambda>_.
            bindM (recordRouteObservation E (\<lambda>i. \<lparr>ob_id = i, ob_org_id = au_org_id auth, ob_agent_id = au_agent_id auth,
              ob_connection_id = Some (au_connection_id auth), ob_rail = Some (rail_name (qt_rail (pp_quote p))),
              ob_amount = Some amount, ob_accepted = True, ob_reason_code = ''settled''\<rparr>)) (\<lambda>_.
            bindM (recordActivity E (outcome_activity auth p ''settled'' Success
              [(''amount_usdc'', VStr (qt_amount (pp_quote p))), (''asset'', VStr ''USDC''),
               (''provider_mode'', VStr (provider_mode_name (st_providerMode settlement))),
               (''rail'', VStr (rail_name (qt_rail (pp_quote p)))), (''reservation_id'', VStr (pp_reservationId p)),
               (''response'', VObj (safeResponseMetadata (st_response settlement))), (''source_id'', VStr (so_id (pp_source p))),
               (''transaction'', nullable (sp_transaction payment))])) (\<lambda>activity.
            bindM (prefixedId E ''payevt'') (\<lambda>eventId.
            bindM (insert_event (outcome_event auth p settlement eventId ''settled'' amount
              [(''payment'', VObj [(''network'', VStr (sp_network payment)), (''status'', VStr ''settled''),
                 (''transaction'', nullable (sp_transaction payment))]),
               (''response'', VObj (safeResponseMetadata (st_response settlement)))] (it_id activity))) (\<lambda>_.
            let result = outcome_result auth p settlement eventId AtSettled None
            in bindM (close_attempt W auth (at_id (pp_attempt p)) AtSettled (\<lambda>_. outcome_metadata p settlement eventId)
                 settlement (StoredResult result) None) (\<lambda>_.
               bindM (recordAuditEvent E (outcome_audit auth p ''settled'' Success ''info'' eventId
                 (pg_approvalId (pp_policyGate p))
                 [(''amount_usdc'', VStr (qt_amount (pp_quote p))), (''asset'', VStr ''USDC''),
                  (''provider_mode'', VStr (provider_mode_name (st_providerMode settlement))),
                  (''rail'', VStr (rail_name (qt_rail (pp_quote p)))),
                  (''response'', VObj (safeResponseMetadata (st_response settlement))),
                  (''transaction'', nullable (sp_transaction payment))])) (\<lambda>_.
               ret result)))))))))))))))"

definition terminal_status :: "settlement \<Rightarrow> attempt_status" where
  "terminal_status settlement =
     (case st_payment settlement of
        Some y \<Rightarrow> if sp_status y = SpFailed then AtFailed else AtUnknown
      | None \<Rightarrow> AtUnknown)"

definition terminal_error :: "settlement \<Rightarrow> string" where
  "terminal_error settlement =
     or_else (Option.bind (st_payment settlement) sp_errorCode)
       (if terminal_status settlement = AtFailed then ''payment_settlement_failed'' else ''payment_settlement_unknown'')"

definition release_failed :: "env \<Rightarrow> connection_auth \<Rightarrow> prepared_payment \<Rightarrow> ('a payments_db_scheme, unit) op" where
  "release_failed E auth p =
     bindM now (\<lambda>t.
     bindM (close_reservation (au_org_id auth) (pp_reservationId p) RsReleased) (\<lambda>_.
     bindM (liftE (numeric_cast (qt_amount (pp_quote p)))) (\<lambda>amount.
     bindM (update_accounts (of_agent (au_org_id auth) (au_agent_id auth)) (release_in amount t)) (\<lambda>_.
     bindM (writePosting E (outcome_posting auth p ERelease ''x402_payment_failed'')) (\<lambda>_.
     ret ())))))"

definition finalizeTerminalPaidHttpPayment ::
  "env \<Rightarrow> pay_world \<Rightarrow> connection_auth \<Rightarrow> prepared_payment \<Rightarrow> settlement \<Rightarrow> ('a payments_db_scheme, payment_result) op" where
  "finalizeTerminalPaidHttpPayment E W auth p settlement =
     (let status = terminal_status settlement; errorCode = terminal_error settlement;
          payload = [(''amount_usdc'', VStr (qt_amount (pp_quote p))), (''asset'', VStr ''USDC''),
            (''error_code'', VStr errorCode), (''provider_mode'', VStr (provider_mode_name (st_providerMode settlement))),
            (''rail'', VStr (rail_name (qt_rail (pp_quote p)))),
            (''response'', VObj (safeResponseMetadata (st_response settlement)))]
      in withTransaction (
           bindM (if status = AtFailed then release_failed E auth p else ret ()) (\<lambda>_.
           bindM (recordActivity E (outcome_activity auth p (attempt_status_name status) ErrorOutcome payload)) (\<lambda>activity.
           bindM (prefixedId E ''payevt'') (\<lambda>eventId.
           bindM (liftE (numeric_cast (qt_amount (pp_quote p)))) (\<lambda>amount.
           bindM (insert_event (outcome_event auth p settlement eventId
             (if status = AtFailed then ''failed'' else ''submitted'') amount
             [(''error_code'', VStr errorCode), (''status'', VStr (attempt_status_name status))] (it_id activity))) (\<lambda>_.
           let result = outcome_result auth p settlement eventId status (Some errorCode)
           in bindM (close_attempt W auth (at_id (pp_attempt p)) status
                (\<lambda>m. spread m (outcome_metadata p settlement eventId)) settlement (StoredResult result) (Some errorCode)) (\<lambda>_.
              bindM (recordAuditEvent E (outcome_audit auth p (attempt_status_name status) ErrorOutcome ''warning'' eventId
                None payload)) (\<lambda>_.
              ret result)))))))))"

section \<open>Between submission and outcome\<close>

definition persistPaidHttpProviderEvidence ::
  "pay_world \<Rightarrow> connection_auth \<Rightarrow> string \<Rightarrow> settlement \<Rightarrow> ('a payments_db_scheme, unit) op" where
  "persistPaidHttpProviderEvidence W auth i settlement =
     (let scope = \<lparr>sc_connectionId = au_connection_id auth, sc_orgId = au_org_id auth\<rparr>;
          open' = (\<lambda>a. in_scope scope i a \<and> at_status a = AtSubmitting)
      in bindM now (\<lambda>t.
         bindM (query (\<lambda>s. length (filter open' (payment_attempts s)))) (\<lambda>updated.
         bindM (modify (\<lambda>s. s\<lparr>payment_attempts := update_rows open' (\<lambda>a. a\<lparr>
             at_encrypted_result := Some (cx_encrypt (pw_codec W) i scope (StoredEvidence settlement)),
             at_result_expires_at := Some (t + RESULT_RETENTION),
             at_response_metadata := safeResponseMetadata (st_response settlement),
             at_payment_metadata := spread (at_payment_metadata a)
               ([(''providerMode'', VStr (provider_mode_name (st_providerMode settlement)))] @
                when_some ''payer'' (Option.bind (st_payment settlement) sp_payer) @
                when_some ''transactionHash'' (Option.bind (st_payment settlement) sp_transaction)),
             at_updated_at := t\<rparr>) (payment_attempts s)\<rparr>)) (\<lambda>_.
         guardM (updated = 1) (conflict ''payment_attempt_state_conflict'' ''Payment attempt state changed.'')))))"

definition markPaidHttpAttemptRetryable ::
  "connection_auth \<Rightarrow> string \<Rightarrow> string \<Rightarrow> ('a payments_db_scheme, unit) op" where
  "markPaidHttpAttemptRetryable auth i reason =
     bindM now (\<lambda>t.
     modify (\<lambda>s. s\<lparr>payment_attempts := update_rows
       (\<lambda>a. in_scope \<lparr>sc_connectionId = au_connection_id auth, sc_orgId = au_org_id auth\<rparr> i a \<and> at_status a = AtReserved)
       (merge_metadata [(''resumeReason'', VStr reason)] t) (payment_attempts s)\<rparr>))"

section \<open>Ambiguous outcomes\<close>

datatype resolution = ResolveFailed | ResolveSettled

definition unknown_event :: "string \<Rightarrow> string \<Rightarrow> payment_event_row \<Rightarrow> bool" where
  "unknown_event orgId reservationId e \<longleftrightarrow>
     pe_reservation_id e = Some reservationId \<and> pe_org_id e = orgId \<and> json_text (get_prop (pe_result e) ''status'') = Some ''unknown''"

definition resolve_posting ::
  "operator_context \<Rightarrow> reservation_row \<Rightarrow> payment_mode \<Rightarrow> entry_type \<Rightarrow> string \<Rightarrow> posting_input" where
  "resolve_posting operator row mode entry reason =
     release_posting (rs_org_id row) (rs_agent_id row) mode entry (rs_amount row) (rs_id row) reason (op_actorId operator)"

definition resolution_audit ::
  "operator_context \<Rightarrow> reservation_row \<Rightarrow> resolution \<Rightarrow> audit_input" where
  "resolution_audit operator row outcome =
     (audit_entry (rs_org_id row) ''payment.unknown.resolve'' ''user'' (Some (op_actorId operator)) Success)
     \<lparr>ai_eventType := ''payment.unknown.resolved'',
      ai_idempotencyKey := Some (''payment.unknown.resolved:'' @ rs_id row),
      ai_resource := Some (''payment_reservation'', rs_id row),
      ai_classification := \<lparr>cl_domain = Some ''payment'', cl_category = Some ''financial'',
        cl_severity = Some ''warning'', cl_tags = Some [''section_9'', ''unknown_attempt_resolution'']\<rparr>,
      ai_relations := \<lparr>rel_agent = Some (rs_agent_id row), rel_team = None, rel_connection = None,
        rel_walletRef = None, rel_policy = None, rel_wallet = None\<rparr>,
      ai_source := \<lparr>src_section = Some ''section_9'', src_system = Some ''payments'', src_ref = None\<rparr>,
      ai_retentionClass := Some ''payment'',
      ai_payload := Some (VObj [(''amount_usdc'', VStr (numeric_text (rs_amount row))),
        (''outcome'', VStr (if outcome = ResolveFailed then ''failed'' else ''settled'')),
        (''rail'', VStr (rail_name (rs_rail row)))])\<rparr>"

definition resolveUnknownAttempt ::
  "env \<Rightarrow> operator_context \<Rightarrow> string \<Rightarrow> string \<Rightarrow> resolution \<Rightarrow> ('a payments_db_scheme, unit) op" where
  "resolveUnknownAttempt E operator orgId reservationId outcome =
     withTransaction (
       bindM (query (\<lambda>s. find_row (\<lambda>r. rs_id r = reservationId \<and> rs_org_id r = orgId \<and> rs_status r = RsReserved)
         (payment_reservations s))) (\<lambda>found.
       case found of
         None \<Rightarrow> throw (notFound ''Unknown attempt reservation was not found.'')
       | Some row \<Rightarrow>
           bindM (query (\<lambda>s. list_ex (unknown_event orgId reservationId) (payment_events s))) (\<lambda>ambiguous.
           bindM (guardM ambiguous (badRequest ''not_an_unknown_attempt'' ''Reservation is not in an unknown-status attempt.'')) (\<lambda>_.
           bindM now (\<lambda>t.
           bindM (modify (\<lambda>s. s\<lparr>payment_reservations := update_rows (\<lambda>r. rs_id r = reservationId \<and> rs_org_id r = orgId)
             (\<lambda>r. r\<lparr>rs_status := (if outcome = ResolveFailed then RsReleased else RsSettled)\<rparr>) (payment_reservations s)\<rparr>)) (\<lambda>_.
           bindM (query (orgPaymentMode orgId)) (\<lambda>mode.
           bindM (if outcome = ResolveFailed then
                    bindM (update_accounts (of_agent orgId (rs_agent_id row)) (release_in (rs_amount row) t)) (\<lambda>_.
                    writePosting E (resolve_posting operator row mode ERelease ''unknown_attempt_resolved_failed''))
                  else
                    bindM (update_accounts (of_agent orgId (rs_agent_id row)) (settle_in (rs_amount row) t)) (\<lambda>_.
                    writePosting E (resolve_posting operator row mode ESettle ''unknown_attempt_resolved_settled''))) (\<lambda>_.
           bindM (recordAuditEvent E (resolution_audit operator row outcome)) (\<lambda>_.
           ret ())))))))))"

section \<open>The agent's payment account\<close>

record access_input =
  xs_active :: bool
  xs_allowed_rails :: "string list"
  xs_budget :: usdc_text
  xs_per_request_cap :: usdc_text
  xs_approval_threshold :: "usdc_text option"
  xs_dedicated_wallet_required :: bool

primrec normalizeRails :: "string list \<Rightarrow> app_error + payment_rail list" where
  "normalizeRails [] = Inr []"
| "normalizeRails (r # rs) = bindE (normalizeRail r) (\<lambda>x. bindE (normalizeRails rs) (\<lambda>xs. Inr (x # xs)))"

definition configured ::
  "access_input \<Rightarrow> payment_rail list \<Rightarrow> int \<Rightarrow> int \<Rightarrow> int option \<Rightarrow> int \<Rightarrow> account_row \<Rightarrow> account_row" where
  "configured input rails budget cap threshold t a =
     a\<lparr>pa_active := xs_active input, pa_payment_access := xs_active input, pa_budget := budget,
       pa_per_request_cap := cap, pa_approval_threshold := threshold,
       pa_dedicated_wallet_required := xs_dedicated_wallet_required input, pa_allowed_rails := rails, pa_updated_at := t\<rparr>"

definition upsert_account :: "account_row \<Rightarrow> (account_row \<Rightarrow> account_row) \<Rightarrow> ('a payments_db_scheme, unit) op" where
  "upsert_account fresh f =
     bindM (query (find_account (pa_org_id fresh) (pa_agent_id fresh))) (\<lambda>existing.
     case existing of
       None \<Rightarrow>
         bindM (guardM (account_checks fresh) (PgCheckViolation ''agent_payment_accounts_check'')) (\<lambda>_.
         bindM (query (\<lambda>s. list_ex (\<lambda>a. pa_id a = pa_id fresh) (payment_accounts s))) (\<lambda>dup.
         bindM (guardM (\<not> dup) (PgUniqueViolation ''agent_payment_accounts_pkey'')) (\<lambda>_.
         modify (\<lambda>s. s\<lparr>payment_accounts := payment_accounts s @ [fresh]\<rparr>))))
     | Some row \<Rightarrow> bindM (update_accounts (of_agent (pa_org_id fresh) (pa_agent_id fresh)) f) (\<lambda>_. ret ()))"

text \<open>Wallets are provisioned by a worker: one queued job per chain that has neither a wallet nor a job.\<close>

definition pending_wallet_chains :: "string \<Rightarrow> string \<Rightarrow> payment_mode \<Rightarrow> ('a payments_db_scheme) \<Rightarrow> payment_chain option list" where
  "pending_wallet_chains orgId agentId mode s =
     map (\<lambda>w. Some (aw_chain w)) (filter (\<lambda>w. aw_agent_id w = agentId \<and> aw_mode w = mode \<and>
       aw_status w \<in> {WalletProvisioning, WalletActive}) (agent_chain_wallets s)) @
     map pj_chain (filter (\<lambda>j. pj_org_id j = orgId \<and> pj_mode j = mode \<and> pj_job_type j = ''agent_wallet.create'' \<and>
       pj_status j \<in> {JobQueued, JobSubmitted} \<and> json_text (get_prop (pj_metadata j) ''agent_id'') = Some agentId) (provider_jobs s))"

definition enqueueAgentWalletProvisioning ::
  "env \<Rightarrow> string \<Rightarrow> string \<Rightarrow> payment_mode \<Rightarrow> payment_chain list \<Rightarrow> string \<Rightarrow> ('a payments_db_scheme, unit) op" where
  "enqueueAgentWalletProvisioning E orgId agentId mode wanted createdBy =
     foldM (\<lambda>_ chain.
       bindM (prefixedId E ''cjob'') (\<lambda>i.
       bindM (query (\<lambda>s. list_ex (\<lambda>j. pj_id j = i) (provider_jobs s))) (\<lambda>dup.
       bindM (guardM (\<not> dup) (PgUniqueViolation ''circle_provider_jobs_pkey'')) (\<lambda>_.
       modify (\<lambda>s. s\<lparr>provider_jobs := provider_jobs s @ [\<lparr>pj_id = i, pj_org_id = orgId, pj_mode = mode,
         pj_job_type = ''agent_wallet.create'', pj_chain = Some chain, pj_status = JobQueued, pj_amount = None,
         pj_error_code = None, pj_metadata = [(''agent_id'', VStr agentId)], pj_created_by = createdBy\<rparr>]\<rparr>))))) () wanted"

primrec railChains :: "payment_rail list \<Rightarrow> app_error + payment_chain list" where
  "railChains [] = Inr []"
| "railChains (r # rs) = bindE (chainFromRail r) (\<lambda>c. bindE (railChains rs) (\<lambda>cs. Inr (c # cs)))"

definition provision_missing ::
  "env \<Rightarrow> operator_context \<Rightarrow> string \<Rightarrow> string \<Rightarrow> payment_rail list \<Rightarrow> ('a payments_db_scheme, unit) op" where
  "provision_missing E operator orgId agentId rails =
     bindM (query (orgPaymentMode orgId)) (\<lambda>mode.
     bindM (liftE (railChains rails)) (\<lambda>requested.
     bindM (query (pending_wallet_chains orgId agentId mode)) (\<lambda>handled.
     enqueueAgentWalletProvisioning E orgId agentId mode
       (filter (\<lambda>c. Some c \<notin> set handled) (rev (remdups (rev requested)))) (op_actorId operator))))"

text \<open>No transaction: each statement commits by itself.\<close>

definition setAgentPaymentAccess ::
  "env \<Rightarrow> operator_context \<Rightarrow> string \<Rightarrow> string \<Rightarrow> access_input \<Rightarrow> ('a payments_db_scheme, account_row) op" where
  "setAgentPaymentAccess E operator orgId agentId input =
     bindM (query (find_agent orgId agentId)) (\<lambda>agent.
     bindM (guardM (agent \<noteq> None) (notFound ''Agent was not found.'')) (\<lambda>_.
     bindM (liftE (normalizeRails (xs_allowed_rails input))) (\<lambda>rails.
     bindM (liftE (assertNonNegativeUsdc (xs_budget input) ''budget_usdc'')) (\<lambda>budgetText.
     bindM (liftE (assertNonNegativeUsdc (xs_per_request_cap input) ''per_request_cap_usdc'')) (\<lambda>capText.
     bindM (liftE (case xs_approval_threshold input of None \<Rightarrow> Inr None
       | Some u \<Rightarrow> bindE (assertPositiveUsdc u ''approval_threshold_usdc'') (\<lambda>text. Inr (Some text)))) (\<lambda>thresholdText.
     bindM (prefixedId E ''payacct'') (\<lambda>i.
     bindM now (\<lambda>t.
     bindM (liftE (numeric_cast budgetText)) (\<lambda>budget.
     bindM (liftE (numeric_cast capText)) (\<lambda>cap.
     bindM (liftE (case thresholdText of None \<Rightarrow> Inr None
       | Some text \<Rightarrow> bindE (numeric_cast text) (\<lambda>m. Inr (Some m)))) (\<lambda>threshold.
     let fresh = \<lparr>pa_id = i, pa_org_id = orgId, pa_agent_id = agentId, pa_active = xs_active input,
           pa_payment_access = xs_active input, pa_budget = budget, pa_spent = 0, pa_reserved = 0,
           pa_per_request_cap = cap, pa_approval_threshold = threshold,
           pa_dedicated_wallet_required = xs_dedicated_wallet_required input, pa_allowed_rails = rails, pa_updated_at = t\<rparr>
     in bindM (upsert_account fresh (configured input rails budget cap threshold t)) (\<lambda>_.
        bindM (query (find_account orgId agentId)) (\<lambda>stored.
        case stored of
          None \<Rightarrow> throw (JsError ''agent_payment_account_upsert_failed'')
        | Some row \<Rightarrow>
            bindM (recordActivity E \<lparr>in_orgId = orgId, in_agentId = Some agentId, in_connectionId = None,
              in_decisionId = None, in_approvalId = None, in_category = ''payment'',
              in_action = (if xs_active input then ''agent.payment_access.enabled'' else ''agent.payment_access.disabled''),
              in_outcome = Success,
              in_summary = (if xs_active input then ''Payment access enabled'' else ''Payment access disabled''),
              in_payload = [(''allowed_rails'', VArr (map (\<lambda>r. VStr (rail_name r)) rails)), (''budget_usdc'', VStr budgetText),
                (''dedicated_wallet_required'', VBool (xs_dedicated_wallet_required input)),
                (''per_request_cap_usdc'', VStr capText)]\<rparr>) (\<lambda>_.
            bindM (if xs_active input then completeProductOnboardingFlow E orgId ''payment_access''
                     [(''agent_id'', VStr agentId), (''source'', VStr ''agent_payment_access_enabled'')]
                   else ret ()) (\<lambda>_.
            bindM (if xs_dedicated_wallet_required input then provision_missing E operator orgId agentId rails
                   else ret ()) (\<lambda>_.
            ret row))))))))))))))))"

end
