(* ===== verification/PaymentMoney.thy ===== *)
theory PaymentMoney
  imports PaidHttp
begin

text \<open>
  The money invariant of the payment tables, and the machine it is an invariant of. Every account's
  \<open>reserved_usdc\<close> is the sum of its open reservations and its \<open>spent_usdc\<close> the sum of its
  settlement postings; every attempt that may still be paid holds an open reservation; no reservation
  is settled twice. The machine interleaves preparations, submissions, outcomes arriving in any order
  and any number of times, cancellations, resolutions by operators and changes of the accounts.
\<close>

section \<open>What the invariant reads\<close>

definition is_live :: "attempt_status \<Rightarrow> bool" where
  "is_live st \<longleftrightarrow> st \<in> {AtReserved, AtSubmitting}"

type_synonym attempt_entry = "string \<times> string \<times> string \<times> bool"

definition attempt_view :: "attempt_row \<Rightarrow> attempt_entry" where
  "attempt_view a = (at_id a, at_org_id a, at_agent_id a, is_live (at_status a))"

definition unknown_rids :: "payment_event_row list \<Rightarrow> string set" where
  "unknown_rids es = {i. \<exists>e \<in> set es. pe_reservation_id e = Some i \<and> json_text (get_prop (pe_result e) ''status'') = Some ''unknown''}"

abbreviation account_key :: "account_row \<Rightarrow> string \<times> string" where
  "account_key a \<equiv> (pa_org_id a, pa_agent_id a)"

abbreviation reservation_key :: "reservation_row \<Rightarrow> string \<times> string" where
  "reservation_key r \<equiv> (rs_org_id r, rs_agent_id r)"

definition reserved_sum :: "string \<times> string \<Rightarrow> reservation_row list \<Rightarrow> int" where
  "reserved_sum k rs = sum_list (map rs_amount (filter (\<lambda>r. reservation_key r = k \<and> rs_status r = RsReserved) rs))"

definition settlement_of :: "string \<times> string \<Rightarrow> posting_row \<Rightarrow> bool" where
  "settlement_of k p \<longleftrightarrow> po_entry_type p = ESettle \<and> po_org_id p = fst k \<and> po_agent_id p = Some (snd k)"

definition settled_sum :: "string \<times> string \<Rightarrow> posting_row list \<Rightarrow> int" where
  "settled_sum k ps = sum_list (map po_amount (filter (settlement_of k) ps))"

definition settle_count :: "string \<Rightarrow> posting_row list \<Rightarrow> nat" where
  "settle_count i ps = length (filter (\<lambda>p. po_entry_type p = ESettle \<and> po_reservation_id p = Some i) ps)"

definition account_ok :: "reservation_row list \<Rightarrow> posting_row list \<Rightarrow> account_row \<Rightarrow> bool" where
  "account_ok res posts a \<longleftrightarrow>
     pa_reserved a = reserved_sum (account_key a) res \<and> pa_spent a = settled_sum (account_key a) posts"

definition reservation_ok ::
  "account_row list \<Rightarrow> posting_row list \<Rightarrow> attempt_entry list \<Rightarrow> reservation_row \<Rightarrow> bool" where
  "reservation_ok accts posts av r \<longleftrightarrow>
     reservation_key r \<in> account_key ` set accts \<and>
     settle_count (rs_id r) posts = (if rs_status r = RsSettled then 1 else 0) \<and>
     (\<exists>i live. (i, rs_org_id r, rs_agent_id r, live) \<in> set av \<and> rs_reason_code r = attempt_reason i \<and>
               (live \<longrightarrow> rs_status r = RsReserved))"

definition posting_ok :: "account_row list \<Rightarrow> reservation_row list \<Rightarrow> posting_row \<Rightarrow> bool" where
  "posting_ok accts res p \<longleftrightarrow>
     (\<forall>i. po_reservation_id p = Some i \<longrightarrow> i \<in> rs_id ` set res) \<and>
     (po_entry_type p = ESettle \<longrightarrow> (\<exists>k \<in> account_key ` set accts. settlement_of k p))"

text \<open>Every live attempt has its reservation; an ambiguous one is no longer live.\<close>

definition money_tables_ok ::
  "account_row list \<Rightarrow> reservation_row list \<Rightarrow> posting_row list \<Rightarrow> attempt_entry list \<Rightarrow> string set \<Rightarrow> bool" where
  "money_tables_ok accts res posts av un \<longleftrightarrow>
     distinct (map account_key accts) \<and> distinct (map rs_id res) \<and> distinct (map rs_reason_code res) \<and>
     distinct (map fst av) \<and>
     (\<forall>a \<in> set accts. account_ok res posts a) \<and> (\<forall>r \<in> set res. reservation_ok accts posts av r) \<and>
     (\<forall>p \<in> set posts. posting_ok accts res p) \<and>
     (\<forall>i og ag. (i, og, ag, True) \<in> set av \<longrightarrow> attempt_reason i \<in> rs_reason_code ` set res) \<and>
     un \<subseteq> rs_id ` set res \<and>
     (\<forall>r i og ag. r \<in> set res \<longrightarrow> rs_id r \<in> un \<longrightarrow> rs_reason_code r = attempt_reason i \<longrightarrow> (i, og, ag, True) \<notin> set av)"

lemma attempt_reason_inj [simp]: "attempt_reason i = attempt_reason j \<longleftrightarrow> i = j"
  by (simp add: attempt_reason_def)

lemma reserved_sum_append [simp]:
  "reserved_sum k (rs @ [r]) = reserved_sum k rs + (if reservation_key r = k \<and> rs_status r = RsReserved then rs_amount r else 0)"
  by (simp add: reserved_sum_def)

lemma settled_sum_append [simp]:
  "settled_sum k (ps @ [p]) = settled_sum k ps + (if settlement_of k p then po_amount p else 0)"
  by (simp add: settled_sum_def)

lemma settle_count_append [simp]:
  "settle_count i (ps @ [p]) = settle_count i ps + (if po_entry_type p = ESettle \<and> po_reservation_id p = Some i then 1 else 0)"
  by (simp add: settle_count_def)

section \<open>Steps on the tables\<close>

definition with_status :: "reservation_status \<Rightarrow> reservation_row \<Rightarrow> reservation_row" where
  "with_status st r = r\<lparr>rs_status := st\<rparr>"

lemma with_status_simps [simp]:
  "rs_id (with_status st r) = rs_id r" "rs_org_id (with_status st r) = rs_org_id r"
  "rs_agent_id (with_status st r) = rs_agent_id r" "rs_amount (with_status st r) = rs_amount r"
  "rs_reason_code (with_status st r) = rs_reason_code r" "rs_status (with_status st r) = st"
  by (simp_all add: with_status_def)

definition closed_one :: "reservation_row \<Rightarrow> reservation_status \<Rightarrow> reservation_row list \<Rightarrow> reservation_row list" where
  "closed_one r st = update_rows (\<lambda>x. x = r) (with_status st)"

lemma closed_one_map:
  "(\<And>x st. f (with_status st x) = f x) \<Longrightarrow> map f (closed_one r st rs) = map f rs"
  unfolding closed_one_def by (rule map_update_rows) simp

lemma closed_one_image:
  "(\<And>x st. f (with_status st x) = f x) \<Longrightarrow> f ` set (closed_one r st rs) = f ` set rs"
  using arg_cong [OF closed_one_map, of f set r st rs] by simp

lemma reserved_sum_closed:
  assumes "distinct (map rs_id rs)" and "r \<in> set rs" and "rs_status r = RsReserved" and "st \<noteq> RsReserved"
  shows "reserved_sum k (closed_one r st rs) = reserved_sum k rs - (if reservation_key r = k then rs_amount r else 0)"
  using assms
proof (induction rs)
  case (Cons x xs)
  show ?case
  proof (cases "x = r")
    case True
    with Cons.prems have "r \<notin> set xs" by auto
    then have "closed_one r st xs = xs"
      by (auto simp: closed_one_def update_rows_def intro: map_idI)
    with True Cons.prems show ?thesis by (simp add: closed_one_def reserved_sum_def)
  next
    case False
    with Cons show ?thesis by (auto simp: closed_one_def reserved_sum_def)
  qed
qed simp

definition adjusted :: "string \<times> string \<Rightarrow> (account_row \<Rightarrow> account_row) \<Rightarrow> account_row list \<Rightarrow> account_row list" where
  "adjusted k f = update_rows (\<lambda>a. account_key a = k) f"

lemma adjusted_keys: "(\<And>a. account_key (f a) = account_key a) \<Longrightarrow> map account_key (adjusted k f accts) = map account_key accts"
  unfolding adjusted_def by (rule map_update_rows) simp

lemma adjusted_key_set: "(\<And>a. account_key (f a) = account_key a) \<Longrightarrow> account_key ` set (adjusted k f accts) = account_key ` set accts"
  using arg_cong [OF adjusted_keys, of f set k accts] by simp

lemma set_adjusted: "a \<in> set (adjusted k f accts) \<longleftrightarrow> (\<exists>b \<in> set accts. a = (if account_key b = k then f b else b))"
  by (auto simp: adjusted_def set_update_rows)

text \<open>Killing the attempt a reservation belongs to.\<close>

definition killed :: "string \<Rightarrow> attempt_entry list \<Rightarrow> attempt_entry list" where
  "killed reason av = map (\<lambda>(i, og, ag, live). (i, og, ag, live \<and> attempt_reason i \<noteq> reason)) av"

lemma killed_ids [simp]: "map fst (killed c av) = map fst av"
  by (simp add: killed_def case_prod_beta o_def)

lemma set_killed: "(i, og, ag, live) \<in> set (killed c av) \<longleftrightarrow>
    (\<exists>l. (i, og, ag, l) \<in> set av \<and> live = (l \<and> attempt_reason i \<noteq> c))"
  by (induction av) (auto simp: killed_def)

lemma live_killed [simp]: "(i, og, ag, True) \<in> set (killed c av) \<longleftrightarrow> (i, og, ag, True) \<in> set av \<and> attempt_reason i \<noteq> c"
  by (auto simp: set_killed)

lemma money_tables_okD:
  assumes "money_tables_ok accts res posts av un"
  shows "distinct (map account_key accts)" "distinct (map rs_id res)" "distinct (map rs_reason_code res)" "distinct (map fst av)"
    and "a \<in> set accts \<Longrightarrow> account_ok res posts a" and "r \<in> set res \<Longrightarrow> reservation_ok accts posts av r"
    and "p \<in> set posts \<Longrightarrow> posting_ok accts res p"
    and "(i, og, ag, True) \<in> set av \<Longrightarrow> attempt_reason i \<in> rs_reason_code ` set res"
    and "un \<subseteq> rs_id ` set res"
    and "r \<in> set res \<Longrightarrow> rs_id r \<in> un \<Longrightarrow> rs_reason_code r = attempt_reason i \<Longrightarrow> (i, og, ag, True) \<notin> set av"
  using assms unfolding money_tables_ok_def by blast+

lemma reservation_ok_mono:
  assumes "reservation_ok accts posts av x" and "account_key ` set accts = account_key ` set accts'"
    and "settle_count (rs_id x) posts' = settle_count (rs_id x) posts" and "set av \<subseteq> set av'"
  shows "reservation_ok accts' posts' av' x"
  using assms unfolding reservation_ok_def by (metis subset_iff)

text \<open>A reservation is opened for a new attempt.\<close>

lemma money_reserve:
  assumes ok: "money_tables_ok accts res posts av un"
    and r: "rs_id r \<notin> rs_id ` set res" "rs_status r = RsReserved" "reservation_key r = (og, ag)" "rs_reason_code r = attempt_reason i"
    and i: "i \<notin> fst ` set av" and a: "(og, ag) \<in> account_key ` set accts"
    and f: "\<And>x. account_key (f x) = account_key x" "\<And>x. pa_spent (f x) = pa_spent x" "\<And>x. pa_reserved (f x) = pa_reserved x + rs_amount r"
    and p: "po_entry_type p = EReserve" "po_reservation_id p = Some (rs_id r)"
  shows "money_tables_ok (adjusted (og, ag) f accts) (res @ [r]) (posts @ [p]) (av @ [(i, og, ag, True)]) un"
proof -
  have res: "\<forall>x \<in> set res. reservation_ok accts posts av x" using ok by (simp add: money_tables_ok_def)
  have fresh: "rs_reason_code x \<noteq> attempt_reason i" if "x \<in> set res" for x
    using res i that by (force simp: reservation_ok_def image_iff)
  have uncounted: "settle_count (rs_id r) posts = 0"
    using ok r(1) by (auto simp: settle_count_def filter_empty_conv money_tables_ok_def posting_ok_def)
  have s1: "settlement_of k p = False" for k using p by (simp add: settlement_of_def)
  have accounts: "account_ok (res @ [r]) (posts @ [p]) x" if "x \<in> set (adjusted (og, ag) f accts)" for x
    using that ok r(2,3) f s1 by (auto simp: set_adjusted money_tables_ok_def account_ok_def)
  have old: "reservation_ok (adjusted (og, ag) f accts) (posts @ [p]) (av @ [(i, og, ag, True)]) x" if "x \<in> set res" for x
    by (rule reservation_ok_mono [of accts posts av]) (use res that p in \<open>auto simp: adjusted_key_set [OF f(1)]\<close>)
  have new: "reservation_ok (adjusted (og, ag) f accts) (posts @ [p]) (av @ [(i, og, ag, True)]) r"
    using a r p uncounted by (auto simp: reservation_ok_def adjusted_key_set [OF f(1)])
  have posted: "posting_ok (adjusted (og, ag) f accts) (res @ [r]) x" if "x \<in> set (posts @ [p])" for x
    using that ok p by (auto simp: money_tables_ok_def posting_ok_def adjusted_key_set [OF f(1)])
  have av': "(j, x) \<in> set av \<Longrightarrow> j \<noteq> i" for j x
    using i by force
  show ?thesis
    unfolding money_tables_ok_def
  proof (intro conjI allI ballI impI, goal_cases)
    case 3 show ?case using money_tables_okD(3) [OF ok] r(4) fresh by (force simp: image_iff)
  next
    case 4 show ?case using money_tables_okD(4) [OF ok] i by simp
  next
    case (8 j og' ag') then show ?case using money_tables_okD(8) [OF ok, of j] r(4) by auto
  next
    case 9 show ?case using money_tables_okD(9) [OF ok] by auto
  next
    case (10 x j og' ag')
    then have "x \<in> set res" using money_tables_okD(9) [OF ok] r(1) by auto
    then show ?case using 10 money_tables_okD(10) [OF ok, of x j] fresh by auto
  qed (use ok accounts old new posted r(1) in \<open>auto simp: money_tables_okD adjusted_keys [OF f(1)]\<close>)
qed

text \<open>
  A reservation is closed, with the amount leaving \<open>reserved\<close> and, if it is settled, entering
  \<open>spent\<close>; the attempt it belongs to is no longer live.
\<close>

definition closing :: "reservation_row \<Rightarrow> reservation_status \<Rightarrow> posting_row list \<Rightarrow> bool" where
  "closing r st ps \<longleftrightarrow>
     (st = RsReleased \<and> (\<forall>p \<in> set ps. po_entry_type p = ERelease \<and> po_reservation_id p = Some (rs_id r))) \<or>
     (st = RsSettled \<and> (\<exists>p. ps = [p] \<and> settlement_of (reservation_key r) p \<and> po_amount p = rs_amount r \<and>
        po_reservation_id p = Some (rs_id r)))"

definition moved :: "reservation_row \<Rightarrow> reservation_status \<Rightarrow> (account_row \<Rightarrow> account_row) \<Rightarrow> bool" where
  "moved r st f \<longleftrightarrow>
     (\<forall>a. account_key (f a) = account_key a \<and> pa_reserved (f a) = pa_reserved a - rs_amount r \<and>
          pa_spent (f a) = pa_spent a + (if st = RsSettled then rs_amount r else 0))"

lemma closing_postings:
  assumes "closing r st ps"
  shows "settled_sum k (posts @ ps) = settled_sum k posts + (if st = RsSettled \<and> reservation_key r = k then rs_amount r else 0)"
    and "settle_count i (posts @ ps) = settle_count i posts + (if st = RsSettled \<and> i = rs_id r then 1 else 0)"
proof -
  have "settled_sum k (posts @ ps) = settled_sum k posts" "settle_count i (posts @ ps) = settle_count i posts"
    if "\<forall>p \<in> set ps. po_entry_type p = ERelease"
    using that by (auto simp: settled_sum_def settle_count_def settlement_of_def filter_empty_conv)
  with assms show "settled_sum k (posts @ ps) = settled_sum k posts + (if st = RsSettled \<and> reservation_key r = k then rs_amount r else 0)"
    "settle_count i (posts @ ps) = settle_count i posts + (if st = RsSettled \<and> i = rs_id r then 1 else 0)"
    by (auto simp: closing_def settlement_of_def)
qed

lemma money_close:
  assumes ok: "money_tables_ok accts res posts av un" and r: "r \<in> set res" "rs_status r = RsReserved"
    and c: "closing r st ps" and f: "moved r st f"
  shows "money_tables_ok (adjusted (reservation_key r) f accts) (closed_one r st res) (posts @ ps) (killed (rs_reason_code r) av) un"
proof -
  have st: "st \<noteq> RsReserved" using c by (auto simp: closing_def)
  have key: "account_key (f a) = account_key a" for a using f by (simp add: moved_def)
  have d: "distinct (map rs_id res)" using ok by (simp add: money_tables_ok_def)
  have uniq: "x = r" if "x \<in> set res" "rs_id x = rs_id r" for x
    using distinct_key_unique [OF d that(1) r(1) that(2)] .
  have acct: "(reservation_key r) \<in> account_key ` set accts" and once: "settle_count (rs_id r) posts = 0"
    using ok r by (auto simp: money_tables_ok_def reservation_ok_def)
  have ids: "rs_id ` set (closed_one r st res) = rs_id ` set res"
    and reasons: "rs_reason_code ` set (closed_one r st res) = rs_reason_code ` set res"
    by (rule closed_one_image; simp)+
  have accounts: "account_ok (closed_one r st res) (posts @ ps) x" if "x \<in> set (adjusted (reservation_key r) f accts)" for x
    using that ok f by (auto simp: set_adjusted money_tables_ok_def account_ok_def moved_def
        reserved_sum_closed [OF d r st] closing_postings [OF c])
  have others: "reservation_ok accts posts av x" if "x \<in> set res" for x
    using ok that by (simp add: money_tables_ok_def)
  have kept: "reservation_ok (adjusted (reservation_key r) f accts) (posts @ ps) (killed (rs_reason_code r) av) (if x = r then with_status st x else x)"
    if x: "x \<in> set res" for x
  proof -
    obtain i l where il: "(i, rs_org_id x, rs_agent_id x, l) \<in> set av" "rs_reason_code x = attempt_reason i" "l \<longrightarrow> rs_status x = RsReserved"
      using others [OF x] by (auto simp: reservation_ok_def)
    have "(i, rs_org_id x, rs_agent_id x, l \<and> attempt_reason i \<noteq> rs_reason_code r) \<in> set (killed (rs_reason_code r) av)"
      using il(1) by (auto simp: set_killed)
    with il x uniq [OF x] others [OF x] once acct show ?thesis
      by (auto simp: reservation_ok_def adjusted_key_set [OF key] closing_postings [OF c])
  qed
  then have rows: "\<forall>x \<in> set (closed_one r st res). reservation_ok (adjusted (reservation_key r) f accts) (posts @ ps) (killed (rs_reason_code r) av) x"
    by (auto simp: closed_one_def set_update_rows)
  have posted: "posting_ok (adjusted (reservation_key r) f accts) (closed_one r st res) p" if "p \<in> set (posts @ ps)" for p
  proof (cases "p \<in> set posts")
    case True
    with ok show ?thesis by (auto simp: money_tables_ok_def posting_ok_def ids adjusted_key_set [OF key])
  next
    case False
    with that c acct r show ?thesis
      by (auto simp: closing_def posting_ok_def ids adjusted_key_set [OF key])
  qed
  have same: "\<exists>y \<in> set res. rs_id y = rs_id x \<and> rs_reason_code y = rs_reason_code x" if "x \<in> set (closed_one r st res)" for x
    using that by (auto simp: closed_one_def set_update_rows)
  show ?thesis
    unfolding money_tables_ok_def
  proof (intro conjI allI ballI impI, goal_cases)
    case (8 i og ag) then show ?case using money_tables_okD(8) [OF ok, of i] by (auto simp: reasons)
  next
    case (10 x i og ag)
    then obtain y where "y \<in> set res" "rs_id y = rs_id x" "rs_reason_code y = rs_reason_code x" using same by blast
    then show ?case using 10 money_tables_okD(10) [OF ok, of y i] by auto
  qed (use ok accounts rows posted in \<open>auto simp: money_tables_okD adjusted_keys [OF key] closed_one_map ids\<close>)
qed

text \<open>An outcome that stays ambiguous: the reservation stays open and the attempt is dead.\<close>

lemma money_unknown:
  assumes ok: "money_tables_ok accts res posts av un" and r: "r \<in> set res"
  shows "money_tables_ok accts res posts (killed (rs_reason_code r) av) (insert (rs_id r) un)"
proof -
  have uniq: "x = r" if "x \<in> set res" "rs_id x = rs_id r" for x
    using ok distinct_key_unique [of rs_id res x r] that r by (simp add: money_tables_ok_def)
  have rows: "reservation_ok accts posts (killed (rs_reason_code r) av) x" if x: "x \<in> set res" for x
  proof -
    have old: "reservation_ok accts posts av x" by (rule money_tables_okD(6) [OF ok x])
    then obtain i l where il: "(i, rs_org_id x, rs_agent_id x, l) \<in> set av" "rs_reason_code x = attempt_reason i" "l \<longrightarrow> rs_status x = RsReserved"
      by (auto simp: reservation_ok_def)
    then have "(i, rs_org_id x, rs_agent_id x, l \<and> attempt_reason i \<noteq> rs_reason_code r) \<in> set (killed (rs_reason_code r) av)"
      by (auto simp: set_killed)
    with il old show ?thesis by (auto simp: reservation_ok_def)
  qed
  show ?thesis
    unfolding money_tables_ok_def
  proof (intro conjI allI ballI impI, goal_cases)
    case (8 i og ag) then show ?case using money_tables_okD(8) [OF ok, of i] by auto
  next
    case 9 show ?case using money_tables_okD(9) [OF ok] r by auto
  next
    case (10 x i og ag) then show ?case using money_tables_okD(10) [OF ok, of x i] uniq [of x] by auto
  qed (use ok rows in \<open>auto simp: money_tables_okD\<close>)
qed

section \<open>The invariant of a database\<close>

definition money_view ::
  "'a payments_db_scheme \<Rightarrow> account_row list \<times> reservation_row list \<times> posting_row list \<times> attempt_entry list \<times> string set" where
  "money_view s = (payment_accounts s, payment_reservations s, ledger_postings s, map attempt_view (payment_attempts s),
     unknown_rids (payment_events s))"

text \<open>What never changes in a reservation.\<close>

definition rs_static :: "reservation_row \<Rightarrow> string \<times> string \<times> string \<times> string \<times> int" where
  "rs_static r = (rs_id r, rs_org_id r, rs_agent_id r, rs_reason_code r, rs_amount r)"

definition money_at :: "(string \<times> string \<times> string \<times> string \<times> int) set \<Rightarrow> 'a payments_db_scheme \<Rightarrow> bool" where
  "money_at T s \<longleftrightarrow>
     money_tables_ok (payment_accounts s) (payment_reservations s) (ledger_postings s) (map attempt_view (payment_attempts s))
       (unknown_rids (payment_events s)) \<and>
     T \<subseteq> rs_static ` set (payment_reservations s)"

lemma money_at_view: "money_view s' = money_view s \<Longrightarrow> money_at T s' = money_at T s"
  by (simp add: money_view_def money_at_def)

lemma keeps_money: "keeps money_view m \<Longrightarrow> preserves (money_at T) m"
  unfolding keeps_def preserves_def using money_at_view by blast

lemma rs_static_with_status [simp]: "rs_static (with_status st r) = rs_static r"
  by (simp add: rs_static_def)

definition pay_tables ::
  "'a payments_db_scheme \<Rightarrow> account_row list \<times> reservation_row list \<times> posting_row list \<times> attempt_row list \<times> payment_event_row list" where
  "pay_tables s = (payment_accounts s, payment_reservations s, ledger_postings s, payment_attempts s, payment_events s)"

lemma pay_tables_frame [simp]:
  "pay_tables (s\<lparr>uuids := n\<rparr>) = pay_tables s" "pay_tables (s\<lparr>clock := t\<rparr>) = pay_tables s"
  "pay_tables (s\<lparr>audit_events := es\<rparr>) = pay_tables s" "pay_tables (s\<lparr>audit_event_heads := hs\<rparr>) = pay_tables s"
  "pay_tables (s\<lparr>org_onboarding_states := os\<rparr>) = pay_tables s"
  "pay_tables (s\<lparr>policy_decisions := ds\<rparr>) = pay_tables s" "pay_tables (s\<lparr>approval_requests := rs\<rparr>) = pay_tables s"
  "pay_tables (s\<lparr>approval_votes := vs\<rparr>) = pay_tables s" "pay_tables (s\<lparr>approval_actions := xs\<rparr>) = pay_tables s"
  "pay_tables (s\<lparr>approval_consumptions := cs\<rparr>) = pay_tables s" "pay_tables (s\<lparr>activity_items := is\<rparr>) = pay_tables s"
  "pay_tables (s\<lparr>payment_sources := ps\<rparr>) = pay_tables s" "pay_tables (s\<lparr>route_observations := ob\<rparr>) = pay_tables s"
  "pay_tables (s\<lparr>provider_jobs := js\<rparr>) = pay_tables s"
  by (simp_all add: pay_tables_def)

lemma keeps_pay_money: "keeps pay_tables m \<Longrightarrow> keeps money_view m"
  by (simp add: keeps_def pay_tables_def money_view_def)

lemma keeps_recording:
  "keeps pay_tables (recordAuditEvent E input)" "keeps pay_tables (recordActivity E ai)"
  "keeps pay_tables (recordRouteObservation E ob)" "keeps pay_tables (draw_simulated source amount)"
  "keeps pay_tables (completeProductOnboardingFlow E orgId k payload)" "keeps pay_tables (prefixedId E prefix)"
  unfolding recordRouteObservation_def draw_simulated_def
  by (rule keeps_recordAuditEvent; simp) (rule keepsI, intro preserve_intros; simp)+

lemma keeps_gate:
  "keeps pay_tables (checkPolicyDecision E operator orgId request)"
  "keeps pay_tables (getApproval E orgId i)" "keeps pay_tables (consumeApproval E auth i d)"
  "keeps pay_tables (createApprovalRequest E ri)"
  unfolding checkPolicyDecision_def consumeApproval_def consume_checks_def consume_commit_def createApprovalRequest_def
    Let_def case_prod_beta
  by (rule keepsI, intro preserve_intros; simp)+

lemma keeps_enforce: "keeps pay_tables (enforceX402Policy E auth input quote resource threshold)"
  unfolding enforceX402Policy_def Let_def
  by (rule keepsI)
     (intro preserve_intros keeps_gate [THEN keeps_preservesI]; simp split: option.split prod.split;
      intro conjI allI impI preserve_intros keeps_gate [THEN keeps_preservesI])

subsection \<open>Single statements\<close>

lemma wp_update_accounts:
  "(\<And>s'. s' = s\<lparr>payment_accounts := update_rows p f (payment_accounts s)\<rparr> \<Longrightarrow> Q (length (filter p (payment_accounts s))) s') \<Longrightarrow>
   wp (update_accounts p f) Q s"
  by (simp add: update_accounts_def wp_simps)

lemma wp_close_reservation [wp_simps]:
  "wp (close_reservation og i st) Q =
     (\<lambda>s. Q (length (filter (\<lambda>r. rs_id r = i \<and> rs_org_id r = og \<and> rs_status r = RsReserved) (payment_reservations s)))
        (s\<lparr>payment_reservations := update_rows (\<lambda>r. rs_id r = i \<and> rs_org_id r = og \<and> rs_status r = RsReserved)
           (with_status st) (payment_reservations s)\<rparr>))"
  by (rule ext) (simp add: close_reservation_def wp_simps with_status_def [abs_def])

definition posted_row :: "posting_input \<Rightarrow> int \<Rightarrow> posting_row \<Rightarrow> bool" where
  "posted_row input amount p \<longleftrightarrow>
     po_org_id p = wi_orgId input \<and> po_agent_id p = wi_agentId input \<and> po_entry_type p = wi_entryType input \<and>
     po_amount p = amount \<and> po_reservation_id p = wi_reservationId input \<and> po_mode p = wi_mode input"

lemma wp_writePosting:
  assumes "\<And>p amount n. numeric_cast (wi_amountUsdc input) = Inr amount \<Longrightarrow> posted_row input amount p \<Longrightarrow>
      fk_ok rs_id (wi_reservationId input) (payment_reservations s) \<Longrightarrow>
      Q p (s\<lparr>uuids := n, ledger_postings := ledger_postings s @ [p]\<rparr>)"
  shows "wp (writePosting E input) Q s"
  using assms by (auto simp: writePosting_def wp_simps Let_def wp_insert_posting posted_row_def)

text \<open>An open reservation of a live attempt.\<close>

lemma live_reservation:
  assumes ok: "money_tables_ok accts res posts av un"
    and t: "(rid, og, ag, attempt_reason i, amt) \<in> rs_static ` set res" and l: "(i, x, y, True) \<in> set av"
  obtains r where "r \<in> set res" "rs_static r = (rid, og, ag, attempt_reason i, amt)" "rs_status r = RsReserved"
proof -
  obtain r where r: "r \<in> set res" "rs_static r = (rid, og, ag, attempt_reason i, amt)" using t by auto
  obtain j m where j: "(j, rs_org_id r, rs_agent_id r, m) \<in> set av" "rs_reason_code r = attempt_reason j" "m \<longrightarrow> rs_status r = RsReserved"
    using money_tables_okD(6) [OF ok r(1)] by (auto simp: reservation_ok_def)
  then have "j = i" using r(2) by (simp add: rs_static_def)
  with j(1) l distinct_key_unique [OF money_tables_okD(4) [OF ok] j(1) l] have m by simp
  with j(3) r that show ?thesis by blast
qed

lemma closed_rows:
  assumes "money_tables_ok accts res posts av un" and "r \<in> set res" "rs_status r = RsReserved"
  shows "update_rows (\<lambda>x. rs_id x = rs_id r \<and> rs_org_id x = rs_org_id r \<and> rs_status x = RsReserved) (with_status st) res = closed_one r st res"
    and "update_rows (\<lambda>x. rs_id x = rs_id r \<and> rs_org_id x = rs_org_id r) (with_status st) res = closed_one r st res"
proof -
  have "x = r" if "x \<in> set res" "rs_id x = rs_id r" for x
    using distinct_key_unique [OF money_tables_okD(2) [OF assms(1)] that(1) assms(2) that(2)] .
  with assms show "update_rows (\<lambda>x. rs_id x = rs_id r \<and> rs_org_id x = rs_org_id r \<and> rs_status x = RsReserved) (with_status st) res = closed_one r st res"
    "update_rows (\<lambda>x. rs_id x = rs_id r \<and> rs_org_id x = rs_org_id r) (with_status st) res = closed_one r st res"
    unfolding closed_one_def update_rows_def by (auto intro!: map_cong)
qed

definition dead_update :: "string \<Rightarrow> (attempt_row \<Rightarrow> bool) \<Rightarrow> (attempt_row \<Rightarrow> attempt_row) \<Rightarrow> bool" where
  "dead_update i q g \<longleftrightarrow> (\<forall>x. q x \<longrightarrow> at_id x = i) \<and>
     (\<forall>x. at_id (g x) = at_id x \<and> at_org_id (g x) = at_org_id x \<and> at_agent_id (g x) = at_agent_id x \<and> \<not> is_live (at_status (g x)))"

lemma one_row: "length (filter q xs) = 1 \<Longrightarrow> \<exists>a \<in> set xs. q a"
  by (cases "filter q xs = []") (simp_all, auto simp: filter_empty_conv)

lemma killed_rows:
  assumes d: "distinct (map at_id atts)" and q: "length (filter q atts) = 1" and g: "dead_update i q g"
  shows "map attempt_view (update_rows q g atts) = killed (attempt_reason i) (map attempt_view atts)"
proof -
  obtain a where mem: "a \<in> set atts" "q a" using one_row [OF q] by blast
  have "q x" if "x \<in> set atts" "at_id x = i" for x
    using distinct_key_unique [OF d that(1) mem(1)] that(2) mem(2) g by (simp add: dead_update_def)
  with g show ?thesis
    by (auto simp: dead_update_def update_rows_def killed_def attempt_view_def)
qed

text \<open>Closing the reservation of an attempt that is still live, whatever the order of the statements.\<close>

lemma money_finish:
  assumes M: "money_at T s" and t: "(rid, og, ag, attempt_reason i, amt) \<in> rs_static ` set (payment_reservations s)"
    and q: "length (filter q (payment_attempts s)) = 1" "\<And>x. q x \<Longrightarrow> is_live (at_status x)" and g: "dead_update i q g"
    and acc: "payment_accounts s' = update_rows (of_agent og ag) f (payment_accounts s)"
    and res: "payment_reservations s' = update_rows (\<lambda>r. rs_id r = rid \<and> rs_org_id r = og \<and> rs_status r = RsReserved) (with_status st) (payment_reservations s)"
    and post: "ledger_postings s' = ledger_postings s @ ps"
    and att: "payment_attempts s' = update_rows q g (payment_attempts s)"
    and ev: "unknown_rids (payment_events s') = unknown_rids (payment_events s)"
    and c: "\<And>r. rs_static r = (rid, og, ag, attempt_reason i, amt) \<Longrightarrow> closing r st ps \<and> moved r st f"
  shows "money_at T s'"
proof -
  let ?av = "map attempt_view (payment_attempts s)"
  have ok: "money_tables_ok (payment_accounts s) (payment_reservations s) (ledger_postings s) ?av (unknown_rids (payment_events s))"
    and T: "T \<subseteq> rs_static ` set (payment_reservations s)"
    using M by (simp_all add: money_at_def)
  have d: "distinct (map at_id (payment_attempts s))"
    using money_tables_okD(4) [OF ok] by (simp add: attempt_view_def comp_def)
  obtain a where a: "a \<in> set (payment_attempts s)" "q a" using one_row [OF q(1)] by blast
  then have "(i, at_org_id a, at_agent_id a, True) \<in> set ?av"
    using g q(2) by (force simp: dead_update_def attempt_view_def image_iff)
  then obtain r where r: "r \<in> set (payment_reservations s)" "rs_static r = (rid, og, ag, attempt_reason i, amt)" "rs_status r = RsReserved"
    using live_reservation [OF ok t] by blast
  have key: "rs_id r = rid" "rs_org_id r = og" "rs_agent_id r = ag" "rs_reason_code r = attempt_reason i"
    using r(2) by (simp_all add: rs_static_def)
  have "of_agent og ag = (\<lambda>a. account_key a = reservation_key r)"
    by (auto simp: of_agent_def key)
  with acc have acc': "payment_accounts s' = adjusted (reservation_key r) f (payment_accounts s)" by (simp add: adjusted_def)
  have res': "payment_reservations s' = closed_one r st (payment_reservations s)"
    using closed_rows(1) [OF ok r(1,3)] res by (simp add: key)
  have att': "map attempt_view (payment_attempts s') = killed (rs_reason_code r) ?av"
    using killed_rows [OF d q(1) g] by (simp add: att key)
  have "closing r st ps" "moved r st f" using c [OF r(2)] by simp_all
  from money_close [OF ok r(1,3) this] T show ?thesis
    by (simp add: money_at_def acc' res' post att' ev closed_one_image)
qed

subsection \<open>Outcomes\<close>

text \<open>The tables after the bookkeeping of an outcome, before the attempt is closed.\<close>

definition booked ::
  "string \<times> string \<Rightarrow> (account_row \<Rightarrow> account_row) \<Rightarrow> string \<Rightarrow> reservation_status \<Rightarrow> posting_row \<Rightarrow>
   'a payments_db_scheme \<Rightarrow> 'a payments_db_scheme \<Rightarrow> bool" where
  "booked k f rid st p s s' \<longleftrightarrow>
     payment_accounts s' = update_rows (of_agent (fst k) (snd k)) f (payment_accounts s) \<and>
     payment_reservations s' = update_rows (\<lambda>r. rs_id r = rid \<and> rs_org_id r = fst k \<and> rs_status r = RsReserved) (with_status st)
       (payment_reservations s) \<and>
     ledger_postings s' = ledger_postings s @ [p] \<and> payment_attempts s' = payment_attempts s \<and>
     unknown_rids (payment_events s') = unknown_rids (payment_events s)"

lemma booked_bind:
  assumes "keeps pay_tables m" and "booked k f rid st p s s1" and "\<And>a s'. booked k f rid st p s s' \<Longrightarrow> wp (g a) Q s'"
  shows "wp (bindM m g) Q s1"
  unfolding wp_bindM
  by (rule wp_keeps [OF assms(1)]) (use assms(2,3) in \<open>auto simp: booked_def pay_tables_def\<close>)

lemma unknown_rids_append [simp]:
  "unknown_rids (es @ [e]) = unknown_rids es \<union>
     (if json_text (get_prop (pe_result e) ''status'') = Some ''unknown'' then set_option (pe_reservation_id e) else {})"
  by (auto simp: unknown_rids_def)

lemma wp_insert_event:
  assumes "(\<And>n. fk_ok rs_id (pe_reservation_id e) (payment_reservations s) \<Longrightarrow> Q () (s\<lparr>payment_events := payment_events s @ [e]\<rparr>))"
  shows "wp (insert_event e) Q s"
  using assms by (auto simp: insert_event_def wp_simps)

lemma wp_close_attempt:
  assumes "\<And>q g. length (filter q (payment_attempts s)) = 1 \<Longrightarrow> (\<And>x. q x \<Longrightarrow> is_live (at_status x)) \<Longrightarrow>
      (is_live st = False \<Longrightarrow> dead_update i q g) \<Longrightarrow>
      Q () (s\<lparr>payment_attempts := update_rows q g (payment_attempts s)\<rparr>)"
  shows "wp (close_attempt W auth i st md sm stored err) Q s"
  unfolding close_attempt_def Let_def
  by (auto simp: wp_simps intro!: assms; auto simp: dead_update_def in_scope_def is_live_def)

definition ticket_at :: "connection_auth \<Rightarrow> prepared_payment \<Rightarrow> int \<Rightarrow> string \<times> string \<times> string \<times> string \<times> int" where
  "ticket_at auth p amt = (pp_reservationId p, au_org_id auth, au_agent_id auth, attempt_reason (at_id (pp_attempt p)), amt)"

lemma money_booked:
  assumes M: "money_at T s" and t: "ticket_at auth p amt \<in> T"
    and b: "booked (au_org_id auth, au_agent_id auth) f (pp_reservationId p) st po s s1"
    and q: "length (filter q (payment_attempts s1)) = 1" "\<And>x. q x \<Longrightarrow> is_live (at_status x)" "dead_update (at_id (pp_attempt p)) q g"
    and c: "\<And>r. rs_static r = ticket_at auth p amt \<Longrightarrow> closing r st [po] \<and> moved r st f"
  shows "money_at T (s1\<lparr>payment_attempts := update_rows q g (payment_attempts s1)\<rparr>)"
proof -
  have "ticket_at auth p amt \<in> rs_static ` set (payment_reservations s)" using M t by (auto simp: money_at_def)
  then have t': "(pp_reservationId p, au_org_id auth, au_agent_id auth, attempt_reason (at_id (pp_attempt p)), amt)
      \<in> rs_static ` set (payment_reservations s)" by (simp add: ticket_at_def)
  have "payment_attempts s1 = payment_attempts s" using b by (simp add: booked_def)
  with q b c show ?thesis
    by (intro money_finish [OF M t', of q g _ f st "[po]"]) (auto simp: booked_def ticket_at_def)
qed

lemma settled_closing:
  assumes "posted_row (outcome_posting auth p ESettle reason) amt po" and "rs_static r = ticket_at auth p amt"
  shows "closing r RsSettled [po] \<and> moved r RsSettled (settle_in amt t)"
  using assms by (auto simp: posted_row_def outcome_posting_def ticket_at_def rs_static_def closing_def moved_def settlement_of_def settle_in_def)

lemma released_closing:
  assumes "posted_row (outcome_posting auth p ERelease reason) amt po" and "rs_static r = ticket_at auth p amt"
  shows "closing r RsReleased [po] \<and> moved r RsReleased (release_in amt t)"
  using assms by (auto simp: posted_row_def outcome_posting_def ticket_at_def rs_static_def closing_def moved_def release_in_def)

lemma wp_book:
  assumes amt: "numeric_cast text = Inr amt" and wi: "wi_amountUsdc input = text"
    and K: "\<And>po s1. posted_row input amt po \<Longrightarrow> booked (og, ag) (F amt) rid st po s s1 \<Longrightarrow> wp (K amt) Q s1"
  shows "wp (bindM (close_reservation og rid st) (\<lambda>_. bindM (liftE (numeric_cast text)) (\<lambda>amount.
      bindM (update_accounts (of_agent og ag) (F amount)) (\<lambda>_. bindM (writePosting E input) (\<lambda>_. K amount))))) Q s"
  using amt wi
  by (auto simp: wp_simps intro!: wp_update_accounts wp_writePosting K) (simp add: booked_def)

lemma booked_event:
  assumes "booked k f rid st p s s1" and "json_text (get_prop (pe_result e) ''status'') \<noteq> Some ''unknown''"
    and "\<And>a s'. booked k f rid st p s s' \<Longrightarrow> wp (g a) Q s'"
  shows "wp (bindM (insert_event e) g) Q s1"
  unfolding wp_bindM by (rule wp_insert_event, rule assms(3)) (use assms(1,2) in \<open>simp add: booked_def\<close>)

lemma wp_closing_tail:
  assumes "money_at T s" and "ticket_at auth p amt \<in> T" and "\<not> is_live status"
    and "booked (au_org_id auth, au_agent_id auth) f (pp_reservationId p) st po s s1"
    and "\<And>r. rs_static r = ticket_at auth p amt \<Longrightarrow> closing r st [po] \<and> moved r st f"
  shows "wp (bindM (close_attempt W auth (at_id (pp_attempt p)) status md sm stored err) (\<lambda>_. bindM (recordAuditEvent E ai) (\<lambda>_. ret x)))
      (\<lambda>_. money_at T) s1"
  using assms
  by (auto simp: wp_simps intro!: wp_close_attempt wp_preserves [OF keeps_money [OF keeps_pay_money [OF keeps_recording(1)]]]
        money_booked [OF assms(1,2,4)])

lemma finalizeSettled_money:
  assumes amt: "numeric_cast (qt_amount (pp_quote p)) = Inr amt" and t: "ticket_at auth p amt \<in> T"
  shows "preserves (money_at T) (finalizeSettledPaidHttpPayment E W auth p settlement)"
  unfolding finalizeSettledPaidHttpPayment_def
proof (intro preserves_case_option preserves_throw preserves_bindM preserves_guardM preserves_transaction, goal_cases)
  case (1 payment u s)
  have wi: "wi_amountUsdc (outcome_posting auth p ESettle reason) = qt_amount (pp_quote p)" for reason
    by (simp add: outcome_posting_def)
  show ?case
    unfolding wp_bindM [of now] wp_now Let_def
    apply (rule wp_book [OF amt wi])
    apply (rule keeps_recording [THEN booked_bind], assumption)+
    apply (rule booked_event, assumption, simp add: outcome_event_def json_text_def)
    apply (rule wp_closing_tail [OF 1(2) t], simp add: is_live_def, assumption, erule settled_closing, assumption)
    done
qed

text \<open>An ambiguous outcome writes an event and closes the attempt; the reservation stays.\<close>

lemma money_ambiguous:
  assumes M: "money_at T s" and t: "ticket_at auth p amt \<in> T" and same: "pay_tables s1 = pay_tables s"
    and e: "pe_reservation_id e = Some (pp_reservationId p)" "json_text (get_prop (pe_result e) ''status'') = Some ''unknown''"
    and q: "length (filter q (payment_attempts s1)) = 1" "dead_update (at_id (pp_attempt p)) q g"
  shows "money_at T (s1\<lparr>payment_events := payment_events s1 @ [e], payment_attempts := update_rows q g (payment_attempts s1)\<rparr>)"
proof -
  let ?av = "map attempt_view (payment_attempts s1)"
  have ok: "money_tables_ok (payment_accounts s1) (payment_reservations s1) (ledger_postings s1) ?av (unknown_rids (payment_events s1))"
    and T: "T \<subseteq> rs_static ` set (payment_reservations s1)"
    using M same by (simp_all add: money_at_def pay_tables_def)
  then obtain r where r: "r \<in> set (payment_reservations s1)" "rs_static r = ticket_at auth p amt" using t by auto
  have d: "distinct (map at_id (payment_attempts s1))"
    using money_tables_okD(4) [OF ok] by (simp add: attempt_view_def comp_def)
  have "map attempt_view (update_rows q g (payment_attempts s1)) = killed (rs_reason_code r) ?av"
    using killed_rows [OF d q] r(2) by (simp add: rs_static_def ticket_at_def)
  with money_unknown [OF ok r(1)] r(2) T e show ?thesis
    by (simp add: money_at_def rs_static_def ticket_at_def Un_commute)
qed

lemma release_failed_book:
  assumes amt: "numeric_cast (qt_amount (pp_quote p)) = Inr amt"
    and K: "\<And>po s1. posted_row (outcome_posting auth p ERelease ''x402_payment_failed'') amt po \<Longrightarrow>
      booked (au_org_id auth, au_agent_id auth) (release_in amt (clock s)) (pp_reservationId p) RsReleased po s s1 \<Longrightarrow> wp K Q s1"
  shows "wp (bindM (release_failed E auth p) (\<lambda>_. K)) Q s"
proof -
  have wi: "wi_amountUsdc (outcome_posting auth p ERelease reason) = qt_amount (pp_quote p)" for reason
    by (simp add: outcome_posting_def)
  show ?thesis
    unfolding release_failed_def bindM_assoc ret_bindM wp_bindM [of now] wp_now
    by (rule wp_book [OF amt wi]) (rule K)
qed

lemma wp_cast: "numeric_cast text = Inr amt \<Longrightarrow> wp (f amt) Q s \<Longrightarrow> wp (bindM (liftE (numeric_cast text)) f) Q s"
  by (simp add: wp_simps)

lemma same_bind:
  assumes "keeps pay_tables m" and "pay_tables s1 = pay_tables s" and "\<And>a s'. pay_tables s' = pay_tables s \<Longrightarrow> wp (g a) Q s'"
  shows "wp (bindM m g) Q s1"
  unfolding wp_bindM by (rule wp_keeps [OF assms(1)]) (simp add: assms(2,3))

lemma wp_ambiguous_tail:
  assumes "money_at T s" and "ticket_at auth p amt \<in> T" and "pay_tables s1 = pay_tables s"
    and "pe_reservation_id e = Some (pp_reservationId p)" "json_text (get_prop (pe_result e) ''status'') = Some ''unknown''"
  shows "wp (bindM (insert_event e) (\<lambda>_. bindM (close_attempt W auth (at_id (pp_attempt p)) AtUnknown md sm stored err)
      (\<lambda>_. bindM (recordAuditEvent E ai) (\<lambda>_. ret x)))) (\<lambda>_. money_at T) s1"
  using money_ambiguous [OF assms]
  by (auto simp: wp_simps is_live_def intro!: wp_insert_event wp_close_attempt
      wp_preserves [OF keeps_money [OF keeps_pay_money [OF keeps_recording(1)]]])

lemma finalizeTerminal_money:
  assumes amt: "numeric_cast (qt_amount (pp_quote p)) = Inr amt" and t: "ticket_at auth p amt \<in> T"
  shows "preserves (money_at T) (finalizeTerminalPaidHttpPayment E W auth p settlement)"
  unfolding finalizeTerminalPaidHttpPayment_def Let_def
proof (rule preserves_transaction, goal_cases)
  case (1 s)
  show ?case
  proof (cases "terminal_status settlement = AtFailed")
    case True
    show ?thesis
      unfolding True if_True simp_thms
      apply (rule release_failed_book [OF amt])
      apply (rule keeps_recording [THEN booked_bind], assumption)+
      apply (rule wp_cast [OF amt])
      apply (rule booked_event, assumption, simp add: outcome_event_def json_text_def)
      apply (rule wp_closing_tail [OF 1 t], simp add: is_live_def, assumption, erule released_closing, assumption)
      done
  next
    case False
    then have status: "terminal_status settlement = AtUnknown"
      by (auto simp: terminal_status_def split: option.splits if_splits)
    have other: "(AtUnknown = AtFailed) = False" by simp
    show ?thesis
      unfolding status other if_False ret_bindM
      apply (rule keeps_recording [THEN same_bind], rule refl)
      apply (rule keeps_recording [THEN same_bind], assumption)
      apply (rule wp_cast [OF amt])
      apply (rule wp_ambiguous_tail [OF 1 t], assumption, simp_all add: outcome_event_def json_text_def)
      done
  qed
qed

subsection \<open>Attempts that stay as live as they were\<close>

lemma view_update:
  "(\<And>a. q a \<Longrightarrow> attempt_view (g a) = attempt_view a) \<Longrightarrow>
   money_view (s\<lparr>payment_attempts := update_rows q g (payment_attempts s)\<rparr>) = money_view s"
  by (auto simp: money_view_def update_rows_def comp_def)

lemma money_view_uuids [simp]: "money_view (s\<lparr>uuids := n\<rparr>) = money_view s"
  by (simp add: money_view_def)

lemma keeps_submission:
  "keeps money_view (markSubmitting scope i)" "keeps money_view (markPaidHttpAttemptRetryable auth i reason)"
  "keeps money_view (persistPaidHttpProviderEvidence W auth i settlement)" "keeps money_view (findAttempt c k)"
proof -
  have [simp]: "attempt_view (merge_metadata m t a) = attempt_view a" "attempt_view (scrubbed t a) = attempt_view a" for m t a
    by (simp_all add: attempt_view_def merge_metadata_def scrubbed_def)
  show "keeps money_view (markSubmitting scope i)"
    unfolding markSubmitting_def transition_def stateConflict_def scopeInvalid_def
    by (rule keepsI, intro preserve_intros) (subst view_update, auto simp: attempt_view_def is_live_def)
  show "keeps money_view (markPaidHttpAttemptRetryable auth i reason)"
    unfolding markPaidHttpAttemptRetryable_def
    by (rule keepsI, intro preserve_intros) (simp add: view_update)
  show "keeps money_view (persistPaidHttpProviderEvidence W auth i settlement)"
    unfolding persistPaidHttpProviderEvidence_def Let_def
    by (rule keepsI, intro preserve_intros) (simp add: view_update attempt_view_def)
  show "keeps money_view (findAttempt c k)"
    unfolding findAttempt_def by (rule keepsI, intro preserve_intros) (simp add: view_update)
qed

subsection \<open>Cancelling, resolving, correcting\<close>

lemma none_or_one:
  "distinct (map key xs) \<Longrightarrow> (\<And>x. q x \<Longrightarrow> key x = k) \<Longrightarrow> length (filter q xs) \<noteq> 1 \<Longrightarrow> update_rows q f xs = xs"
proof (induction xs)
  case (Cons x xs)
  show ?case
  proof (cases "q x")
    case True
    have "\<not> q y" if "y \<in> set xs" for y
      using Cons.prems(1,2) True that by (metis distinct.simps(2) imageI list.set_map list.simps(9))
    then have "filter q xs = []" by (simp add: filter_empty_conv)
    with Cons.prems(3) True show ?thesis by simp
  qed (use Cons in simp)
qed simp

lemma wp_release_stranded:
  assumes M: "money_at T s" and t: "rs_static (sr_reservation c) \<in> T"
    and c: "reservation_key (sr_reservation c) = (og, ag)" "rs_reason_code (sr_reservation c) = attempt_reason (at_id (sr_attempt c))"
  shows "wp (release_stranded og ag n c) (\<lambda>_. money_at T) s"
proof -
  let ?r = "sr_reservation c" and ?i = "at_id (sr_attempt c)"
  let ?q = "\<lambda>a. at_id a = ?i \<and> at_org_id a = og \<and> at_agent_id a = ag \<and> at_status a = AtReserved"
  let ?p = "\<lambda>a. of_agent og ag a \<and> rs_amount ?r \<le> pa_reserved a"
  have ok: "money_tables_ok (payment_accounts s) (payment_reservations s) (ledger_postings s) (map attempt_view (payment_attempts s)) (unknown_rids (payment_events s))"
    and T: "T \<subseteq> rs_static ` set (payment_reservations s)" using M by (simp_all add: money_at_def)
  have t': "(rs_id ?r, og, ag, attempt_reason ?i, rs_amount ?r) \<in> rs_static ` set (payment_reservations s)"
    using t T c by (auto simp: rs_static_def)
  have accts: "update_rows ?p f (payment_accounts s) = update_rows (of_agent og ag) f (payment_accounts s)"
    if one: "length (filter ?p (payment_accounts s)) = 1" for f
  proof -
    obtain a where a: "a \<in> set (payment_accounts s)" "?p a" using one_row [OF one] by blast
    have "x = a" if "x \<in> set (payment_accounts s)" "of_agent og ag x" for x
      using distinct_key_unique [OF money_tables_okD(1) [OF ok] that(1) a(1)] that(2) a(2) by (simp add: of_agent_def)
    with a show ?thesis unfolding update_rows_def by (auto intro!: map_cong)
  qed
  have done': "money_at T (s\<lparr>payment_reservations := update_rows (\<lambda>r. rs_id r = rs_id ?r \<and> rs_org_id r = og \<and> rs_status r = RsReserved) (with_status RsReleased) (payment_reservations s),
      payment_accounts := update_rows ?p (release_in (rs_amount ?r) u) (payment_accounts s),
      payment_attempts := update_rows ?q (fail_attempt reason u) (payment_attempts s)\<rparr>)"
    if "length (filter ?p (payment_accounts s)) = 1" "length (filter ?q (payment_attempts s)) = 1" for u reason
  proof (rule money_finish [OF M t' that(2), of "fail_attempt reason u" _ "release_in (rs_amount ?r) u" RsReleased "[]"])
    show "dead_update ?i ?q (fail_attempt reason u)" by (auto simp: dead_update_def fail_attempt_def is_live_def)
    show "closing r RsReleased [] \<and> moved r RsReleased (release_in (rs_amount ?r) u)"
      if "rs_static r = (rs_id ?r, og, ag, attempt_reason ?i, rs_amount ?r)" for r
      using that by (auto simp: closing_def moved_def release_in_def rs_static_def)
  qed (auto simp: is_live_def accts [OF that(1)])
  have skip: "length (filter (\<lambda>r. rs_id r = rs_id ?r \<and> rs_org_id r = og \<and> rs_status r = RsReserved) (payment_reservations s)) \<noteq> Suc 0 \<Longrightarrow>
      update_rows (\<lambda>r. rs_id r = rs_id ?r \<and> rs_org_id r = og \<and> rs_status r = RsReserved) (with_status RsReleased) (payment_reservations s) =
      payment_reservations s"
    by (rule none_or_one [OF money_tables_okD(2) [OF ok], of _ "rs_id ?r"]) simp_all
  show ?thesis
    unfolding release_stranded_def
    by (auto simp: wp_simps M skip intro!: wp_update_accounts done')
qed

lemma stranded_rows_static:
  assumes "c \<in> set (stranded_rows E og ag s)"
  shows "rs_static (sr_reservation c) \<in> rs_static ` set (payment_reservations s)"
    and "reservation_key (sr_reservation c) = (og, ag)"
    and "rs_reason_code (sr_reservation c) = attempt_reason (at_id (sr_attempt c))"
  using assms by (auto simp: stranded_rows_def set_sort_by)

lemma money_at_more: "money_at (T \<union> U) s \<longleftrightarrow> money_at T s \<and> U \<subseteq> rs_static ` set (payment_reservations s)"
  by (auto simp: money_at_def)

lemma cancelStranded_money: "preserves (money_at T) (cancelStrandedReservedAttempts E og ag)"
  unfolding cancelStrandedReservedAttempts_def
proof (rule preserves_transaction, goal_cases)
  case (1 s)
  let ?cs = "stranded_rows E og ag s"
  let ?T = "T \<union> (\<lambda>c. rs_static (sr_reservation c)) ` set ?cs"
  have "money_at ?T s" using 1 stranded_rows_static(1) by (auto simp: money_at_more)
  then have "wp (foldM (release_stranded og ag) 0 ?cs) (\<lambda>_. money_at ?T) s"
    by (intro wp_foldM wp_release_stranded) (auto simp: stranded_rows_static(2,3))
  then show ?case by (auto simp: wp_simps money_at_more elim: wp_mono)
qed

lemma killed_dead: "(\<And>i og ag. c = attempt_reason i \<Longrightarrow> (i, og, ag, True) \<notin> set av) \<Longrightarrow> killed c av = av"
  by (induction av) (auto simp: killed_def)

lemma money_resolve:
  assumes M: "money_at T s" and r: "r \<in> set (payment_reservations s)" "rs_status r = RsReserved" "rs_id r \<in> unknown_rids (payment_events s)"
    and c: "closing r st [po]" "moved r st f"
  shows "money_at T (s\<lparr>payment_reservations := update_rows (\<lambda>x. rs_id x = rs_id r \<and> rs_org_id x = rs_org_id r) (with_status st) (payment_reservations s),
     payment_accounts := update_rows (of_agent (rs_org_id r) (rs_agent_id r)) f (payment_accounts s),
     uuids := n, ledger_postings := ledger_postings s @ [po]\<rparr>)"
proof -
  let ?av = "map attempt_view (payment_attempts s)"
  have ok: "money_tables_ok (payment_accounts s) (payment_reservations s) (ledger_postings s) ?av (unknown_rids (payment_events s))"
    and T: "T \<subseteq> rs_static ` set (payment_reservations s)" using M by (simp_all add: money_at_def)
  have "killed (rs_reason_code r) ?av = ?av"
    by (rule killed_dead) (rule money_tables_okD(10) [OF ok r(1) r(3)])
  moreover have "update_rows (of_agent (rs_org_id r) (rs_agent_id r)) f (payment_accounts s) = adjusted (reservation_key r) f (payment_accounts s)"
    by (simp add: adjusted_def of_agent_def [abs_def])
  ultimately show ?thesis
    using money_close [OF ok r(1,2) c] T
    by (simp add: money_at_def closed_rows(2) [OF ok r(1,2)] closed_one_image)
qed

lemma unknown_event_rids: "list_ex (unknown_event og i) es \<Longrightarrow> i \<in> unknown_rids es"
  by (auto simp: list_ex_iff unknown_event_def unknown_rids_def)

lemma resolved_closing:
  assumes "posted_row (resolve_posting operator r mode entry reason) amount po"
    "numeric_cast (wi_amountUsdc (resolve_posting operator r mode entry reason)) = Inr amount"
  shows "entry = ERelease \<Longrightarrow> closing r RsReleased [po] \<and> moved r RsReleased (release_in (rs_amount r) t)"
    and "entry = ESettle \<Longrightarrow> closing r RsSettled [po] \<and> moved r RsSettled (settle_in (rs_amount r) t)"
  using assms numeric_cast_numeric_text [of "rs_amount r"]
  by (auto simp: posted_row_def resolve_posting_def release_posting_def closing_def moved_def release_in_def settle_in_def
      settlement_of_def split: if_splits)

lemma resolveUnknown_money: "preserves (money_at T) (resolveUnknownAttempt E operator og i outcome)"
  unfolding resolveUnknownAttempt_def
proof (rule preserves_transaction, goal_cases)
  case (1 s)
  have f: "(\<lambda>r. r\<lparr>rs_status := st\<rparr>) = with_status st" for st by (simp add: with_status_def [abs_def])
  have keep: "wp (recordAuditEvent E ai) (\<lambda>_. money_at T) s'" if "money_at T s'" for ai and s' :: "'a payments_db_scheme"
    by (rule wp_preserves [OF keeps_money [OF keeps_pay_money [OF keeps_recording(1)]] that])
  show ?case
  proof (cases "find_row (\<lambda>r. rs_id r = i \<and> rs_org_id r = og \<and> rs_status r = RsReserved) (payment_reservations s)")
    case None
    then show ?thesis by (simp add: wp_simps)
  next
    case (Some r)
    then have r: "r \<in> set (payment_reservations s)" "rs_id r = i" "rs_org_id r = og" "rs_status r = RsReserved"
      by (auto dest!: find_row_Some)
    have step: "money_at T (s\<lparr>payment_reservations := update_rows (\<lambda>x. rs_id x = i \<and> rs_org_id x = og) (with_status st) (payment_reservations s),
        payment_accounts := update_rows (of_agent og (rs_agent_id r)) f (payment_accounts s), uuids := n, ledger_postings := ledger_postings s @ [po]\<rparr>)"
      if "list_ex (unknown_event og i) (payment_events s)" "closing r st [po] \<and> moved r st f" for st po f n
      using money_resolve [OF 1 r(1,4), of st po f n] unknown_event_rids [OF that(1)] that(2) r by simp
    show ?thesis
    proof (cases outcome)
      case ResolveFailed
      show ?thesis
        unfolding ResolveFailed simp_thms if_True wp_bindM wp_query Some option.case wp_guardM wp_now wp_modify wp_ret f
        apply (rule impI, rule wp_update_accounts, simp, rule wp_writePosting)
        apply (rule keep, simp, rule step, assumption, erule (1) resolved_closing(1), rule refl)
        done
    next
      case ResolveSettled
      have other: "(ResolveSettled = ResolveFailed) = False" by simp
      show ?thesis
        unfolding ResolveSettled other if_False wp_bindM wp_query Some option.case wp_guardM wp_now wp_modify wp_ret f
        apply (rule impI, rule wp_update_accounts, simp, rule wp_writePosting)
        apply (rule keep, simp, rule step, assumption, erule (1) resolved_closing(2), rule refl)
        done
    qed
  qed
qed

lemma money_new_account:
  assumes ok: "money_tables_ok accts res posts av un" and a: "account_key a \<notin> account_key ` set accts" "pa_reserved a = 0" "pa_spent a = 0"
  shows "money_tables_ok (accts @ [a]) res posts av un"
proof -
  have "reserved_sum (account_key a) res = 0"
  proof -
    have "reservation_key r \<noteq> account_key a" if "r \<in> set res" for r
      using money_tables_okD(6) [OF ok that] a(1) by (metis reservation_ok_def)
    then have "filter (\<lambda>r. reservation_key r = account_key a \<and> rs_status r = RsReserved) res = []"
      by (auto simp: filter_empty_conv)
    then show ?thesis unfolding reserved_sum_def by simp
  qed
  moreover have "settled_sum (account_key a) posts = 0"
  proof -
    have "\<not> settlement_of (account_key a) p" if "p \<in> set posts" for p
      using money_tables_okD(7) [OF ok that] a(1) by (force simp: posting_ok_def settlement_of_def)
    then have "filter (settlement_of (account_key a)) posts = []" by (simp add: filter_empty_conv)
    then show ?thesis by (simp add: settled_sum_def)
  qed
  moreover have "reservation_ok (accts @ [a]) posts av r" if "r \<in> set res" for r
    using money_tables_okD(6) [OF ok that] by (auto simp: reservation_ok_def)
  moreover have "posting_ok (accts @ [a]) res p" if "p \<in> set posts" for p
    using money_tables_okD(7) [OF ok that] by (auto simp: posting_ok_def)
  ultimately show ?thesis
    using ok a unfolding money_tables_ok_def by (auto simp: account_ok_def)
qed

definition same_money :: "(account_row \<Rightarrow> account_row) \<Rightarrow> bool" where
  "same_money f \<longleftrightarrow> (\<forall>a. account_key (f a) = account_key a \<and> pa_reserved (f a) = pa_reserved a \<and> pa_spent (f a) = pa_spent a)"

lemma money_reconfigure:
  assumes ok: "money_tables_ok accts res posts av un" and f: "same_money f"
  shows "money_tables_ok (update_rows p f accts) res posts av un"
proof -
  have keys: "map account_key (update_rows p f accts) = map account_key accts"
    using f by (intro map_update_rows) (simp add: same_money_def)
  then have set: "account_key ` set (update_rows p f accts) = account_key ` set accts" by (metis list.set_map)
  have "account_ok res posts a" if "a \<in> set (update_rows p f accts)" for a
    using that f money_tables_okD(5) [OF ok] by (force simp: set_update_rows same_money_def account_ok_def)
  with ok keys set show ?thesis
    unfolding money_tables_ok_def reservation_ok_def posting_ok_def by simp
qed

lemma upsert_money:
  assumes "pa_reserved fresh = 0" "pa_spent fresh = 0" "same_money f"
  shows "preserves (money_at T) (upsert_account fresh f)"
proof (rule preservesI)
  fix s :: "'a payments_db_scheme"
  assume M: "money_at T s"
  have "money_at T (s\<lparr>payment_accounts := payment_accounts s @ [fresh]\<rparr>)"
    if "find_account (pa_org_id fresh) (pa_agent_id fresh) s = None"
  proof -
    have "account_key fresh \<notin> account_key ` set (payment_accounts s)"
      using that by (auto simp: find_account_def find_row_None)
    with M assms(1,2) show ?thesis by (simp add: money_at_def money_new_account)
  qed
  moreover have "money_at T (s\<lparr>payment_accounts := update_rows p f (payment_accounts s)\<rparr>)" for p
    using M assms(3) by (simp add: money_at_def money_reconfigure)
  ultimately show "money_at T (snd (upsert_account fresh f s))"
    using M by (auto simp: upsert_account_def update_accounts_def monad_defs split: option.split)
qed

lemma keeps_provision: "keeps pay_tables (provision_missing E operator og ag rails)"
  unfolding provision_missing_def enqueueAgentWalletProvisioning_def by (rule keepsI, intro preserve_intros) simp_all

lemma setAccess_money: "preserves (money_at T) (setAgentPaymentAccess E operator og ag input)"
proof -
  note keep = keeps_money [OF keeps_pay_money]
  have "same_money (configured input rails budget cap threshold t)" for rails budget cap threshold t
    by (simp add: same_money_def configured_def)
  then show ?thesis
    unfolding setAgentPaymentAccess_def Let_def
    by (intro preserves_bindM preserves_query preserves_guardM preserves_liftE preserves_if preserves_ret preserves_now
        preserves_case_option preserves_throw upsert_money keep keeps_recording keeps_provision) simp_all
qed

lemma money_neutral:
  assumes "money_at T s" and "po_entry_type p \<noteq> ESettle" "po_reservation_id p = None"
  shows "money_at T (s\<lparr>ledger_postings := ledger_postings s @ [p]\<rparr>)"
  using assms
  by (auto simp: money_at_def money_tables_ok_def account_ok_def reservation_ok_def posting_ok_def settlement_of_def)

lemma preserves_insert_posting [preserve_intros]:
  "(\<And>s. P s \<Longrightarrow> P (s\<lparr>ledger_postings := ledger_postings s @ [p]\<rparr>)) \<Longrightarrow> preserves P (insert_posting p)"
  unfolding insert_posting_def by (intro preserve_intros) auto

lemma correct_money: "preserves (money_at T) (correctPosting E i reason createdBy)"
  unfolding correctPosting_def Let_def
  by (intro preserve_intros) (simp_all add: money_neutral, simp add: money_at_def)

subsection \<open>Preparing\<close>

lemma wp_createAttempt:
  assumes none: "find_row (has_key (ci_connectionId input) (ci_idempotencyKey input)) (payment_attempts s) = None"
    and Q: "\<And>i amount n. i \<notin> at_id ` set (payment_attempts s) \<Longrightarrow> numeric_cast (ci_amountUsdc input) = Inr amount \<Longrightarrow>
      Q (new_attempt input i amount (clock s))
        (s\<lparr>uuids := n, payment_attempts := payment_attempts s @ [new_attempt input i amount (clock s)]\<rparr>)"
  shows "wp (createAttempt E input) Q s"
  using none unfolding createAttempt_def scopeInvalid_def
  by (auto simp: wp_simps list_ex_iff intro!: Q)

lemma wp_insert_reservation:
  assumes "rs_id r \<notin> rs_id ` set (payment_reservations s) \<Longrightarrow> Q () (s\<lparr>payment_reservations := payment_reservations s @ [r]\<rparr>)"
  shows "wp (insert_reservation r) Q s"
  by (auto simp: insert_reservation_def wp_simps list_ex_iff intro!: assms)

definition holds_ticket :: "connection_auth \<Rightarrow> string \<Rightarrow> string \<times> string \<Rightarrow> 'a payments_db_scheme \<Rightarrow> bool" where
  "holds_ticket auth text x s \<longleftrightarrow> (\<exists>amt. numeric_cast text = Inr amt \<and>
     (snd x, au_org_id auth, au_agent_id auth, attempt_reason (fst x), amt) \<in> rs_static ` set (payment_reservations s))"

lemma money_prepared:
  assumes M: "money_at T s" and a: "(og, ag) \<in> account_key ` set (payment_accounts s)"
    and i: "at_id att \<notin> at_id ` set (payment_attempts s)" "attempt_view att = (at_id att, og, ag, True)"
    and r: "rs_id r \<notin> rs_id ` set (payment_reservations s)" "rs_status r = RsReserved" "reservation_key r = (og, ag)"
      "rs_reason_code r = attempt_reason (at_id att)"
    and p: "po_entry_type p = EReserve" "po_reservation_id p = Some (rs_id r)"
    and s': "payment_accounts s' = update_rows (of_agent og ag) (reserve_in (rs_amount r) t) (payment_accounts s)"
      "payment_reservations s' = payment_reservations s @ [r]" "ledger_postings s' = ledger_postings s @ [p]"
      "map attempt_view (payment_attempts s') = map attempt_view (payment_attempts s) @ [attempt_view att]"
      "payment_events s' = payment_events s"
  shows "money_at (insert (rs_static r) T) s'"
proof -
  have ok: "money_tables_ok (payment_accounts s) (payment_reservations s) (ledger_postings s) (map attempt_view (payment_attempts s)) (unknown_rids (payment_events s))"
    and T: "T \<subseteq> rs_static ` set (payment_reservations s)" using M by (simp_all add: money_at_def)
  have fresh: "at_id att \<notin> fst ` set (map attempt_view (payment_attempts s))"
    using i(1) by (auto simp: attempt_view_def)
  have "update_rows (of_agent og ag) (reserve_in (rs_amount r) t) (payment_accounts s) = adjusted (og, ag) (reserve_in (rs_amount r) t) (payment_accounts s)"
    by (simp add: adjusted_def of_agent_def [abs_def])
  moreover have "money_tables_ok (adjusted (og, ag) (reserve_in (rs_amount r) t) (payment_accounts s)) (payment_reservations s @ [r])
      (ledger_postings s @ [p]) (map attempt_view (payment_attempts s) @ [(at_id att, og, ag, True)]) (unknown_rids (payment_events s))"
    by (rule money_reserve [OF ok r fresh a _ _ _ p]) (simp_all add: reserve_in_def)
  ultimately show ?thesis
    using T by (auto simp: money_at_def s' i(2))
qed

text \<open>The tables after a reservation.\<close>

definition reserved_into ::
  "string \<times> string \<Rightarrow> attempt_row \<Rightarrow> string \<Rightarrow> int \<Rightarrow> 'a payments_db_scheme \<Rightarrow> 'a payments_db_scheme \<Rightarrow> bool" where
  "reserved_into k att rid amt s s' \<longleftrightarrow>
     at_id att \<notin> at_id ` set (payment_attempts s) \<and> attempt_view att = (at_id att, fst k, snd k, True) \<and>
     map attempt_view (payment_attempts s') = map attempt_view (payment_attempts s) @ [attempt_view att] \<and>
     (\<exists>t. payment_accounts s' = update_rows (of_agent (fst k) (snd k)) (reserve_in amt t) (payment_accounts s)) \<and>
     (\<exists>r. payment_reservations s' = payment_reservations s @ [r] \<and> rs_id r = rid \<and> rid \<notin> rs_id ` set (payment_reservations s) \<and>
        rs_status r = RsReserved \<and> rs_amount r = amt \<and> reservation_key r = k \<and> rs_reason_code r = attempt_reason (at_id att)) \<and>
     (\<exists>p. ledger_postings s' = ledger_postings s @ [p] \<and> po_entry_type p = EReserve \<and> po_reservation_id p = Some rid) \<and>
     payment_events s' = payment_events s"

lemma money_reserved_into:
  assumes "money_at T s" and "k \<in> account_key ` set (payment_accounts s)" and "reserved_into k att rid amt s s'"
  shows "money_at (insert (rid, fst k, snd k, attempt_reason (at_id att), amt) T) s'"
proof -
  obtain r t p where r: "payment_reservations s' = payment_reservations s @ [r]" "rs_id r = rid" "rid \<notin> rs_id ` set (payment_reservations s)"
      "rs_status r = RsReserved" "rs_amount r = amt" "reservation_key r = k" "rs_reason_code r = attempt_reason (at_id att)"
    and t: "payment_accounts s' = update_rows (of_agent (fst k) (snd k)) (reserve_in amt t) (payment_accounts s)"
    and p: "ledger_postings s' = ledger_postings s @ [p]" "po_entry_type p = EReserve" "po_reservation_id p = Some rid"
    using assms(3) by (auto simp: reserved_into_def)
  have "money_at (insert (rs_static r) T) s'"
    by (rule money_prepared [OF assms(1), of "fst k" "snd k" att r p _ t]) (use assms(2,3) r t p in \<open>auto simp: reserved_into_def\<close>)
  moreover have "rs_static r = (rid, fst k, snd k, attempt_reason (at_id att), amt)" using r by (auto simp: rs_static_def)
  ultimately show ?thesis by simp
qed

lemma attempt_view_merged: "map attempt_view (update_rows q (merge_metadata m t) xs) = map attempt_view xs"
  by (rule map_update_rows) (simp add: attempt_view_def merge_metadata_def)

lemma wp_reserve_payment:
  assumes none: "find_row (has_key (au_connection_id auth) key) (payment_attempts s) = None"
  shows "wp (reserve_payment E auth key rh mode quote qh qp source gate)
    (\<lambda>(att, rid) s'. \<exists>amt. numeric_cast (qt_amount quote) = Inr amt \<and>
       reserved_into (au_org_id auth, au_agent_id auth) att rid amt s s') s"
  unfolding reserve_payment_def wp_bindM
  apply (rule wp_createAttempt, simp add: none)
  apply (simp add: wp_simps)
  apply (intro impI allI wp_insert_reservation wp_update_accounts wp_writePosting)
  apply (auto simp: reserved_into_def posted_row_def attempt_view_merged attempt_view_def new_attempt_def is_live_def)
  done

lemma keeps_readings:
  "keeps f (activePaymentAccount auth)" "keeps f (activePaymentSource og rail chain)"
  "keeps f (assertRailVerified mode quote)" "keeps f (assertWalletBalance W ag mode quote)"
proof -
  show "keeps f (activePaymentAccount auth)"
    unfolding activePaymentAccount_def
    by (rule keepsI, intro preserves_bindM preserves_query)
       (simp split: prod.split option.split, intro conjI allI impI preserve_intros)
  show "keeps f (activePaymentSource og rail chain)"
    unfolding activePaymentSource_def
    by (rule keepsI, intro preserves_bindM preserves_query) (simp split: list.split, intro conjI allI impI preserve_intros)
  show "keeps f (assertRailVerified mode quote)"
    unfolding assertRailVerified_def
    by (rule keepsI, intro preserves_bindM preserves_query)
       (simp split: option.split prod.split, intro conjI allI impI preserve_intros)
  show "keeps f (assertWalletBalance W ag mode quote)"
    unfolding assertWalletBalance_def by (rule keepsI, intro preserve_intros)
qed

lemma bind_rules:
  "wp (g1 (f s)) Q s \<Longrightarrow> wp (bindM (query f) g1) Q s"
  "(\<And>a. r = Inr a \<Longrightarrow> wp (g2 a) Q s) \<Longrightarrow> wp (bindM (liftE r) g2) Q s"
  "(b \<Longrightarrow> wp (g3 ()) Q s) \<Longrightarrow> wp (bindM (guardM b e) g3) Q s"
  by (simp_all add: wp_simps)

lemma bind_option:
  "(x = None \<Longrightarrow> wp m Q s) \<Longrightarrow> (\<And>a. x = Some a \<Longrightarrow> wp (f a) Q s) \<Longrightarrow> wp (case x of None \<Rightarrow> m | Some a \<Rightarrow> f a) Q s"
  by (cases x) simp_all

lemma wp_throw_any: "wp (throw e) Q s"
  by (simp add: wp_simps)

definition prepared_by ::
  "connection_auth \<Rightarrow> prepare_outcome \<Rightarrow> 'a payments_db_scheme \<Rightarrow> 'a payments_db_scheme \<Rightarrow> bool" where
  "prepared_by auth o' s s' \<longleftrightarrow>
     (case o' of
        Existing a \<Rightarrow> pay_tables s' = pay_tables s
      | Prepared p \<Rightarrow> \<exists>amt. numeric_cast (qt_amount (pp_quote p)) = Inr amt \<and>
          reserved_into (au_org_id auth, au_agent_id auth) (pp_attempt p) (pp_reservationId p) amt s s')"

lemma wp_prepare_new:
  assumes none: "find_row (has_key (au_connection_id auth) key) (payment_attempts s) = None"
  shows "wp (prepare_new E W auth key rh dest input account) (\<lambda>o'. prepared_by auth o' s) s"
proof -
  have tail: "wp (bindM (reserve_payment E auth key rh mode quote qh qp source gate) (\<lambda>(att, rid). ret (Prepared (P att rid))))
      (\<lambda>o'. prepared_by auth o' s) s1"
    if same: "pay_tables s1 = pay_tables s"
      and P: "\<And>att rid. pp_quote (P att rid) = quote \<and> pp_attempt (P att rid) = att \<and> pp_reservationId (P att rid) = rid"
    for s1 mode quote qh qp source gate P
  proof -
    have none': "find_row (has_key (au_connection_id auth) key) (payment_attempts s1) = None"
      using none same by (simp add: pay_tables_def)
    have "reserved_into k att rid amt s1 s' = reserved_into k att rid amt s s'" for k att rid amt s'
      using same by (simp add: reserved_into_def pay_tables_def)
    then show ?thesis
      unfolding wp_bindM
      by (intro wp_mono [OF wp_reserve_payment [OF none']]) (auto simp: wp_simps prepared_by_def P)
  qed
  show ?thesis
    unfolding prepare_new_def Let_def
    apply (rule bind_rules bind_option wp_throw_any)+
    apply (rule keeps_readings(2) [THEN same_bind], rule refl)
    apply (rule bind_rules)+
    apply (rule keeps_enforce [THEN same_bind], assumption)
    apply (rule same_bind, rule keepsI, rule preserves_if, rule keeps_readings(3) [THEN keeps_preservesI], rule preserves_ret, assumption)
    apply (rule bind_rules)
    apply (rule keeps_readings(4) [THEN same_bind], assumption)
    apply (erule tail)
    apply simp
    done
qed

lemma attempt_view_scrubbed: "map attempt_view (update_rows q (scrubbed t) xs) = map attempt_view xs"
  by (rule map_update_rows) (simp add: attempt_view_def scrubbed_def)

lemma wp_findAttempt:
  assumes "\<And>s'. money_view s' = money_view s \<Longrightarrow> Q (find_row (has_key c k) (payment_attempts s')) s'"
  shows "wp (findAttempt c k) Q s"
  using assms [of "s\<lparr>payment_attempts := update_rows (\<lambda>a. has_key c k a \<and> result_expired (clock s) a) (scrubbed (clock s)) (payment_attempts s)\<rparr>"]
  unfolding findAttempt_def by (simp add: wp_simps money_view_def attempt_view_scrubbed)

definition ticketed :: "connection_auth \<Rightarrow> prepared_payment \<Rightarrow> 'a payments_db_scheme \<Rightarrow> bool" where
  "ticketed auth p s \<longleftrightarrow> (\<exists>amt. numeric_cast (qt_amount (pp_quote p)) = Inr amt \<and>
     ticket_at auth p amt \<in> rs_static ` set (payment_reservations s))"

lemma prepared_money:
  assumes M: "money_at T s" and a: "(au_org_id auth, au_agent_id auth) \<in> account_key ` set (payment_accounts s)"
    and p: "prepared_by auth o' s s'"
  shows "money_at T s' \<and> (case o' of Existing x \<Rightarrow> True | Prepared p \<Rightarrow> ticketed auth p s')"
proof (cases o')
  case (Existing x)
  with p have "money_view s' = money_view s" by (simp add: prepared_by_def pay_tables_def money_view_def)
  from money_at_view [OF this] M Existing show ?thesis by simp
next
  case (Prepared y)
  with p obtain amt where amt: "numeric_cast (qt_amount (pp_quote y)) = Inr amt"
    and r: "reserved_into (au_org_id auth, au_agent_id auth) (pp_attempt y) (pp_reservationId y) amt s s'"
    by (auto simp: prepared_by_def)
  have "money_at (insert (ticket_at auth y amt) T) s'"
    using money_reserved_into [OF M a r] by (simp add: ticket_at_def)
  with amt Prepared show ?thesis by (auto simp: money_at_def ticketed_def)
qed

lemma wp_activePaymentAccount:
  assumes "\<And>a org agent. find_account (au_org_id auth) (au_agent_id auth) s = Some a \<Longrightarrow> find_org (au_org_id auth) s = Some org \<Longrightarrow>
      find_row (\<lambda>a. ag_id a = au_agent_id auth) (agents s) = Some agent \<Longrightarrow> \<not> org_frozen org \<Longrightarrow>
      ag_status agent \<notin> {AgentPaused, AgentSuspended} \<Longrightarrow> pa_active a \<Longrightarrow> pa_payment_access a \<Longrightarrow> Q a s"
  shows "wp (activePaymentAccount auth) Q s"
  unfolding activePaymentAccount_def
  by (auto simp: wp_simps split: prod.split option.split intro!: assms)

lemma prepare_money_wp:
  assumes M: "money_at T s"
  shows "wp (preparePaidHttpPayment E W auth key rh dest input)
    (\<lambda>o' s'. money_at T s' \<and> (case o' of Existing x \<Rightarrow> True | Prepared p \<Rightarrow> ticketed auth p s')) s"
  unfolding preparePaidHttpPayment_def wp_transactionOn wp_bindM
proof (intro wp_activePaymentAccount wp_findAttempt, goal_cases)
  case (1 a org agent s1)
  have a: "(au_org_id auth, au_agent_id auth) \<in> account_key ` set (payment_accounts s1)"
    using 1(1,8) find_row_Some by (force simp: find_account_def money_view_def image_iff)
  have M1: "money_at T s1" using M money_at_view [OF 1(8)] by simp
  show ?case
  proof (cases "find_row (has_key (au_connection_id auth) key) (payment_attempts s1)")
    case None
    have "wp (prepare_new E W auth key rh dest input a) (\<lambda>o'. prepared_by auth o' s1) s1" by (rule wp_prepare_new [OF None])
    then show ?thesis by (simp add: None) (rule wp_mono, assumption, rule prepared_money [OF M1 a])
  next
    case (Some x)
    then show ?thesis by (simp add: wp_simps M1)
  qed
qed

lemma keeps_events_prepare: "keeps payment_events (prepare_new E W auth key rh dest input account)"
proof -
  have gate: "keeps payment_events (enforceX402Policy E auth i q r th)" for i q r th
    using keeps_enforce [of E auth i q r th] by (auto simp: keeps_def pay_tables_def)
  have attempt: "keeps payment_events (createAttempt E ci)" for ci
    unfolding createAttempt_def scopeInvalid_def by (rule keepsI, intro preserve_intros) simp_all
  have reserve: "keeps payment_events (reserve_payment E auth key rh m q qh qp so g)" for m q qh qp so g
    unfolding reserve_payment_def writePosting_def insert_reservation_def update_accounts_def Let_def
    by (rule keepsI, intro preserve_intros attempt [THEN keeps_preservesI]) simp_all
  show ?thesis
    unfolding prepare_new_def Let_def
    by (rule keepsI, intro preserve_intros reserve [THEN keeps_preservesI] gate [THEN keeps_preservesI] keeps_readings [THEN keeps_preservesI])
       (simp split: prod.split add: preserves_ret)
qed

lemma prepare_money: "preserves (money_at T) (preparePaidHttpPayment E W auth key rh dest input)"
proof (rule preservesI)
  fix s :: "'a payments_db_scheme"
  assume M: "money_at T s"
  obtain x s' where run: "preparePaidHttpPayment E W auth key rh dest input s = (x, s')" by fastforce
  show "money_at T (snd (preparePaidHttpPayment E W auth key rh dest input s))"
  proof (cases x)
    case (Inr o')
    with wpD [OF prepare_money_wp [OF M] run [unfolded Inr]] run show ?thesis by simp
  next
    case (Inl e)
    have events: "keeps payment_events (bindM (activePaymentAccount auth) (\<lambda>account.
       bindM (findAttempt (au_connection_id auth) key) (\<lambda>raced.
       case raced of
         Some attempt \<Rightarrow> bindM (guardM (at_request_hash attempt = rh) IDEMPOTENCY_CONFLICT) (\<lambda>_. ret (Existing attempt))
       | None \<Rightarrow> prepare_new E W auth key rh dest input account)))"
      unfolding findAttempt_def
      by (rule keepsI, intro preserve_intros keeps_readings [THEN keeps_preservesI] keeps_events_prepare [THEN keeps_preservesI]) simp
    from run [unfolded Inl preparePaidHttpPayment_def transactionOn_Inl] obtain s''
      where body: "bindM (activePaymentAccount auth) (\<lambda>account. bindM (findAttempt (au_connection_id auth) key) (\<lambda>raced.
          case raced of
            Some attempt \<Rightarrow> bindM (guardM (at_request_hash attempt = rh) IDEMPOTENCY_CONFLICT) (\<lambda>_. ret (Existing attempt))
          | None \<Rightarrow> prepare_new E W auth key rh dest input account)) s = (Inl e, s'')" and s': "s' = undo_payments s s''"
      by blast
    have "payment_events s'' = payment_events s" by (rule keepsD [OF events body])
    then have "money_view s' = money_view s" by (simp add: s' undo_payments_def money_view_def)
    from money_at_view [OF this] M run show ?thesis by simp
  qed
qed

section \<open>Every interleaving\<close>

text \<open>
  The calls of the machine. Preparing a payment leaves a ticket, the value the in-flight request
  holds on to; outcomes refer to a ticket and may arrive late, twice, or not at all. \<open>Elsewhere\<close> is
  any change made by the rest of the system that leaves the five payment tables alone: time passing,
  policies, approvals, agents being frozen, allowlists, wallets.
\<close>

datatype 'a pay_call =
    Prepare connection_auth string string string x402_input
  | Submit attempt_scope string
  | Retry connection_auth string string
  | Evidence connection_auth string settlement
  | Settled nat settlement
  | Terminal nat settlement
  | CancelStranded string string
  | Resolve operator_context string string resolution
  | SetAccess operator_context string string access_input
  | Correct string string "string option"
  | Elsewhere "'a payments_db_scheme \<Rightarrow> 'a payments_db_scheme"

type_synonym pay_ticket = "connection_auth \<times> prepared_payment"

fun pay_step ::
  "env \<Rightarrow> pay_world \<Rightarrow> 'a pay_call \<Rightarrow> 'a payments_db_scheme \<times> pay_ticket list \<Rightarrow> 'a payments_db_scheme \<times> pay_ticket list" where
  "pay_step E W (Prepare auth key rh dest input) (s, ts) =
     (case preparePaidHttpPayment E W auth key rh dest input s of
        (Inr (Prepared p), s') \<Rightarrow> (s', ts @ [(auth, p)])
      | (x, s') \<Rightarrow> (s', ts))"
| "pay_step E W (Submit scope i) (s, ts) = (snd (markSubmitting scope i s), ts)"
| "pay_step E W (Retry auth i reason) (s, ts) = (snd (markPaidHttpAttemptRetryable auth i reason s), ts)"
| "pay_step E W (Evidence auth i settlement) (s, ts) = (snd (persistPaidHttpProviderEvidence W auth i settlement s), ts)"
| "pay_step E W (Settled n settlement) (s, ts) =
     (if n < length ts then (snd (finalizeSettledPaidHttpPayment E W (fst (ts ! n)) (snd (ts ! n)) settlement s), ts) else (s, ts))"
| "pay_step E W (Terminal n settlement) (s, ts) =
     (if n < length ts then (snd (finalizeTerminalPaidHttpPayment E W (fst (ts ! n)) (snd (ts ! n)) settlement s), ts) else (s, ts))"
| "pay_step E W (CancelStranded og ag) (s, ts) = (snd (cancelStrandedReservedAttempts E og ag s), ts)"
| "pay_step E W (Resolve operator og i outcome) (s, ts) = (snd (resolveUnknownAttempt E operator og i outcome s), ts)"
| "pay_step E W (SetAccess operator og ag input) (s, ts) = (snd (setAgentPaymentAccess E operator og ag input s), ts)"
| "pay_step E W (Correct i reason createdBy) (s, ts) = (snd (correctPosting E i reason createdBy s), ts)"
| "pay_step E W (Elsewhere f) (s, ts) = (if pay_tables (f s) = pay_tables s then (f s, ts) else (s, ts))"

definition payments_ok :: "'a payments_db_scheme \<times> pay_ticket list \<Rightarrow> bool" where
  "payments_ok x \<longleftrightarrow> money_at {} (fst x) \<and> (\<forall>(auth, p) \<in> set (snd x). ticketed auth p (fst x))"

definition no_payments :: "'a payments_db_scheme \<Rightarrow> 'a payments_db_scheme \<times> pay_ticket list" where
  "no_payments s = (s\<lparr>payment_accounts := [], payment_reservations := [], ledger_postings := [], payment_attempts := [],
     payment_events := []\<rparr>, [])"

lemma tickets_kept:
  assumes "\<And>T. preserves (money_at T) m" and "money_at {} s" and "m s = (x, s')"
  shows "money_at {} s'" and "ticketed auth p s \<Longrightarrow> ticketed auth p s'"
proof -
  let ?T = "rs_static ` set (payment_reservations s)"
  have "money_at ?T s" using assms(2) by (simp add: money_at_def)
  then have "money_at ?T s'" using assms(1,3) by (metis preservesD)
  then show "money_at {} s'" "ticketed auth p s \<Longrightarrow> ticketed auth p s'"
    by (auto simp: money_at_def ticketed_def)
qed

lemma op_step_ok:
  assumes "payments_ok (s, ts)" and "\<And>T. preserves (money_at T) m"
  shows "payments_ok (snd (m s), ts)"
proof -
  obtain x s' where run: "m s = (x, s')" by fastforce
  have M: "money_at {} s" using assms(1) by (simp add: payments_ok_def)
  from tickets_kept [OF assms(2) M run] assms(1) run show ?thesis
    by (auto simp: payments_ok_def)
qed

lemma pay_step_ok:
  fixes x :: "'a payments_db_scheme \<times> pay_ticket list"
  assumes ok: "payments_ok x"
  shows "payments_ok (pay_step E W c x)"
proof -
  obtain s ts where x: "x = (s, ts)" by fastforce
  note step = op_step_ok [OF ok [unfolded x]]
  have M: "money_at {} s" using ok by (simp add: payments_ok_def x)
  have ticket: "\<exists>amt. numeric_cast (qt_amount (pp_quote (snd t))) = Inr amt \<and> ticket_at (fst t) (snd t) amt \<in> rs_static ` set (payment_reservations s)"
    if "t \<in> set ts" for t
    using ok that by (auto simp: payments_ok_def x ticketed_def)
  have outcome: "payments_ok (snd (m s), ts)"
    if t: "t \<in> set ts" and m: "\<And>amt T. numeric_cast (qt_amount (pp_quote (snd t))) = Inr amt \<Longrightarrow> ticket_at (fst t) (snd t) amt \<in> T \<Longrightarrow> preserves (money_at T) m"
    for t and m :: "('a payments_db_scheme, payment_result) op"
  proof -
    obtain amt where amt: "numeric_cast (qt_amount (pp_quote (snd t))) = Inr amt"
      "ticket_at (fst t) (snd t) amt \<in> rs_static ` set (payment_reservations s)" using ticket [OF t] by blast
    let ?T = "rs_static ` set (payment_reservations s)"
    have "money_at ?T s" using M by (simp add: money_at_def)
    then have "money_at ?T (snd (m s))" using m [OF amt] by (simp add: preserves_def)
    then show ?thesis
      using ok by (force simp: payments_ok_def x money_at_def ticketed_def)
  qed
  show ?thesis
  proof (cases c)
    case (Prepare auth key rh dest input)
    obtain r s' where run: "preparePaidHttpPayment E W auth key rh dest input s = (r, s')" by fastforce
    have base: "payments_ok (s', ts)" using step [OF prepare_money, of E W auth key rh dest input] by (simp add: run)
    have "ticketed auth p s'" if "r = Inr (Prepared p)" for p
      using wpD [OF prepare_money_wp [OF M] run [unfolded that]] by simp
    with base show ?thesis
      by (cases r; cases "projr r") (auto simp: x Prepare run payments_ok_def split: sum.split prepare_outcome.split)
  next
    case (Settled n settlement)
    then show ?thesis using ok outcome [OF _ finalizeSettled_money, of "ts ! n"] by (simp add: x)
  next
    case (Terminal n settlement)
    then show ?thesis using ok outcome [OF _ finalizeTerminal_money, of "ts ! n"] by (simp add: x)
  next
    case (Elsewhere f)
    have "payments_ok (f s, ts)" if "pay_tables (f s) = pay_tables s"
      using ok that by (simp add: payments_ok_def x money_at_def ticketed_def pay_tables_def)
    with ok show ?thesis by (simp add: x Elsewhere)
  qed (simp_all add: x step keeps_money keeps_submission cancelStranded_money resolveUnknown_money setAccess_money correct_money)
qed

interpretation payment_machine: invariant_machine "no_payments s0" "pay_step E W" payments_ok
  for s0 :: "'a payments_db_scheme" and E W
  by unfold_locales
     (simp_all add: pay_step_ok, simp add: payments_ok_def no_payments_def money_at_def money_tables_ok_def unknown_rids_def)

text \<open>
  C3. No cent is lost or paid twice. Interleave preparations, submissions, provider evidence,
  settled, failed and ambiguous outcomes of any payment prepared so far (late, repeated or never),
  cancellations of stranded reservations, resolutions by operators, changes of accounts, ledger
  corrections, and anything else in the system that does not write the payment tables. Then the
  \<open>reserved_usdc\<close> of every account is the sum of its open reservations, its \<open>spent_usdc\<close> the sum of
  its settlement postings, every reservation has exactly one settlement posting when it is settled
  and none otherwise, and every attempt that may still be paid holds an open reservation.
\<close>

theorem money_conserved:
  "let (s, tickets) = fold (pay_step E W) calls (no_payments s0)
   in list_all (\<lambda>a. pa_reserved a = reserved_sum (pa_org_id a, pa_agent_id a) (payment_reservations s) \<and>
                    pa_spent a = settled_sum (pa_org_id a, pa_agent_id a) (ledger_postings s)) (payment_accounts s) \<and>
      list_all (\<lambda>r. length (filter (\<lambda>p. po_entry_type p = ESettle \<and> po_reservation_id p = Some (rs_id r)) (ledger_postings s)) =
                    (if rs_status r = RsSettled then 1 else 0)) (payment_reservations s) \<and>
      list_all (\<lambda>a. if at_status a \<in> {AtReserved, AtSubmitting}
                    then list_ex (\<lambda>r. rs_reason_code r = attempt_reason (at_id a) \<and> rs_org_id r = at_org_id a \<and>
                                      rs_agent_id r = at_agent_id a \<and> rs_status r = RsReserved) (payment_reservations s)
                    else True) (payment_attempts s)"
proof -
  obtain s ts where run: "fold (pay_step E W) calls (no_payments s0) = (s, ts)" by fastforce
  have "payments_ok (fold (pay_step E W) calls (no_payments s0))" by (rule payment_machine.inv_reachable)
  then have ok: "money_tables_ok (payment_accounts s) (payment_reservations s) (ledger_postings s) (map attempt_view (payment_attempts s))
      (unknown_rids (payment_events s))" by (simp add: run payments_ok_def money_at_def)
  have live: "\<exists>r \<in> set (payment_reservations s). rs_reason_code r = attempt_reason (at_id a) \<and> rs_org_id r = at_org_id a \<and>
      rs_agent_id r = at_agent_id a \<and> rs_status r = RsReserved"
    if "a \<in> set (payment_attempts s)" "at_status a \<in> {AtReserved, AtSubmitting}" for a
  proof -
    have l: "(at_id a, at_org_id a, at_agent_id a, True) \<in> set (map attempt_view (payment_attempts s))"
      using that by (force simp: attempt_view_def is_live_def image_iff)
    obtain r where r: "r \<in> set (payment_reservations s)" "rs_reason_code r = attempt_reason (at_id a)"
      using money_tables_okD(8) [OF ok l] by auto
    obtain j m where "(j, rs_org_id r, rs_agent_id r, m) \<in> set (map attempt_view (payment_attempts s))" "rs_reason_code r = attempt_reason j" "m \<longrightarrow> rs_status r = RsReserved"
      using money_tables_okD(6) [OF ok r(1)] by (auto simp: reservation_ok_def)
    moreover from this r have "j = at_id a" by simp
    ultimately show ?thesis
      using r distinct_key_unique [OF money_tables_okD(4) [OF ok] _ l, of "(j, rs_org_id r, rs_agent_id r, m)"] by auto
  qed
  show ?thesis
    unfolding run Let_def prod.case list_all_iff list_ex_iff
    using money_tables_okD(5,6) [OF ok] live
    by (auto simp: account_ok_def reservation_ok_def settle_count_def)
qed

end
