(* ===== verification/PaymentGate.thy ===== *)
theory PaymentGate
  imports PaymentMoney
begin

text \<open>
  What a reservation proves: the checks of \<open>preparePaidHttpPayment\<close>, read off the tables as they were
  when it was called. A payment that is prepared was authorised by every one of them; one that is not
  leaves the payment tables alone.
\<close>

section \<open>The gate\<close>

lemma wp_any: "(\<And>a s'. Q a s') \<Longrightarrow> wp m Q s"
  by (simp add: wp_def)

definition gate_verdict :: "env \<Rightarrow> connection_auth \<Rightarrow> x402_input \<Rightarrow> runtime_quote \<Rightarrow> x402_resource \<Rightarrow> int option \<Rightarrow> 'a payments_db_scheme \<Rightarrow> decision_value" where
  "gate_verdict E auth input quote resource threshold s =
     dr_decision (policy_verdict E (au_org_id auth) (gate_request auth (gate_context input quote resource threshold)) s)"

text \<open>
  An approval of the request, as the tables tell: the row \<open>i\<close> of the caller's organisation, asked for by
  the caller, over exactly this action, target and context.
\<close>

definition approval_for_request ::
  "env \<Rightarrow> connection_auth \<Rightarrow> obj \<Rightarrow> string \<Rightarrow> approval_row list \<Rightarrow> approval_row \<Rightarrow> bool" where
  "approval_for_request E auth context i rows a \<longleftrightarrow>
     find_row (\<lambda>a. ap_org_id a = au_org_id auth \<and> ap_id a = i) rows = Some a \<and>
     ap_connection_id a = au_connection_id auth \<and> ap_agent_id a = au_agent_id auth \<and>
     approvalContextHash E ''payment.x402.authorize'' AgentT (Some (au_agent_id auth)) context = Inr (ap_context_hash a)"

text \<open>
  What happened to the approval: the one the caller presented with its decision was approved and
  unexpired, and is consumed now; or a new one is pending.
\<close>

definition approval_spent ::
  "env \<Rightarrow> connection_auth \<Rightarrow> string option \<times> string option \<Rightarrow> obj \<Rightarrow> int \<Rightarrow> string option \<Rightarrow> approval_row list \<Rightarrow> approval_row list \<Rightarrow> bool" where
  "approval_spent E auth presented context t approvalId rows rows' \<longleftrightarrow>
     (\<exists>i a. approvalId = Some i \<and> presented = (Some i, Some (ap_decision_id a)) \<and> approval_for_request E auth context i rows a \<and>
        ap_status a = StApproved \<and> t < ap_expires_at a \<and>
        find_row (\<lambda>a. ap_org_id a = au_org_id auth \<and> ap_id a = i) rows' = Some (consumed_row t a))"

definition approval_waiting ::
  "env \<Rightarrow> connection_auth \<Rightarrow> obj \<Rightarrow> string option \<Rightarrow> string \<Rightarrow> approval_row list \<Rightarrow> approval_row list \<Rightarrow> bool" where
  "approval_waiting E auth context approvalId neededId rows rows' \<longleftrightarrow>
     (\<exists>a. approvalId = Some neededId \<and> rows' = rows @ [a] \<and> approval_for_request E auth context neededId rows' a \<and>
        ap_status a = StPending)"

definition gate_passed ::
  "env \<Rightarrow> connection_auth \<Rightarrow> x402_input \<Rightarrow> obj \<Rightarrow> decision_value \<Rightarrow> bool \<Rightarrow> int \<Rightarrow> approval_row list \<Rightarrow>
   policy_gate \<Rightarrow> approval_needed option \<Rightarrow> approval_row list \<Rightarrow> bool" where
  "gate_passed E auth input context v over t rows gate needed rows' \<longleftrightarrow> v \<noteq> Deny \<and>
     (if v = ApprovalRequired \<or> over
      then case needed of
             None \<Rightarrow> approval_spent E auth (approvalProofFromContext (xi_context input)) context t (pg_approvalId gate) rows rows'
           | Some n \<Rightarrow> approval_waiting E auth context (pg_approvalId gate) (an_approvalId n) rows rows'
      else needed = None \<and> pg_approvalId gate = None \<and> rows' = rows)"

lemma wp_getApproval_row:
  "wp (getApproval E og i) (\<lambda>ap s'. s' = s \<and> (\<exists>a. find_approval og i s = Some a \<and> ap_context_hash ap = ap_context_hash a)) s"
  unfolding getApproval_def approvalFromRow_def attachApprovalDetails_def
  by (auto simp: wp_simps approval_row.defs approval_record.defs split: option.split)

lemma createApprovalRequest_effect:
  "wp (createApprovalRequest E input)
     (\<lambda>x s'. \<exists>h. approvalContextHash E (aq_action input) (aq_target_type input) (aq_target_id input) (aq_context input) = Inr h \<and>
        \<not> list_ex (\<lambda>a. ap_id a = ap_id x) (approval_requests s) \<and>
        approval_requests s' = approval_requests s @ [pending_approval input (ap_id x) h (clock s)]) s"
proof -
  have tail: "wp m Q s1" if "keeps approval_tables m" "approval_requests s1 = w" "\<And>x s'. approval_requests s' = w \<Longrightarrow> Q x s'"
    for m :: "('a approvals_db_scheme, 'x) op" and Q w s1
    by (rule wp_keeps [OF that(1)]) (use that(2,3) in simp)
  show ?thesis
    unfolding createApprovalRequest_def
    by (auto simp: wp_simps Let_def insert_approval_def approvalFromRow_def approval_row.defs pending_approval_def
        intro!: keeps_tables [THEN tail])
qed

lemma enforce_verdict:
  "wp (enforceX402Policy E auth input quote resource th)
     (\<lambda>g s'. gate_passed E auth input (gate_context input quote resource th) (gate_verdict E auth input quote resource th s)
        (over_threshold th quote) (clock s) (approval_requests s) (gate_of g) (needed_of g) (approval_requests s')) s"
proof -
  let ?ctx = "gate_context input quote resource th"
  have spent: "wp (bindM (getApproval E (au_org_id auth) i) (\<lambda>approval.
      bindM (liftE (approvalContextHash E ''payment.x402.authorize'' AgentT (Some (au_agent_id auth)) ?ctx)) (\<lambda>expectedHash.
      bindM (guardM (ap_context_hash approval = expectedHash) e) (\<lambda>_.
      bindM (consumeApproval E auth i dec) (\<lambda>consumed.
      ret (Inr \<lparr>pg_approvalId = Some (ap_id consumed), pg_decisionId = D\<rparr>))))))
    (\<lambda>g s'. needed_of g = None \<and> approval_spent E auth (Some i, Some dec) ?ctx (clock s1) (pg_approvalId (gate_of g)) (approval_requests s1) (approval_requests s')) s1"
    for i dec e D and s1 :: "'a payments_db_scheme"
    apply (subst wp_bindM, rule wp_mono [OF wp_getApproval_row], elim conjE exE, hypsubst)
    apply (simp only: wp_bindM wp_liftE wp_guardM, intro allI impI)
    apply (rule wp_mono [OF consumeApproval_effect], elim conjE exE)
    apply (auto simp: wp_ret needed_of_def gate_of_def approval_spent_def approval_for_request_def find_approval_def consumable_def)
    done
  have waiting: "wp (bindM (createApprovalRequest E \<lparr>aq_orgId = au_org_id auth, aq_agentId = au_agent_id auth,
       aq_connectionId = au_connection_id auth, aq_decisionId = D,
       aq_action = ''payment.x402.authorize'', aq_target_type = AgentT, aq_target_id = Some (au_agent_id auth),
       aq_context = ?ctx, aq_required = None\<rparr>) (\<lambda>approval. ret (Inl (N approval))))
    (\<lambda>g s'. \<exists>n. needed_of g = Some n \<and> approval_waiting E auth ?ctx (pg_approvalId (gate_of g)) (an_approvalId n) (approval_requests s1) (approval_requests s')) s1"
    if "\<And>a. an_approvalId (N a) = ap_id a" for D N and s1 :: "'a payments_db_scheme"
    apply (subst wp_bindM, rule wp_mono [OF createApprovalRequest_effect], elim conjE exE)
    using that
    apply (auto simp: wp_ret needed_of_def gate_of_def approval_waiting_def approval_for_request_def pending_approval_def
        find_row_append list_ex_iff split: option.split dest: find_row_Some)
    done
  show ?thesis
    unfolding enforceX402Policy_def Let_def
    apply (subst wp_bindM, rule wp_check_verdict)
    subgoal for d s1
      apply (subst wp_bindM, subst wp_guardM, intro impI)
      apply (cases "dr_decision d = ApprovalRequired \<or> over_threshold th quote")
       apply (simp only: simp_thms if_False)
       apply (cases "\<exists>i dec. approvalProofFromContext (xi_context input) = (Some i, Some dec)")
        apply (elim exE)
        apply (simp only: prod.case option.case)
        apply (rule wp_mono [OF spent])
        apply (simp add: gate_passed_def gate_verdict_def)
       apply (simp only: prod.case not_ex split: prod.split option.split, intro conjI allI impI)
          apply (rule wp_mono [OF waiting], simp, force simp: gate_passed_def gate_verdict_def)
         apply (rule wp_mono [OF waiting], simp, force simp: gate_passed_def gate_verdict_def)
       apply simp
      apply (simp add: wp_ret gate_passed_def gate_verdict_def gate_of_def needed_of_def)
      done
    done
qed

lemma keeps_wallets: "keeps agent_chain_wallets (enforceX402Policy E auth input quote resource th)"
proof -
  have "keeps agent_chain_wallets (checkPolicyDecision E operator orgId request)"
    "keeps agent_chain_wallets (getApproval E orgId i)" "keeps agent_chain_wallets (consumeApproval E auth i d)"
    "keeps agent_chain_wallets (createApprovalRequest E ri)" for operator orgId request i d ri
    unfolding checkPolicyDecision_def consumeApproval_def consume_checks_def consume_commit_def createApprovalRequest_def
      Let_def case_prod_beta
    by (rule keepsI, intro preserve_intros; simp)+
  note gate = this [THEN keeps_preservesI]
  show ?thesis
    unfolding enforceX402Policy_def Let_def
    by (rule keepsI)
       (intro preserve_intros gate; simp split: option.split prod.split; intro conjI allI impI preserve_intros gate)
qed

lemma attempts_frame [simp]:
  "policy_verdict E orgId request (s\<lparr>payment_attempts := xs\<rparr>) = policy_verdict E orgId request s"
  "destination_allowed orgId chain address (s\<lparr>payment_attempts := xs\<rparr>) = destination_allowed orgId chain address s"
  "orgPaymentMode orgId (s\<lparr>payment_attempts := xs\<rparr>) = orgPaymentMode orgId s"
proof -
  have "find_agent og i (s\<lparr>payment_attempts := xs\<rparr>) = find_agent og i s" "find_connection og i (s\<lparr>payment_attempts := xs\<rparr>) = find_connection og i s" for og i
    by (simp_all add: find_agent_def find_connection_def)
  then have "targetBindingCandidates og t i (s\<lparr>payment_attempts := xs\<rparr>) = targetBindingCandidates og t i s" for og t i
    unfolding targetBindingCandidates_def Let_def by (simp only:)
  then show "policy_verdict E orgId request (s\<lparr>payment_attempts := xs\<rparr>) = policy_verdict E orgId request s"
    by (simp add: policy_verdict_def effectivePoliciesForRequest_def orgDefaultPolicyEffect_def find_org_def)
qed (simp_all add: destination_allowed_def orgPaymentMode_def)

section \<open>Authorised payments\<close>

definition funded :: "pay_world \<Rightarrow> string \<Rightarrow> payment_mode \<Rightarrow> runtime_quote \<Rightarrow> agent_wallet_row list \<Rightarrow> bool" where
  "funded W agentId mode quote wallets =
     (case find_row (\<lambda>w. aw_agent_id w = agentId \<and> aw_mode w = mode \<and> aw_chain w = qt_chain quote \<and> aw_status w = WalletActive) wallets of
        None \<Rightarrow> True
      | Some w \<Rightarrow> (case pw_balance W (aw_address w) (aw_chain w) mode of Inl e \<Rightarrow> False | Inr b \<Rightarrow> qt_amountMicros quote \<le> b))"

definition within_budget :: "account_row \<Rightarrow> int \<Rightarrow> bool" where
  "within_budget a amount \<longleftrightarrow>
     (if 0 < pa_per_request_cap a then amount \<le> pa_per_request_cap a else True) \<and> pa_spent a + pa_reserved a + amount \<le> pa_budget a"

definition authorised ::
  "env \<Rightarrow> pay_world \<Rightarrow> connection_auth \<Rightarrow> account_row \<Rightarrow> prepared_payment \<Rightarrow> approval_row list \<Rightarrow>
   'a payments_db_scheme \<Rightarrow> bool" where
  "authorised E W auth account p rows' s \<longleftrightarrow>
     (let q = pp_quote p; mode = orgPaymentMode (au_org_id auth) s; threshold = pa_approval_threshold account;
          input = pp_paymentInput p
      in quote_ok mode q \<and> qt_rail q \<in> set (pa_allowed_rails account) \<and>
         destination_allowed (au_org_id auth) (qt_chain q) (qt_recipient q) s \<and>
         gate_passed E auth input (gate_context input q (pp_resource p) threshold)
           (gate_verdict E auth input q (pp_resource p) threshold s) (over_threshold threshold q)
           (clock s) (approval_requests s) (pp_policyGate p) (pp_approvalRequired p) rows' \<and>
         within_budget account (qt_amountMicros q) \<and>
         funded W (au_agent_id auth) mode q (agent_chain_wallets s))"

lemma wallet_funded:
  assumes "0 < qt_amountMicros quote" and "funded W ag mode quote (agent_chain_wallets s) \<Longrightarrow> wp (g ()) Q s"
  shows "wp (bindM (assertWalletBalance W ag mode quote) g) Q s"
  using assms
  by (auto simp: assertWalletBalance_def findAgentWallet_def readSpendableMicros_def funded_def wp_simps bindE_Inr
      split: option.split sum.split)

lemma assertWithinBudget_ok: "assertWithinBudget a q = Inr u \<Longrightarrow> within_budget a (qt_amountMicros q)"
  by (auto simp: assertWithinBudget_def bindE_Inr within_budget_def)

lemma find_quote: "find P xs = Some x \<Longrightarrow> x \<in> set xs \<and> P x"
  by (metis find_Some_iff nth_mem)

lemma wp_reserve_any: "(\<And>a b s'. Q (a, b) s') \<Longrightarrow> wp m Q s"
  by (auto simp: wp_def)

lemma gate_bind:
  assumes "keeps f m" and "f s1 = w" and "wp m R s1" and "\<And>a s'. R a s' \<Longrightarrow> f s' = w \<Longrightarrow> wp (g a) Q s'"
  shows "wp (bindM m g) Q s1"
  unfolding wp_def bindM_Inr
  using assms(2,4) keepsD [OF assms(1)] wpD [OF assms(3)] by (metis wpD)

lemma keeps_reserve_approvals: "keeps approval_requests (reserve_payment E auth key rh mode quote qh qp source gate)"
proof -
  have attempt: "keeps approval_requests (createAttempt E ci)" for ci
    unfolding createAttempt_def scopeInvalid_def by (rule keepsI, intro preserve_intros) simp_all
  show ?thesis
    unfolding reserve_payment_def writePosting_def insert_reservation_def update_accounts_def Let_def
    by (rule keepsI, intro preserve_intros attempt [THEN keeps_preservesI]) simp_all
qed

lemma prepare_new_authorised:
  "wp (prepare_new E W auth key rh dest input account)
     (\<lambda>o' s'. case o' of Existing a \<Rightarrow> False | Prepared p \<Rightarrow> authorised E W auth account p (approval_requests s') s) s"
proof -
  have tail: "wp (bindM (liftE (assertWithinBudget account quote)) (\<lambda>_.
      bindM (assertWalletBalance W (au_agent_id auth) (orgPaymentMode (au_org_id auth) s) quote) (\<lambda>_.
      bindM (reserve_payment E auth key rh mode quote qh qp source (gate_of gate)) (\<lambda>(att, rid). ret (Prepared (P att rid))))))
      (\<lambda>o' s'. case o' of Existing a \<Rightarrow> False | Prepared p \<Rightarrow> authorised E W auth account p (approval_requests s') s) s1"
    if q: "supportedRuntimeQuotes (xi_accepts input) (orgPaymentMode (au_org_id auth) s) = Inr quotes"
        "find (\<lambda>q. qt_rail q \<in> set (pa_allowed_rails account)) quotes = Some quote"
      and d: "destination_allowed (au_org_id auth) (qt_chain quote) (qt_recipient quote) s"
      and g: "gate_passed E auth input' (gate_context input' quote resource (pa_approval_threshold account))
        (gate_verdict E auth input' quote resource (pa_approval_threshold account) s)
        (over_threshold (pa_approval_threshold account) quote) (clock s) (approval_requests s) (gate_of gate) (needed_of gate) rows'"
      and w: "agent_chain_wallets s1 = agent_chain_wallets s" "approval_requests s1 = rows'"
      and P: "\<And>att rid. pp_quote (P att rid) = quote \<and> pp_paymentInput (P att rid) = input' \<and> pp_resource (P att rid) = resource \<and>
        pp_policyGate (P att rid) = gate_of gate \<and> pp_approvalRequired (P att rid) = needed_of gate"
    for quotes quote input' resource gate mode qh qp source P rows' and s1 :: "'a payments_db_scheme"
  proof -
    have quote: "quote_ok (orgPaymentMode (au_org_id auth) s) quote" "qt_rail quote \<in> set (pa_allowed_rails account)"
      using supported_quotes [OF q(1)] find_quote [OF q(2)] by auto
    then have pos: "0 < qt_amountMicros quote" by (simp add: quote_ok_def)
    have auth: "authorised E W auth account (P att rid) rows' s"
      if "within_budget account (qt_amountMicros quote)" "funded W (au_agent_id auth) (orgPaymentMode (au_org_id auth) s) quote (agent_chain_wallets s1)"
      for att rid
      using quote d g that w P by (simp add: authorised_def Let_def)
    show ?thesis
      apply (intro bind_rules wallet_funded [OF pos])
      apply (subst wp_bindM, rule wp_keeps [OF keeps_reserve_approvals])
      using auth w by (auto simp: wp_simps dest!: assertWithinBudget_ok)
  qed
  show ?thesis
    unfolding prepare_new_def Let_def
    apply (rule bind_rules bind_option wp_throw_any)+
    apply (rule gate_bind [OF keeps_readings(2) refl, where f = "\<lambda>s. s" and R = "\<lambda>_ _. True"], rule wp_any, rule TrueI)
    apply (rule bind_rules)+
    apply (rule gate_bind [OF keeps_wallets], simp, rule enforce_verdict)
    apply hypsubst
    apply (rule gate_bind [where f = "\<lambda>s. (agent_chain_wallets s, approval_requests s)" and R = "\<lambda>_ _. True"], rule keepsI,
        rule preserves_if, rule keeps_readings(3) [THEN keeps_preservesI], rule preserves_ret, rule refl, rule wp_any, rule TrueI)
    apply (rule tail, assumption, assumption, assumption, assumption, simp, simp, simp)
    done
qed

lemma wp_findAttempt_frame:
  "(\<And>xs. xs = update_rows (\<lambda>a. has_key c k a \<and> result_expired (clock s) a) (scrubbed (clock s)) (payment_attempts s) \<Longrightarrow>
      Q (find_row (has_key c k) xs) (s\<lparr>payment_attempts := xs\<rparr>)) \<Longrightarrow> wp (findAttempt c k) Q s"
  by (simp add: findAttempt_def wp_simps)

lemma authorised_attempts [simp]:
  "authorised E W auth account p rows' (s\<lparr>payment_attempts := xs\<rparr>) = authorised E W auth account p rows' s"
  by (simp add: authorised_def gate_verdict_def)

lemma reserved_account:
  assumes "find_account og ag s = Some account" and "payment_accounts s' = update_rows (of_agent og ag) (reserve_in amt t) (payment_accounts s)"
  shows "find_account og ag s' = Some (reserve_in amt t account)"
  using assms find_row_Some [OF assms(1) [unfolded find_account_def]] unfolding find_account_def
  by (simp, intro find_row_updated) (auto simp: of_agent_def reserve_in_def)

definition reservation_made ::
  "env \<Rightarrow> pay_world \<Rightarrow> connection_auth \<Rightarrow> string \<Rightarrow> string \<Rightarrow> 'a payments_db_scheme \<Rightarrow> prepare_outcome \<Rightarrow> 'a payments_db_scheme \<Rightarrow> bool" where
  "reservation_made E W auth key requestHash s o' s' =
     (case o' of
        Existing a \<Rightarrow> at_request_hash a = requestHash \<and> at_idempotency_key a = key \<and> at_connection_id a = Some (au_connection_id auth) \<and>
          s' = s\<lparr>payment_attempts := update_rows (\<lambda>a. has_key (au_connection_id auth) key a \<and> result_expired (clock s) a)
                 (scrubbed (clock s)) (payment_attempts s)\<rparr>
      | Prepared p \<Rightarrow>
       (\<exists>account org agent t.
          find_account (au_org_id auth) (au_agent_id auth) s = Some account \<and> pa_active account \<and> pa_payment_access account \<and>
          find_org (au_org_id auth) s = Some org \<and> \<not> org_frozen org \<and>
          find_row (\<lambda>a. ag_id a = au_agent_id auth) (agents s) = Some agent \<and> ag_status agent \<notin> {AgentPaused, AgentSuspended} \<and>
          authorised E W auth account p (approval_requests s') s \<and>
          find_account (au_org_id auth) (au_agent_id auth) s' = Some (reserve_in (qt_amountMicros (pp_quote p)) t account)))"

lemma prepare_reserves: "wp (preparePaidHttpPayment E W auth key rh dest input) (reservation_made E W auth key rh s) s"
  unfolding preparePaidHttpPayment_def wp_transactionOn wp_bindM
proof (intro wp_activePaymentAccount wp_findAttempt_frame, goal_cases)
  case (1 account org agent xs)
  let ?s1 = "s\<lparr>payment_attempts := xs\<rparr>"
  show ?case
  proof (cases "find_row (has_key (au_connection_id auth) key) xs")
    case None
    then have "find_row (has_key (au_connection_id auth) key) (payment_attempts ?s1) = None" by simp
    from wp_conj [OF prepare_new_authorised [of E W auth key rh dest input account ?s1] wp_prepare_new [OF this, of E W rh dest input account]]
    show ?thesis unfolding None option.case
    proof (rule wp_mono)
      fix o' and s' :: "'a payments_db_scheme"
      assume post: "(case o' of Existing a \<Rightarrow> False | Prepared p \<Rightarrow> authorised E W auth account p (approval_requests s') ?s1) \<and> prepared_by auth o' ?s1 s'"
      then obtain p amt where p: "o' = Prepared p" "authorised E W auth account p (approval_requests s') s" "numeric_cast (qt_amount (pp_quote p)) = Inr amt"
        and r: "reserved_into (au_org_id auth, au_agent_id auth) (pp_attempt p) (pp_reservationId p) amt ?s1 s'"
        by (cases o') (auto simp: prepared_by_def)
      have "parseUsdcMicros (UText (qt_amount (pp_quote p))) = Inr (qt_amountMicros (pp_quote p))"
        using p(2) by (simp add: authorised_def quote_ok_def Let_def)
      from numeric_cast_of_parse [OF this] p(3) have "amt = qt_amountMicros (pp_quote p)" by (simp split: if_splits)
      with r obtain t where "payment_accounts s' =
          update_rows (of_agent (au_org_id auth) (au_agent_id auth)) (reserve_in (qt_amountMicros (pp_quote p)) t) (payment_accounts s)"
        by (auto simp: reserved_into_def)
      from reserved_account [OF 1(1) this] p 1 show "reservation_made E W auth key rh s o' s'"
        by (auto simp: reservation_made_def)
    qed
  next
    case (Some x)
    from find_row_Some [OF this] Some 1 show ?thesis by (auto simp: wp_simps reservation_made_def has_key_def)
  qed
qed

text \<open>
  C4. Every reservation was authorised. When \<open>preparePaidHttpPayment\<close> reserves, then at that moment
  the organisation was not frozen, the agent was neither paused nor suspended and its account was
  active; the quote is payable (\<open>quote_ok\<close>) on a rail the account allows, to an address on the
  organisation's allowlist; the policies in force did not deny the payment; the amount respects the
  per-request cap, fits in the budget together with everything spent and reserved, and is covered by
  the agent's own balance on the chain where it has a wallet. If the policies or the account's
  threshold asked for an approval (\<open>gate_passed\<close>), one of two things has happened. Either the caller
  presented an approval with its decision: that approval is the caller's own, its stored context hash
  is the hash of this very request, it was approved and unexpired, and it is consumed in the table now
  (\<open>approval_spent\<close>). Or the payment is marked as waiting (\<open>pp_approvalRequired\<close>, which \<open>payRuntimeX402\<close>
  throws before anything is submitted) and a new pending approval request over this request is on the
  table (\<open>approval_waiting\<close>). When none was asked for, no approval is touched. The account has exactly
  the amount more reserved. When an existing attempt is returned, it is the one for this connection
  and idempotency key and for the same request, and the only change to the state is that an expired
  result of the attempt is scrubbed; when the preparation throws, no payment table has changed.
\<close>

theorem payment_authorised:
  "case preparePaidHttpPayment E W auth key requestHash dest input s of
     (Inl e, s') \<Rightarrow>
       payment_accounts s' = payment_accounts s \<and> payment_reservations s' = payment_reservations s \<and>
       ledger_postings s' = ledger_postings s \<and> payment_attempts s' = payment_attempts s
   | (Inr (Existing a), s') \<Rightarrow>
       at_request_hash a = requestHash \<and> at_idempotency_key a = key \<and> at_connection_id a = Some (au_connection_id auth) \<and>
       s' = s\<lparr>payment_attempts := update_rows (\<lambda>a. has_key (au_connection_id auth) key a \<and> result_expired (clock s) a)
              (scrubbed (clock s)) (payment_attempts s)\<rparr>
   | (Inr (Prepared p), s') \<Rightarrow>
       (\<exists>account org agent t.
          find_account (au_org_id auth) (au_agent_id auth) s = Some account \<and> pa_active account \<and> pa_payment_access account \<and>
          find_org (au_org_id auth) s = Some org \<and> \<not> org_frozen org \<and>
          find_row (\<lambda>a. ag_id a = au_agent_id auth) (agents s) = Some agent \<and> ag_status agent \<notin> {AgentPaused, AgentSuspended} \<and>
          authorised E W auth account p (approval_requests s') s \<and>
          find_account (au_org_id auth) (au_agent_id auth) s' = Some (reserve_in (qt_amountMicros (pp_quote p)) t account))"
proof (cases "preparePaidHttpPayment E W auth key requestHash dest input s")
  case (Pair x s')
  show ?thesis
  proof (cases x)
    case (Inl e)
    with Pair have "preparePaidHttpPayment E W auth key requestHash dest input s = (Inl e, s')" by simp
    then obtain s'' where "s' = undo_payments s s''" unfolding preparePaidHttpPayment_def transactionOn_Inl by blast
    with Pair Inl show ?thesis by (simp add: undo_payments_def)
  next
    case (Inr o')
    with Pair have "reservation_made E W auth key requestHash s o' s'" using wpD [OF prepare_reserves] by metis
    with Pair Inr show ?thesis by (cases o') (simp_all add: reservation_made_def)
  qed
qed

end
