(* ===== verification/PaymentLiveness.thy ===== *)
theory PaymentLiveness
  imports PaymentGate
begin

text \<open>
  Money is not held for ever: in every state the payment machine reaches, cancelling the stranded
  attempts of an agent succeeds, releases all of them and leaves none behind. The argument adds to the
  money invariant that stored accounts satisfy the constraints of their table and that reserved
  amounts are positive.
\<close>

section \<open>Constraints of the stored rows\<close>

definition funds_ok :: "'a payments_db_scheme \<Rightarrow> bool" where
  "funds_ok s \<longleftrightarrow> list_all account_checks (payment_accounts s) \<and> list_all (\<lambda>r. 0 < rs_amount r) (payment_reservations s)"

lemma funds_ok_tables: "payment_accounts s' = payment_accounts s \<Longrightarrow> payment_reservations s' = payment_reservations s \<Longrightarrow> funds_ok s' = funds_ok s"
  by (simp add: funds_ok_def)

lemma keeps_funds: "keeps pay_tables m \<Longrightarrow> preserves funds_ok m"
  unfolding keeps_def preserves_def pay_tables_def by (metis funds_ok_tables prod.inject)

lemma funds_update_accounts [preserve_intros]: "preserves funds_ok (update_accounts p f)"
proof (rule preservesI)
  fix s :: "'a payments_db_scheme"
  assume "funds_ok s"
  then show "funds_ok (snd (update_accounts p f s))"
    by (auto simp: update_accounts_def monad_defs funds_ok_def list_all_iff set_update_rows)
qed

lemma funds_rows [preserve_intros]:
  "preserves funds_ok (close_reservation og i st)" "preserves funds_ok (insert_reservation r)" "preserves funds_ok (upsert_account fresh f)"
proof -
  show "preserves funds_ok (close_reservation og i st)"
    unfolding close_reservation_def by (intro preserve_intros) (auto simp: funds_ok_def list_all_iff set_update_rows)
  show "preserves funds_ok (insert_reservation r)"
    by (rule preservesI) (auto simp: insert_reservation_def monad_defs funds_ok_def)
  show "preserves funds_ok (upsert_account fresh f)"
  proof (cases "account_checks fresh")
    case True
    then show ?thesis unfolding upsert_account_def by (intro preserve_intros) (simp add: funds_ok_def)
  next
    case False
    then show ?thesis unfolding upsert_account_def by (simp add: guardM_def) (intro preserve_intros)
  qed
qed

lemma funds_frame [simp]:
  "funds_ok (s\<lparr>uuids := n\<rparr>) = funds_ok s" "funds_ok (s\<lparr>ledger_postings := ps\<rparr>) = funds_ok s"
  "funds_ok (s\<lparr>payment_attempts := xs\<rparr>) = funds_ok s" "funds_ok (s\<lparr>payment_events := es\<rparr>) = funds_ok s"
  by (simp_all add: funds_ok_def)

lemma funds_small [preserve_intros]:
  "preserves funds_ok (writePosting E wi)" "preserves funds_ok (insert_event e)" "preserves funds_ok (close_attempt W auth i st md sm stored err)"
  "preserves funds_ok (createAttempt E ci)" "preserves funds_ok (findAttempt c k)"
  "preserves funds_ok (recordAuditEvent E input)" "preserves funds_ok (recordActivity E ai)"
  "preserves funds_ok (recordRouteObservation E ob)" "preserves funds_ok (draw_simulated source amount)"
  "preserves funds_ok (completeProductOnboardingFlow E orgId k payload)"
  "preserves funds_ok (enforceX402Policy E auth xin quote resource th)" "preserves funds_ok (provision_missing E operator og ag rails)"
  unfolding writePosting_def insert_event_def close_attempt_def createAttempt_def findAttempt_def scopeInvalid_def Let_def
  by (intro preserve_intros keeps_recording [THEN keeps_funds] keeps_enforce [THEN keeps_funds] keeps_provision [THEN keeps_funds]; simp)+

lemma funds_readings [preserve_intros]:
  "preserves funds_ok (activePaymentAccount auth)" "preserves funds_ok (activePaymentSource og rail chain)"
  "preserves funds_ok (assertRailVerified mode quote)" "preserves funds_ok (assertWalletBalance W ag mode quote)"
  by (rule keeps_readings [THEN keeps_funds])+

lemma funds_outcomes:
  "preserves funds_ok (finalizeSettledPaidHttpPayment E W auth p settlement)"
  "preserves funds_ok (finalizeTerminalPaidHttpPayment E W auth p settlement)"
  "preserves funds_ok (setAgentPaymentAccess E operator og ag input)"
  "preserves funds_ok (correctPosting E i reason createdBy)"
  "preserves funds_ok (markSubmitting scope i)" "preserves funds_ok (markPaidHttpAttemptRetryable auth i reason)"
  "preserves funds_ok (persistPaidHttpProviderEvidence W auth i settlement)"
  unfolding finalizeSettledPaidHttpPayment_def finalizeTerminalPaidHttpPayment_def release_failed_def setAgentPaymentAccess_def
    correctPosting_def markSubmitting_def transition_def markPaidHttpAttemptRetryable_def persistPaidHttpProviderEvidence_def
    stateConflict_def scopeInvalid_def Let_def
  by (intro preserve_intros; simp)+

lemma funds_cancel: "preserves funds_ok (cancelStrandedReservedAttempts E og ag)"
  unfolding cancelStrandedReservedAttempts_def release_stranded_def by (intro preserve_intros; simp)

lemma funds_resolve: "preserves funds_ok (resolveUnknownAttempt E operator og i outcome)"
  unfolding resolveUnknownAttempt_def
  by (intro preserve_intros) (auto simp: funds_ok_def list_all_iff set_update_rows)

lemma funds_prepare: "preserves funds_ok (preparePaidHttpPayment E W auth key rh dest input)"
proof -
  have reserve: "preserves funds_ok (reserve_payment E auth key rh m q qh qp so g)" for m q qh qp so g
    unfolding reserve_payment_def by (intro preserve_intros) simp_all
  have new: "preserves funds_ok (prepare_new E W auth key rh dest input account)" for account
    unfolding prepare_new_def Let_def case_prod_beta by (intro preserve_intros reserve)
  show ?thesis
    unfolding preparePaidHttpPayment_def
    by (rule preserves_transactionOn) (intro preserve_intros new, simp add: undo_payments_def funds_ok_def)
qed

lemma op_funds: "preserves funds_ok m \<Longrightarrow> funds_ok s \<Longrightarrow> funds_ok (snd (m s))"
  by (simp add: preserves_def)

definition funded_machine_ok :: "'a payments_db_scheme \<times> pay_ticket list \<Rightarrow> bool" where
  "funded_machine_ok x \<longleftrightarrow> payments_ok x \<and> funds_ok (fst x)"

lemma funds_step: "funds_ok (fst x) \<Longrightarrow> funds_ok (fst (pay_step E W c x))"
proof -
  obtain s ts where x: "x = (s, ts)" by fastforce
  assume "funds_ok (fst x)"
  then have F: "funds_ok s" by (simp add: x)
  show ?thesis
  proof (cases c)
    case (Prepare auth key rh dest input)
    obtain r s' where run: "preparePaidHttpPayment E W auth key rh dest input s = (r, s')" by fastforce
    have "funds_ok s'" using preservesD [OF funds_prepare F run] .
    then show ?thesis by (simp add: x Prepare run split: sum.split prepare_outcome.split)
  next
    case (Elsewhere f)
    with F show ?thesis using funds_ok_tables [of "f s" s] by (simp add: x pay_tables_def)
  qed (simp_all add: x F op_funds funds_outcomes funds_cancel funds_resolve)
qed

interpretation funded_machine: invariant_machine "no_payments s0" "pay_step E W" funded_machine_ok
  for s0 :: "'a payments_db_scheme" and E W
proof
  show "funded_machine_ok (no_payments s0)"
    using payment_machine.inv_init by (simp add: funded_machine_ok_def) (simp add: no_payments_def funds_ok_def)
  show "funded_machine_ok (pay_step E W c x)" if "funded_machine_ok x" for c and x :: "'a payments_db_scheme \<times> pay_ticket list"
    using that pay_step_ok [of x] funds_step [of x] by (simp add: funded_machine_ok_def)
qed

section \<open>Releasing what is stranded\<close>

lemma one_match:
  assumes "distinct (map key xs)" and "x \<in> set xs" and "q x" and "\<And>y. q y \<Longrightarrow> key y = key x"
  shows "length (filter q xs) = 1"
  using assms
proof (induction xs)
  case (Cons y ys)
  show ?case
  proof (cases "y = x")
    case True
    have "\<not> q z" if "z \<in> set ys" for z
      using Cons.prems(1) Cons.prems(4) [of z] True that by (auto simp: image_iff)
    then have "filter q ys = []" by (simp add: filter_empty_conv)
    with True Cons.prems(3) show ?thesis by simp
  next
    case False
    with Cons.prems(2) have x: "x \<in> set ys" by simp
    have "\<not> q y" using Cons.prems(1) Cons.prems(4) [of y] x by (auto simp: image_iff)
    moreover have "length (filter q ys) = 1"
      by (rule Cons.IH [OF _ x Cons.prems(3,4)]) (use Cons.prems(1) in simp)
    ultimately show ?thesis by simp
  qed
qed simp

definition ready :: "string \<Rightarrow> string \<Rightarrow> 'a payments_db_scheme \<Rightarrow> stranded_row \<Rightarrow> bool" where
  "ready og ag s c \<longleftrightarrow>
     sr_reservation c \<in> set (payment_reservations s) \<and> rs_status (sr_reservation c) = RsReserved \<and>
     reservation_key (sr_reservation c) = (og, ag) \<and> rs_reason_code (sr_reservation c) = attempt_reason (at_id (sr_attempt c)) \<and>
     sr_attempt c \<in> set (payment_attempts s) \<and> at_status (sr_attempt c) = AtReserved \<and>
     at_org_id (sr_attempt c) = og \<and> at_agent_id (sr_attempt c) = ag"

lemma member_le_sum: "(x :: int) \<in> set xs \<Longrightarrow> \<forall>y \<in> set xs. 0 \<le> y \<Longrightarrow> x \<le> sum_list xs"
  by (induction xs) (auto intro: add_increasing simp: sum_list_nonneg)

lemma reserved_covers:
  assumes "\<forall>r \<in> set rs. 0 < rs_amount r" and "r \<in> set rs" and "rs_status r = RsReserved"
  shows "rs_amount r \<le> reserved_sum (reservation_key r) rs"
proof -
  have "rs_amount r \<in> set (map rs_amount (filter (\<lambda>x. reservation_key x = reservation_key r \<and> rs_status x = RsReserved) rs))"
    using assms(2,3) by auto
  moreover have "\<forall>y \<in> set (map rs_amount (filter (\<lambda>x. reservation_key x = reservation_key r \<and> rs_status x = RsReserved) rs)). 0 \<le> y"
    using assms(1) by force
  ultimately show ?thesis unfolding reserved_sum_def by (rule member_le_sum)
qed

lemma ready_covers:
  assumes M: "money_at T s" and F: "funds_ok s" and c: "ready og ag s c"
  shows "\<exists>acct \<in> set (payment_accounts s). account_key acct = (og, ag)"
    and "a \<in> set (payment_accounts s) \<Longrightarrow> of_agent og ag a \<Longrightarrow> rs_amount (sr_reservation c) \<le> pa_reserved a"
proof -
  have ok: "money_tables_ok (payment_accounts s) (payment_reservations s) (ledger_postings s) (map attempt_view (payment_attempts s)) (unknown_rids (payment_events s))"
    using M by (simp add: money_at_def)
  show "\<exists>acct \<in> set (payment_accounts s). account_key acct = (og, ag)"
    using money_tables_okD(6) [OF ok, of "sr_reservation c"] c by (auto simp: ready_def reservation_ok_def)
  show "rs_amount (sr_reservation c) \<le> pa_reserved a" if "a \<in> set (payment_accounts s)" "of_agent og ag a"
    using reserved_covers [of "payment_reservations s" "sr_reservation c"] F c money_tables_okD(5) [OF ok that(1)] that(2)
    by (auto simp: funds_ok_def list_all_iff ready_def account_ok_def of_agent_def)
qed

text \<open>One round succeeds, and only touches its own rows.\<close>

definition released_row :: "string \<Rightarrow> string \<Rightarrow> stranded_row \<Rightarrow> 'a payments_db_scheme \<Rightarrow> 'a payments_db_scheme" where
  "released_row og ag c s =
     s\<lparr>payment_reservations := update_rows (\<lambda>r. rs_id r = rs_id (sr_reservation c) \<and> rs_org_id r = og \<and> rs_status r = RsReserved)
         (with_status RsReleased) (payment_reservations s),
       payment_accounts := update_rows (\<lambda>a. of_agent og ag a \<and> rs_amount (sr_reservation c) \<le> pa_reserved a)
         (release_in (rs_amount (sr_reservation c)) (clock s)) (payment_accounts s),
       payment_attempts := update_rows (\<lambda>a. at_id a = at_id (sr_attempt c) \<and> at_org_id a = og \<and> at_agent_id a = ag \<and> at_status a = AtReserved)
         (fail_attempt (sr_error_code c) (clock s)) (payment_attempts s)\<rparr>"

lemma release_stranded_succeeds:
  assumes M: "money_at T s" and F: "funds_ok s" and c: "ready og ag s c"
  shows "release_stranded og ag n c s = (Inr (n + 1), released_row og ag c s)"
proof -
  have ok: "money_tables_ok (payment_accounts s) (payment_reservations s) (ledger_postings s) (map attempt_view (payment_attempts s)) (unknown_rids (payment_events s))"
    using M by (simp add: money_at_def)
  let ?r = "sr_reservation c" and ?a = "sr_attempt c"
  let ?p = "\<lambda>a. of_agent og ag a \<and> rs_amount ?r \<le> pa_reserved a"
  have r: "length (filter (\<lambda>r. rs_id r = rs_id ?r \<and> rs_org_id r = og \<and> rs_status r = RsReserved) (payment_reservations s)) = 1"
    by (rule one_match [OF money_tables_okD(2) [OF ok], of ?r]) (use c in \<open>auto simp: ready_def\<close>)
  have a: "length (filter (\<lambda>a. at_id a = at_id ?a \<and> at_org_id a = og \<and> at_agent_id a = ag \<and> at_status a = AtReserved) (payment_attempts s)) = 1"
    by (rule one_match [of at_id _ ?a]) (use c money_tables_okD(4) [OF ok] in \<open>auto simp: ready_def attempt_view_def comp_def\<close>)
  obtain acct where acct: "acct \<in> set (payment_accounts s)" "account_key acct = (og, ag)"
    using ready_covers(1) [OF M F c] by blast
  have covers: "rs_amount ?r \<le> pa_reserved acct"
    using ready_covers(2) [OF M F c acct(1)] acct(2) by (simp add: of_agent_def)
  have p: "length (filter ?p (payment_accounts s)) = 1"
    by (rule one_match [OF money_tables_okD(1) [OF ok] acct(1)]) (use acct(2) covers in \<open>auto simp: of_agent_def\<close>)
  have pos: "0 < rs_amount ?r" using F c by (auto simp: funds_ok_def list_all_iff ready_def)
  have checks: "list_all (\<lambda>a. account_checks (release_in (rs_amount ?r) t a)) (filter ?p (payment_accounts s))" for t
    using F pos by (auto simp: list_all_iff funds_ok_def account_checks_def release_in_def numeric_range_def)
  have f: "(\<lambda>r. r\<lparr>rs_status := st\<rparr>) = with_status st" for st by (simp add: with_status_def [abs_def])
  show ?thesis
    using r a p checks
    by (simp add: release_stranded_def released_row_def close_reservation_def update_accounts_def monad_defs now_def f)
qed

definition separate :: "stranded_row list \<Rightarrow> bool" where
  "separate cs \<longleftrightarrow> distinct (map (\<lambda>c. rs_id (sr_reservation c)) cs) \<and> distinct (map (\<lambda>c. at_id (sr_attempt c)) cs)"

lemma ready_released:
  assumes "ready og ag s c'" and "rs_id (sr_reservation c') \<noteq> rs_id (sr_reservation c)" and "at_id (sr_attempt c') \<noteq> at_id (sr_attempt c)"
  shows "ready og ag (released_row og ag c s) c'"
  using assms unfolding ready_def released_row_def by (auto intro!: update_rows_other)

text \<open>
  The state after the loop: the reservations of the rows are released, their attempts failed with the
  row's code, and the account has the sum of the amounts less reserved. Nothing else changes.
\<close>

definition released_all :: "string \<Rightarrow> string \<Rightarrow> stranded_row list \<Rightarrow> 'a payments_db_scheme \<Rightarrow> 'a payments_db_scheme" where
  "released_all og ag cs s =
     s\<lparr>payment_reservations := map (\<lambda>r. if rs_id r \<in> (\<lambda>c. rs_id (sr_reservation c)) ` set cs then r\<lparr>rs_status := RsReleased\<rparr> else r)
         (payment_reservations s),
       payment_accounts := (if cs = [] then payment_accounts s else
         map (\<lambda>a. if pa_org_id a = og \<and> pa_agent_id a = ag
                  then a\<lparr>pa_reserved := pa_reserved a - sum_list (map (\<lambda>c. rs_amount (sr_reservation c)) cs), pa_updated_at := clock s\<rparr>
                  else a) (payment_accounts s)),
       payment_attempts := map (\<lambda>a. case find_row (\<lambda>c. at_id (sr_attempt c) = at_id a) cs of
           None \<Rightarrow> a
         | Some c \<Rightarrow> a\<lparr>at_status := AtFailed, at_error_code := Some (sr_error_code c), at_finalized_at := Some (clock s), at_updated_at := clock s\<rparr>)
         (payment_attempts s)\<rparr>"

lemma released_all_tables:
  "payment_reservations (released_all og ag cs s) =
     map (\<lambda>r. if rs_id r \<in> (\<lambda>c. rs_id (sr_reservation c)) ` set cs then r\<lparr>rs_status := RsReleased\<rparr> else r) (payment_reservations s)"
  "payment_attempts (released_all og ag cs s) = map (\<lambda>a. case find_row (\<lambda>c. at_id (sr_attempt c) = at_id a) cs of
     None \<Rightarrow> a | Some c \<Rightarrow> fail_attempt (sr_error_code c) (clock s) a) (payment_attempts s)"
  by (simp_all add: released_all_def fail_attempt_def split: option.split)

lemma released_row_tables:
  "payment_reservations (released_row og ag c s) =
     map (\<lambda>r. if rs_id r = rs_id (sr_reservation c) \<and> rs_org_id r = og \<and> rs_status r = RsReserved then with_status RsReleased r else r)
       (payment_reservations s)"
  "payment_attempts (released_row og ag c s) =
     map (\<lambda>a. if at_id a = at_id (sr_attempt c) \<and> at_org_id a = og \<and> at_agent_id a = ag \<and> at_status a = AtReserved
       then fail_attempt (sr_error_code c) (clock s) a else a) (payment_attempts s)"
  "clock (released_row og ag c s) = clock s"
  by (simp_all add: released_row_def update_rows_def)

lemma released_all_Nil: "released_all og ag [] s = s"
  by (simp add: released_all_def)

lemma released_all_Cons:
  assumes M: "money_at T s" and F: "funds_ok s" and c: "ready og ag s c" and sep: "separate (c # cs)"
  shows "released_all og ag cs (released_row og ag c s) = released_all og ag (c # cs) s"
proof -
  have ok: "money_tables_ok (payment_accounts s) (payment_reservations s) (ledger_postings s) (map attempt_view (payment_attempts s)) (unknown_rids (payment_events s))"
    using M by (simp add: money_at_def)
  have d: "distinct (map at_id (payment_attempts s))" using money_tables_okD(4) [OF ok] by (simp add: attempt_view_def comp_def)
  have r: "r = sr_reservation c" if "r \<in> set (payment_reservations s)" "rs_id r = rs_id (sr_reservation c)" for r
    using distinct_key_unique [OF money_tables_okD(2) [OF ok] that(1) _ that(2)] c by (simp add: ready_def)
  have a: "a = sr_attempt c" if "a \<in> set (payment_attempts s)" "at_id a = at_id (sr_attempt c)" for a
    using distinct_key_unique [OF d that(1) _ that(2)] c by (simp add: ready_def)
  have none: "find_row (\<lambda>c'. at_id (sr_attempt c') = at_id (sr_attempt c)) cs = None" and out: "rs_id (sr_reservation c) \<notin> (\<lambda>c. rs_id (sr_reservation c)) ` set cs"
    using sep by (auto simp: separate_def find_row_None image_iff)
  have none: "find_row (\<lambda>c'. at_id (sr_attempt c') = at_id (sr_attempt c)) cs = None"
    and out: "rs_id (sr_reservation c) \<notin> (\<lambda>c. rs_id (sr_reservation c)) ` set cs"
    using sep by (auto simp: separate_def find_row_None image_iff)
  have rs: "payment_reservations (released_all og ag cs (released_row og ag c s)) = payment_reservations (released_all og ag (c # cs) s)"
    unfolding released_all_tables released_row_tables map_map comp_def
  proof (rule map_cong [OF refl], goal_cases)
    case (1 r)
    show ?case
    proof (cases "rs_id r = rs_id (sr_reservation c)")
      case True
      with r [OF 1] c out show ?thesis by (simp add: ready_def with_status_def)
    qed simp
  qed
  have ats: "payment_attempts (released_all og ag cs (released_row og ag c s)) = payment_attempts (released_all og ag (c # cs) s)"
    unfolding released_all_tables released_row_tables map_map comp_def
  proof (rule map_cong [OF refl], goal_cases)
    case (1 x)
    show ?case
    proof (cases "at_id x = at_id (sr_attempt c)")
      case True
      with a [OF 1] c none show ?thesis by (simp add: ready_def fail_attempt_def)
    qed (simp split: option.split)
  qed
  have acs: "payment_accounts (released_all og ag cs (released_row og ag c s)) = payment_accounts (released_all og ag (c # cs) s)"
    using ready_covers(2) [OF M F c]
    by (auto simp: released_all_def released_row_def update_rows_def release_in_def of_agent_def)
  show ?thesis
    using rs ats acs by (simp add: released_all_def released_row_def)
qed

text \<open>What is reserved after the loop was reserved before it and is none of the released rows.\<close>

definition untouched :: "stranded_row list \<Rightarrow> 'a payments_db_scheme \<Rightarrow> 'a payments_db_scheme \<Rightarrow> bool" where
  "untouched cs s s' \<longleftrightarrow>
     approval_requests s' = approval_requests s \<and> clock s' = clock s \<and>
     (\<forall>a \<in> set (payment_attempts s'). at_status a = AtReserved \<longrightarrow>
        a \<in> set (payment_attempts s) \<and> at_id a \<notin> (\<lambda>c. at_id (sr_attempt c)) ` set cs) \<and>
     (\<forall>r \<in> set (payment_reservations s'). rs_status r = RsReserved \<longrightarrow> r \<in> set (payment_reservations s)) \<and>
     (\<forall>c \<in> set cs. \<exists>a \<in> set (payment_attempts s'). at_id a = at_id (sr_attempt c) \<and> at_status a = AtFailed) \<and>
     (\<forall>a \<in> set (payment_attempts s). at_status a = AtFailed \<longrightarrow> a \<in> set (payment_attempts s'))"

lemma untouched_step:
  assumes c: "ready og ag s c" and d: "distinct (map at_id (payment_attempts s))" and u: "untouched cs (released_row og ag c s) s'"
  shows "untouched (c # cs) s s'"
proof -
  let ?q = "\<lambda>a. at_id a = at_id (sr_attempt c) \<and> at_org_id a = og \<and> at_agent_id a = ag \<and> at_status a = AtReserved"
  let ?s1 = "released_row og ag c s"
  have uniq: "a = sr_attempt c" if "a \<in> set (payment_attempts s)" "at_id a = at_id (sr_attempt c)" for a
    using distinct_key_unique [OF d that(1) _ that(2)] c by (simp add: ready_def)
  have kept: "a \<in> set (payment_attempts s) \<and> at_id a \<noteq> at_id (sr_attempt c)" if "a \<in> set (payment_attempts ?s1)" "at_status a = AtReserved" for a
  proof -
    have "a \<in> set (payment_attempts s) \<and> \<not> ?q a"
      by (rule update_rows_survivor [where q = "\<lambda>a. at_status a = AtReserved"])
         (use that in \<open>auto simp: released_row_def fail_attempt_def\<close>)
    with uniq c show ?thesis by (auto simp: ready_def)
  qed
  have failed: "fail_attempt (sr_error_code c) (clock s) (sr_attempt c) \<in> set (payment_attempts ?s1)"
    using c by (auto simp: released_row_def set_update_rows ready_def intro!: bexI [of _ "sr_attempt c"])
  have stay: "a \<in> set (payment_attempts ?s1)" if "a \<in> set (payment_attempts s)" "at_status a = AtFailed" for a
    using that by (auto simp: released_row_def intro!: update_rows_other)
  have res: "r \<in> set (payment_reservations s)" if "r \<in> set (payment_reservations ?s1)" "rs_status r = RsReserved" for r
    using update_rows_survivor [where q = "\<lambda>r. rs_status r = RsReserved" and x = r] that by (auto simp: released_row_def)
  have c1: "\<exists>a \<in> set (payment_attempts s'). at_id a = at_id (sr_attempt c) \<and> at_status a = AtFailed"
  proof (rule bexI)
    show "fail_attempt (sr_error_code c) (clock s) (sr_attempt c) \<in> set (payment_attempts s')"
      using u failed unfolding untouched_def by (simp add: fail_attempt_def)
  qed (simp add: fail_attempt_def)
  show ?thesis unfolding untouched_def
  proof (intro conjI)
    show "approval_requests s' = approval_requests s" "clock s' = clock s"
      using u unfolding untouched_def by (simp_all add: released_row_def)
    show "\<forall>a \<in> set (payment_attempts s'). at_status a = AtReserved \<longrightarrow>
        a \<in> set (payment_attempts s) \<and> at_id a \<notin> (\<lambda>c. at_id (sr_attempt c)) ` set (c # cs)"
    proof (intro ballI impI)
      fix a
      assume "a \<in> set (payment_attempts s')" "at_status a = AtReserved"
      moreover from this have "a \<in> set (payment_attempts ?s1)" "at_id a \<notin> (\<lambda>c. at_id (sr_attempt c)) ` set cs"
        using u unfolding untouched_def by blast+
      ultimately show "a \<in> set (payment_attempts s) \<and> at_id a \<notin> (\<lambda>c. at_id (sr_attempt c)) ` set (c # cs)"
        using kept [of a] by simp
    qed
    show "\<forall>r \<in> set (payment_reservations s'). rs_status r = RsReserved \<longrightarrow> r \<in> set (payment_reservations s)"
      using u res unfolding untouched_def by blast
    show "\<forall>c \<in> set (c # cs). \<exists>a \<in> set (payment_attempts s'). at_id a = at_id (sr_attempt c) \<and> at_status a = AtFailed"
      using u c1 unfolding untouched_def by simp
    show "\<forall>a \<in> set (payment_attempts s). at_status a = AtFailed \<longrightarrow> a \<in> set (payment_attempts s')"
      using u stay unfolding untouched_def by blast
  qed
qed

lemma release_loop:
  assumes "money_at {} s" and "funds_ok s" and "\<forall>c \<in> set cs. ready og ag s c" and "separate cs"
  shows "\<exists>s'. foldM (release_stranded og ag) n cs s = (Inr (n + length cs), s') \<and> untouched cs s s' \<and> s' = released_all og ag cs s"
  using assms
proof (induction cs arbitrary: s n)
  case (Cons c cs)
  let ?s1 = "released_row og ag c s"
  have c: "ready og ag s c" using Cons.prems(3) by simp
  have run: "release_stranded og ag n c s = (Inr (n + 1), ?s1)"
    by (rule release_stranded_succeeds [OF Cons.prems(1,2) c])
  have ok: "money_tables_ok (payment_accounts s) (payment_reservations s) (ledger_postings s) (map attempt_view (payment_attempts s)) (unknown_rids (payment_events s))"
    using Cons.prems(1) by (simp add: money_at_def)
  have d: "distinct (map at_id (payment_attempts s))" using money_tables_okD(4) [OF ok] by (simp add: attempt_view_def comp_def)
  have "money_at {rs_static (sr_reservation c)} s" using Cons.prems(1) c by (auto simp: money_at_def ready_def)
  from wpD [OF wp_release_stranded [OF this] run] c have M: "money_at {} ?s1"
    by (auto simp: ready_def money_at_def)
  have F: "funds_ok ?s1"
  proof -
    have "preserves funds_ok (release_stranded og ag n c)"
      unfolding release_stranded_def by (intro preserve_intros) simp_all
    from preservesD [OF this Cons.prems(2) run] show ?thesis .
  qed
  have R: "\<forall>c' \<in> set cs. ready og ag ?s1 c'"
    using Cons.prems(3,4) by (auto simp: separate_def image_iff intro!: ready_released)
  obtain s' where s': "foldM (release_stranded og ag) (n + 1) cs ?s1 = (Inr (n + 1 + length cs), s')" "untouched cs ?s1 s'"
      "s' = released_all og ag cs ?s1"
    using Cons.IH [OF M F R, of "n + 1"] Cons.prems(4) by (auto simp: separate_def)
  from untouched_step [OF c d s'(2)] s'(1,3) released_all_Cons [OF Cons.prems(1,2) c Cons.prems(4)] show ?case
    by (simp add: bindM_def run)
qed (simp add: ret_def untouched_def released_all_Nil)

lemma stranded_in:
  "c \<in> set (stranded_rows E og ag s) \<longleftrightarrow>
     sr_attempt c \<in> set (payment_attempts s) \<and> at_org_id (sr_attempt c) = og \<and> at_agent_id (sr_attempt c) = ag \<and>
     at_status (sr_attempt c) = AtReserved \<and> sr_reservation c \<in> set (payment_reservations s) \<and>
     rs_reason_code (sr_reservation c) = attempt_reason (at_id (sr_attempt c)) \<and> rs_org_id (sr_reservation c) = og \<and>
     rs_agent_id (sr_reservation c) = ag \<and> rs_status (sr_reservation c) = RsReserved \<and>
     stranded (clock s) (sr_reservation c) (attempt_approval (sr_attempt c) s) \<and>
     sr_error_code c = stranded_code (clock s) (attempt_approval (sr_attempt c) s)"
  by (cases c) (auto simp: stranded_rows_def set_sort_by)

lemma single_filter:
  assumes "distinct (map key xs)"
  shows "\<exists>ys. filter (\<lambda>x. key x = k \<and> P x) xs = ys \<and> length ys \<le> 1"
  using assms
proof (induction xs)
  case (Cons x xs)
  have "key x \<noteq> k \<or> filter (\<lambda>x. key x = k \<and> P x) xs = []"
    using Cons.prems by (auto simp: filter_empty_conv image_iff)
  with Cons show ?case by auto
qed simp

lemma distinct_attempts:
  assumes "distinct (map at_id as)" and "distinct (map rs_reason_code rs)"
  shows "distinct (map (\<lambda>c. at_id (sr_attempt c)) (concat (map (\<lambda>a. map (\<lambda>r. \<lparr>sr_attempt = a, sr_reservation = r, sr_error_code = e a\<rparr>)
      (filter (\<lambda>r. rs_reason_code r = attempt_reason (at_id a) \<and> P a r) rs)) as)))"
  using assms(1)
proof (induction as)
  case (Cons a as)
  obtain ys where ys: "filter (\<lambda>r. rs_reason_code r = attempt_reason (at_id a) \<and> P a r) rs = ys" "length ys \<le> 1"
    using single_filter [OF assms(2), of "attempt_reason (at_id a)" "P a"] by blast
  have "ys = [] \<or> (\<exists>y. ys = [y])" using ys(2) by (cases ys) auto
  with Cons ys(1) show ?case by (auto simp: image_iff)
qed simp

lemma distinct_map_sort_by: "distinct (map f xs) \<Longrightarrow> distinct (map f (sort_by cmp xs))"
  using mset_eq_imp_distinct_iff [of "map f (sort_by cmp xs)" "map f xs"] by simp

lemma stranded_separate:
  assumes "money_at T s"
  shows "separate (stranded_rows E og ag s)"
proof -
  have ok: "money_tables_ok (payment_accounts s) (payment_reservations s) (ledger_postings s) (map attempt_view (payment_attempts s)) (unknown_rids (payment_events s))"
    using assms by (simp add: money_at_def)
  have d: "distinct (map at_id (payment_attempts s))" using money_tables_okD(4) [OF ok] by (simp add: attempt_view_def comp_def)
  have "distinct (map at_id (filter P (payment_attempts s)))" for P
    using d by (simp add: distinct_map_filter)
  from distinct_attempts [OF this money_tables_okD(3) [OF ok]]
  have ids: "distinct (map (\<lambda>c. at_id (sr_attempt c)) (stranded_rows E og ag s))"
    unfolding stranded_rows_def by (rule distinct_map_sort_by)
  have "inj_on (\<lambda>c. rs_id (sr_reservation c)) (set (stranded_rows E og ag s))"
  proof (rule inj_onI)
    fix c c'
    assume cs: "c \<in> set (stranded_rows E og ag s)" "c' \<in> set (stranded_rows E og ag s)" and "rs_id (sr_reservation c) = rs_id (sr_reservation c')"
    then have "sr_reservation c = sr_reservation c'"
      using distinct_key_unique [OF money_tables_okD(2) [OF ok]] by (auto simp: stranded_in)
    with cs have "at_id (sr_attempt c) = at_id (sr_attempt c')" by (auto simp: stranded_in)
    with ids cs show "c = c'" by (auto simp: distinct_map dest: inj_onD)
  qed
  with ids show ?thesis by (simp add: separate_def distinct_map)
qed

lemma untouched_none:
  assumes "untouched (stranded_rows E og ag s) s s'"
  shows "stranded_rows E og ag s' = []"
proof -
  have "approval_requests s' = approval_requests s" using assms unfolding untouched_def by blast
  then have same: "attempt_approval a s' = attempt_approval a s" for a
    unfolding attempt_approval_def by (simp only:)
  have "c \<notin> set (stranded_rows E og ag s')" for c
  proof
    assume c: "c \<in> set (stranded_rows E og ag s')"
    with assms have "c \<in> set (stranded_rows E og ag s)" "at_id (sr_attempt c) \<notin> (\<lambda>c. at_id (sr_attempt c)) ` set (stranded_rows E og ag s)"
      by (auto simp: stranded_in untouched_def same)
    then show False by blast
  qed
  then show ?thesis by (meson last_in_set)
qed

text \<open>
  C5. Nothing stays stranded, and no money is held for ever. In every state the payment machine can
  reach, for every agent, \<open>cancelStrandedReservedAttempts\<close> returns (it does not throw) with the number of
  attempts that were stranded, none is stranded when it returns, and the state is exactly the old one in
  which (\<open>released_all\<close>) each stranded attempt is failed with the code of its reason, its reservation is
  released, and the agent's account has the sum of those reservations less reserved; no other row and
  no other table is changed. The last two conjuncts say it of the rows: every stranded attempt and its
  reservation are found ended.
\<close>

theorem stranded_payments_released:
  "let (s, tickets) = fold (pay_step E W) calls (no_payments s0); rows = stranded_rows E orgId agentId s
   in case cancelStrandedReservedAttempts E orgId agentId s of
        (Inl e, s') \<Rightarrow> False
      | (Inr n, s') \<Rightarrow>
          n = length rows \<and> stranded_rows E orgId agentId s' = [] \<and> s' = released_all orgId agentId rows s \<and>
          list_all (\<lambda>c. list_ex (\<lambda>a. at_id a = at_id (sr_attempt c) \<and> at_status a = AtFailed) (payment_attempts s') \<and>
                       list_ex (\<lambda>r. r = (sr_reservation c)\<lparr>rs_status := RsReleased\<rparr>) (payment_reservations s')) rows"
proof -
  obtain s ts where run: "fold (pay_step E W) calls (no_payments s0) = (s, ts)" by fastforce
  have "funded_machine_ok (fold (pay_step E W) calls (no_payments s0))" by (rule funded_machine.inv_reachable)
  then have M: "money_at {} s" and F: "funds_ok s" by (simp_all add: run funded_machine_ok_def payments_ok_def)
  let ?cs = "stranded_rows E orgId agentId s"
  have "\<forall>c \<in> set ?cs. ready orgId agentId s c" by (auto simp: stranded_in ready_def)
  from release_loop [OF M F this stranded_separate [OF M], of 0] obtain s'
    where s': "foldM (release_stranded orgId agentId) 0 ?cs s = (Inr (length ?cs), s')" "untouched ?cs s s'"
      "s' = released_all orgId agentId ?cs s"
    by auto
  have released: "(sr_reservation c)\<lparr>rs_status := RsReleased\<rparr> \<in> set (payment_reservations (released_all orgId agentId ?cs s))"
    if "c \<in> set ?cs" for c
    using that stranded_in [of c E orgId agentId s] by (force simp: released_all_def image_iff)
  have "cancelStrandedReservedAttempts E orgId agentId s = (Inr (length ?cs), s')"
    by (simp add: cancelStrandedReservedAttempts_def bindM_Inr s'(1))
  with untouched_none [OF s'(2)] s'(2) released show ?thesis
    by (simp add: run Let_def list_all_iff list_ex_iff untouched_def) (use s'(3) in blast)
qed

end
