(* ===== verification/ChainCalls.thy ===== *)
theory ChainCalls
  imports PaymentMoney
begin

text \<open>
  How the payment engine reaches a chain: JSON-RPC reads with their retry loops
  (payments/agent-wallets.ts, escrow.ts and permit2.ts), and transactions submitted through the
  treasury provider. Replies of the RPC node and of the provider are the parameter
  \<open>chain_world\<close>; what was sent is state, because no rollback takes it back.
\<close>

section \<open>The provider and the RPC node\<close>

record contract_call =
  xc_mode :: payment_mode
  xc_chain :: payment_chain
  xc_senderAddress :: string
  xc_abiFunctionSignature :: string
  xc_abiParameters :: "jsval list"
  xc_contractAddress :: "string option"
  xc_refId :: string

record transfer_call =
  tc_amount :: int
  tc_chain :: payment_chain
  tc_destinationAddress :: string
  tc_mode :: payment_mode
  tc_refId :: string
  tc_source :: string

datatype provider_call =
    ExecuteContract contract_call
  | SignPermit payment_mode payment_chain string jsval
  | TransferWallet transfer_call
  | TransferNativeGas transfer_call

text \<open>An answer of a node: an optional error object with its optional message, an optional result.\<close>

record 'r rpc_body =
  rb_error :: "string option option"
  rb_result :: "'r option"

record receipt_log =
  lg_address :: string
  lg_topics :: "string list"
  lg_data :: string

type_synonym receipt = "receipt_log list option"

text \<open>
  The provider answers a call with a transaction hash or a signature, depending on all it was
  asked before. The nth request to a node gives the text of the error \<open>fetch\<close> or
  \<open>response.json\<close> threw, or a body; the result of a receipt is \<open>null\<close> before it is mined.
\<close>

record chain_world =
  ch_provider :: "provider_call list \<Rightarrow> provider_call \<Rightarrow> app_error + string"
  ch_rpc :: "nat \<Rightarrow> string \<Rightarrow> string \<Rightarrow> jsval list \<Rightarrow> string + string rpc_body"
  ch_receipt :: "nat \<Rightarrow> string \<Rightarrow> string \<Rightarrow> string + receipt option rpc_body"
  ch_arcRpcUrl :: "string option"
  ch_baseRpcUrl :: "string option"
  ch_encode :: "string \<Rightarrow> jsval list \<Rightarrow> string"
  ch_decodeJobCreated :: "receipt_log \<Rightarrow> (string \<times> int) option"
  ch_decodeGetJob :: "string \<Rightarrow> app_error + (nat \<times> int)"

record treasury_wallet_row =
  tw_id :: string
  tw_org_id :: string
  tw_mode :: payment_mode
  tw_chain :: payment_chain
  tw_circle_wallet_id :: string
  tw_address :: string
  tw_active :: bool

record chain_db = payments_db +
  provider_calls :: "provider_call list"
  rpc_requests :: nat
  treasury_wallets :: "treasury_wallet_row list"

text \<open>\<open>crypto.randomUUID()\<close> behind a text of the caller's.\<close>

definition randomRef :: "env \<Rightarrow> string \<Rightarrow> ('a base_db_scheme, string) op" where
  "randomRef E prefix s = (Inr (prefix @ env_uuid E (uuids s)), s\<lparr>uuids := Suc (uuids s)\<rparr>)"

definition callProvider :: "chain_world \<Rightarrow> provider_call \<Rightarrow> ('a chain_db_scheme, string) op" where
  "callProvider C call =
     bindM (query provider_calls) (\<lambda>calls.
     bindM (modify (\<lambda>s. s\<lparr>provider_calls := provider_calls s @ [call]\<rparr>)) (\<lambda>_.
     liftE (ch_provider C calls call)))"

definition executePermit2Transaction :: "chain_world \<Rightarrow> contract_call \<Rightarrow> ('a chain_db_scheme, string) op" where
  "executePermit2Transaction C call = callProvider C (ExecuteContract call)"

section \<open>Reading a chain\<close>

definition chainRpcUrl :: "chain_world \<Rightarrow> payment_chain \<Rightarrow> string option" where
  "chainRpcUrl C chain =
     (if chain = Arc then ch_arcRpcUrl C else if chain = Base then ch_baseRpcUrl C else None)"

text \<open>The URL, or the error a reader throws without one; an empty text counts as none.\<close>

definition configured_url :: "chain_world \<Rightarrow> payment_chain \<Rightarrow> string \<Rightarrow> app_error + string" where
  "configured_url C chain reason =
     (case chainRpcUrl C chain of
        Some url \<Rightarrow> if url = [] then Inl (JsError (reason @ '':'' @ chain_name chain)) else Inr url
      | None \<Rightarrow> Inl (JsError (reason @ '':'' @ chain_name chain)))"

text \<open>
  The loop all readers share: up to \<open>n\<close> attempts, the first result wins, and the text of the last
  error is kept.
\<close>

primrec attempts :: "nat \<Rightarrow> ('s, string + 'r) op \<Rightarrow> string \<Rightarrow> ('s, string + 'r) op" where
  "attempts 0 attempt lastError = ret (Inl lastError)"
| "attempts (Suc n) attempt lastError =
     bindM attempt (\<lambda>outcome. case outcome of Inl e \<Rightarrow> attempts n attempt e | Inr r \<Rightarrow> ret (Inr r))"

definition MAX_ATTEMPTS :: nat where
  "MAX_ATTEMPTS = 6"

text \<open>What one attempt makes of an answer: an error in the body, a missing result, or the result.\<close>

definition body_result :: "string \<Rightarrow> string \<Rightarrow> string + 'r rpc_body \<Rightarrow> string + 'r" where
  "body_result rpcError missing reply =
     bindE reply (\<lambda>body.
       case rb_error body of
         Some message \<Rightarrow> Inl (case message of Some m \<Rightarrow> m | None \<Rightarrow> rpcError)
       | None \<Rightarrow> (case rb_result body of Some r \<Rightarrow> Inr r | None \<Rightarrow> Inl missing))"

definition fetched :: "(nat \<Rightarrow> 'r) \<Rightarrow> ('a chain_db_scheme, 'r) op" where
  "fetched reply =
     bindM (query rpc_requests) (\<lambda>n.
     bindM (modify (\<lambda>s. s\<lparr>rpc_requests := Suc (rpc_requests s)\<rparr>)) (\<lambda>_.
     ret (reply n)))"

definition or_unavailable :: "string \<Rightarrow> string + 'r \<Rightarrow> app_error + 'r" where
  "or_unavailable errorPrefix outcome =
     (case outcome of Inl e \<Rightarrow> Inl (JsError (errorPrefix @ ''_unavailable:'' @ e)) | Inr r \<Rightarrow> Inr r)"

definition rpcCallWithRetry ::
  "chain_world \<Rightarrow> string \<Rightarrow> string \<Rightarrow> jsval list \<Rightarrow> string \<Rightarrow> ('a chain_db_scheme, string) op" where
  "rpcCallWithRetry C rpcUrl method params errorPrefix =
     bindM (attempts MAX_ATTEMPTS (fetched (\<lambda>n. body_result (errorPrefix @ ''_rpc_error'')
       (errorPrefix @ ''_empty_response'') (ch_rpc C n rpcUrl method params))) ''unknown'') (\<lambda>outcome.
     liftE (or_unavailable errorPrefix outcome))"

text \<open>\<open>BigInt(text)\<close>: white space around is dropped, the empty text is zero, and a prefix names a radix.\<close>

definition big_digits :: "nat \<Rightarrow> string \<Rightarrow> int option" where
  "big_digits b s = map_option floor (parse_radix b s)"

definition big_of_text :: "string \<Rightarrow> int option" where
  "big_of_text str =
     (let s = trim str; p = toLowerCase (take 2 s) in
      if s = [] then Some 0
      else if p = ''0x'' then big_digits 16 (drop 2 s)
      else if p = ''0o'' then big_digits 8 (drop 2 s)
      else if p = ''0b'' then big_digits 2 (drop 2 s)
      else if hd s = CHR ''-'' then map_option uminus (big_digits 10 (tl s))
      else if hd s = CHR ''+'' then big_digits 10 (tl s)
      else big_digits 10 s)"

definition BigInt :: "string \<Rightarrow> app_error + int" where
  "BigInt str = (case big_of_text str of Some i \<Rightarrow> Inr i | None \<Rightarrow> Inl (JsError (''Cannot convert '' @ str @ '' to a BigInt'')))"

text \<open>The USDC token of a chain, \<open>CHAIN_CONTRACTS\<close> of payments/circle-provider.ts.\<close>

fun CHAIN_USDC :: "payment_mode \<Rightarrow> payment_chain \<Rightarrow> string" where
  "CHAIN_USDC Test Arbitrum = ''0x75faf114eafb1BDbe2F0316DF893fd58CE46AA4d''"
| "CHAIN_USDC Test Avalanche = ''0x5425890298aed601595a70AB815c96711a31Bc65''"
| "CHAIN_USDC Test Base = ''0x036CbD53842c5426634e7929541eC2318f3dCF7e''"
| "CHAIN_USDC Test Optimism = ''0x5fd84259d66Cd46123540766Be93DFE6D43130D7''"
| "CHAIN_USDC Test Polygon = ''0x41E94Eb019C0762f9Bfcf9Fb1E58725BfB0e7582''"
| "CHAIN_USDC Test Arc = ''0x3600000000000000000000000000000000000000''"
| "CHAIN_USDC Live Arbitrum = ''0xaf88d065e77c8cC2239327C5EDb3A432268e5831''"
| "CHAIN_USDC Live Avalanche = ''0xB97EF9Ef8734C71904D8002F8b6Bc66Dd9c48a6E''"
| "CHAIN_USDC Live Base = ''0x833589fCD6eDb6E08f4c7C32D4f71b54bdA02913''"
| "CHAIN_USDC Live Optimism = ''0x0b2C639c533813f4Aa9D7837CAf62653d097Ff85''"
| "CHAIN_USDC Live Polygon = ''0x3c499c542cEF5E3811e1192ce70d8cC03d5c3359''"
| "CHAIN_USDC Live Arc = ''0x0000000000000000000000000000000000000000''"

definition usdcTokenAddress :: "payment_mode \<Rightarrow> payment_chain \<Rightarrow> app_error + string" where
  "usdcTokenAddress mode chain =
     (if chain = Arc \<and> mode = Live then Inl (JsError ''arc_mainnet_not_supported'')
      else Inr (CHAIN_USDC mode chain))"

definition WEI_PER_MICRO :: int where
  "WEI_PER_MICRO = 1000000000000"

text \<open>\<open>nativeBalanceMicros\<close>: on Arc the native balance scaled down, elsewhere \<open>balanceOf\<close> of the token.\<close>

definition nativeBalanceMicros ::
  "chain_world \<Rightarrow> string \<Rightarrow> payment_chain \<Rightarrow> payment_mode \<Rightarrow> ('a chain_db_scheme, int) op" where
  "nativeBalanceMicros C address chain mode =
     bindM (liftE (configured_url C chain ''agent_wallet_balance_rpc_not_configured'')) (\<lambda>rpcUrl.
     if chain = Arc
     then bindM (rpcCallWithRetry C rpcUrl ''eth_getBalance'' [VStr address, VStr ''latest''] ''agent_wallet_balance'') (\<lambda>answer.
          bindM (liftE (BigInt answer)) (\<lambda>wei. ret (big_div wei WEI_PER_MICRO)))
     else bindM (liftE (usdcTokenAddress mode chain)) (\<lambda>tokenAddress.
          bindM (rpcCallWithRetry C rpcUrl ''eth_call''
            [VObj [(''to'', VStr tokenAddress), (''data'', VStr (ch_encode C ''balanceOf'' [VStr address]))], VStr ''latest'']
            ''agent_wallet_balance'') (\<lambda>answer.
          bindM (liftE (BigInt answer)) (\<lambda>micros. ret (big_div micros 1)))))"

definition nativeGasBalanceWei :: "chain_world \<Rightarrow> string \<Rightarrow> payment_chain \<Rightarrow> ('a chain_db_scheme, int) op" where
  "nativeGasBalanceWei C address chain =
     bindM (liftE (configured_url C chain ''agent_wallet_gas_rpc_not_configured'')) (\<lambda>rpcUrl.
     bindM (rpcCallWithRetry C rpcUrl ''eth_getBalance'' [VStr address, VStr ''latest''] ''agent_wallet_gas'') (\<lambda>answer.
     liftE (BigInt answer)))"

section \<open>What an operation sends\<close>

text \<open>
  \<open>sends_only P m\<close>: \<open>m\<close> keeps every call already on record, and each call it adds meets \<open>P\<close>.
\<close>

definition sends_only :: "(provider_call \<Rightarrow> bool) \<Rightarrow> ('a chain_db_scheme, 'b) op \<Rightarrow> bool" where
  "sends_only P m \<longleftrightarrow> (\<forall>s. \<exists>new. provider_calls (snd (m s)) = provider_calls s @ new \<and> list_all P new)"

lemma attempts_first:
  "attempts n (\<lambda>s. (Inr (Inr r), f s)) e s = (if n = 0 then (Inr (Inl e), s) else (Inr (Inr r), f s))"
  by (cases n) (simp_all add: bindM_def ret_def)

lemma preserves_attempts [preserve_intros]: "preserves I m \<Longrightarrow> preserves I (attempts n m e)"
proof (induction n arbitrary: e)
  case (Suc n)
  show ?case unfolding attempts.simps
    by (intro preserves_bindM Suc.prems) (auto split: sum.splits intro: Suc preserve_intros)
qed (simp add: preserve_intros)

lemma preserves_fetched [preserve_intros]: "(\<And>s n. I s \<Longrightarrow> I (s\<lparr>rpc_requests := n\<rparr>)) \<Longrightarrow> preserves I (fetched f)"
  unfolding fetched_def by (intro preserve_intros) auto

lemma preserves_rpcCallWithRetry [preserve_intros]:
  "(\<And>s n. I s \<Longrightarrow> I (s\<lparr>rpc_requests := n\<rparr>)) \<Longrightarrow> preserves I (rpcCallWithRetry C url method params p)"
  unfolding rpcCallWithRetry_def by (intro preserve_intros)

lemma preserves_nativeBalanceMicros [preserve_intros]:
  "(\<And>s n. I s \<Longrightarrow> I (s\<lparr>rpc_requests := n\<rparr>)) \<Longrightarrow> preserves I (nativeBalanceMicros C address chain mode)"
  unfolding nativeBalanceMicros_def by (intro preserve_intros)

lemma preserves_nativeGasBalanceWei [preserve_intros]:
  "(\<And>s n. I s \<Longrightarrow> I (s\<lparr>rpc_requests := n\<rparr>)) \<Longrightarrow> preserves I (nativeGasBalanceWei C address chain)"
  unfolding nativeGasBalanceWei_def by (intro preserve_intros)

lemma preserves_randomRef [preserve_intros]:
  "(\<And>s n. I s \<Longrightarrow> I (s\<lparr>uuids := n\<rparr>)) \<Longrightarrow> preserves I (randomRef E p)"
  by (simp add: preserves_def randomRef_def)

lemma preserves_callProvider [preserve_intros]:
  "(\<And>s cs. I s \<Longrightarrow> I (s\<lparr>provider_calls := cs\<rparr>)) \<Longrightarrow> preserves I (callProvider C c)"
  unfolding callProvider_def by (intro preserve_intros) auto

lemma preserves_executePermit2Transaction [preserve_intros]:
  "(\<And>s cs. I s \<Longrightarrow> I (s\<lparr>provider_calls := cs\<rparr>)) \<Longrightarrow> preserves I (executePermit2Transaction C c)"
  unfolding executePermit2Transaction_def by (intro preserve_intros)

lemma randomRef_Inr [simp]:
  "randomRef E p s = (Inr r, s') \<longleftrightarrow> r = p @ env_uuid E (uuids s) \<and> s' = s\<lparr>uuids := Suc (uuids s)\<rparr>"
  by (auto simp: randomRef_def)

lemma wp_randomRef [wp_simps]:
  "wp (randomRef E p) Q = (\<lambda>s. Q (p @ env_uuid E (uuids s)) (s\<lparr>uuids := Suc (uuids s)\<rparr>))"
  by (rule ext) (simp add: wp_def)

lemma wp_executePermit2Transaction [wp_simps]:
  "wp (executePermit2Transaction C call) Q =
     (\<lambda>s. \<forall>h. ch_provider C (provider_calls s) (ExecuteContract call) = Inr h \<longrightarrow>
        Q h (s\<lparr>provider_calls := provider_calls s @ [ExecuteContract call]\<rparr>))"
  by (rule ext) (auto simp: executePermit2Transaction_def callProvider_def wp_simps)

text \<open>
  The retry loop in closed form: of the answers to the next six requests the first usable one is
  the result, and without one the reader throws with the text of the last.
\<close>

definition usable :: "(string + 'r) list \<Rightarrow> 'r option" where
  "usable outcomes = (case filter (\<lambda>x. \<not> isl x) outcomes of [] \<Rightarrow> None | x # _ \<Rightarrow> Some (projr x))"

lemma attempts_step:
  "attempts (Suc n) (fetched f) e s =
     (case f (rpc_requests s) of
        Inl e' \<Rightarrow> attempts n (fetched f) e' (s\<lparr>rpc_requests := Suc (rpc_requests s)\<rparr>)
      | Inr r \<Rightarrow> (Inr (Inr r), s\<lparr>rpc_requests := Suc (rpc_requests s)\<rparr>))"
  by (simp add: fetched_def bindM_def query_def modify_def ret_def split: sum.splits)

lemma usable_simps:
  "usable [] = None" "usable (Inl e # xs) = usable xs" "usable (Inr r # xs) = Some r"
  by (simp_all add: usable_def)

lemma attempts_fetched:
  "fst (attempts n (fetched f) e s) =
     Inr (case usable (map f [rpc_requests s ..< rpc_requests s + n]) of
        Some r \<Rightarrow> Inr r
      | None \<Rightarrow> Inl (if n = 0 then e else projl (f (rpc_requests s + n - 1))))"
proof (induction n arbitrary: e s)
  case 0
  show ?case by (simp add: usable_simps ret_def)
next
  case (Suc n)
  let ?k = "rpc_requests s"
  let ?s' = "s\<lparr>rpc_requests := Suc ?k\<rparr>"
  have upt: "map f [?k ..< ?k + Suc n] = f ?k # map f [Suc ?k ..< Suc ?k + n]"
    using upt_rec[of ?k "?k + Suc n"] by simp
  show ?case
  proof (cases "f ?k")
    case (Inl e')
    have eq: "fst (attempts (Suc n) (fetched f) e s) = fst (attempts n (fetched f) e' ?s')"
      unfolding attempts_step Inl by simp
    have u: "usable (map f [?k ..< ?k + Suc n]) = usable (map f [Suc ?k ..< Suc ?k + n])"
      unfolding upt Inl by (rule usable_simps)
    have l: "(if n = 0 then e' else projl (f (Suc ?k + n - 1))) = projl (f (?k + Suc n - 1))"
      by (cases n) (simp_all add: Inl)
    have k: "rpc_requests ?s' = Suc ?k" by simp
    show ?thesis unfolding eq Suc.IH u k l by (simp only: nat.distinct(2) if_False)
  next
    case (Inr r)
    show ?thesis unfolding attempts_step upt Inr by (simp add: usable_simps)
  qed
qed

lemma reader_returns_iff:
  "(\<exists>r. fst (attempts n (fetched f) e s) = Inr (Inr r)) \<longleftrightarrow> (\<exists>k < n. \<not> isl (f (rpc_requests s + k)))"
proof -
  have ex: "usable xs = None \<longleftrightarrow> list_all isl xs" for xs :: "(string + 'x) list"
    by (induction xs) (auto simp: usable_def)
  have "(\<exists>r. fst (attempts n (fetched f) e s) = Inr (Inr r)) \<longleftrightarrow>
      usable (map f [rpc_requests s ..< rpc_requests s + n]) \<noteq> None"
    unfolding attempts_fetched by (simp split: option.splits)
  also have "\<dots> \<longleftrightarrow> (\<exists>i \<in> {rpc_requests s ..< rpc_requests s + n}. \<not> isl (f i))"
    unfolding ex by (auto simp: list_all_iff)
  also have "\<dots> \<longleftrightarrow> (\<exists>k < n. \<not> isl (f (rpc_requests s + k)))"
    by (metis add_diff_cancel_left' atLeastLessThan_iff le_add1 le_add_diff_inverse nat_add_left_cancel_less)
  finally show ?thesis .
qed

end
