(* ===== verification/Escrow.thy ===== *)
theory Escrow
  imports ChainCalls
begin

text \<open>
  ERC-8183 escrow jobs: payments/escrow.ts, escrow-contract.ts and reputation-hook.ts over the
  tables of migrations 0032 and 0033. A row of \<open>escrow_jobs\<close> mirrors a job of the escrow contract;
  the money a job holds is a row of \<open>payment_reservations\<close>. Every operation that writes is one
  transaction around calls to the provider, which no rollback takes back.
\<close>

section \<open>Tables\<close>

datatype escrow_state = EsOpen | EsFunded | EsSubmitted | EsCompleted | EsRejected | EsExpired

fun escrow_state_name :: "escrow_state \<Rightarrow> string" where
  "escrow_state_name EsOpen = ''open''"
| "escrow_state_name EsFunded = ''funded''"
| "escrow_state_name EsSubmitted = ''submitted''"
| "escrow_state_name EsCompleted = ''completed''"
| "escrow_state_name EsRejected = ''rejected''"
| "escrow_state_name EsExpired = ''expired''"

record escrow_job =
  ej_id :: string
  ej_org_id :: string
  ej_client_agent_id :: string
  ej_provider_address :: string
  ej_evaluator_address :: string
  ej_mode :: payment_mode
  ej_chain :: payment_chain
  ej_escrow_address :: string
  ej_token_address :: string
  ej_onchain_job_id :: "int option"
  ej_budget :: int
  ej_reservation_id :: "string option"
  ej_state :: escrow_state
  ej_escrow_mode :: nat
  ej_deliverable_hash :: "string option"
  ej_expires_at :: int
  ej_create_tx_hash :: "string option"
  ej_fund_tx_hash :: "string option"
  ej_submit_tx_hash :: "string option"
  ej_terminal_tx_hash :: "string option"
  ej_created_by :: string
  ej_created_at :: int
  ej_updated_at :: int

record reputation_event_row =
  rp_id :: string
  rp_org_id :: string
  rp_agent_id :: string
  rp_escrow_job_id :: string
  rp_score :: int
  rp_feedback_tx_hash :: "string option"

record onchain_identity_row =
  oi_agent_id :: string
  oi_mode :: payment_mode
  oi_chain :: payment_chain
  oi_token_id :: "string option"
  oi_registered :: bool

record escrow_db = chain_db +
  escrow_jobs :: "escrow_job list"
  reputation_events :: "reputation_event_row list"
  onchain_identities :: "onchain_identity_row list"

text \<open>A rollback takes the tables back, not what was sent nor the random ids drawn.\<close>

definition undo_escrow :: "'a escrow_db_scheme \<Rightarrow> 'a escrow_db_scheme \<Rightarrow> 'a escrow_db_scheme" where
  "undo_escrow s s' =
     s\<lparr>provider_calls := provider_calls s', rpc_requests := rpc_requests s', uuids := uuids s'\<rparr>"

section \<open>The contract\<close>

definition ESCROW_CREATE_JOB_SIGNATURE :: string where
  "ESCROW_CREATE_JOB_SIGNATURE = ''createJob(address,address,uint48,string,address,uint256)''"

definition ESCROW_SET_BUDGET_SIGNATURE :: string where
  "ESCROW_SET_BUDGET_SIGNATURE = ''setBudget(uint256,address,uint256,bytes)''"

definition ESCROW_FUND_SIGNATURE :: string where
  "ESCROW_FUND_SIGNATURE = ''fund(uint256,address,uint256,bytes)''"

definition ESCROW_SUBMIT_SIGNATURE :: string where
  "ESCROW_SUBMIT_SIGNATURE = ''submit(uint256,bytes32,bytes)''"

definition ESCROW_COMPLETE_SIGNATURE :: string where
  "ESCROW_COMPLETE_SIGNATURE = ''complete(uint256,bytes32,bytes)''"

definition ESCROW_REJECT_SIGNATURE :: string where
  "ESCROW_REJECT_SIGNATURE = ''reject(uint256,bytes32,bytes)''"

definition APPROVE_SIGNATURE :: string where
  "APPROVE_SIGNATURE = ''approve(address,uint256)''"

fun ESCROW_DEPLOYMENTS :: "payment_chain \<Rightarrow> (string \<times> string) option" where
  "ESCROW_DEPLOYMENTS Arc = Some (''0x31C050d9D20504c4E11b2A894051d8181B14e0F5'', ''0x3600000000000000000000000000000000000000'')"
| "ESCROW_DEPLOYMENTS Base = Some (''0x31C050d9D20504c4E11b2A894051d8181B14e0F5'', ''0x036CbD53842c5426634e7929541eC2318f3dCF7e'')"
| "ESCROW_DEPLOYMENTS _ = None"

definition escrowDeploymentFor :: "payment_chain \<Rightarrow> app_error + (string \<times> string)" where
  "escrowDeploymentFor chain =
     (case ESCROW_DEPLOYMENTS chain of
        Some deployment \<Rightarrow> Inr deployment
      | None \<Rightarrow> Inl (JsError (''escrow_not_deployed_on_chain:'' @ chain_name chain)))"

definition escrowAddressFor :: "payment_chain \<Rightarrow> app_error + string" where
  "escrowAddressFor chain = bindE (escrowDeploymentFor chain) (\<lambda>d. Inr (fst d))"

definition escrowTokenAddressFor :: "payment_chain \<Rightarrow> app_error + string" where
  "escrowTokenAddressFor chain = bindE (escrowDeploymentFor chain) (\<lambda>d. Inr (snd d))"

text \<open>The id in the first JobCreated event of the escrow's own logs.\<close>

fun parseJobCreated :: "chain_world \<Rightarrow> receipt_log list \<Rightarrow> string \<Rightarrow> int option" where
  "parseJobCreated C [] escrowAddress = None"
| "parseJobCreated C (entry # logs) escrowAddress =
     (if toLowerCase (lg_address entry) \<noteq> toLowerCase escrowAddress then parseJobCreated C logs escrowAddress
      else case ch_decodeJobCreated C entry of
             None \<Rightarrow> parseJobCreated C logs escrowAddress
           | Some (eventName, jobId) \<Rightarrow>
               if eventName \<noteq> ''JobCreated'' then parseJobCreated C logs escrowAddress else Some jobId)"

definition NO_HOOK :: string where
  "NO_HOOK = ''0x0000000000000000000000000000000000000000''"

definition NO_PROVIDER_AGENT_ID :: string where
  "NO_PROVIDER_AGENT_ID = ''0''"

definition NO_HOOK_PARAMS :: string where
  "NO_HOOK_PARAMS = ''0x''"

definition ZERO_BYTES32 :: string where
  "ZERO_BYTES32 = ''0x'' @ replicate 64 CHR ''0''"

definition readReceiptLogsViaRpc :: "chain_world \<Rightarrow> string \<Rightarrow> payment_chain \<Rightarrow> ('a chain_db_scheme, receipt_log list) op" where
  "readReceiptLogsViaRpc C txHash chain =
     bindM (liftE (configured_url C chain ''escrow_receipt_rpc_not_configured'')) (\<lambda>rpcUrl.
     bindM (attempts MAX_ATTEMPTS (fetched (\<lambda>n.
        bindE (body_result ''eth_getTransactionReceipt_rpc_error'' ''escrow_receipt_not_available'' (ch_receipt C n rpcUrl txHash))
          (\<lambda>receipt. case receipt of
             None \<Rightarrow> Inl ''escrow_receipt_not_available''
           | Some logs \<Rightarrow> Inr (or_else logs [])))) ''unknown'') (\<lambda>outcome.
     liftE (or_unavailable ''escrow_receipt'' outcome)))"

section \<open>Creating a job\<close>

definition ESCROW_MINIMUM_BUDGET_MICROS :: int where
  "ESCROW_MINIMUM_BUDGET_MICROS = 10000"

definition UNECONOMIC :: app_error where
  "UNECONOMIC = badRequest ''escrow_uneconomic_for_amount''
     ''escrow_uneconomic_for_amount: escrow needs a budget of at least 0.01 USDC. Below that the five-plus state-changing transactions a job costs dominate the payment itself.''"

definition escrowBudgetMicros :: "string \<Rightarrow> app_error + int" where
  "escrowBudgetMicros budgetUsdc =
     bindE (parseUsdcMicros (UText budgetUsdc)) (\<lambda>micros.
     bindE (guardE (ESCROW_MINIMUM_BUDGET_MICROS \<le> micros) UNECONOMIC) (\<lambda>_. Inr micros))"

definition clientWalletAddress ::
  "string \<Rightarrow> payment_mode \<Rightarrow> payment_chain \<Rightarrow> ('a payments_db_scheme, string) op" where
  "clientWalletAddress agentId mode chain =
     bindM (query (findAgentWallet agentId mode chain)) (\<lambda>wallet.
     case wallet of
       None \<Rightarrow> throw (JsError (''escrow_client_wallet_not_found:'' @ agentId))
     | Some w \<Rightarrow> ret (aw_address w))"

record create_job_input =
  ck_orgId :: string
  ck_clientAgentId :: string
  ck_providerAddress :: string
  ck_evaluatorAddress :: "string option"
  ck_mode :: payment_mode
  ck_chain :: payment_chain
  ck_budgetUsdc :: string
  ck_expiresAt :: int
  ck_createdBy :: string
  ck_description :: "string option"

text \<open>The INSERT under the constraints of the table; \<open>numeric(78, 0)\<close> holds the id.\<close>

definition insert_job :: "escrow_job \<Rightarrow> ('a escrow_db_scheme, unit) op" where
  "insert_job j =
     bindM (query (\<lambda>s. list_ex (\<lambda>q. ej_id q = ej_id j) (escrow_jobs s))) (\<lambda>dup.
     bindM (guardM (\<not> dup) (PgUniqueViolation ''escrow_jobs_pkey'')) (\<lambda>_.
     bindM (query (\<lambda>s. list_ex (\<lambda>q. ej_chain q = ej_chain j \<and> ej_escrow_address q = ej_escrow_address j \<and>
        ej_onchain_job_id j \<noteq> None \<and> ej_onchain_job_id q = ej_onchain_job_id j) (escrow_jobs s))) (\<lambda>known.
     bindM (guardM (\<not> known) (PgUniqueViolation ''escrow_jobs_chain_escrow_address_onchain_job_id_key'')) (\<lambda>_.
     bindM (guardM (0 < ej_budget j) (PgCheckViolation ''escrow_jobs_budget_usdc_check'')) (\<lambda>_.
     bindM (query (\<lambda>s. find_org (ej_org_id j) s \<noteq> None \<and> list_ex (\<lambda>a. ag_id a = ej_client_agent_id j) (agents s))) (\<lambda>refs.
     bindM (guardM refs (PgForeignKeyViolation ''escrow_jobs'')) (\<lambda>_.
     modify (\<lambda>s. s\<lparr>escrow_jobs := escrow_jobs s @ [j]\<rparr>))))))))"

definition CLIENT_IS_PROVIDER :: app_error where
  "CLIENT_IS_PROVIDER = conflict ''escrow_client_cannot_be_provider''
     ''Paying agent cannot hire itself -- choose a different paying agent than the marketplace listing.''"

definition PROVIDER_IS_EVALUATOR :: app_error where
  "PROVIDER_IS_EVALUATOR = conflict ''escrow_provider_cannot_be_evaluator''
     ''Provider cannot also be the evaluator. Omit evaluator (client evaluates) or pick a third address.''"

definition createEscrowJob :: "env \<Rightarrow> chain_world \<Rightarrow> create_job_input \<Rightarrow> ('a escrow_db_scheme, escrow_job) op" where
  "createEscrowJob E C input =
     bindM (liftE (escrowBudgetMicros (ck_budgetUsdc input))) (\<lambda>budgetMicros.
     bindM (liftE (escrowAddressFor (ck_chain input))) (\<lambda>escrowAddress.
     bindM (liftE (escrowTokenAddressFor (ck_chain input))) (\<lambda>tokenAddress.
     transactionOn undo_escrow (
       bindM (clientWalletAddress (ck_clientAgentId input) (ck_mode input) (ck_chain input)) (\<lambda>clientAddress.
       bindM (guardM (toLowerCase clientAddress \<noteq> toLowerCase (ck_providerAddress input)) CLIENT_IS_PROVIDER) (\<lambda>_.
       let evaluatorAddress = or_else (ck_evaluatorAddress input) clientAddress in
       bindM (guardM (toLowerCase evaluatorAddress \<noteq> toLowerCase (ck_providerAddress input)) PROVIDER_IS_EVALUATOR) (\<lambda>_.
       let escrowMode = (if toLowerCase evaluatorAddress = toLowerCase clientAddress then 2 else 3);
           expiredAtSeconds = ck_expiresAt input div 1000 in
       bindM (randomRef E ''agentops-escrow-create-'') (\<lambda>refId.
       bindM (executePermit2Transaction C \<lparr>xc_mode = ck_mode input, xc_chain = ck_chain input, xc_senderAddress = clientAddress,
          xc_abiFunctionSignature = ESCROW_CREATE_JOB_SIGNATURE,
          xc_abiParameters = [VStr (ck_providerAddress input), VStr evaluatorAddress, VStr (show_int expiredAtSeconds),
            VStr (or_else (ck_description input) []), VStr NO_HOOK, VStr NO_PROVIDER_AGENT_ID],
          xc_contractAddress = Some escrowAddress, xc_refId = refId\<rparr>) (\<lambda>txHash.
       bindM (readReceiptLogsViaRpc C txHash (ck_chain input)) (\<lambda>logs.
       case parseJobCreated C logs escrowAddress of
         None \<Rightarrow> throw (JsError (''escrow_job_id_not_in_receipt:'' @ txHash))
       | Some onchainJobId \<Rightarrow>
           bindM (prefixedId E ''escrowjob'') (\<lambda>i.
           bindM now (\<lambda>t.
           bindM (liftE (numeric_cast (formatUsdc budgetMicros))) (\<lambda>budget.
           bindM (guardM (\<bar>onchainJobId\<bar> < 10 ^ 78) NUMERIC_OVERFLOW) (\<lambda>_.
           let row = \<lparr>ej_id = i, ej_org_id = ck_orgId input, ej_client_agent_id = ck_clientAgentId input,
             ej_provider_address = ck_providerAddress input, ej_evaluator_address = evaluatorAddress,
             ej_mode = ck_mode input, ej_chain = ck_chain input, ej_escrow_address = escrowAddress,
             ej_token_address = tokenAddress, ej_onchain_job_id = Some onchainJobId, ej_budget = budget,
             ej_reservation_id = None, ej_state = EsOpen, ej_escrow_mode = escrowMode, ej_deliverable_hash = None,
             ej_expires_at = ck_expiresAt input, ej_create_tx_hash = Some txHash, ej_fund_tx_hash = None,
             ej_submit_tx_hash = None, ej_terminal_tx_hash = None, ej_created_by = ck_createdBy input,
             ej_created_at = t, ej_updated_at = t\<rparr> in
           bindM (insert_job row) (\<lambda>_. ret row)))))))))))))))"

section \<open>Funding a job\<close>

definition fleet_wallet :: "string \<Rightarrow> string \<Rightarrow> payment_mode \<Rightarrow> payment_chain \<Rightarrow> ('a payments_db_scheme) \<Rightarrow> agent_wallet_row option" where
  "fleet_wallet orgId address mode chain s =
     find_row (\<lambda>w. aw_org_id w = orgId \<and> toLowerCase (aw_address w) = toLowerCase address \<and> aw_mode w = mode \<and>
       aw_chain w = chain \<and> aw_status w = WalletActive) (agent_chain_wallets s)"

definition fleetWalletAddress :: "string \<Rightarrow> string \<Rightarrow> payment_mode \<Rightarrow> payment_chain \<Rightarrow> ('a payments_db_scheme) \<Rightarrow> string option" where
  "fleetWalletAddress orgId address mode chain s = map_option aw_address (fleet_wallet orgId address mode chain s)"

text \<open>\<open>JSON.stringify\<close> of an object of texts, numbers and nulls, in the order of its properties.\<close>

definition json_member :: "jsval \<Rightarrow> string" where
  "json_member v = (case v of VStr t \<Rightarrow> json_string t | VNum x \<Rightarrow> show_num x | _ \<Rightarrow> ''null'')"

definition flat_json :: "obj \<Rightarrow> string" where
  "flat_json o' = ''{'' @ join '','' (map (\<lambda>(k, v). json_string k @ '':'' @ json_member v) o') @ ''}''"

definition escrow_quote :: "escrow_job \<Rightarrow> obj" where
  "escrow_quote job =
     [(''escrowJobId'', VStr (ej_id job)), (''chain'', VStr (chain_name (ej_chain job))),
      (''escrowAddress'', VStr (ej_escrow_address job)), (''tokenAddress'', VStr (ej_token_address job)),
      (''onchainJobId'', (case ej_onchain_job_id job of Some n \<Rightarrow> VStr (show_int n) | None \<Rightarrow> VNull)),
      (''budgetUsdc'', VStr (numeric_text (ej_budget job))),
      (''providerAddress'', VStr (ej_provider_address job)), (''evaluatorAddress'', VStr (ej_evaluator_address job)),
      (''escrowMode'', VNum (Fin (of_nat (ej_escrow_mode job))))]"

definition escrow_reason :: "string \<Rightarrow> string" where
  "escrow_reason jobId = ''escrow_job:'' @ jobId"

definition escrow_source :: "env \<Rightarrow> string \<Rightarrow> payment_chain \<Rightarrow> ('a payments_db_scheme) \<Rightarrow> source_row list" where
  "escrow_source E orgId chain s =
     sort_by (\<lambda>x y. let c = env_collate E (rail_name (so_rail x)) (rail_name (so_rail y))
                    in if c \<noteq> 0 then c else so_created_at y - so_created_at x)
       (filter (\<lambda>p. so_org_id p = orgId \<and> so_chain p = chain \<and> so_active p) (payment_sources s))"

definition reserveEscrowBudget :: "env \<Rightarrow> escrow_job \<Rightarrow> ('a payments_db_scheme, string) op" where
  "reserveEscrowBudget E job =
     bindM (query (escrow_source E (ej_org_id job) (ej_chain job))) (\<lambda>rows.
     case rows of
       [] \<Rightarrow> throw (JsError (''escrow_payment_source_not_found:'' @ chain_name (ej_chain job)))
     | source # _ \<Rightarrow>
         bindM (prefixedId E ''payres'') (\<lambda>reservationId.
         bindM now (\<lambda>t.
         bindM (liftE (numeric_cast (numeric_text (ej_budget job)))) (\<lambda>amount.
         bindM (insert_reservation \<lparr>rs_id = reservationId, rs_org_id = ej_org_id job, rs_agent_id = ej_client_agent_id job,
           rs_connection_id = None, rs_source_id = so_id source, rs_amount = amount, rs_asset = ''USDC'',
           rs_rail = so_rail source, rs_status = RsReserved, rs_reason_code = escrow_reason (ej_id job),
           rs_quote_hash = env_sha256 E (flat_json (escrow_quote job)), rs_quote = escrow_quote job,
           rs_expires_at = ej_expires_at job, rs_created_at = t\<rparr>) (\<lambda>_.
         ret reservationId)))))"

definition lockedJob :: "string \<Rightarrow> ('a escrow_db_scheme, escrow_job) op" where
  "lockedJob i =
     bindM (query (\<lambda>s. find_row (\<lambda>j. ej_id j = i) (escrow_jobs s))) (\<lambda>row.
     case row of None \<Rightarrow> throw (JsError ''escrow_job_not_found'') | Some job \<Rightarrow> ret job)"

definition onchainId :: "escrow_job \<Rightarrow> app_error + int" where
  "onchainId job =
     (case ej_onchain_job_id job of
        Some n \<Rightarrow> Inr n
      | None \<Rightarrow> Inl (JsError (''escrow_onchain_job_id_missing:'' @ ej_id job)))"

definition update_job :: "string \<Rightarrow> (escrow_job \<Rightarrow> escrow_job) \<Rightarrow> ('a escrow_db_scheme, escrow_job) op" where
  "update_job i f =
     bindM (modify (\<lambda>s. s\<lparr>escrow_jobs := update_rows (\<lambda>j. ej_id j = i) f (escrow_jobs s)\<rparr>)) (\<lambda>_.
     bindM (query (\<lambda>s. find_row (\<lambda>j. ej_id j = i) (escrow_jobs s))) (\<lambda>row.
     case row of None \<Rightarrow> throw (JsError ''escrow_job_update_failed'') | Some job \<Rightarrow> ret job))"

text \<open>The three calls of a funding: the provider's budget, the exact allowance, the guarded fund.\<close>

definition set_budget_call :: "escrow_job \<Rightarrow> int \<Rightarrow> int \<Rightarrow> string \<Rightarrow> string \<Rightarrow> contract_call" where
  "set_budget_call job n micros sender refId =
     \<lparr>xc_mode = ej_mode job, xc_chain = ej_chain job, xc_senderAddress = sender,
      xc_abiFunctionSignature = ESCROW_SET_BUDGET_SIGNATURE,
      xc_abiParameters = [VStr (show_int n), VStr (ej_token_address job), VStr (show_int micros), VStr NO_HOOK_PARAMS],
      xc_contractAddress = Some (ej_escrow_address job), xc_refId = refId\<rparr>"

definition approve_call :: "escrow_job \<Rightarrow> int \<Rightarrow> string \<Rightarrow> string \<Rightarrow> contract_call" where
  "approve_call job micros sender refId =
     \<lparr>xc_mode = ej_mode job, xc_chain = ej_chain job, xc_senderAddress = sender,
      xc_abiFunctionSignature = APPROVE_SIGNATURE,
      xc_abiParameters = [VStr (ej_escrow_address job), VStr (show_int micros)],
      xc_contractAddress = Some (ej_token_address job), xc_refId = refId\<rparr>"

definition fund_call :: "escrow_job \<Rightarrow> int \<Rightarrow> int \<Rightarrow> string \<Rightarrow> string \<Rightarrow> contract_call" where
  "fund_call job n micros sender refId =
     \<lparr>xc_mode = ej_mode job, xc_chain = ej_chain job, xc_senderAddress = sender,
      xc_abiFunctionSignature = ESCROW_FUND_SIGNATURE,
      xc_abiParameters = [VStr (show_int n), VStr (ej_token_address job), VStr (show_int micros), VStr NO_HOOK_PARAMS],
      xc_contractAddress = Some (ej_escrow_address job), xc_refId = refId\<rparr>"

definition NOT_OPEN :: "escrow_job \<Rightarrow> app_error" where
  "NOT_OPEN job = conflict ''escrow_invalid_transition''
     (''escrow_invalid_transition: escrow job is '' @ escrow_state_name (ej_state job) @ '', and only an open job can be funded.'')"

definition fundEscrowJob :: "env \<Rightarrow> chain_world \<Rightarrow> string \<Rightarrow> ('a escrow_db_scheme, escrow_job) op" where
  "fundEscrowJob E C escrowJobId =
     transactionOn undo_escrow (
       bindM (lockedJob escrowJobId) (\<lambda>job.
       bindM (guardM (ej_state job = EsOpen) (NOT_OPEN job)) (\<lambda>_.
       bindM (liftE (onchainId job)) (\<lambda>n.
       bindM (liftE (escrowBudgetMicros (numeric_text (ej_budget job)))) (\<lambda>budgetMicros.
       bindM (clientWalletAddress (ej_client_agent_id job) (ej_mode job) (ej_chain job)) (\<lambda>clientAddress.
       bindM (query (fleetWalletAddress (ej_org_id job) (ej_provider_address job) (ej_mode job) (ej_chain job))) (\<lambda>providerWallet.
       bindM (case providerWallet of
           None \<Rightarrow> ret ()
         | Some wallet \<Rightarrow>
             bindM (randomRef E ''agentops-escrow-budget-'') (\<lambda>refId.
             bindM (executePermit2Transaction C (set_budget_call job n budgetMicros wallet refId)) (\<lambda>_. ret ()))) (\<lambda>_.
       bindM (randomRef E ''agentops-escrow-approve-'') (\<lambda>approveRef.
       bindM (executePermit2Transaction C (approve_call job budgetMicros clientAddress approveRef)) (\<lambda>_.
       bindM (randomRef E ''agentops-escrow-fund-'') (\<lambda>fundRef.
       bindM (executePermit2Transaction C (fund_call job n budgetMicros clientAddress fundRef)) (\<lambda>txHash.
       bindM (reserveEscrowBudget E job) (\<lambda>reservationId.
       bindM now (\<lambda>t.
       update_job (ej_id job) (\<lambda>j. j\<lparr>ej_state := EsFunded, ej_fund_tx_hash := Some txHash,
         ej_reservation_id := Some reservationId, ej_updated_at := t\<rparr>)))))))))))))))"

section \<open>Moving a job along\<close>

fun ESCROW_TRANSITIONS :: "escrow_state \<Rightarrow> escrow_state list" where
  "ESCROW_TRANSITIONS EsFunded = [EsSubmitted]"
| "ESCROW_TRANSITIONS EsSubmitted = [EsCompleted, EsRejected, EsExpired]"
| "ESCROW_TRANSITIONS _ = []"

definition assertEscrowTransition :: "escrow_job \<Rightarrow> escrow_state \<Rightarrow> app_error + unit" where
  "assertEscrowTransition job target =
     guardE (target \<in> set (ESCROW_TRANSITIONS (ej_state job)))
       (conflict ''escrow_invalid_transition''
         (''escrow_invalid_transition: escrow job is '' @ escrow_state_name (ej_state job) @ '', and '' @
          escrow_state_name target @ '' is not reachable from there.'' @
          (if target = EsFunded then '' Funding is an approve-then-fund orchestration -- use fundEscrowJob.'' else [])))"

definition applyReservationOutcome :: "escrow_job \<Rightarrow> escrow_state \<Rightarrow> ('a payments_db_scheme, unit) op" where
  "applyReservationOutcome job target =
     (case ej_reservation_id job of
        None \<Rightarrow> ret ()
      | Some i \<Rightarrow>
          if target \<notin> {EsCompleted, EsRejected, EsExpired} then ret ()
          else bindM (close_reservation (ej_org_id job) i (if target = EsCompleted then RsSettled else RsReleased)) (\<lambda>_. ret ()))"

datatype escrow_role = ProviderRole | EvaluatorRole

text \<open>\<open>ESCROW_CALLS\<close>: who calls, the verb, the function, and the error when the key is not held.\<close>

fun ESCROW_CALLS :: "escrow_state \<Rightarrow> (escrow_role \<times> string \<times> string \<times> string) option" where
  "ESCROW_CALLS EsSubmitted = Some (ProviderRole, ''submit'', ESCROW_SUBMIT_SIGNATURE, ''escrow_provider_wallet_not_held'')"
| "ESCROW_CALLS EsCompleted = Some (EvaluatorRole, ''complete'', ESCROW_COMPLETE_SIGNATURE, ''escrow_evaluator_wallet_not_held'')"
| "ESCROW_CALLS EsRejected = Some (EvaluatorRole, ''reject'', ESCROW_REJECT_SIGNATURE, ''escrow_evaluator_wallet_not_held'')"
| "ESCROW_CALLS _ = None"

definition sendEscrowTransition ::
  "env \<Rightarrow> chain_world \<Rightarrow> escrow_job \<Rightarrow> int \<Rightarrow> escrow_state \<Rightarrow> string option \<Rightarrow> ('a chain_db_scheme, string option) op" where
  "sendEscrowTransition E C job n target deliverableHash =
     (if target = EsExpired then ret None
      else case ESCROW_CALLS target of
        None \<Rightarrow> throw (JsError (''escrow_no_call_for_state:'' @ escrow_state_name target))
      | Some (role, verb, signature, notHeldCode) \<Rightarrow>
          let actorAddress = (if role = ProviderRole then ej_provider_address job else ej_evaluator_address job) in
          bindM (query (fleetWalletAddress (ej_org_id job) actorAddress (ej_mode job) (ej_chain job))) (\<lambda>wallet.
          case wallet of
            None \<Rightarrow> throw (conflict notHeldCode (notHeldCode @ '': only '' @ actorAddress @ '' may '' @ verb @
              '' this job, and this org holds no key for it. Reconcile against the chain instead.''))
          | Some sender \<Rightarrow>
              bindM (randomRef E (''agentops-escrow-'' @ verb @ ''-'')) (\<lambda>refId.
              bindM (executePermit2Transaction C \<lparr>xc_mode = ej_mode job, xc_chain = ej_chain job, xc_senderAddress = sender,
                 xc_abiFunctionSignature = signature,
                 xc_abiParameters = [VStr (show_int n),
                   VStr (if role = ProviderRole then or_else deliverableHash ZERO_BYTES32 else ZERO_BYTES32), VStr NO_HOOK_PARAMS],
                 xc_contractAddress = Some (ej_escrow_address job), xc_refId = refId\<rparr>) (\<lambda>txHash.
              ret (Some txHash)))))"

text \<open>\<open>COALESCE\<close> of a parameter and the column.\<close>

definition coalesce :: "'x option \<Rightarrow> 'x option \<Rightarrow> 'x option" where
  "coalesce x y = (case x of Some _ \<Rightarrow> x | None \<Rightarrow> y)"

definition moved_job :: "escrow_state \<Rightarrow> string option \<Rightarrow> string option \<Rightarrow> int \<Rightarrow> escrow_job \<Rightarrow> escrow_job" where
  "moved_job target txHash deliverableHash t j =
     j\<lparr>ej_state := target,
       ej_deliverable_hash := coalesce deliverableHash (ej_deliverable_hash j),
       ej_submit_tx_hash := (if target = EsSubmitted then coalesce txHash (ej_submit_tx_hash j) else ej_submit_tx_hash j),
       ej_terminal_tx_hash := (if target = EsSubmitted then ej_terminal_tx_hash j else coalesce txHash (ej_terminal_tx_hash j)),
       ej_updated_at := t\<rparr>"

definition changeState ::
  "env \<Rightarrow> chain_world \<Rightarrow> string \<Rightarrow> escrow_state \<Rightarrow> string option \<Rightarrow> ('a escrow_db_scheme, escrow_job) op" where
  "changeState E C escrowJobId target deliverableHash =
     transactionOn undo_escrow (
       bindM (lockedJob escrowJobId) (\<lambda>job.
       bindM (liftE (assertEscrowTransition job target)) (\<lambda>_.
       bindM (liftE (onchainId job)) (\<lambda>n.
       bindM (sendEscrowTransition E C job n target deliverableHash) (\<lambda>txHash.
       bindM now (\<lambda>t.
       bindM (update_job (ej_id job) (moved_job target txHash deliverableHash t)) (\<lambda>row.
       bindM (applyReservationOutcome job target) (\<lambda>_.
       ret row))))))))"

section \<open>Reputation\<close>

definition REPUTATION_REGISTRY_ADDRESS :: string where
  "REPUTATION_REGISTRY_ADDRESS = ''0x8004B663056A597Dffe9eCcC1965A193B7388713''"

definition REPUTATION_GIVE_FEEDBACK_SIGNATURE :: string where
  "REPUTATION_GIVE_FEEDBACK_SIGNATURE = ''giveFeedback(uint256,int128,uint8,string,string,string,string,bytes32)''"

definition COMPLETION_SCORE :: int where
  "COMPLETION_SCORE = 100"

definition writeFeedback ::
  "env \<Rightarrow> chain_world \<Rightarrow> payment_mode \<Rightarrow> payment_chain \<Rightarrow> string \<Rightarrow> string \<Rightarrow> int \<Rightarrow> ('a chain_db_scheme, string) op" where
  "writeFeedback E C mode chain senderAddress agentTokenId score =
     bindM (randomRef E ''agentops-reputation-'') (\<lambda>refId.
     executePermit2Transaction C \<lparr>xc_mode = mode, xc_chain = chain, xc_senderAddress = senderAddress,
       xc_abiFunctionSignature = REPUTATION_GIVE_FEEDBACK_SIGNATURE,
       xc_abiParameters = [VStr agentTokenId, VStr (show_int score), VStr ''0'', VStr ''escrow_completion'', VStr [], VStr [],
         VStr [], VStr ZERO_BYTES32],
       xc_contractAddress = Some REPUTATION_REGISTRY_ADDRESS, xc_refId = refId\<rparr>)"

text \<open>The INSERT, \<open>None\<close> on a conflict over the job, refused by the other constraints.\<close>

definition writeReputation ::
  "env \<Rightarrow> string \<Rightarrow> string \<Rightarrow> string option \<Rightarrow> int \<Rightarrow> ('a escrow_db_scheme, reputation_event_row option) op" where
  "writeReputation E orgId agentId escrowJobId score =
     bindM (prefixedId E ''repev'') (\<lambda>i.
     case escrowJobId of
       None \<Rightarrow> throw (JsError ''null value in column escrow_job_id violates not-null constraint'')
     | Some jobId \<Rightarrow>
         bindM (guardM (0 \<le> score \<and> score \<le> 100) (PgCheckViolation ''agent_reputation_events_score_check'')) (\<lambda>_.
         bindM (query (\<lambda>s. list_ex (\<lambda>v. rp_escrow_job_id v = jobId) (reputation_events s))) (\<lambda>known.
         if known then ret None
         else
           bindM (query (\<lambda>s. list_ex (\<lambda>v. rp_id v = i) (reputation_events s))) (\<lambda>dup.
           bindM (guardM (\<not> dup) (PgUniqueViolation ''agent_reputation_events_pkey'')) (\<lambda>_.
           bindM (query (\<lambda>s. find_org orgId s \<noteq> None \<and> list_ex (\<lambda>a. ag_id a = agentId) (agents s) \<and>
              list_ex (\<lambda>j. ej_id j = jobId) (escrow_jobs s))) (\<lambda>refs.
           bindM (guardM refs (PgForeignKeyViolation ''agent_reputation_events'')) (\<lambda>_.
           let row = \<lparr>rp_id = i, rp_org_id = orgId, rp_agent_id = agentId, rp_escrow_job_id = jobId, rp_score = score,
             rp_feedback_tx_hash = None\<rparr> in
           bindM (modify (\<lambda>s. s\<lparr>reputation_events := reputation_events s @ [row]\<rparr>)) (\<lambda>_.
           ret (Some row)))))))))"

definition resolveProviderAgentId ::
  "string \<Rightarrow> string \<Rightarrow> payment_mode \<Rightarrow> payment_chain \<Rightarrow> ('a payments_db_scheme) \<Rightarrow> string option" where
  "resolveProviderAgentId orgId address mode chain s = map_option aw_agent_id (fleet_wallet orgId address mode chain s)"

text \<open>\<open>try { ... } catch { }\<close> around statements that commit one by one.\<close>

definition swallow :: "('s, 'x) op \<Rightarrow> ('s, unit) op" where
  "swallow m s = (Inr (), snd (m s))"

definition onchain_identity :: "string \<Rightarrow> payment_mode \<Rightarrow> payment_chain \<Rightarrow> ('a escrow_db_scheme) \<Rightarrow> string option" where
  "onchain_identity agentId mode chain s =
     (case find_row (\<lambda>i. oi_agent_id i = agentId \<and> oi_mode i = mode \<and> oi_chain i = chain \<and> oi_registered i) (onchain_identities s) of
        Some i \<Rightarrow> oi_token_id i | None \<Rightarrow> None)"

definition broadcast ::
  "env \<Rightarrow> chain_world \<Rightarrow> escrow_job \<Rightarrow> string \<Rightarrow> reputation_event_row \<Rightarrow> ('a escrow_db_scheme, unit) op" where
  "broadcast E C job agentId event =
     bindM (query (onchain_identity agentId (ej_mode job) (ej_chain job))) (\<lambda>token.
     case token of
       None \<Rightarrow> ret ()
     | Some tokenId \<Rightarrow>
         bindM (query (findAgentWallet (ej_client_agent_id job) (ej_mode job) (ej_chain job))) (\<lambda>wallet.
         case wallet of
           None \<Rightarrow> ret ()
         | Some w \<Rightarrow>
             bindM (writeFeedback E C (ej_mode job) (ej_chain job) (aw_address w) tokenId COMPLETION_SCORE) (\<lambda>txHash.
             modify (\<lambda>s. s\<lparr>reputation_events := update_rows (\<lambda>v. rp_id v = rp_id event)
               (\<lambda>v. v\<lparr>rp_feedback_tx_hash := Some txHash\<rparr>) (reputation_events s)\<rparr>))))"

definition onEscrowCompleted :: "env \<Rightarrow> chain_world \<Rightarrow> string \<Rightarrow> ('a escrow_db_scheme, unit) op" where
  "onEscrowCompleted E C jobId =
     bindM (lockedJob jobId) (\<lambda>job.
     bindM (guardM (ej_state job = EsCompleted)
       (JsError (''reputation_write_refused:not_completed:'' @ escrow_state_name (ej_state job)))) (\<lambda>_.
     bindM (query (resolveProviderAgentId (ej_org_id job) (ej_provider_address job) (ej_mode job) (ej_chain job))) (\<lambda>agent.
     case agent of
       None \<Rightarrow> ret ()
     | Some agentId \<Rightarrow>
         bindM (writeReputation E (ej_org_id job) agentId (Some (ej_id job)) COMPLETION_SCORE) (\<lambda>event.
         case event of
           None \<Rightarrow> ret ()
         | Some v \<Rightarrow> swallow (broadcast E C job agentId v)))))"

definition applyEscrowStateChange ::
  "env \<Rightarrow> chain_world \<Rightarrow> string \<Rightarrow> escrow_state \<Rightarrow> string option \<Rightarrow> ('a escrow_db_scheme, escrow_job) op" where
  "applyEscrowStateChange E C escrowJobId target deliverableHash =
     bindM (changeState E C escrowJobId target deliverableHash) (\<lambda>result.
     bindM (if target = EsCompleted then swallow (onEscrowCompleted E C (ej_id result)) else ret ()) (\<lambda>_.
     ret result))"

section \<open>Reading and reconciling\<close>

definition readJobCallDataViaRpc ::
  "chain_world \<Rightarrow> int \<Rightarrow> string \<Rightarrow> payment_chain \<Rightarrow> ('a chain_db_scheme, string) op" where
  "readJobCallDataViaRpc C n escrowAddress chain =
     bindM (liftE (configured_url C chain ''escrow_get_job_rpc_not_configured'')) (\<lambda>rpcUrl.
     bindM (attempts MAX_ATTEMPTS (fetched (\<lambda>k. body_result ''eth_call_rpc_error'' ''eth_call_empty_response''
       (ch_rpc C k rpcUrl ''eth_call''
         [VObj [(''to'', VStr escrowAddress), (''data'', VStr (ch_encode C ''getJob'' [VStr (show_int n)]))], VStr ''latest'']))) ''unknown'') (\<lambda>outcome.
     liftE (or_unavailable ''escrow_get_job'' outcome)))"

definition ESCROW_STATE_BY_STATUS :: "escrow_state list" where
  "ESCROW_STATE_BY_STATUS = [EsOpen, EsFunded, EsSubmitted, EsCompleted, EsRejected, EsExpired]"

definition decodeEscrowJob :: "chain_world \<Rightarrow> string \<Rightarrow> app_error + (escrow_state \<times> int)" where
  "decodeEscrowJob C callData =
     bindE (ch_decodeGetJob C callData) (\<lambda>(status, budget).
     if status < length ESCROW_STATE_BY_STATUS then Inr (ESCROW_STATE_BY_STATUS ! status, budget)
     else Inl (JsError (''escrow_unknown_onchain_status:'' @ show_nat status)))"

record escrow_drift =
  dr_field :: string
  dr_local :: string
  dr_onchain :: string

definition driftOf :: "escrow_job \<Rightarrow> escrow_state \<Rightarrow> int \<Rightarrow> bool \<Rightarrow> escrow_drift list" where
  "driftOf job state budget budgetDrifted =
     (if state \<noteq> ej_state job
      then [\<lparr>dr_field = ''state'', dr_local = escrow_state_name (ej_state job), dr_onchain = escrow_state_name state\<rparr>] else []) @
     (if budgetDrifted
      then [\<lparr>dr_field = ''budgetUsdc'', dr_local = numeric_text (ej_budget job), dr_onchain = formatUsdc budget\<rparr>] else [])"

definition reconcileEscrowJob ::
  "chain_world \<Rightarrow> string \<Rightarrow> ('a escrow_db_scheme, escrow_job \<times> escrow_drift list) op" where
  "reconcileEscrowJob C escrowJobId =
     transactionOn undo_escrow (
       bindM (lockedJob escrowJobId) (\<lambda>job.
       bindM (liftE (onchainId job)) (\<lambda>n.
       bindM (readJobCallDataViaRpc C n (ej_escrow_address job) (ej_chain job)) (\<lambda>callData.
       bindM (liftE (decodeEscrowJob C callData)) (\<lambda>(state, budgetMicros).
       bindM (liftE (if 0 < budgetMicros then bindE (parseUsdcMicros (UText (numeric_text (ej_budget job)))) (\<lambda>m. Inr (budgetMicros \<noteq> m))
          else Inr False)) (\<lambda>budgetDrifted.
       let drift = driftOf job state budgetMicros budgetDrifted in
       if drift = [] then ret (job, drift)
       else
         bindM (liftE (if budgetDrifted then bindE (numeric_cast (formatUsdc budgetMicros)) (\<lambda>m. Inr (Some m)) else Inr None)) (\<lambda>budget.
         bindM now (\<lambda>t.
         bindM (update_job (ej_id job) (\<lambda>j. j\<lparr>ej_state := state, ej_budget := or_else budget (ej_budget j), ej_updated_at := t\<rparr>)) (\<lambda>row.
         bindM (applyReservationOutcome job state) (\<lambda>_.
         ret (row, drift)))))))))))"

section \<open>Lists\<close>

record liveness_risk =
  lr_escrowJobId :: string
  lr_onchainJobId :: "int option"
  lr_chain :: payment_chain
  lr_providerAddress :: string
  lr_evaluatorAddress :: string
  lr_escrowMode :: nat
  lr_budgetUsdc :: string
  lr_expiresAt :: int

definition risk_of :: "escrow_job \<Rightarrow> liveness_risk" where
  "risk_of j = \<lparr>lr_escrowJobId = ej_id j, lr_onchainJobId = ej_onchain_job_id j, lr_chain = ej_chain j,
     lr_providerAddress = ej_provider_address j, lr_evaluatorAddress = ej_evaluator_address j,
     lr_escrowMode = ej_escrow_mode j, lr_budgetUsdc = numeric_text (ej_budget j), lr_expiresAt = ej_expires_at j\<rparr>"

text \<open>Instants are milliseconds, the window is a number of hours.\<close>

definition listEscrowLivenessRisks :: "string \<Rightarrow> rat \<Rightarrow> ('a escrow_db_scheme) \<Rightarrow> liveness_risk list" where
  "listEscrowLivenessRisks orgId withinHours s =
     map risk_of (sort_by (\<lambda>x y. ej_expires_at x - ej_expires_at y)
       (filter (\<lambda>j. ej_state j = EsSubmitted \<and>
            of_int (ej_expires_at j) \<le> of_int (clock s) + withinHours * 3600 * 1000 \<and> ej_org_id j = orgId) (escrow_jobs s)))"

definition listEscrowCounterparties :: "env \<Rightarrow> string \<Rightarrow> payment_mode \<Rightarrow> ('a escrow_db_scheme) \<Rightarrow> (payment_chain \<times> string) list" where
  "listEscrowCounterparties E orgId mode s =
     sort_by (\<lambda>(c, a) (c', a'). let k = env_collate E (chain_name c) (chain_name c') in if k \<noteq> 0 then k else env_collate E a a')
       (remdups (map (\<lambda>j. (ej_chain j, ej_provider_address j))
         (filter (\<lambda>j. ej_org_id j = orgId \<and> ej_mode j = mode) (escrow_jobs s))))"

definition listEscrowJobs :: "string \<Rightarrow> payment_mode \<Rightarrow> int option \<Rightarrow> ('a escrow_db_scheme) \<Rightarrow> (escrow_job \<times> string option) list" where
  "listEscrowJobs orgId mode limit s =
     map (\<lambda>j. (j, map_option ag_name (find_row (\<lambda>a. ag_id a = ej_client_agent_id j) (agents s))))
       (take (nat (min (max (or_else limit 50) 1) 200))
         (sort_by (\<lambda>x y. ej_created_at y - ej_created_at x)
           (filter (\<lambda>j. ej_org_id j = orgId \<and> ej_mode j = mode) (escrow_jobs s))))"

section \<open>The books and the mirror\<close>

text \<open>What the operations share: the jobs, the reservations made for jobs, and the reputation earned.\<close>

definition escrow_reservation :: "reservation_row \<Rightarrow> bool" where
  "escrow_reservation r \<longleftrightarrow> take 11 (rs_reason_code r) = ''escrow_job:''"

definition escrow_view :: "('a escrow_db_scheme) \<Rightarrow> escrow_job list \<times> reservation_row list \<times> reputation_event_row list" where
  "escrow_view s = (escrow_jobs s, filter escrow_reservation (payment_reservations s), reputation_events s)"

definition mine :: "escrow_job \<Rightarrow> reservation_row list \<Rightarrow> reservation_row list" where
  "mine j rs = filter (\<lambda>r. rs_reason_code r = escrow_reason (ej_id j)) rs"

definition terminal :: "escrow_state \<Rightarrow> bool" where
  "terminal st \<longleftrightarrow> st = EsCompleted \<or> st = EsRejected \<or> st = EsExpired"

text \<open>The reservation status that goes with a state; an open job holds no money.\<close>

fun books :: "escrow_state \<Rightarrow> reservation_status option" where
  "books EsOpen = None"
| "books EsFunded = Some RsReserved"
| "books EsSubmitted = Some RsReserved"
| "books EsCompleted = Some RsSettled"
| "books EsRejected = Some RsReleased"
| "books EsExpired = Some RsReleased"

definition holds :: "escrow_job \<Rightarrow> reservation_row \<Rightarrow> bool" where
  "holds j r \<longleftrightarrow> ej_reservation_id j = Some (rs_id r) \<and> rs_org_id r = ej_org_id j \<and> rs_agent_id r = ej_client_agent_id j \<and>
     rs_reason_code r = escrow_reason (ej_id j)"

definition matched_books :: "escrow_job \<Rightarrow> reservation_row list \<Rightarrow> bool" where
  "matched_books j rs = (case books (ej_state j) of
     None \<Rightarrow> ej_reservation_id j = None \<and> mine j rs = []
   | Some st \<Rightarrow> (\<exists>r. mine j rs = [r] \<and> holds j r \<and> rs_status r = st \<and> rs_amount r = ej_budget j))"

definition backed :: "escrow_job \<Rightarrow> reservation_row list \<Rightarrow> bool" where
  "backed j rs = (case ej_reservation_id j of
     None \<Rightarrow> True
   | Some i \<Rightarrow> (\<exists>r \<in> set rs. holds j r \<and> \<not> (terminal (ej_state j) \<and> rs_status r = RsReserved)))"

definition earned :: "escrow_job list \<Rightarrow> string set \<Rightarrow> reputation_event_row \<Rightarrow> bool" where
  "earned jobs drifted v \<longleftrightarrow> rp_score v = COMPLETION_SCORE \<and>
     (\<exists>j \<in> set jobs. rp_escrow_job_id v = ej_id j \<and> rp_org_id v = ej_org_id j \<and>
        (ej_state j = EsCompleted \<or> ej_id j \<in> drifted))"

definition escrow_ok ::
  "string set \<Rightarrow> escrow_job list \<times> reservation_row list \<times> reputation_event_row list \<Rightarrow> bool" where
  "escrow_ok drifted v = (case v of (jobs, rs, evs) \<Rightarrow>
     distinct (map ej_id jobs) \<and> distinct (map rs_id rs) \<and> distinct (map rp_escrow_job_id evs) \<and>
     (\<forall>r \<in> set rs. \<exists>j \<in> set jobs. rs_reason_code r = escrow_reason (ej_id j)) \<and>
     (\<forall>j \<in> set jobs. 0 < ej_budget j \<and> numeric_range (ej_budget j) \<and> backed j rs \<and> (ej_id j \<notin> drifted \<longrightarrow> matched_books j rs)) \<and>
     (\<forall>v \<in> set evs. earned jobs drifted v))"

lemma filter_update_rows_comm:
  "(\<And>x. q (f x) = q x) \<Longrightarrow> filter q (update_rows p f xs) = update_rows p f (filter q xs)"
  by (induction xs) auto

lemma escrow_reason_inj [simp]: "escrow_reason i = escrow_reason k \<longleftrightarrow> i = k"
  by (simp add: escrow_reason_def)

lemma escrow_reason_prefix [simp]: "take 11 (escrow_reason i) = ''escrow_job:''"
  by (simp add: escrow_reason_def)

lemma mine_append: "mine j (rs @ [r]) = mine j rs @ (if rs_reason_code r = escrow_reason (ej_id j) then [r] else [])"
  by (simp add: mine_def)

lemma holds_mine: "r \<in> set rs \<Longrightarrow> holds j r \<Longrightarrow> r \<in> set (mine j rs)"
  by (simp add: mine_def holds_def)

lemma backed_mine: "backed j rs \<longleftrightarrow> backed j (mine j rs)"
  by (auto simp: backed_def mine_def holds_def split: option.splits)

lemma matched_mine: "matched_books j rs \<longleftrightarrow> matched_books j (mine j rs)"
  by (auto simp: matched_books_def mine_def split: option.splits)

lemma escrow_okD:
  assumes "escrow_ok D (jobs, rs, evs)"
  shows "distinct (map ej_id jobs)" "distinct (map rs_id rs)" "distinct (map rp_escrow_job_id evs)"
    "r \<in> set rs \<Longrightarrow> \<exists>j \<in> set jobs. rs_reason_code r = escrow_reason (ej_id j)"
    "j \<in> set jobs \<Longrightarrow> 0 < ej_budget j" "j \<in> set jobs \<Longrightarrow> numeric_range (ej_budget j)"
    "j \<in> set jobs \<Longrightarrow> backed j rs" "j \<in> set jobs \<Longrightarrow> ej_id j \<notin> D \<Longrightarrow> matched_books j rs"
    "v \<in> set evs \<Longrightarrow> earned jobs D v"
  using assms by (auto simp: escrow_ok_def)

text \<open>A new job: its id is fresh, so no reservation is for it.\<close>

lemma escrow_new_job:
  assumes ok: "escrow_ok D (jobs, rs, evs)" and fresh: "ej_id j \<notin> ej_id ` set jobs"
    and j: "ej_state j = EsOpen" "ej_reservation_id j = None" "0 < ej_budget j" "numeric_range (ej_budget j)"
  shows "escrow_ok D (jobs @ [j], rs, evs)"
proof -
  have "rs_reason_code r \<noteq> escrow_reason (ej_id j)" if "r \<in> set rs" for r
    using escrow_okD(4) [OF ok that] fresh by force
  then have "mine j rs = []" unfolding mine_def filter_empty_conv by blast
  then have m: "matched_books j rs" "backed j rs" using j by (simp_all add: matched_books_def backed_def)
  have e: "earned (jobs @ [j]) D v" if "v \<in> set evs" for v
    using escrow_okD(9) [OF ok that] by (auto simp: earned_def)
  show ?thesis
    using ok fresh j(3,4) m e by (auto simp: escrow_ok_def)
qed

text \<open>
  A job replaced by another with the same identity: only its own reservations may change, and what
  it holds then has to fit.
\<close>

definition same_job :: "escrow_job \<Rightarrow> escrow_job \<Rightarrow> bool" where
  "same_job j k \<longleftrightarrow> ej_id k = ej_id j \<and> ej_org_id k = ej_org_id j \<and> ej_client_agent_id k = ej_client_agent_id j"

lemma escrow_moved_job:
  assumes ok: "escrow_ok D (jobs, rs, evs)" and j: "j \<in> set jobs" and f: "same_job j (f j)"
    and D: "D \<subseteq> D'"
    and rs: "distinct (map rs_id rs')" "\<And>r. r \<in> set rs' \<Longrightarrow> \<exists>k \<in> set jobs. rs_reason_code r = escrow_reason (ej_id k)"
    and others: "\<And>k. k \<in> set jobs \<Longrightarrow> ej_id k \<noteq> ej_id j \<Longrightarrow> mine k rs' = mine k rs"
    and new: "0 < ej_budget (f j)" "numeric_range (ej_budget (f j))" "backed (f j) rs'"
      "ej_id j \<notin> D' \<Longrightarrow> matched_books (f j) rs'"
    and final: "ej_id j \<notin> D' \<Longrightarrow> ej_state j = EsCompleted \<Longrightarrow> ej_state (f j) = EsCompleted"
  shows "escrow_ok D' (update_rows (\<lambda>k. ej_id k = ej_id j) f jobs, rs', evs)"
proof -
  let ?jobs = "update_rows (\<lambda>k. ej_id k = ej_id j) f jobs"
  note ids = escrow_okD(1) [OF ok]
  have only: "k = j" if "k \<in> set jobs" "ej_id k = ej_id j" for k
    using distinct_key_unique [OF ids that(1) j that(2)] .
  have mem: "x \<in> set ?jobs \<longleftrightarrow> x = f j \<or> (x \<in> set jobs \<and> ej_id x \<noteq> ej_id j)" for x
  proof
    assume "x \<in> set ?jobs"
    then obtain r where r: "r \<in> set jobs" "x = (if ej_id r = ej_id j then f r else r)" unfolding set_update_rows by blast
    then show "x = f j \<or> (x \<in> set jobs \<and> ej_id x \<noteq> ej_id j)" using only [OF r(1)] by (auto split: if_splits)
  next
    assume "x = f j \<or> (x \<in> set jobs \<and> ej_id x \<noteq> ej_id j)"
    then show "x \<in> set ?jobs" unfolding set_update_rows using j by auto
  qed
  have idf: "ej_id (f j) = ej_id j" using f by (simp add: same_job_def)
  have map_ids: "map ej_id ?jobs = map ej_id jobs"
    using only idf by (auto simp: update_rows_def)
  have dist: "distinct (map ej_id ?jobs)" unfolding map_ids by (rule ids)
  have reasons: "\<forall>r \<in> set rs'. \<exists>k \<in> set ?jobs. rs_reason_code r = escrow_reason (ej_id k)"
  proof
    fix r assume "r \<in> set rs'"
    then obtain k where k: "k \<in> set jobs" "rs_reason_code r = escrow_reason (ej_id k)" using rs(2) by blast
    have "ej_id k \<in> set (map ej_id ?jobs)" unfolding map_ids using k(1) by simp
    then show "\<exists>k \<in> set ?jobs. rs_reason_code r = escrow_reason (ej_id k)" using k(2) by auto
  qed
  have kept: "0 < ej_budget k \<and> numeric_range (ej_budget k) \<and> backed k rs' \<and> (ej_id k \<notin> D' \<longrightarrow> matched_books k rs')"
    if "k \<in> set ?jobs" for k
  proof (cases "k = f j")
    case False
    then have k: "k \<in> set jobs" "ej_id k \<noteq> ej_id j" using that unfolding mem by auto
    have m: "mine k rs' = mine k rs" by (rule others [OF k])
    have "backed k rs'" using escrow_okD(7) [OF ok k(1)] by (simp add: backed_mine [of k rs] backed_mine [of k rs'] m)
    moreover have "matched_books k rs'" if "ej_id k \<notin> D'"
      using escrow_okD(8) [OF ok k(1)] that D by (simp add: matched_mine [of k rs] matched_mine [of k rs'] m subset_iff) blast
    ultimately show ?thesis using escrow_okD(5,6) [OF ok k(1)] by blast
  qed (use new idf in simp)
  have e: "earned ?jobs D' v" if "v \<in> set evs" for v
  proof -
    have "earned jobs D v" by (rule escrow_okD(9) [OF ok that])
    then obtain k where k: "k \<in> set jobs" "rp_escrow_job_id v = ej_id k" "rp_org_id v = ej_org_id k"
        "ej_state k = EsCompleted \<or> ej_id k \<in> D" "rp_score v = COMPLETION_SCORE"
      by (auto simp: earned_def)
    show ?thesis
    proof (cases "ej_id k = ej_id j")
      case True
      then have "k = j" using only k(1) by blast
      then have "ej_state (f j) = EsCompleted \<or> ej_id j \<in> D'" using k(4) final D by auto
      then show ?thesis
        unfolding earned_def using k(2,3,5) \<open>k = j\<close> f mem [of "f j"] by (auto simp: same_job_def intro!: bexI [of _ "f j"])
    next
      case False
      then show ?thesis unfolding earned_def using k D mem [of k] by (auto intro!: bexI [of _ k])
    qed
  qed
  show ?thesis
    unfolding escrow_ok_def prod.case using dist rs(1) escrow_okD(3) [OF ok] reasons kept e by blast
qed

subsection \<open>The operations\<close>

definition escrow_tables :: "('a escrow_db_scheme) \<Rightarrow> escrow_job list \<times> reservation_row list \<times> reputation_event_row list" where
  "escrow_tables s = (escrow_jobs s, payment_reservations s, reputation_events s)"

lemma escrow_frame [simp]:
  "escrow_tables (s\<lparr>uuids := n\<rparr>) = escrow_tables s" "escrow_tables (s\<lparr>provider_calls := cs\<rparr>) = escrow_tables s"
  "escrow_tables (s\<lparr>rpc_requests := n\<rparr>) = escrow_tables s"
  "escrow_tables (undo_escrow s s') = escrow_tables s"
  by (simp_all add: escrow_tables_def undo_escrow_def)

lemma view_of_tables: "escrow_tables s' = escrow_tables s \<Longrightarrow> escrow_view s' = escrow_view s"
  by (simp add: escrow_tables_def escrow_view_def)

definition escrow_inv :: "string set \<Rightarrow> ('a escrow_db_scheme) \<Rightarrow> bool" where
  "escrow_inv D s \<longleftrightarrow> escrow_ok D (escrow_view s)"

lemma escrow_inv_tables: "escrow_tables s' = escrow_tables s \<Longrightarrow> escrow_inv D s' \<longleftrightarrow> escrow_inv D s"
  unfolding escrow_inv_def by (drule view_of_tables) (simp only:)

lemma wp_tables_bind:
  "keeps escrow_tables m \<Longrightarrow> (\<And>a s'. escrow_tables s' = escrow_tables s \<Longrightarrow> wp (f a) Q s') \<Longrightarrow> wp (bindM m f) Q s"
  by (auto simp: wp_bindM wp_def dest: keepsD)

lemma escrow_transaction:
  fixes m :: "('a escrow_db_scheme, 'b) op"
  assumes "\<And>s. escrow_inv D s \<Longrightarrow> wp m (\<lambda>_. escrow_inv D) s"
  shows "preserves (escrow_inv D) (transactionOn undo_escrow m)"
proof (rule preservesI)
  fix s :: "'a escrow_db_scheme" assume I: "escrow_inv D s"
  obtain r s' where run: "m s = (r, s')" by fastforce
  show "escrow_inv D (snd (transactionOn undo_escrow m s))"
  proof (cases r)
    case (Inl e)
    have "escrow_inv D (undo_escrow s s')" using I escrow_inv_tables [OF escrow_frame(4), of D s s'] by blast
    then show ?thesis by (simp add: transactionOn_def run Inl)
  next
    case (Inr a)
    then show ?thesis using wpD [OF assms [OF I], of a s'] run by (simp add: transactionOn_def)
  qed
qed

lemma wp_lockedJob [wp_simps]:
  "wp (lockedJob i) Q = (\<lambda>s. \<forall>job. find_row (\<lambda>j. ej_id j = i) (escrow_jobs s) = Some job \<longrightarrow> Q job s)"
  by (rule ext) (auto simp: lockedJob_def wp_simps split: option.splits)

lemma wp_update_job [wp_simps]:
  "wp (update_job i f) Q = (\<lambda>s. \<forall>job. find_row (\<lambda>j. ej_id j = i) (update_rows (\<lambda>j. ej_id j = i) f (escrow_jobs s)) = Some job \<longrightarrow>
     Q job (s\<lparr>escrow_jobs := update_rows (\<lambda>j. ej_id j = i) f (escrow_jobs s)\<rparr>))"
  by (rule ext) (auto simp: update_job_def wp_simps split: option.splits)

lemma keeps_provider_calls:
  "keeps escrow_tables (randomRef E p)" "keeps escrow_tables (executePermit2Transaction C c)"
  "keeps escrow_tables (prefixedId E p)"
  "keeps escrow_tables (clientWalletAddress a m c')" "keeps escrow_tables (query q)"
  "keeps escrow_tables (readReceiptLogsViaRpc C h c')" "keeps escrow_tables (readJobCallDataViaRpc C n a c')"
  unfolding clientWalletAddress_def readReceiptLogsViaRpc_def readJobCallDataViaRpc_def
  by (rule keepsI; intro preserve_intros; simp)+

lemma keeps_set_budget:
  "keeps escrow_tables (case w of None \<Rightarrow> ret () | Some wallet \<Rightarrow>
     bindM (randomRef E p) (\<lambda>refId. bindM (executePermit2Transaction C (c wallet refId)) (\<lambda>_. ret ())))"
  by (rule keepsI; intro preserve_intros; simp)

lemma keeps_sendEscrowTransition: "keeps escrow_tables (sendEscrowTransition E C job n target d)"
proof (rule keepsI)
  fix x
  show "preserves (\<lambda>s. escrow_tables s = x) (sendEscrowTransition E C job n target d)"
    unfolding sendEscrowTransition_def Let_def
    by (cases target; simp only: ESCROW_CALLS.simps option.case prod.case escrow_state.distinct if_True if_False simp_thms;
        intro preserve_intros; simp)
qed

lemma wp_insert_job:
  assumes "ej_id j \<notin> ej_id ` set (escrow_jobs s) \<Longrightarrow> 0 < ej_budget j \<Longrightarrow> Q () (s\<lparr>escrow_jobs := escrow_jobs s @ [j]\<rparr>)"
  shows "wp (insert_job j) Q s"
  by (auto simp: insert_job_def wp_simps list_ex_iff intro!: assms)

lemma numeric_cast_range: "numeric_cast t = Inr m \<Longrightarrow> numeric_range m"
  by (simp add: numeric_cast_def Let_def split: option.splits prod.splits if_splits)

lemma wp_case_option: "wp (case x of None \<Rightarrow> m | Some a \<Rightarrow> f a) Q s \<longleftrightarrow> (case x of None \<Rightarrow> wp m Q s | Some a \<Rightarrow> wp (f a) Q s)"
  by (cases x) simp_all

lemma created_ok:
  assumes I: "escrow_inv D s" and t: "escrow_tables s' = escrow_tables s"
    and j: "ej_state j = EsOpen" "ej_reservation_id j = None" "numeric_range (ej_budget j)"
  shows "wp (insert_job j) (\<lambda>_. escrow_inv D) s'"
proof (rule wp_insert_job)
  assume fresh: "ej_id j \<notin> ej_id ` set (escrow_jobs s')" and b: "0 < ej_budget j"
  have "escrow_inv D s'" using I escrow_inv_tables [OF t] by blast
  with fresh b j show "escrow_inv D (s'\<lparr>escrow_jobs := escrow_jobs s' @ [j]\<rparr>)"
    unfolding escrow_inv_def escrow_view_def by (simp add: escrow_new_job)
qed

lemma createEscrowJob_ok: "preserves (escrow_inv D) (createEscrowJob E C input)"
  unfolding createEscrowJob_def Let_def
proof (intro preserves_bindM preserves_liftE escrow_transaction, goal_cases)
  case (1 micros address token s)
  show ?case
    apply (intro wp_tables_bind [OF keeps_provider_calls(4)])
    apply (subst wp_bindM, subst wp_guardM, intro impI)
    apply (subst wp_bindM, subst wp_guardM, intro impI)
    apply (rule wp_tables_bind [OF keeps_provider_calls(1)])
    apply (rule wp_tables_bind [OF keeps_provider_calls(2)])
    apply (rule wp_tables_bind [OF keeps_provider_calls(6)])
    apply (subst wp_case_option, split option.split, intro conjI impI allI, simp add: wp_throw)
    apply (rule wp_tables_bind [OF keeps_provider_calls(3)])
    apply (subst wp_bindM, subst wp_now, subst wp_bindM, subst wp_liftE, intro allI impI)
    apply (subst wp_bindM, subst wp_guardM, intro impI)
    apply (subst wp_bindM, subst wp_ret)
    apply (rule created_ok [OF 1])
    apply (simp_all add: numeric_cast_range)
    done
qed

text \<open>Funding: one new reservation, for the job.\<close>

lemma reserved_ok:
  assumes I: "escrow_inv D s" and j: "find_row (\<lambda>j. ej_id j = i) (escrow_jobs s) = Some job" "ej_state job = EsOpen"
    and t: "escrow_tables s' = escrow_tables s"
  shows "wp (bindM (reserveEscrowBudget E job) (\<lambda>reservationId. bindM now (\<lambda>t.
     update_job (ej_id job) (\<lambda>j. j\<lparr>ej_state := EsFunded, ej_fund_tx_hash := h, ej_reservation_id := Some reservationId, ej_updated_at := t\<rparr>))))
     (\<lambda>_. escrow_inv D) s'"
proof -
  let ?rs = "filter escrow_reservation (payment_reservations s)"
  have ok: "escrow_ok D (escrow_jobs s, ?rs, reputation_events s)" using I by (simp add: escrow_inv_def escrow_view_def)
  have job: "job \<in> set (escrow_jobs s)" "ej_id job = i" using find_row_Some [OF j(1)] by simp_all
  have eqs: "escrow_jobs s' = escrow_jobs s" "payment_reservations s' = payment_reservations s" "reputation_events s' = reputation_events s"
    using t by (simp_all add: escrow_tables_def)
  have amount: "numeric_cast (numeric_text (ej_budget job)) = Inr m \<Longrightarrow> m = ej_budget job" for m
    using escrow_okD(6) [OF ok job(1)] by (simp add: numeric_cast_numeric_text)
  have final: "escrow_ok D (update_rows (\<lambda>k. ej_id k = ej_id job) f (escrow_jobs s), ?rs @ [r], reputation_events s)"
    if r: "rs_id r \<notin> rs_id ` set (payment_reservations s)" "rs_org_id r = ej_org_id job" "rs_agent_id r = ej_client_agent_id job"
      "rs_amount r = ej_budget job" "rs_status r = RsReserved" "rs_reason_code r = escrow_reason (ej_id job)"
      and f: "f = (\<lambda>j. j\<lparr>ej_state := EsFunded, ej_fund_tx_hash := h, ej_reservation_id := Some (rs_id r), ej_updated_at := t\<rparr>)" for r f t
  proof (rule escrow_moved_job [OF ok job(1)])
    have H: "holds (f job) r" by (simp add: holds_def f r)
    show "same_job job (f job)" by (simp add: same_job_def f)
    show "distinct (map rs_id (?rs @ [r]))" using escrow_okD(2) [OF ok] r(1) by auto
    show "\<exists>k \<in> set (escrow_jobs s). rs_reason_code q = escrow_reason (ej_id k)" if "q \<in> set (?rs @ [r])" for q
      using escrow_okD(4) [OF ok, of q] that job(1) r(6) by auto
    show "mine k (?rs @ [r]) = mine k ?rs" if "ej_id k \<noteq> ej_id job" for k
      using that r(6) by (simp add: mine_append)
    show "0 < ej_budget (f job)" "numeric_range (ej_budget (f job))" using escrow_okD(5,6) [OF ok job(1)] by (simp_all add: f)
    show "backed (f job) (?rs @ [r])" using H by (simp add: backed_def f terminal_def)
    show "matched_books (f job) (?rs @ [r])" if "ej_id job \<notin> D"
    proof -
      have "mine job ?rs = []" using escrow_okD(8) [OF ok job(1) that] j(2) by (simp add: matched_books_def)
      then have "mine (f job) (?rs @ [r]) = [r]" using r(6) by (simp add: mine_def f)
      then show ?thesis using H r(4,5) by (simp add: matched_books_def f)
    qed
  qed (use j(2) in simp_all)
  show ?thesis
    unfolding reserveEscrowBudget_def
    apply (simp only: wp_bindM wp_query)
    apply (split list.split, intro conjI allI impI)
     apply (simp only: wp_throw)
    apply (simp only: wp_simps, intro allI impI)
    apply (rule wp_insert_reservation)
    apply (intro allI impI)
    subgoal for source rest m job'
      unfolding escrow_inv_def escrow_view_def using amount [of m]
      by (simp add: eqs escrow_reservation_def, intro final) simp_all
    done
qed

lemma fundEscrowJob_ok: "preserves (escrow_inv D) (fundEscrowJob E C i)"
  unfolding fundEscrowJob_def
proof (rule escrow_transaction, goal_cases)
  case (1 s)
  show ?case
    apply (subst wp_bindM, subst wp_lockedJob, intro allI impI)
    apply (subst wp_bindM, subst wp_guardM, intro impI)
    apply (subst wp_bindM, subst wp_liftE, intro allI impI)
    apply (subst wp_bindM, subst wp_liftE, intro allI impI)
    apply (rule wp_tables_bind [OF keeps_provider_calls(4)])
    apply (rule wp_tables_bind [OF keeps_provider_calls(5)])
    apply (rule wp_tables_bind [OF keeps_set_budget])
    apply (rule wp_tables_bind [OF keeps_provider_calls(1)])
    apply (rule wp_tables_bind [OF keeps_provider_calls(2)])
    apply (rule wp_tables_bind [OF keeps_provider_calls(1)])
    apply (rule wp_tables_bind [OF keeps_provider_calls(2)])
    apply (erule reserved_ok [OF 1])
     apply assumption
    apply (simp only:)
    done
qed

text \<open>A change of state with its outcome on the reservation, driven locally or by the chain.\<close>

lemma update_rows_none: "(\<And>x. x \<in> set xs \<Longrightarrow> \<not> p x) \<Longrightarrow> update_rows p f xs = xs"
  by (induction xs) auto

lemma mine_closed: "mine k (update_rows p (with_status st) rs) = update_rows p (with_status st) (mine k rs)"
  unfolding mine_def by (rule filter_update_rows_comm) simp

lemma mine_same: "same_job j k \<Longrightarrow> mine k rs = mine j rs"
  by (simp add: mine_def same_job_def)

lemma holds_same: "same_job j k \<Longrightarrow> ej_reservation_id k = ej_reservation_id j \<Longrightarrow> holds k r \<longleftrightarrow> holds j r"
  by (simp add: holds_def same_job_def)

lemma holds_with_status [simp]: "holds j (with_status st r) \<longleftrightarrow> holds j r"
  by (simp add: holds_def)

lemma matched_open: "matched_books j rs \<Longrightarrow> target \<in> set (ESCROW_TRANSITIONS (ej_state j)) \<Longrightarrow>
   \<exists>r. mine j rs = [r] \<and> holds j r \<and> rs_status r = RsReserved \<and> rs_amount r = ej_budget j"
  by (cases "ej_state j") (auto simp: matched_books_def)

lemma books_transition: "target \<in> set (ESCROW_TRANSITIONS st) \<Longrightarrow>
   books target = Some (if target = EsSubmitted then RsReserved else if target = EsCompleted then RsSettled else RsReleased)"
  by (cases st) auto

lemma escrow_outcome:
  assumes ok: "escrow_ok D (jobs, rs, evs)" and j: "j \<in> set jobs" and f: "same_job j (f j)"
      "ej_reservation_id (f j) = ej_reservation_id j" "ej_state (f j) = target"
      "0 < ej_budget (f j)" "numeric_range (ej_budget (f j))"
    and D: "D \<subseteq> D'"
    and undrifted: "ej_id j \<notin> D' \<Longrightarrow> target \<in> set (ESCROW_TRANSITIONS (ej_state j)) \<and> ej_budget (f j) = ej_budget j"
    and rs': "rs' = (case ej_reservation_id j of None \<Rightarrow> rs
      | Some i \<Rightarrow> if target \<notin> {EsCompleted, EsRejected, EsExpired} then rs
          else update_rows (\<lambda>r. rs_id r = i \<and> rs_org_id r = ej_org_id j \<and> rs_status r = RsReserved)
                 (with_status (if target = EsCompleted then RsSettled else RsReleased)) rs)"
  shows "escrow_ok D' (update_rows (\<lambda>k. ej_id k = ej_id j) f jobs, rs', evs)"
proof -
  have final: "ej_id j \<notin> D' \<Longrightarrow> ej_state j = EsCompleted \<Longrightarrow> ej_state (f j) = EsCompleted" using undrifted by force
  have held: "\<exists>r. mine j rs = [r] \<and> holds j r \<and> rs_status r = RsReserved \<and> rs_amount r = ej_budget j" if "ej_id j \<notin> D'"
    using matched_open [OF escrow_okD(8) [OF ok j]] undrifted [OF that] that D by blast
  note moved = escrow_moved_job [where f = f and D' = D', OF ok j f(1) D _ _ _ f(4,5) _ _ final]
  show ?thesis
  proof (cases "(\<exists>i. ej_reservation_id j = Some i) \<and> target \<in> {EsCompleted, EsRejected, EsExpired}")
    case False
    then have eq: "rs' = rs" using rs' by (auto split: option.splits)
    have b: "backed (f j) rs"
      using escrow_okD(7) [OF ok j] False f(2,3) holds_same [OF f(1,2)] by (auto simp: backed_def terminal_def split: option.splits)
    have m: "matched_books (f j) rs" if D': "ej_id j \<notin> D'"
    proof -
      obtain r where r: "mine j rs = [r]" "holds j r" "rs_status r = RsReserved" "rs_amount r = ej_budget j" using held [OF D'] by blast
      then have "target \<notin> {EsCompleted, EsRejected, EsExpired}" using False by (simp add: holds_def)
      then have "target = EsSubmitted" using undrifted [OF D'] by (cases "ej_state j") auto
      with r show ?thesis
        using undrifted [OF D'] f(3) by (auto simp: matched_books_def mine_same [OF f(1)] holds_same [OF f(1,2)])
    qed
    show ?thesis unfolding eq by (rule moved) (use escrow_okD(2,4) [OF ok] b m in auto)
  next
    case True
    then obtain i where i: "ej_reservation_id j = Some i" by blast
    define st where "st = (if target = EsCompleted then RsSettled else RsReleased)"
    define p where "p = (\<lambda>r :: reservation_row. rs_id r = i \<and> rs_org_id r = ej_org_id j \<and> rs_status r = RsReserved)"
    have eq: "rs' = update_rows p (with_status st) rs" using rs' i True by (auto simp: st_def p_def)
    obtain r0 where r0: "r0 \<in> set rs" "holds j r0" using escrow_okD(7) [OF ok j] by (auto simp: backed_def i)
    have only: "r = r0" if "r \<in> set rs" "p r" for r
      using distinct_key_unique [OF escrow_okD(2) [OF ok] that(1) r0(1)] that(2) r0(2) by (simp add: p_def holds_def i)
    have d: "distinct (map rs_id rs')" unfolding eq using escrow_okD(2) [OF ok] by (simp add: map_update_rows)
    have reasons: "\<exists>k \<in> set jobs. rs_reason_code r = escrow_reason (ej_id k)" if "r \<in> set rs'" for r
      using that escrow_okD(4) [OF ok] unfolding eq set_update_rows by (auto split: if_splits)
    have others: "mine k rs' = mine k rs" if "k \<in> set jobs" "ej_id k \<noteq> ej_id j" for k
      unfolding eq mine_closed
      by (rule update_rows_none) (use only that(2) r0(2) in \<open>auto simp: mine_def holds_def\<close>)
    define r1 where "r1 = (if p r0 then with_status st r0 else r0)"
    have r1: "r1 \<in> set rs'" unfolding eq set_update_rows r1_def using r0(1) by blast
    have "rs_status r1 \<noteq> RsReserved" "holds (f j) r1"
      using r0(2) holds_same [OF f(1,2)] by (auto simp: r1_def p_def st_def holds_def i)
    then have b: "backed (f j) rs'" using r1 f(2) i by (auto simp: backed_def)
    have m: "matched_books (f j) rs'" if D': "ej_id j \<notin> D'"
    proof -
      obtain r where r: "mine j rs = [r]" "holds j r" "rs_status r = RsReserved" "rs_amount r = ej_budget j" using held [OF D'] by blast
      then have pr: "p r" by (simp add: p_def holds_def i)
      have "mine (f j) rs' = [with_status st r]" unfolding mine_same [OF f(1)] eq mine_closed r(1) using pr by simp
      moreover have "books target = Some st" using books_transition undrifted [OF D'] True by (auto simp: st_def)
      moreover have "holds (f j) (with_status st r)" using r(2) holds_same [OF f(1,2)] by simp
      ultimately show ?thesis using r(4) f(3) undrifted [OF D'] by (simp add: matched_books_def)
    qed
    show ?thesis by (rule moved) (use d reasons others b m in auto)
  qed
qed

lemma outcome_ok:
  assumes I: "escrow_inv D s" and j: "find_row (\<lambda>j. ej_id j = i) (escrow_jobs s) = Some job"
    and t: "escrow_tables s' = escrow_tables s"
    and f: "same_job job (f job)" "ej_reservation_id (f job) = ej_reservation_id job" "ej_state (f job) = target"
      "0 < ej_budget (f job)" "numeric_range (ej_budget (f job))"
    and D: "D \<subseteq> D'"
    and undrifted: "ej_id job \<notin> D' \<Longrightarrow> target \<in> set (ESCROW_TRANSITIONS (ej_state job)) \<and> ej_budget (f job) = ej_budget job"
  shows "wp (applyReservationOutcome job target) (\<lambda>_. escrow_inv D')
     (s'\<lparr>escrow_jobs := update_rows (\<lambda>k. ej_id k = ej_id job) f (escrow_jobs s')\<rparr>)"
proof -
  have ok: "escrow_ok D (escrow_jobs s, filter escrow_reservation (payment_reservations s), reputation_events s)"
    using I by (simp add: escrow_inv_def escrow_view_def)
  have job: "job \<in> set (escrow_jobs s)" using find_row_Some [OF j] by simp
  have eqs: "escrow_jobs s' = escrow_jobs s" "payment_reservations s' = payment_reservations s" "reputation_events s' = reputation_events s"
    using t by (simp_all add: escrow_tables_def)
  have comm: "filter escrow_reservation (update_rows p (with_status st) xs) = update_rows p (with_status st) (filter escrow_reservation xs)" for p st xs
    by (rule filter_update_rows_comm) (simp add: escrow_reservation_def)
  note final = escrow_outcome [where f = f and target = target and D' = D', OF ok job f D undrifted refl]
  show ?thesis
    unfolding applyReservationOutcome_def
    using final
    by (auto simp: wp_simps escrow_inv_def escrow_view_def eqs comm split: option.splits if_splits)
qed

lemma escrow_inv_budget:
  "escrow_inv D s \<Longrightarrow> find_row (\<lambda>j. ej_id j = i) (escrow_jobs s) = Some job \<Longrightarrow> 0 < ej_budget job \<and> numeric_range (ej_budget job)"
  unfolding escrow_inv_def escrow_view_def using escrow_okD(5,6) find_row_Some by metis

lemma changeState_ok: "preserves (escrow_inv D) (changeState E C i target d)"
  unfolding changeState_def
proof (rule escrow_transaction, goal_cases)
  case (1 s)
  show ?case
    apply (subst wp_bindM, subst wp_lockedJob, intro allI impI)
    apply (subst wp_bindM, subst wp_liftE, intro allI impI)
    apply (subst wp_bindM, subst wp_liftE, intro allI impI)
    apply (rule wp_tables_bind [OF keeps_sendEscrowTransition])
    apply (subst wp_bindM, subst wp_now)
    apply (subst wp_bindM, subst wp_update_job, intro allI impI)
    apply (subst wp_bindM, subst wp_ret)
    apply (frule escrow_inv_budget [OF 1])
    apply (erule outcome_ok [OF 1], assumption)
    apply (simp_all add: same_job_def moved_job_def assertEscrowTransition_def)
    done
qed

text \<open>Reputation: one event at most for a completed job.\<close>

definition no_event :: "string \<Rightarrow> ('a escrow_db_scheme) \<Rightarrow> bool" where
  "no_event jobId s \<longleftrightarrow> list_all (\<lambda>v. rp_escrow_job_id v \<noteq> jobId) (reputation_events s)"

lemma writeReputation_run:
  assumes run: "writeReputation E og ag (Some i) score s = (r, s')"
  shows "escrow_tables s' = escrow_tables s \<and> (\<forall>v. r \<noteq> Inr (Some v)) \<or>
    (\<exists>v. r = Inr (Some v) \<and> no_event i s \<and> escrow_jobs s' = escrow_jobs s \<and> payment_reservations s' = payment_reservations s \<and>
       reputation_events s' = reputation_events s @ [v] \<and> rp_escrow_job_id v = i \<and> rp_score v = score \<and> rp_org_id v = og)"
  using run unfolding writeReputation_def
  by (auto simp: bindM_def prefixedId_def guardM_def query_def modify_def ret_def throw_def Let_def no_event_def
      escrow_tables_def list_ex_iff list_all_iff split: if_splits)

lemma earned_event:
  assumes I: "escrow_inv D s" and j: "job \<in> set (escrow_jobs s)" "ej_state job = EsCompleted"
    and v: "no_event (ej_id job) s" "rp_escrow_job_id v = ej_id job" "rp_score v = COMPLETION_SCORE" "rp_org_id v = ej_org_id job"
    and s': "escrow_jobs s' = escrow_jobs s" "payment_reservations s' = payment_reservations s"
      "reputation_events s' = reputation_events s @ [v]"
  shows "escrow_inv D s'"
proof -
  have "earned (escrow_jobs s) D v" using j v by (auto simp: earned_def)
  then show ?thesis
    using I v(1,2) by (auto simp: escrow_inv_def escrow_view_def s' escrow_ok_def no_event_def list_all_iff)
qed

lemma preserves_swallow: "preserves I m \<Longrightarrow> preserves I (swallow m)"
  by (simp add: preserves_def swallow_def)

lemma broadcast_ok: "preserves (escrow_inv D) (broadcast E C job agentId v)"
proof -
  have hash: "escrow_inv D (s\<lparr>reputation_events := update_rows p (\<lambda>v. v\<lparr>rp_feedback_tx_hash := h\<rparr>) (reputation_events s)\<rparr>)"
    if I: "escrow_inv D s" for p h and s :: "'a escrow_db_scheme"
  proof -
    have ok: "escrow_ok D (escrow_jobs s, filter escrow_reservation (payment_reservations s), reputation_events s)"
      using I by (simp add: escrow_inv_def escrow_view_def)
    have "earned (escrow_jobs s) D v" if "v \<in> set (update_rows p (\<lambda>v. v\<lparr>rp_feedback_tx_hash := h\<rparr>) (reputation_events s))" for v
      using that escrow_okD(9) [OF ok] by (auto simp: set_update_rows earned_def split: if_splits)
    with ok show ?thesis
      by (auto simp: escrow_inv_def escrow_view_def escrow_ok_def map_update_rows)
  qed
  have frame: "escrow_inv D (s\<lparr>uuids := n\<rparr>) = escrow_inv D s" "escrow_inv D (s\<lparr>provider_calls := cs\<rparr>) = escrow_inv D s"
    for s :: "'a escrow_db_scheme" and n cs
    by (rule escrow_inv_tables; simp)+
  show ?thesis
    unfolding broadcast_def writeFeedback_def
    by (intro preserve_intros) (simp_all add: frame hash)
qed

lemma onEscrowCompleted_ok: "preserves (escrow_inv D) (onEscrowCompleted E C i)"
proof (rule preservesI)
  fix s :: "'a escrow_db_scheme" assume I: "escrow_inv D s"
  show "escrow_inv D (snd (onEscrowCompleted E C i s))"
  proof (cases "find_row (\<lambda>j. ej_id j = i) (escrow_jobs s)")
    case None
    then show ?thesis using I by (simp add: onEscrowCompleted_def lockedJob_def bindM_def query_def throw_def)
  next
    case (Some job)
    note job = find_row_Some [OF Some]
    show ?thesis
    proof (cases "ej_state job = EsCompleted \<and> resolveProviderAgentId (ej_org_id job) (ej_provider_address job) (ej_mode job) (ej_chain job) s \<noteq> None")
      case False
      then show ?thesis using I Some
        by (auto simp: onEscrowCompleted_def lockedJob_def bindM_def query_def throw_def ret_def guardM_def split: option.splits)
    next
      case True
      then obtain agentId where a: "resolveProviderAgentId (ej_org_id job) (ej_provider_address job) (ej_mode job) (ej_chain job) s = Some agentId"
        by blast
      obtain r s1 where w: "writeReputation E (ej_org_id job) agentId (Some (ej_id job)) COMPLETION_SCORE s = (r, s1)" by fastforce
      have run: "snd (onEscrowCompleted E C i s) = (case r of Inr (Some v) \<Rightarrow> snd (swallow (broadcast E C job agentId v) s1) | _ \<Rightarrow> s1)"
        using Some True a w
        by (simp add: onEscrowCompleted_def lockedJob_def bindM_def query_def ret_def guardM_def split: sum.splits option.splits)
      from writeReputation_run [OF w] show ?thesis
      proof (elim disjE exE conjE)
        fix v assume r: "r = Inr (Some v)" and v: "no_event (ej_id job) s" "escrow_jobs s1 = escrow_jobs s"
          "payment_reservations s1 = payment_reservations s" "reputation_events s1 = reputation_events s @ [v]"
          "rp_escrow_job_id v = ej_id job" "rp_score v = COMPLETION_SCORE" "rp_org_id v = ej_org_id job"
        have "escrow_inv D s1" using earned_event [OF I, of job v s1] job True v by simp
        then have "escrow_inv D (snd (swallow (broadcast E C job agentId v) s1))"
          by (rule preserves_swallow [OF broadcast_ok, unfolded preserves_def, rule_format])
        then show ?thesis unfolding run r by simp
      next
        assume "escrow_tables s1 = escrow_tables s" and n: "\<forall>v. r \<noteq> Inr (Some v)"
        then have "escrow_inv D s1" using I escrow_inv_tables by blast
        then show ?thesis unfolding run using n by (auto split: sum.splits option.splits)
      qed
    qed
  qed
qed

lemma applyEscrowStateChange_ok: "preserves (escrow_inv D) (applyEscrowStateChange E C i target d)"
  unfolding applyEscrowStateChange_def
  by (intro preserves_bindM changeState_ok preserves_if preserves_swallow onEscrowCompleted_ok preserves_ret)

text \<open>Reconciling: nothing without drift; with it, the job counts as drifted from then on.\<close>

definition drifted_after :: "string \<Rightarrow> string set \<Rightarrow> app_error + (escrow_job \<times> escrow_drift list) \<Rightarrow> string set" where
  "drifted_after i D r = (case r of Inr (_, drift) \<Rightarrow> if drift = [] then D else insert i D | Inl _ \<Rightarrow> D)"

lemma drift_budget:
  assumes "(if 0 < m then bindE (parseUsdcMicros (UText t)) (\<lambda>k. Inr (m \<noteq> k)) else Inr False) = Inr drifted"
    and "(if drifted then bindE (numeric_cast (formatUsdc m)) (\<lambda>k. Inr (Some k)) else Inr None) = Inr b"
    and "0 < ej_budget job \<and> numeric_range (ej_budget job)"
  shows "0 < or_else b (ej_budget job) \<and> numeric_range (or_else b (ej_budget job))"
proof (cases drifted)
  case True
  then have "0 < m" using assms(1) by (auto split: if_splits)
  then show ?thesis
    using assms(2) True numeric_cast_numeric_text [of m] by (auto simp: numeric_text_def bindE_Inr or_else_def split: if_splits)
qed (use assms(2,3) in \<open>auto simp: or_else_def\<close>)

lemma reconcile_wp:
  assumes I: "escrow_inv D s"
  shows "wp (reconcileEscrowJob C i) (\<lambda>a. escrow_inv (drifted_after i D (Inr a))) s"
  unfolding reconcileEscrowJob_def Let_def case_prod_beta
  apply (subst wp_transactionOn)
  apply (subst wp_bindM, subst wp_lockedJob, intro allI impI)
  apply (subst wp_bindM, subst wp_liftE, intro allI impI)
  apply (rule wp_tables_bind [OF keeps_provider_calls(7)])
  apply (subst wp_bindM, subst wp_liftE, intro allI impI)
  apply (subst wp_bindM, subst wp_liftE, intro allI impI)
  subgoal for job n callData s' onchain budgetDrifted
    apply (cases "driftOf job (fst onchain) (snd onchain) budgetDrifted = []")
     apply (simp add: wp_ret drifted_after_def)
     apply (rule escrow_inv_tables [THEN iffD2, OF _ I], assumption)
    apply (simp only: if_False)
    apply (subst wp_bindM, subst wp_liftE, intro allI impI)
    apply (subst wp_bindM, subst wp_now)
    apply (subst wp_bindM, subst wp_update_job, intro allI impI)
    apply (subst wp_bindM, subst wp_ret)
    apply (simp only: drifted_after_def sum.case prod.case if_False)
    apply (frule escrow_inv_budget [OF I])
    apply (drule (2) drift_budget)
    apply (frule find_row_Some)
    apply (erule outcome_ok [OF I], assumption)
          apply (auto simp: same_job_def)
    done
  done

section \<open>Every call\<close>

datatype 'a escrow_call =
    Create create_job_input
  | Fund string
  | Change string escrow_state "string option"
  | Reconcile string
  | Elsewhere "'a escrow_db_scheme \<Rightarrow> 'a escrow_db_scheme"

text \<open>
  One call on the tables, beside the jobs a reconciliation ever found drifted. \<open>Elsewhere\<close> is
  anything that leaves escrow's rows alone: other payments, wallets, agents, the clock.
\<close>

fun escrow_step :: "env \<Rightarrow> chain_world \<Rightarrow> 'a escrow_call \<Rightarrow> 'a escrow_db_scheme \<times> string set \<Rightarrow> 'a escrow_db_scheme \<times> string set" where
  "escrow_step E C (Create input) (s, D) = (snd (createEscrowJob E C input s), D)"
| "escrow_step E C (Fund i) (s, D) = (snd (fundEscrowJob E C i s), D)"
| "escrow_step E C (Change i target d) (s, D) = (snd (applyEscrowStateChange E C i target d s), D)"
| "escrow_step E C (Reconcile i) (s, D) = (case reconcileEscrowJob C i s of (r, s') \<Rightarrow> (s', drifted_after i D r))"
| "escrow_step E C (Elsewhere f) (s, D) = (if escrow_view (f s) = escrow_view s then (f s, D) else (s, D))"

definition no_escrow :: "'a escrow_db_scheme \<Rightarrow> 'a escrow_db_scheme \<times> string set" where
  "no_escrow s = (s\<lparr>escrow_jobs := [], payment_reservations := [], reputation_events := []\<rparr>, {})"

lemma escrow_step_ok: "escrow_inv (snd st) (fst st) \<Longrightarrow> escrow_inv (snd (escrow_step E C c st)) (fst (escrow_step E C c st))"
proof (cases st)
  case (Pair s D)
  assume I: "escrow_inv (snd st) (fst st)"
  have J: "escrow_inv D s" using I Pair by simp
  have keep: "escrow_inv D (snd (m s))" if "preserves (escrow_inv D) m" for m :: "('a escrow_db_scheme, 'b) op"
    using that J by (simp add: preserves_def)
  show ?thesis
  proof (cases c)
    case (Create input)
    then show ?thesis using keep [OF createEscrowJob_ok] Pair by simp
  next
    case (Fund i)
    then show ?thesis using keep [OF fundEscrowJob_ok] Pair by simp
  next
    case (Change i target d)
    then show ?thesis using keep [OF applyEscrowStateChange_ok] Pair by simp
  next
    case (Reconcile i)
    obtain r s' where run: "reconcileEscrowJob C i s = (r, s')" by fastforce
    have "escrow_inv (drifted_after i D r) s'"
    proof (cases r)
      case (Inl e)
      then obtain s'' where "s' = undo_escrow s s''" using run by (auto simp: reconcileEscrowJob_def transactionOn_Inl)
      then have "escrow_inv D s'" using J escrow_inv_tables [OF escrow_frame(4)] by blast
      then show ?thesis by (simp add: drifted_after_def Inl)
    next
      case (Inr a)
      then show ?thesis using wpD [OF reconcile_wp [OF J]] run by blast
    qed
    then show ?thesis using Reconcile Pair run by simp
  next
    case (Elsewhere f)
    then show ?thesis using J Pair by (simp add: escrow_inv_def)
  qed
qed

interpretation escrow: invariant_machine "no_escrow s0" "escrow_step E C" "\<lambda>st. escrow_inv (snd st) (fst st)"
  by unfold_locales
     (simp add: no_escrow_def escrow_inv_def escrow_view_def escrow_ok_def, rule escrow_step_ok)

text \<open>
  C6. Escrowed money is on the books exactly as the mirror says. After any interleaving of job
  creations, fundings, state changes, reconciliations and foreign work, whichever of them fail:
  job ids and reservation ids are distinct, every escrow reservation belongs to a job, the reservation
  a job points at is its own and is not reserved once the job has ended, and reputation is earned at
  most once per job, with the one score, by a job that is completed or was found drifted. For a job no
  reconciliation ever found drifted the books are exact: an open job has no reservation, a funded or
  submitted one exactly one of its own, reserved, over its budget, and that one is settled by
  completion and released by rejection or expiry. For a drifted job nothing is claimed of reservations it no longer points at: a
  job that was funded, reconciled back to open and funded again points at the second reservation, and
  the first stays reserved for ever.
\<close>

theorem escrow_books_match_mirror:
  "case fold (escrow_step E C) calls (no_escrow s0) of (s, drifted) \<Rightarrow>
     escrow_ok drifted (escrow_jobs s, filter escrow_reservation (payment_reservations s), reputation_events s)"
  using escrow.inv_reachable by (simp add: escrow_inv_def escrow_view_def case_prod_beta)

section \<open>What a funding sends\<close>

definition unref :: "provider_call \<Rightarrow> provider_call" where
  "unref c = (case c of ExecuteContract x \<Rightarrow> ExecuteContract (x\<lparr>xc_refId := []\<rparr>) | _ \<Rightarrow> c)"

text \<open>
  The calls of a funding as the contracts read them, references aside: on the escrow contract
  \<open>setBudget\<close> from the provider's wallet, on the token \<open>approve\<close> of the escrow contract from the
  client's wallet, on the escrow contract the \<open>fund\<close> that names the token and the amount it
  expects. All three amounts are the budget of the job, written out here without the code's helpers.
\<close>

definition contract_call_of :: "escrow_job \<Rightarrow> string \<Rightarrow> string \<Rightarrow> string list \<Rightarrow> string \<Rightarrow> provider_call" where
  "contract_call_of job sender signature parameters contract =
     ExecuteContract \<lparr>xc_mode = ej_mode job, xc_chain = ej_chain job, xc_senderAddress = sender,
       xc_abiFunctionSignature = signature, xc_abiParameters = map VStr parameters, xc_contractAddress = Some contract,
       xc_refId = []\<rparr>"

definition funding_plan :: "escrow_job \<Rightarrow> int \<Rightarrow> string \<Rightarrow> string option \<Rightarrow> provider_call list" where
  "funding_plan job n clientAddress providerWallet =
     (case providerWallet of None \<Rightarrow> []
      | Some wallet \<Rightarrow>
          [contract_call_of job wallet ''setBudget(uint256,address,uint256,bytes)''
             [show_int n, ej_token_address job, show_int (ej_budget job), ''0x''] (ej_escrow_address job)]) @
     [contract_call_of job clientAddress ''approve(address,uint256)''
        [ej_escrow_address job, show_int (ej_budget job)] (ej_token_address job),
      contract_call_of job clientAddress ''fund(uint256,address,uint256,bytes)''
        [show_int n, ej_token_address job, show_int (ej_budget job), ''0x''] (ej_escrow_address job)]"

definition planned :: "string \<Rightarrow> ('a escrow_db_scheme) \<Rightarrow> escrow_job \<Rightarrow> provider_call list \<Rightarrow> bool" where
  "planned i s job plan \<longleftrightarrow>
     find_row (\<lambda>j. ej_id j = i) (escrow_jobs s) = Some job \<and> ej_state job = EsOpen \<and> 10000 \<le> ej_budget job \<and>
     (\<exists>n w. ej_onchain_job_id job = Some n \<and> findAgentWallet (ej_client_agent_id job) (ej_mode job) (ej_chain job) s = Some w \<and>
        plan = funding_plan job n (aw_address w) (fleetWalletAddress (ej_org_id job) (ej_provider_address job) (ej_mode job) (ej_chain job) s))"

lemma unref_simps [simp]:
  "unref (ExecuteContract (set_budget_call job n (ej_budget job) a r)) =
     contract_call_of job a ''setBudget(uint256,address,uint256,bytes)''
       [show_int n, ej_token_address job, show_int (ej_budget job), ''0x''] (ej_escrow_address job)"
  "unref (ExecuteContract (approve_call job (ej_budget job) a r)) =
     contract_call_of job a ''approve(address,uint256)'' [ej_escrow_address job, show_int (ej_budget job)] (ej_token_address job)"
  "unref (ExecuteContract (fund_call job n (ej_budget job) a r)) =
     contract_call_of job a ''fund(uint256,address,uint256,bytes)''
       [show_int n, ej_token_address job, show_int (ej_budget job), ''0x''] (ej_escrow_address job)"
  by (simp_all add: unref_def set_budget_call_def approve_call_def fund_call_def contract_call_of_def ESCROW_SET_BUDGET_SIGNATURE_def
      APPROVE_SIGNATURE_def ESCROW_FUND_SIGNATURE_def NO_HOOK_PARAMS_def)

lemma parse_minus: "m < 0 \<Longrightarrow> parseUsdcMicros (UText (numeric_text m)) = Inl INVALID_AMOUNT"
proof -
  assume "m < 0"
  then obtain t where t: "numeric_text m = CHR ''-'' # t" by (simp add: numeric_text_def)
  have last: "dropWhile is_space (xs @ [CHR ''-'']) = dropWhile is_space xs @ [CHR ''-'']" for xs
    by (induction xs) (auto simp: is_space_def code_def)
  have "trim (CHR ''-'' # t) = CHR ''-'' # rev (dropWhile is_space (rev t))"
    by (simp add: trim_def last is_space_def code_def)
  then show ?thesis
    by (simp add: parseUsdcMicros_def t usdc_raw_def usdc_match_def digit_span_def is_digit_def code_def)
qed

lemma budget_parsed: "escrowBudgetMicros (numeric_text m) = Inr k \<longleftrightarrow> k = m \<and> ESCROW_MINIMUM_BUDGET_MICROS \<le> m"
  using parse_minus [of m] by (cases "m < 0") (auto simp: escrowBudgetMicros_def bindE_Inr ESCROW_MINIMUM_BUDGET_MICROS_def)

lemma keeps_calls_reserve: "keeps provider_calls (reserveEscrowBudget E job)"
  by (rule keepsI) (auto simp: reserveEscrowBudget_def insert_reservation_def split: list.split intro!: preserve_intros)

text \<open>A run of the three calls: all that was sent is a beginning of the plan, and a return means all of it.\<close>

definition follows :: "provider_call list \<Rightarrow> ('a escrow_db_scheme, 'b) op \<Rightarrow> bool" where
  "follows plan m \<longleftrightarrow> (\<forall>s. case m s of (r, s') \<Rightarrow>
     \<exists>sent rest. provider_calls s' = provider_calls s @ sent \<and> map unref sent @ rest = plan \<and> (isl r \<or> rest = []))"

lemma follows_keeps: "keeps provider_calls m \<Longrightarrow> follows [] m"
  by (auto simp: follows_def keeps_def split: prod.split) (metis snd_conv)

lemma followsD:
  "follows p m \<Longrightarrow> m s = (r, s') \<Longrightarrow>
   \<exists>sent rest. provider_calls s' = provider_calls s @ sent \<and> map unref sent @ rest = p \<and> (isl r \<or> rest = [])"
  unfolding follows_def by (drule spec [of _ s]) simp

lemma follows_bind:
  assumes m: "follows p m" and f: "\<And>a. follows q (f a)"
  shows "follows (p @ q) (bindM m f)"
  unfolding follows_def
proof (intro allI)
  fix s
  obtain r s1 where run: "m s = (r, s1)" by fastforce
  obtain sent rest where one: "provider_calls s1 = provider_calls s @ sent" "map unref sent @ rest = p" "isl r \<or> rest = []"
    using followsD [OF m run] by blast
  show "case bindM m f s of (r, s') \<Rightarrow>
     \<exists>sent rest. provider_calls s' = provider_calls s @ sent \<and> map unref sent @ rest = p @ q \<and> (isl r \<or> rest = [])"
  proof (cases r)
    case (Inl e)
    then show ?thesis using run one by (auto simp: bindM_def intro!: exI [of _ "rest @ q"])
  next
    case (Inr a)
    obtain r2 s2 where run2: "f a s1 = (r2, s2)" by fastforce
    obtain sent2 rest2 where two: "provider_calls s2 = provider_calls s1 @ sent2" "map unref sent2 @ rest2 = q" "isl r2 \<or> rest2 = []"
      using followsD [OF f [of a] run2] by blast
    have "provider_calls s2 = provider_calls s @ (sent @ sent2) \<and> map unref (sent @ sent2) @ rest2 = p @ q \<and> (isl r2 \<or> rest2 = [])"
      using one two Inr by auto
    then have "\<exists>sent rest. provider_calls s2 = provider_calls s @ sent \<and> map unref sent @ rest = p @ q \<and> (isl r2 \<or> rest = [])"
      by blast
    then show ?thesis using run run2 Inr by (simp add: bindM_def)
  qed
qed

lemma follows_execute: "unref (ExecuteContract c) = x \<Longrightarrow> follows [x] (executePermit2Transaction C c)"
  by (auto simp: follows_def executePermit2Transaction_def callProvider_def bindM_def query_def modify_def liftE_def split: prod.splits)

lemma follows_nothing:
  "follows [] (ret a)" "follows [] now" "follows [] (randomRef E p)" "follows [] (update_job i f)"
  "follows [] (reserveEscrowBudget E job)"
proof -
  show "follows [] (randomRef E p)" by (simp add: follows_def randomRef_def)
  show "follows [] (update_job i f)"
    by (rule follows_keeps, rule keepsI) (auto simp: update_job_def split: option.split intro!: preserve_intros)
  show "follows [] now" by (simp add: follows_def now_def query_def)
  show "follows [] (reserveEscrowBudget E job)" by (rule follows_keeps, rule keeps_calls_reserve)
qed (simp add: follows_def ret_def)

definition funding_tail ::
  "env \<Rightarrow> chain_world \<Rightarrow> escrow_job \<Rightarrow> int \<Rightarrow> int \<Rightarrow> string \<Rightarrow> string option \<Rightarrow> ('a escrow_db_scheme, escrow_job) op" where
  "funding_tail E C job n budgetMicros clientAddress providerWallet =
     bindM (case providerWallet of
         None \<Rightarrow> ret ()
       | Some wallet \<Rightarrow>
           bindM (randomRef E ''agentops-escrow-budget-'') (\<lambda>refId.
           bindM (executePermit2Transaction C (set_budget_call job n budgetMicros wallet refId)) (\<lambda>_. ret ()))) (\<lambda>_.
     bindM (randomRef E ''agentops-escrow-approve-'') (\<lambda>approveRef.
     bindM (executePermit2Transaction C (approve_call job budgetMicros clientAddress approveRef)) (\<lambda>_.
     bindM (randomRef E ''agentops-escrow-fund-'') (\<lambda>fundRef.
     bindM (executePermit2Transaction C (fund_call job n budgetMicros clientAddress fundRef)) (\<lambda>txHash.
     bindM (reserveEscrowBudget E job) (\<lambda>reservationId.
     bindM now (\<lambda>t.
     update_job (ej_id job) (\<lambda>j. j\<lparr>ej_state := EsFunded, ej_fund_tx_hash := Some txHash,
       ej_reservation_id := Some reservationId, ej_updated_at := t\<rparr>))))))))"

lemma follows_funding: "follows (funding_plan job n client wallet) (funding_tail E C job n (ej_budget job) client wallet)"
proof -
  have one: "follows (case wallet of None \<Rightarrow> [] | Some w \<Rightarrow> [contract_call_of job w ''setBudget(uint256,address,uint256,bytes)''
        [show_int n, ej_token_address job, show_int (ej_budget job), ''0x''] (ej_escrow_address job)])
    (case wallet of None \<Rightarrow> ret () | Some w \<Rightarrow>
       bindM (randomRef E ''agentops-escrow-budget-'') (\<lambda>refId.
       bindM (executePermit2Transaction C (set_budget_call job n (ej_budget job) w refId)) (\<lambda>_. ret ())))"
  proof (cases wallet)
    case (Some w)
    have split: "[a] = [] @ [a] @ []" for a :: provider_call by simp
    show ?thesis
      unfolding Some option.case
      by (subst split, intro follows_bind follows_nothing follows_execute unref_simps)
  qed (simp add: follows_nothing)
  have two: "[a, b] = [] @ [a] @ [] @ [b] @ [] @ [] @ []" for a b :: provider_call by simp
  show ?thesis
    unfolding funding_plan_def funding_tail_def
    by (subst two, intro follows_bind one follows_nothing follows_execute unref_simps)
qed

definition funded_job :: "escrow_job \<Rightarrow> ('a escrow_db_scheme) \<Rightarrow> escrow_job \<Rightarrow> ('a escrow_db_scheme) \<Rightarrow> bool" where
  "funded_job job s job' s' \<longleftrightarrow>
     ej_state job' = EsFunded \<and> ej_budget job' = ej_budget job \<and>
     (\<exists>r. payment_reservations s' = payment_reservations s @ [r] \<and> holds job' r \<and> rs_status r = RsReserved \<and>
          rs_amount r = ej_budget job)"

lemma wp_funding_tail:
  assumes j: "find_row (\<lambda>j. ej_id j = i) (escrow_jobs s) = Some job"
  shows "wp (funding_tail E C job n m client wallet) (\<lambda>job' s'. funded_job job s job' s') s"
proof -
  have idj: "ej_id job = i" using find_row_Some [OF j] by simp
  have amount: "numeric_cast (numeric_text (ej_budget job)) = Inr a \<Longrightarrow> a = ej_budget job" for a
    by (simp add: numeric_cast_numeric_text split: if_splits)
  have updated: "find_row (\<lambda>j. ej_id j = i) (update_rows (\<lambda>j. ej_id j = i) f jobs) = Some (f job)"
    if "find_row (\<lambda>j. ej_id j = i) jobs = Some job" "\<And>j. ej_id (f j) = ej_id j" for f jobs
    using that by (induction jobs) auto
  have tail: "wp (bindM (reserveEscrowBudget E job) (\<lambda>reservationId. bindM now (\<lambda>t.
     update_job (ej_id job) (\<lambda>j. j\<lparr>ej_state := EsFunded, ej_fund_tx_hash := h, ej_reservation_id := Some reservationId, ej_updated_at := t\<rparr>))))
     (\<lambda>job' s'. funded_job job s job' s') s'" if "escrow_tables s' = escrow_tables s" for s' h
  proof -
    have eqs: "escrow_jobs s' = escrow_jobs s" "payment_reservations s' = payment_reservations s"
      using that by (simp_all add: escrow_tables_def)
    show ?thesis
      unfolding reserveEscrowBudget_def
      apply (simp only: wp_bindM wp_query)
      apply (split list.split, intro conjI allI impI)
       apply (simp only: wp_throw)
      apply (simp only: wp_simps, intro allI impI)
      apply (rule wp_insert_reservation)
      apply (intro allI impI)
      subgoal for source rest a job'
        using amount [of a]
        by (simp add: eqs idj updated [OF j] funded_job_def holds_def) (auto simp: idj)
      done
  qed
  show ?thesis
    unfolding funding_tail_def
    apply (rule wp_tables_bind [OF keeps_set_budget])
    apply (rule wp_tables_bind [OF keeps_provider_calls(1)])
    apply (rule wp_tables_bind [OF keeps_provider_calls(2)])
    apply (rule wp_tables_bind [OF keeps_provider_calls(1)])
    apply (rule wp_tables_bind [OF keeps_provider_calls(2)])
    apply (rule tail)
    apply (simp only:)
    done
qed

lemma bindM_run: "m s = (Inr a, s') \<Longrightarrow> bindM m f s = f a s'"
  by (simp add: bindM_def)

lemma fund_cases:
  obtains (refused) e where "fundEscrowJob E C i s = (Inl e, undo_escrow s s)"
  | (started) job n client r s1 where "find_row (\<lambda>j. ej_id j = i) (escrow_jobs s) = Some job"
      "planned i s job (funding_plan job n client
         (fleetWalletAddress (ej_org_id job) (ej_provider_address job) (ej_mode job) (ej_chain job) s))"
      "funding_tail E C job n (ej_budget job) client
         (fleetWalletAddress (ej_org_id job) (ej_provider_address job) (ej_mode job) (ej_chain job) s) s = (r, s1)"
      "fundEscrowJob E C i s = (r, if isl r then undo_escrow s s1 else s1)"
proof (cases "find_row (\<lambda>j. ej_id j = i) (escrow_jobs s)")
  case None
  then show ?thesis
    by (intro refused) (simp add: fundEscrowJob_def transactionOn_def lockedJob_def bindM_def query_def throw_def)
next
  case (Some job)
  let ?fleet = "fleetWalletAddress (ej_org_id job) (ej_provider_address job) (ej_mode job) (ej_chain job) s"
  have locked: "lockedJob i s = (Inr job, s)" by (simp add: lockedJob_def bindM_def query_def Some ret_def)
  have open_run: "fundEscrowJob E C i s = transactionOn undo_escrow (
      bindM (guardM (ej_state job = EsOpen) (NOT_OPEN job)) (\<lambda>_.
      bindM (liftE (onchainId job)) (\<lambda>n.
      bindM (liftE (escrowBudgetMicros (numeric_text (ej_budget job)))) (\<lambda>budgetMicros.
      bindM (clientWalletAddress (ej_client_agent_id job) (ej_mode job) (ej_chain job)) (\<lambda>clientAddress.
      bindM (query (fleetWalletAddress (ej_org_id job) (ej_provider_address job) (ej_mode job) (ej_chain job))) (\<lambda>wallet.
      funding_tail E C job n budgetMicros clientAddress wallet)))))) s"
    unfolding fundEscrowJob_def funding_tail_def transactionOn_def
    by (simp only: bindM_run [where m = "lockedJob i" and s = s and a = job and s' = s, OF locked])
  show ?thesis
  proof (cases "\<exists>n w. ej_state job = EsOpen \<and> ej_onchain_job_id job = Some n \<and> ESCROW_MINIMUM_BUDGET_MICROS \<le> ej_budget job \<and>
      findAgentWallet (ej_client_agent_id job) (ej_mode job) (ej_chain job) s = Some w")
    case True
    then obtain n w where ok: "ej_state job = EsOpen" "ej_onchain_job_id job = Some n" "ESCROW_MINIMUM_BUDGET_MICROS \<le> ej_budget job"
      "findAgentWallet (ej_client_agent_id job) (ej_mode job) (ej_chain job) s = Some w" by blast
    obtain r s1 where run: "funding_tail E C job n (ej_budget job) (aw_address w) ?fleet s = (r, s1)" by fastforce
    have b: "escrowBudgetMicros (numeric_text (ej_budget job)) = Inr (ej_budget job)" using ok(3) budget_parsed by blast
    have "fundEscrowJob E C i s = (r, if isl r then undo_escrow s s1 else s1)"
      unfolding open_run
      by (cases r) (simp_all add: transactionOn_def bindM_def guardM_def ret_def liftE_def onchainId_def clientWalletAddress_def query_def ok b run)
    moreover have "planned i s job (funding_plan job n (aw_address w) ?fleet)" using ok Some by (auto simp: planned_def ESCROW_MINIMUM_BUDGET_MICROS_def)
    ultimately show ?thesis using started Some run by blast
  next
    case False
    have "\<exists>e. fundEscrowJob E C i s = (Inl e, undo_escrow s s)"
    proof (cases "ej_state job = EsOpen \<and> ej_onchain_job_id job \<noteq> None \<and> ESCROW_MINIMUM_BUDGET_MICROS \<le> ej_budget job")
      case True
      have "escrowBudgetMicros (numeric_text (ej_budget job)) = Inr (ej_budget job)" using True budget_parsed by blast
      then show ?thesis unfolding open_run using True False
        by (auto simp: transactionOn_def bindM_def guardM_def ret_def throw_def liftE_def onchainId_def clientWalletAddress_def query_def)
    next
      case bad: False
      then have "ESCROW_MINIMUM_BUDGET_MICROS \<le> ej_budget job \<or> (\<exists>e. escrowBudgetMicros (numeric_text (ej_budget job)) = Inl e)"
        using budget_parsed [of "ej_budget job"] by (cases "escrowBudgetMicros (numeric_text (ej_budget job))") auto
      then show ?thesis unfolding open_run using bad
        by (auto simp: transactionOn_def bindM_def guardM_def ret_def throw_def liftE_def onchainId_def split: option.split)
    qed
    then show ?thesis using refused by blast
  qed
qed

text \<open>
  C7. A funding approves and pays exactly the budget. Whatever the provider answers, the calls a
  funding sends are a beginning of one plan: the provider's budget when the fleet holds its key,
  an allowance of exactly the budget for the escrow contract, and the guarded fund naming the
  token and that budget; nothing at all is sent unless the job is open, its id known, its budget
  at least a cent and the client's wallet active. A funding that throws leaves the tables as they
  were; one that returns sent the whole plan, and the job is funded with one new reservation of
  its own over its budget.
\<close>

theorem funding_sends_exact_budget:
  "case fundEscrowJob E C i s of (r, s') \<Rightarrow>
     \<exists>job plan sent rest. provider_calls s' = provider_calls s @ sent \<and> map unref sent @ rest = plan \<and>
       (sent = [] \<or> planned i s job plan) \<and>
       (case r of
          Inl e \<Rightarrow> escrow_tables s' = escrow_tables s
        | Inr job' \<Rightarrow> rest = [] \<and> planned i s job plan \<and> funded_job job s job' s')"
proof (cases rule: fund_cases [where E = E and C = C and i = i and s = s])
  case (refused e)
  then show ?thesis by (auto simp: undo_escrow_def)
next
  case (started job n client r s1)
  obtain sent rest where calls: "provider_calls s1 = provider_calls s @ sent"
      "map unref sent @ rest = funding_plan job n client
         (fleetWalletAddress (ej_org_id job) (ej_provider_address job) (ej_mode job) (ej_chain job) s)" "isl r \<or> rest = []"
    using followsD [OF follows_funding started(3)] by blast
  show ?thesis
  proof (cases r)
    case (Inl e)
    then have "fundEscrowJob E C i s = (Inl e, undo_escrow s s1)" "provider_calls (undo_escrow s s1) = provider_calls s @ sent"
      using started(4) calls(1) by (simp_all add: undo_escrow_def)
    then show ?thesis using calls(2) started(2) by auto
  next
    case (Inr job')
    have "funded_job job s job' s1" using wpD [OF wp_funding_tail [OF started(1)] started(3) [unfolded Inr]] .
    then show ?thesis using started(2,4) calls Inr by auto
  qed
qed

end
