(* ===== verification/AuditTrail.thy ===== *)
theory AuditTrail
  imports AuditQuery PaymentLiveness Escrow "HOL-Library.Sublist"
begin

text \<open>
  The audit log under the whole set of engines. Every engine writes evidence through
  \<open>recordAuditEvent\<close>, inside and outside transactions that may roll back. Whatever policy, approval,
  payment, escrow and authentication calls run, in whatever order, the log only grows and its
  verification succeeds.
\<close>

section \<open>The log as a value that grows\<close>

definition audit_view :: "'a audit_db_scheme \<Rightarrow> audit_head list \<times> audit_event list" where
  "audit_view s = (audit_event_heads s, audit_events s)"

definition log_of :: "audit_head list \<times> audit_event list \<Rightarrow> audit_db" where
  "log_of v = \<lparr>clock = 0, uuids = 0, orgs = [], audit_event_heads = fst v, audit_events = snd v\<rparr>"

definition log_grows :: "env \<Rightarrow> audit_event list \<Rightarrow> 'a audit_db_scheme \<Rightarrow> bool" where
  "log_grows E es s \<longleftrightarrow> audit_ok E (log_of (audit_view s)) \<and> prefix es (audit_events s)"

lemma audit_ok_view: "audit_ok E (log_of (audit_view s)) = audit_ok E s"
  by (simp add: audit_ok_def head_agrees_def org_events_def log_of_def audit_view_def cong: option.case_cong)

lemma log_grows_iff: "log_grows E es s \<longleftrightarrow> audit_ok E s \<and> prefix es (audit_events s)"
  by (simp add: log_grows_def audit_ok_view)

lemma log_grows_view: "audit_view s' = audit_view s \<Longrightarrow> log_grows E es s' = log_grows E es s"
  by (simp add: log_grows_def) (simp add: audit_view_def)

lemmas log_frame = log_grows_def audit_view_def

declare preserves_recordAuditEvent [preserve_intros del] preserves_recordPolicyEvent [preserve_intros del]

lemma log_record [preserve_intros]: "preserves (log_grows E es) (recordAuditEvent E input)"
proof -
  have ensure: "preserves (\<lambda>s. prefix es (audit_events s)) (ensure_head orgId)" for orgId
    by (rule preservesI) (auto simp: ensure_head_def)
  have insert: "preserves (\<lambda>s. prefix es (audit_events s)) (insert_audit_event e)" for e
    by (rule preservesI) (auto simp: insert_audit_event_def)
  have "preserves (\<lambda>s. prefix es (audit_events s)) (recordAuditEvent E input)"
    unfolding recordAuditEvent_def append_event_def append_after_def update_head_def Let_def
    by (intro preserve_intros ensure insert) simp_all
  then show ?thesis
    using preserves_conj [OF recordAuditEvent_preserves_ok] by (simp add: log_grows_iff [abs_def])
qed

section \<open>Policies\<close>

lemma log_policy_event [preserve_intros]:
  "preserves (log_grows E es) (recordPolicyEvent E orgId operator action resource policyId outcome reason payload)"
  unfolding recordPolicyEvent_def by (intro preserve_intros) (simp add: log_frame)

lemma log_policies [preserve_intros]:
  "preserves (log_grows E es) (createPolicyDraft E u orgId di)" "preserves (log_grows E es) (updatePolicyDraft E u orgId i du)"
  "preserves (log_grows E es) (discardPolicyDraft E u orgId i)" "preserves (log_grows E es) (validatePolicyDraft E u orgId i)"
  "preserves (log_grows E es) (activatePolicyDraft E u orgId i r)" "preserves (log_grows E es) (createPolicyRevisionDraft E u orgId i du)"
  "preserves (log_grows E es) (createPolicyRestoreDraft E u orgId i du rbs)"
  "preserves (log_grows E es) (activatePolicyRevisionDraft E u orgId i r)"
  "preserves (log_grows E es) (bindPolicy E u orgId i v tt ti)" "preserves (log_grows E es) (removePolicyBinding E u orgId i b)"
  "preserves (log_grows E es) (archivePolicy E u orgId i r)" "preserves (log_grows E es) (simulatePolicyDraft E u orgId i rq)"
  "preserves (log_grows E es) (checkPolicyDecision E u orgId rq)"
  unfolding createPolicyDraft_def updatePolicyDraft_def discardPolicyDraft_def validatePolicyDraft_def
    activatePolicyDraft_def createPolicyRevisionDraft_def createPolicyRestoreDraft_def
    activatePolicyRevisionDraft_def bindPolicy_def removePolicyBinding_def archivePolicy_def
    simulatePolicyDraft_def checkPolicyDecision_def Let_def case_prod_beta
  by (intro preserve_intros; simp add: log_frame)+

lemma op_log: "preserves (log_grows E es) m \<Longrightarrow> log_grows E es s \<Longrightarrow> log_grows E es (snd (m s))"
  by (simp add: preserves_def)

lemma log_policy_step: "log_grows E es s \<Longrightarrow> log_grows E es (policy_step E c s)"
  by (cases c) (simp_all add: op_log log_policies)

section \<open>Approvals\<close>

lemma log_approvals [preserve_intros]:
  "preserves (log_grows E es) (createApprovalRequest E input)"
  "preserves (log_grows E es) (approveApproval E operator orgId i note)"
  "preserves (log_grows E es) (denyApproval E operator orgId i note)"
  "preserves (log_grows E es) (consume_checks E auth i d)"
  "preserves (log_grows E es) (consume_commit E auth i d ap r)"
  unfolding createApprovalRequest_def approveApproval_def denyApproval_def consume_checks_def consume_commit_def update_approval_def
    Let_def case_prod_beta
  by (intro preserve_intros; simp add: log_frame)+

lemma log_approval_step: "log_grows E es (fst x) \<Longrightarrow> log_grows E es (fst (approval_step E c x))"
proof -
  obtain s ts where x: "x = (s, ts)" by fastforce
  assume "log_grows E es (fst x)"
  then have G: "log_grows E es s" by (simp add: x)
  show ?thesis
  proof (cases c)
    case (BeginConsume auth i d)
    obtain r s' where run: "consume_checks E auth i d s = (r, s')" by fastforce
    have "log_grows E es s'" by (rule preservesD [OF log_approvals(4) G run])
    then show ?thesis by (simp add: x BeginConsume run split: sum.split)
  qed (use G in \<open>simp_all add: x op_log log_approvals log_policy_step\<close>, simp add: log_frame)
qed

section \<open>Payments\<close>

lemma log_recording [preserve_intros]:
  "preserves (log_grows E es) (recordRouteObservation E ob)" "preserves (log_grows E es) (draw_simulated source amount)"
  "preserves (log_grows E es) (getApproval E orgId i)" "preserves (log_grows E es) (consumeApproval E auth i d)"
  "preserves (log_grows E es) (update_accounts p f)" "preserves (log_grows E es) (close_reservation og i rst)"
  "preserves (log_grows E es) (insert_reservation r)" "preserves (log_grows E es) (upsert_account fresh f)"
  "preserves (log_grows E es) (writePosting E wi)" "preserves (log_grows E es) (insert_event e)"
  "preserves (log_grows E es) (close_attempt W auth i st md sm stored err)"
  "preserves (log_grows E es) (createAttempt E ci)" "preserves (log_grows E es) (findAttempt c k)"
  "preserves (log_grows E es) (provision_missing E operator og ag rails)"
  unfolding recordRouteObservation_def draw_simulated_def consumeApproval_def update_accounts_def close_reservation_def
    insert_reservation_def upsert_account_def writePosting_def insert_event_def close_attempt_def createAttempt_def findAttempt_def
    provision_missing_def enqueueAgentWalletProvisioning_def scopeInvalid_def Let_def case_prod_beta
  by (intro preserve_intros; simp add: log_frame)+

lemma log_enforce [preserve_intros]:
  "preserves (log_grows E es) (enforceX402Policy E auth input quote resource threshold)"
  unfolding enforceX402Policy_def Let_def
  by (intro preserve_intros; simp split: option.split prod.split; intro conjI allI impI preserve_intros)

lemma log_readings [preserve_intros]:
  "preserves P (activePaymentAccount auth)" "preserves P (activePaymentSource og rail chain)"
  "preserves P (assertRailVerified mode quote)" "preserves P (assertWalletBalance W ag mode quote)"
  using keeps_preservesI [OF keeps_readings(1), of P "\<lambda>s. s"] keeps_preservesI [OF keeps_readings(2), of P "\<lambda>s. s"]
    keeps_preservesI [OF keeps_readings(3), of P "\<lambda>s. s"] keeps_preservesI [OF keeps_readings(4), of P "\<lambda>s. s"] by simp_all

lemma log_outcomes:
  "preserves (log_grows E es) (finalizeSettledPaidHttpPayment E W auth p settlement)"
  "preserves (log_grows E es) (finalizeTerminalPaidHttpPayment E W auth p settlement)"
  "preserves (log_grows E es) (setAgentPaymentAccess E operator og ag input)"
  "preserves (log_grows E es) (correctPosting E i reason createdBy)"
  "preserves (log_grows E es) (markSubmitting scope i)" "preserves (log_grows E es) (markPaidHttpAttemptRetryable auth i reason)"
  "preserves (log_grows E es) (persistPaidHttpProviderEvidence W auth i settlement)"
  "preserves (log_grows E es) (cancelStrandedReservedAttempts E og ag)"
  "preserves (log_grows E es) (resolveUnknownAttempt E operator og i outcome)"
  unfolding finalizeSettledPaidHttpPayment_def finalizeTerminalPaidHttpPayment_def release_failed_def setAgentPaymentAccess_def
    correctPosting_def markSubmitting_def transition_def markPaidHttpAttemptRetryable_def persistPaidHttpProviderEvidence_def
    stateConflict_def scopeInvalid_def cancelStrandedReservedAttempts_def release_stranded_def resolveUnknownAttempt_def Let_def
  by (intro preserve_intros; simp add: log_frame)+

lemma log_prepare: "preserves (log_grows E es) (preparePaidHttpPayment E W auth key rh dest input)"
proof -
  have reserve: "preserves (log_grows E es) (reserve_payment E auth key rh m q qh qp so g)" for m q qh qp so g
    unfolding reserve_payment_def by (intro preserve_intros) (simp_all add: log_frame)
  have new: "preserves (log_grows E es) (prepare_new E W auth key rh dest input account)" for account
    unfolding prepare_new_def Let_def case_prod_beta by (intro preserve_intros reserve)
  show ?thesis
    unfolding preparePaidHttpPayment_def
    by (rule preserves_transactionOn) (intro preserve_intros new, simp add: undo_payments_def log_frame)
qed

definition pays_silently :: "'a pay_call \<Rightarrow> bool" where
  "pays_silently c = (case c of pay_call.Elsewhere f \<Rightarrow> False | _ \<Rightarrow> True)"

lemma log_pay_step:
  assumes "log_grows E es (fst x)" and "pays_silently c"
  shows "log_grows E es (fst (pay_step E W c x))"
proof -
  obtain s ts where x: "x = (s, ts)" by fastforce
  have G: "log_grows E es s" using assms(1) by (simp add: x)
  show ?thesis
  proof (cases c)
    case (Prepare auth key rh dest input)
    obtain r s' where run: "preparePaidHttpPayment E W auth key rh dest input s = (r, s')" by fastforce
    have "log_grows E es s'" by (rule preservesD [OF log_prepare G run])
    then show ?thesis by (simp add: x Prepare run split: sum.split prepare_outcome.split)
  next
    case (Elsewhere f)
    with assms(2) show ?thesis by (simp add: pays_silently_def)
  qed (simp_all add: x G op_log log_outcomes)
qed

section \<open>Escrow\<close>

lemma log_chain [preserve_intros]:
  "preserves (log_grows E es) (clientWalletAddress a m c')"
  "preserves (log_grows E es) (readReceiptLogsViaRpc C h c')" "preserves (log_grows E es) (readJobCallDataViaRpc C n a c')"
  "preserves (log_grows E es) (lockedJob i)" "preserves (log_grows E es) (update_job i f)" "preserves (log_grows E es) (insert_job j)"
  "preserves (log_grows E es) (reserveEscrowBudget E' job)" "preserves (log_grows E es) (applyReservationOutcome job target)"
  "preserves (log_grows E es) (writeReputation E' og ag j' score)" "preserves (log_grows E es) (writeFeedback E' C md ch sender token score)"
  unfolding clientWalletAddress_def readReceiptLogsViaRpc_def readJobCallDataViaRpc_def lockedJob_def update_job_def insert_job_def
    reserveEscrowBudget_def applyReservationOutcome_def writeReputation_def writeFeedback_def Let_def
  by (intro preserve_intros; simp add: log_frame split: list.split; intro conjI allI impI preserve_intros; simp add: log_frame)+

lemma log_send: "preserves (log_grows E es) (sendEscrowTransition E' C job n target d)"
  unfolding sendEscrowTransition_def Let_def
  by (cases target; simp only: ESCROW_CALLS.simps option.case prod.case escrow_state.distinct if_True if_False simp_thms;
      intro preserve_intros; simp add: log_frame)

lemma log_undo_escrow: "log_grows E es s \<Longrightarrow> log_grows E es (undo_escrow s s')"
  by (simp add: undo_escrow_def log_frame)

lemma log_escrow:
  "preserves (log_grows E es) (createEscrowJob E' C input)" "preserves (log_grows E es) (fundEscrowJob E' C i)"
  "preserves (log_grows E es) (changeState E' C i target d)" "preserves (log_grows E es) (onEscrowCompleted E' C i)"
  "preserves (log_grows E es) (reconcileEscrowJob C i)"
  unfolding createEscrowJob_def fundEscrowJob_def changeState_def onEscrowCompleted_def reconcileEscrowJob_def broadcast_def Let_def case_prod_beta
  by (intro preserve_intros preserves_transactionOn log_undo_escrow log_send preserves_swallow; simp add: log_frame)+

lemma log_escrow_change: "preserves (log_grows E es) (applyEscrowStateChange E' C i target d)"
  unfolding applyEscrowStateChange_def by (intro preserve_intros preserves_swallow log_escrow)

definition escrows_silently :: "'a escrow_call \<Rightarrow> bool" where
  "escrows_silently c = (case c of escrow_call.Elsewhere f \<Rightarrow> False | _ \<Rightarrow> True)"

lemma log_escrow_step:
  assumes "log_grows E es (fst x)" and "escrows_silently c"
  shows "log_grows E es (fst (escrow_step E' C c x))"
proof -
  obtain s D where x: "x = (s, D)" by fastforce
  have G: "log_grows E es s" using assms(1) by (simp add: x)
  show ?thesis
  proof (cases c)
    case (Reconcile i)
    obtain r s' where run: "reconcileEscrowJob C i s = (r, s')" by fastforce
    have "log_grows E es s'" by (rule preservesD [OF log_escrow(5) G run])
    then show ?thesis by (simp add: x Reconcile run)
  next
    case (Elsewhere f)
    with assms(2) show ?thesis by (simp add: escrows_silently_def)
  qed (simp_all add: x G op_log log_escrow log_escrow_change)
qed

section \<open>All engines together\<close>

text \<open>
  One call of any engine. What the engines hold between calls (consumptions and payments in flight,
  the jobs seen to drift) goes with the database. \<open>Unaudited f\<close> stands for code that writes other
  tables and leaves the two tables of the log alone.
\<close>

datatype 'a engine_call =
    Approving approval_call
  | Paying "'a escrow_db_ext chain_db_ext pay_call"
  | Escrowing "'a escrow_call"
  | Recording audit_input
  | Authenticating string
  | Onboarding string string obj
  | Unaudited "'a escrow_db_scheme \<Rightarrow> 'a escrow_db_scheme"

type_synonym flights = "approval_ticket list \<times> pay_ticket list \<times> string set"

fun engine_step ::
  "env \<Rightarrow> pay_world \<Rightarrow> chain_world \<Rightarrow> 'a engine_call \<Rightarrow> 'a escrow_db_scheme \<times> flights \<Rightarrow> 'a escrow_db_scheme \<times> flights" where
  "engine_step E W C (Approving c) (s, ats, pts, D) = (case approval_step E c (s, ats) of (s', ats') \<Rightarrow> (s', ats', pts, D))"
| "engine_step E W C (Paying c) (s, ats, pts, D) =
     (if pays_silently c then case pay_step E W c (s, pts) of (s', pts') \<Rightarrow> (s', ats, pts', D) else (s, ats, pts, D))"
| "engine_step E W C (Escrowing c) (s, ats, pts, D) =
     (if escrows_silently c then case escrow_step E C c (s, D) of (s', D') \<Rightarrow> (s', ats, pts, D') else (s, ats, pts, D))"
| "engine_step E W C (Recording input) (s, fs) = (snd (recordAuditEvent E input s), fs)"
| "engine_step E W C (Authenticating token) (s, fs) = (snd (authenticateConnection E token s), fs)"
| "engine_step E W C (Onboarding orgId flowKey payload) (s, fs) =
     (snd (completeProductOnboardingFlow E orgId flowKey payload s), fs)"
| "engine_step E W C (Unaudited f) (s, fs) = (if audit_view (f s) = audit_view s then (f s, fs) else (s, fs))"

definition no_log :: "'a escrow_db_scheme \<Rightarrow> 'a escrow_db_scheme \<times> flights" where
  "no_log s = (s\<lparr>audit_events := [], audit_event_heads := []\<rparr>, [], [], {})"

lemma log_identity [preserve_intros]:
  "preserves (log_grows E es) (authenticateConnection E token)"
  "preserves (log_grows E es) (completeProductOnboardingFlow E orgId flowKey payload)"
  by (intro preserve_intros; simp add: log_frame)+

lemma engine_step_log: "log_grows E es (fst x) \<Longrightarrow> log_grows E es (fst (engine_step E W C c x))"
proof -
  obtain s ats pts D where x: "x = (s, ats, pts, D)" by (cases x)
  assume "log_grows E es (fst x)"
  then have G: "log_grows E es s" by (simp add: x)
  show ?thesis
  proof (cases c)
    case (Approving a)
    then show ?thesis using log_approval_step [of E es "(s, ats)" a] G by (simp add: x case_prod_beta)
  next
    case (Paying p)
    then show ?thesis using log_pay_step [where x = "(s, pts)" and c = p and E = E and W = W and es = es] G by (simp add: x case_prod_beta)
  next
    case (Escrowing e)
    then show ?thesis using log_escrow_step [where x = "(s, D)" and c = e and E = E and E' = E and C = C and es = es] G by (simp add: x case_prod_beta)
  next
    case (Unaudited f)
    then show ?thesis using G log_grows_view [of "f s" s] by (simp add: x)
  qed (simp_all add: x G op_log log_record log_identity)
qed

interpretation engines: invariant_machine "no_log s0" "engine_step E W C" "\<lambda>x. log_grows E [] (fst x)"
  for s0 :: "'a escrow_db_scheme" and E W C
proof
  show "log_grows E [] (fst (no_log s0))"
    by (simp add: no_log_def log_grows_iff) (simp add: audit_ok_def head_agrees_def org_events_def)
qed (rule engine_step_log)

lemma engine_run_grows: "log_grows E es (fst x) \<Longrightarrow> log_grows E es (fst (fold (engine_step E W C) cs x))"
  by (induction cs arbitrary: x) (simp_all add: engine_step_log)

text \<open>
  C24. Evidence is append-only and never raises a false alarm, whatever the engines do. Take any
  calls of the policy, approval, payment, escrow, authentication and onboarding engines, in any
  order, with any failures and roll-backs: every event that was in the log stays where it was, and
  verifying any organisation's chain then succeeds and counts all its events.
\<close>

theorem evidence_only_grows:
  "let s = fold (engine_step E W C) calls (no_log s0); s' = fold (engine_step E W C) later s
   in prefix (audit_events (fst s)) (audit_events (fst s')) \<and>
      verifyAuditChain E orgId (fst s') =
        (Inr \<lparr>vc_valid = True, vc_checked = length (org_events orgId (fst s')), vc_failedEventId = None,
              vc_reason = None\<rparr>, fst s')"
proof -
  let ?s = "fold (engine_step E W C) calls (no_log s0)"
  let ?t = "fold (engine_step E W C) later ?s"
  have "log_grows E [] (fst ?s)" by (rule engines.inv_reachable)
  then have "log_grows E (audit_events (fst ?s)) (fst ?s)" by (simp add: log_grows_iff)
  from engine_run_grows [OF this] have t: "audit_ok E (fst ?t)" "prefix (audit_events (fst ?s)) (audit_events (fst ?t))"
    by (simp_all add: log_grows_iff)
  note facts = audit_ok_verifies [OF t(1), of orgId]
  show ?thesis
    using t(2) iffD2 [OF verify_valid_iff [OF facts(1), of E]] facts(2-4) by (simp add: Let_def)
qed

end
