(* ===== verification/IpAddress.thy ===== *)
theory IpAddress
  imports CanonicalJson
begin

unbundle bit_operations_syntax

text \<open>
  The address half of the destination policy of \<open>apps/api/src/engines/payments/x402-http.ts\<close>:
  the textual addresses Node's \<open>net.isIP\<close> accepts, the parsers \<open>parseIpv4\<close> and
  \<open>parseIpv6\<close>, and the test \<open>isUnsafeIpAddress\<close> that keeps paid requests away from
  private and special-purpose networks. The test is compared with a table of address blocks in
  CIDR form (RFC 6890 and its successors) over the numeric value of an address.
\<close>

section \<open>Text\<close>

text \<open>\<open>s.split(c)\<close> for a one-character separator and \<open>s.split('::')\<close>.\<close>

fun cons_head :: "char \<Rightarrow> string list \<Rightarrow> string list" where
  "cons_head c [] = [[c]]"
| "cons_head c (x # xs) = (c # x) # xs"

fun split_char :: "char \<Rightarrow> string \<Rightarrow> string list" where
  "split_char c [] = [[]]"
| "split_char c (x # xs) = (if x = c then [] # split_char c xs else cons_head x (split_char c xs))"

fun split_dcolon :: "string \<Rightarrow> string list" where
  "split_dcolon [] = [[]]"
| "split_dcolon [x] = [[x]]"
| "split_dcolon (x # y # xs) =
     (if x = CHR '':'' \<and> y = CHR '':'' then [] # split_dcolon xs else cons_head x (split_dcolon (y # xs)))"

text \<open>\<open>s.split('%', 1)[0]\<close> and \<open>s.replace(/^\[|\]$/g, '')\<close>.\<close>

definition before_percent :: "string \<Rightarrow> string" where
  "before_percent s = takeWhile (\<lambda>c. c \<noteq> CHR ''%'') s"

definition strip_brackets :: "string \<Rightarrow> string" where
  "strip_brackets s =
     (let t = (case s of c # r \<Rightarrow> if c = CHR ''['' then r else s | [] \<Rightarrow> [])
      in if t \<noteq> [] \<and> last t = CHR '']'' then butlast t else t)"

definition is_hex :: "char \<Rightarrow> bool" where
  "is_hex c \<longleftrightarrow> radix_digit c < 16"

text \<open>\<open>n.toString(16)\<close>, the value of hexadecimal digits, and \<open>Number.parseInt(s, 16)\<close>, \<open>None\<close> for NaN.\<close>

fun show_hex :: "nat \<Rightarrow> string" where
  "show_hex n = (if n < 16 then [hex_char n] else show_hex (n div 16) @ [hex_char (n mod 16)])"

declare show_hex.simps [simp del]

definition base_value :: "nat \<Rightarrow> nat list \<Rightarrow> nat" where
  "base_value b ds = foldl (\<lambda>acc d. b * acc + d) 0 ds"

definition hex_val :: "string \<Rightarrow> nat" where
  "hex_val s = base_value 16 (map radix_digit s)"

definition parseInt16 :: "string \<Rightarrow> int option" where
  "parseInt16 str =
     (let s = dropWhile is_space str;
          (neg, s1) = (case s of c # r \<Rightarrow> if c = CHR ''-'' then (True, r) else if c = CHR ''+'' then (False, r) else (False, s)
                       | [] \<Rightarrow> (False, []));
          s2 = (case s1 of c # d # r \<Rightarrow> if c = CHR ''0'' \<and> (d = CHR ''x'' \<or> d = CHR ''X'') then r else s1 | _ \<Rightarrow> s1);
          ds = takeWhile is_hex s2
      in if ds = [] then None else Some (if neg then - int (hex_val ds) else int (hex_val ds)))"

section \<open>\<open>net.isIP\<close>\<close>

text \<open>
  An IPv4 address is four decimal numbers up to 255 without leading zeros. An IPv6 address is
  eight groups of one to four hexadecimal digits; one \<open>::\<close> stands for a run of one or more
  zero groups, the last two groups may be written as an IPv4 address, and a zone may follow a
  percent sign.
\<close>

definition v4_seg :: "string \<Rightarrow> bool" where
  "v4_seg s \<longleftrightarrow> s \<noteq> [] \<and> length s \<le> 3 \<and> list_all is_digit s \<and> (hd s = CHR ''0'' \<longrightarrow> length s = 1) \<and> digits_val 0 s \<le> 255"

definition isIPv4 :: "string \<Rightarrow> bool" where
  "isIPv4 s \<longleftrightarrow> length (split_char CHR ''.'' s) = 4 \<and> list_all v4_seg (split_char CHR ''.'' s)"

definition v6_seg :: "string \<Rightarrow> bool" where
  "v6_seg s \<longleftrightarrow> s \<noteq> [] \<and> length s \<le> 4 \<and> list_all is_hex s"

fun seg_count :: "string list \<Rightarrow> nat option" where
  "seg_count [] = Some 0"
| "seg_count [g] = (if v6_seg g then Some 1 else if isIPv4 g then Some 2 else None)"
| "seg_count (g # h # gs) = (if v6_seg g then map_option Suc (seg_count (h # gs)) else None)"

definition pieces :: "string \<Rightarrow> string list" where
  "pieces s = (if s = [] then [] else split_char CHR '':'' s)"

definition v6_address :: "string \<Rightarrow> bool" where
  "v6_address s \<longleftrightarrow>
     (case split_dcolon s of
        [x] \<Rightarrow> seg_count (split_char CHR '':'' x) = Some 8
      | [l, r] \<Rightarrow> list_all v6_seg (pieces l) \<and>
                  (case seg_count (pieces r) of None \<Rightarrow> False | Some n \<Rightarrow> length (pieces l) + n \<le> 7)
      | _ \<Rightarrow> False)"

definition zone_char :: "char \<Rightarrow> bool" where
  "zone_char c \<longleftrightarrow> is_digit c \<or> 65 \<le> code c \<and> code c \<le> 90 \<or> 97 \<le> code c \<and> code c \<le> 122 \<or> c \<in> {CHR ''-'', CHR ''.'', CHR '':''}"

definition isIPv6 :: "string \<Rightarrow> bool" where
  "isIPv6 s \<longleftrightarrow> v6_address (before_percent s) \<and>
     (case dropWhile (\<lambda>c. c \<noteq> CHR ''%'') s of [] \<Rightarrow> True | _ # z \<Rightarrow> z \<noteq> [] \<and> list_all zone_char z)"

definition isIP :: "string \<Rightarrow> nat" where
  "isIP s = (if isIPv4 s then 4 else if isIPv6 s then 6 else 0)"

section \<open>Parsing addresses\<close>

definition parseIpv4 :: "string \<Rightarrow> (nat \<times> nat \<times> nat \<times> nat) option" where
  "parseIpv4 address =
     (if isIP address \<noteq> 4 then None
      else case map (digits_val 0) (split_char CHR ''.'' address) of
             a # b # c # d # _ \<Rightarrow> Some (a, b, c, d)
           | _ \<Rightarrow> None)"

definition isUnsafeIpv4 :: "string \<Rightarrow> bool" where
  "isUnsafeIpv4 address =
     (case parseIpv4 address of
        None \<Rightarrow> False
      | Some (first, second, third, _) \<Rightarrow>
          first = 0 \<or> first = 10 \<or> first = 127 \<or>
          (first = 100 \<and> 64 \<le> second \<and> second \<le> 127) \<or>
          (first = 169 \<and> second = 254) \<or>
          (first = 172 \<and> 16 \<le> second \<and> second \<le> 31) \<or>
          (first = 192 \<and> second = 0 \<and> (third = 0 \<or> third = 2)) \<or>
          (first = 192 \<and> second = 168) \<or>
          (first = 192 \<and> second = 88 \<and> third = 99) \<or>
          (first = 198 \<and> (second = 18 \<or> second = 19)) \<or>
          (first = 198 \<and> second = 51 \<and> third = 100) \<or>
          (first = 203 \<and> second = 0 \<and> third = 113) \<or>
          224 \<le> first)"

text \<open>\<open>s.slice(0, s.lastIndexOf(':'))\<close> and \<open>s.slice(s.lastIndexOf(':') + 1)\<close> of a text with a colon.\<close>

definition after_last_colon :: "string \<Rightarrow> string" where
  "after_last_colon s = rev (takeWhile (\<lambda>c. c \<noteq> CHR '':'') (rev s))"

definition before_last_colon :: "string \<Rightarrow> string" where
  "before_last_colon s = rev (tl (dropWhile (\<lambda>c. c \<noteq> CHR '':'') (rev s)))"

definition quad_as_hex :: "string \<Rightarrow> nat \<times> nat \<times> nat \<times> nat \<Rightarrow> string" where
  "quad_as_hex prefix ipv4 =
     (case ipv4 of (a, b, c, d) \<Rightarrow>
        prefix @ '':'' @ show_hex (push_bit 8 a OR b) @ '':'' @ show_hex (push_bit 8 c OR d))"

definition group_bytes :: "string list \<Rightarrow> nat list option" where
  "group_bytes texts =
     (let groups = map parseInt16 texts
      in if length groups \<noteq> 8 \<or> list_ex (\<lambda>g. case g of None \<Rightarrow> True | Some i \<Rightarrow> i < 0 \<or> 0xffff < i) groups then None
         else Some (concat (map (\<lambda>g. case g of None \<Rightarrow> [] | Some i \<Rightarrow> [drop_bit 8 (nat i), nat i AND 0xff]) groups)))"

definition parseIpv6 :: "string \<Rightarrow> nat list option" where
  "parseIpv6 address =
     (let normalized = before_percent (toLowerCase address)
      in if isIP normalized \<noteq> 6 then None
         else case (if CHR ''.'' \<in> set normalized
                    then map_option (quad_as_hex (before_last_colon normalized)) (parseIpv4 (after_last_colon normalized))
                    else Some normalized) of
                None \<Rightarrow> None
              | Some text \<Rightarrow>
                  (let halves = split_dcolon text;
                       leftHalf = halves ! 0;
                       rightHalf = (if length halves < 2 then [] else halves ! 1);
                       left = pieces leftHalf;
                       right = (if length halves = 1 \<or> rightHalf = [] then [] else split_char CHR '':'' rightHalf);
                       missing = 8 - int (length left) - int (length right)
                   in if length halves > 2 then None
                      else if length halves = 1 \<and> missing \<noteq> 0 \<or> missing < 0 then None
                      else group_bytes (left @ replicate (nat missing) ''0'' @ right)))"

definition isUnsafeIpAddress :: "string \<Rightarrow> bool" where
  "isUnsafeIpAddress address =
     (let normalized = before_percent (strip_brackets address)
      in if isUnsafeIpv4 normalized then True
         else case parseIpv6 normalized of
                None \<Rightarrow> False
              | Some bytes \<Rightarrow>
                  (let allZero = list_all (\<lambda>b. b = 0) bytes;
                       loopback = list_all (\<lambda>b. b = 0) (take 15 bytes) \<and> bytes ! 15 = 1;
                       firstByte = bytes ! 0;
                       secondByte = bytes ! 1;
                       linkLocal = firstByte = 0xfe \<and> secondByte AND 0xc0 = 0x80;
                       uniqueLocal = firstByte AND 0xfe = 0xfc;
                       multicast = bytes ! 0 = 0xff;
                       mappedIpv4 = list_all (\<lambda>b. b = 0) (take 10 bytes) \<and> bytes ! 10 = 0xff \<and> bytes ! 11 = 0xff;
                       compatibleIpv4 = list_all (\<lambda>b. b = 0) (take 12 bytes);
                       embeddedIpv4 = join ''.'' (map show_nat (drop 12 bytes));
                       globalUnicast = firstByte AND 0xe0 = 0x20;
                       documentation =
                         bytes ! 0 = 0x20 \<and> bytes ! 1 = 0x01 \<and> bytes ! 2 = 0x0d \<and> bytes ! 3 = 0xb8 \<or>
                         bytes ! 0 = 0x3f \<and> bytes ! 1 = 0xff \<and> bytes ! 2 AND 0xf0 = 0;
                       benchmarking =
                         bytes ! 0 = 0x20 \<and> bytes ! 1 = 0x01 \<and> bytes ! 2 = 0 \<and> bytes ! 3 = 0x02 \<and> bytes ! 4 = 0 \<and> bytes ! 5 = 0;
                       transitionOrOverlay =
                         bytes ! 0 = 0x20 \<and> bytes ! 1 = 0x02 \<or>
                         bytes ! 0 = 0x20 \<and> bytes ! 1 = 0x01 \<and> bytes ! 2 = 0 \<and> bytes ! 3 = 0 \<or>
                         bytes ! 0 = 0x20 \<and> bytes ! 1 = 0x01 \<and> bytes ! 2 AND 0xf0 = 0x10 \<or>
                         bytes ! 0 = 0x20 \<and> bytes ! 1 = 0x01 \<and> bytes ! 2 AND 0xf0 = 0x20
                   in if mappedIpv4 then isUnsafeIpv4 embeddedIpv4
                      else allZero \<or> loopback \<or> linkLocal \<or> uniqueLocal \<or> multicast \<or> compatibleIpv4 \<or> \<not> globalUnicast \<or>
                           documentation \<or> benchmarking \<or> transitionOrOverlay))"


section \<open>Address blocks\<close>

text \<open>
  The reference: the number an address denotes, and a block \<open>(len, p)\<close> of the addresses of
  \<open>w\<close> bits whose first \<open>len\<close> bits are \<open>p\<close>.
\<close>

definition in_block :: "nat \<Rightarrow> nat \<Rightarrow> nat \<times> nat \<Rightarrow> bool" where
  "in_block w v block \<longleftrightarrow> v div 2 ^ (w - fst block) = snd block"

definition octets :: "string \<Rightarrow> nat list" where
  "octets s = map (digits_val 0) (split_char CHR ''.'' s)"

definition ipv4_value :: "string \<Rightarrow> nat" where
  "ipv4_value s = base_value 256 (octets s)"

fun seg_values :: "string list \<Rightarrow> nat list" where
  "seg_values [] = []"
| "seg_values [g] = (if isIPv4 g then [ipv4_value g div 65536, ipv4_value g mod 65536] else [hex_val g])"
| "seg_values (g # h # gs) = hex_val g # seg_values (h # gs)"

definition ipv6_groups :: "string \<Rightarrow> nat list" where
  "ipv6_groups s =
     (case split_dcolon s of
        [x] \<Rightarrow> seg_values (pieces x)
      | l # r # _ \<Rightarrow> (let L = seg_values (pieces l); R = seg_values (pieces r)
                      in L @ replicate (8 - length L - length R) 0 @ R)
      | _ \<Rightarrow> [])"

definition ipv6_value :: "string \<Rightarrow> nat" where
  "ipv6_value s = base_value 65536 (ipv6_groups s)"

definition special4 :: "(nat \<times> nat) list" where
  "special4 =
     [(8, 0), (8, 10), (8, 127), (10, 0x191), (16, 0xa9fe), (12, 0xac1), (24, 0xc00000), (24, 0xc00002), (16, 0xc0a8),
      (24, 0xc05863), (15, 0x6309), (24, 0xc63364), (24, 0xcb0071), (3, 7)]"

definition special6 :: "(nat \<times> nat) list" where
  "special6 =
     [(32, 0x20010db8), (20, 0x3fff0), (48, 0x200100020000), (16, 0x2002), (32, 0x20010000), (20, 0x20011), (20, 0x20012)]"

definition blocked4 :: "nat \<Rightarrow> bool" where
  "blocked4 v \<longleftrightarrow> list_ex (in_block 32 v) special4"

definition blocked6 :: "nat \<Rightarrow> bool" where
  "blocked6 v \<longleftrightarrow>
     (if in_block 128 v (96, 0xffff) then blocked4 (v mod 2 ^ 32)
      else \<not> in_block 128 v (3, 1) \<or> list_ex (in_block 128 v) special6)"

definition blocked_address :: "string \<Rightarrow> bool" where
  "blocked_address s \<longleftrightarrow>
     (if isIP s = 4 then blocked4 (ipv4_value s) else if isIP s = 6 then blocked6 (ipv6_value s) else False)"

section \<open>Numbers in a base\<close>

lemma base_value_append: "base_value b (xs @ ys) = base_value b xs * b ^ length ys + base_value b ys"
proof (induction ys rule: rev_induct)
  case (snoc y ys)
  then show ?case by (simp add: base_value_def algebra_simps flip: append_assoc)
qed (simp add: base_value_def)

lemma base_value_Nil [simp]: "base_value b [] = 0"
  by (simp add: base_value_def)

lemma base_value_zeros: "base_value b (replicate n 0) = 0"
  by (induction n) (simp_all add: base_value_def)

lemma base_value_snoc: "base_value b (xs @ [y]) = b * base_value b xs + y"
  by (simp add: base_value_def)

lemma base_value_bound: "\<forall>y \<in> set ys. y < b \<Longrightarrow> base_value b ys < b ^ length ys"
proof (induction ys rule: rev_induct)
  case (snoc y ys)
  then have "base_value b ys + 1 \<le> b ^ length ys" "y < b" by auto
  then have "b * (base_value b ys + 1) \<le> b * b ^ length ys" by (intro mult_left_mono) auto
  with \<open>y < b\<close> show ?case by (simp add: base_value_snoc)
qed simp

lemma div_digit: "r < (m::nat) \<Longrightarrow> (q * m + r) div m = q"
  by (cases "m = 0") simp_all

lemma base_value_prefix:
  assumes "\<forall>y \<in> set ys. y < b"
  shows "base_value b ys div b ^ (length ys - k) = base_value b (take k ys)"
proof (cases "k \<le> length ys")
  case True
  let ?y = "drop k ys"
  have "base_value b ?y < b ^ length ?y" by (rule base_value_bound) (use assms in \<open>auto dest: in_set_dropD\<close>)
  moreover have "base_value b ys = base_value b (take k ys) * b ^ length ?y + base_value b ?y"
    using base_value_append [of b "take k ys" ?y] by simp
  ultimately show ?thesis using True div_digit by (metis length_drop)
qed simp

lemma digit_eq: "x < m \<Longrightarrow> y < m \<Longrightarrow> m * u + x = m * v + y \<longleftrightarrow> u = v \<and> x = y" for x y m u v :: nat
  by (metis add_left_cancel div_digit mult.commute)

lemma div_range: "0 < m \<Longrightarrow> b div m = r \<longleftrightarrow> m * r \<le> b \<and> b < m * Suc r" for b m r :: nat
  using div_less_iff_less_mult [of m b "Suc r"] less_eq_div_iff_mult_less_eq [of m r b] by (auto simp: mult.commute)

lemma base_value_inj:
  "length xs = length ys \<Longrightarrow> \<forall>x \<in> set xs. x < b \<Longrightarrow> \<forall>y \<in> set ys. y < b \<Longrightarrow> base_value b xs = base_value b ys \<longleftrightarrow> xs = ys"
proof (induction xs arbitrary: ys rule: rev_induct)
  case (snoc x xs)
  then obtain ys' y where ys: "ys = ys' @ [y]" by (metis length_0_conv rev_exhaust snoc_eq_iff_butlast)
  from snoc.prems have "x < b" "y < b" by (auto simp: ys)
  with snoc digit_eq [OF this] show ?case by (auto simp: ys base_value_snoc)
qed simp

lemma base_value_pairs:
  "\<forall>g \<in> set gs. g < 65536 \<Longrightarrow> base_value 256 (concat (map (\<lambda>g. [g div 256, g mod 256]) gs)) = base_value 65536 gs"
proof (induction gs rule: rev_induct)
  case (snoc g gs)
  have "base_value 256 [g div 256, g mod 256] = g" by (simp add: base_value_def)
  with snoc show ?case using base_value_append [of 256 _ "[g div 256, g mod 256]"]
    by (simp add: base_value_snoc)
qed simp

section \<open>Blocks over octets\<close>

lemma block_bytes:
  assumes bytes: "\<forall>b \<in> set bs. b < 256" and w: "w = 8 * length bs" and n: "n = 8 * k + j" and j: "j \<le> 8" and k: "k < length bs"
  shows "in_block w (base_value 256 bs) (n, p) \<longleftrightarrow> base_value 256 (take (Suc k) bs) div 2 ^ (8 - j) = p"
proof -
  have "w - n = 8 * (length bs - Suc k) + (8 - j)" using w n j k by simp
  then have "(2::nat) ^ (w - n) = 256 ^ (length bs - Suc k) * 2 ^ (8 - j)"
    by (simp add: power_add power_mult)
  then show ?thesis
    by (simp add: in_block_def div_mult2_eq base_value_prefix [OF bytes])
qed

lemma and_high_mask:
  fixes b :: nat
  assumes "b < 2 ^ (n + m)"
  shows "b AND push_bit n (mask m) = 2 ^ n * (b div 2 ^ n)"
proof -
  have "b AND push_bit n (mask m) = push_bit n (drop_bit n b AND mask m)"
    by (rule bit_eqI) (auto simp: bit_simps)
  also have "drop_bit n b AND mask m = drop_bit n b"
  proof -
    have "b div 2 ^ n < 2 ^ m" using assms by (simp add: power_add less_mult_imp_div_less mult.commute)
    then show ?thesis by (simp add: drop_bit_eq_div take_bit_nat_eq_self flip: take_bit_eq_mask)
  qed
  finally show ?thesis by (simp add: push_bit_eq_mult drop_bit_eq_div mult.commute)
qed

lemma high_bits:
  assumes "b < (256 :: nat)"
  shows "b AND 0xe0 = 32 * (b div 32)" "b AND 0xf0 = 16 * (b div 16)" "b AND 0xfe = 2 * (b div 2)"
proof -
  have masks: "push_bit 5 (mask 3) = (0xe0 :: nat)" "push_bit 4 (mask 4) = (0xf0 :: nat)" "push_bit 1 (mask 7) = (0xfe :: nat)"
    by (simp_all add: mask_eq_exp_minus_1 push_bit_eq_mult)
  show "b AND 0xe0 = 32 * (b div 32)" "b AND 0xf0 = 16 * (b div 16)" "b AND 0xfe = 2 * (b div 2)"
    using and_high_mask [of b 5 3] and_high_mask [of b 4 4] and_high_mask [of b 1 7] assms by (simp_all only: masks) simp_all
qed


lemma partial_octet:
  fixes a b m n q r :: nat
  assumes "b < m * n" and "0 < m" and "r < n"
  shows "(m * n * a + b) div m = n * q + r \<longleftrightarrow> a = q \<and> m * r \<le> b \<and> b < m * Suc r"
proof -
  have "(m * n * a + b) div m = n * a + b div m" using assms(2) by (simp add: mult.assoc)
  moreover have "b div m < n" using assms(1) by (simp add: less_mult_imp_div_less mult.commute)
  ultimately show ?thesis using digit_eq [of "b div m" n r a q] div_range [of m b r] assms(2,3) by (simp only:)
qed

lemma blocked4_octets:
  assumes "a < 256" "b < 256" "c < 256" "d < 256"
  shows "blocked4 (base_value 256 [a, b, c, d]) \<longleftrightarrow>
    a = 0 \<or> a = 10 \<or> a = 127 \<or> (a = 100 \<and> 64 \<le> b \<and> b \<le> 127) \<or> (a = 169 \<and> b = 254) \<or> (a = 172 \<and> 16 \<le> b \<and> b \<le> 31) \<or>
    (a = 192 \<and> b = 0 \<and> (c = 0 \<or> c = 2)) \<or> (a = 192 \<and> b = 168) \<or> (a = 192 \<and> b = 88 \<and> c = 99) \<or> (a = 198 \<and> (b = 18 \<or> b = 19)) \<or>
    (a = 198 \<and> b = 51 \<and> c = 100) \<or> (a = 203 \<and> b = 0 \<and> c = 113) \<or> 224 \<le> a"
proof -
  let ?v = "base_value 256 [a, b, c, d]"
  have bytes: "\<forall>x \<in> set [a, b, c, d]. x < 256" using assms by simp
  have short: "base_value 256 [a] = a" "base_value 256 [a, b] = 256 * a + b" "base_value 256 [a, b, c] = 65536 * a + 256 * b + c"
    by (simp_all add: base_value_def)
  note block = block_bytes [OF bytes, where w = 32]
  have b8: "in_block 32 ?v (8, p) \<longleftrightarrow> a = p" for p
    using block [of 8 0 8 p] by (simp add: short)
  have b3: "in_block 32 ?v (3, 7) \<longleftrightarrow> 224 \<le> a"
    using block [of 3 0 3 7] div_range [of 32 a 7] assms(1) by (auto simp: short)
  have b10: "in_block 32 ?v (10, 0x191) \<longleftrightarrow> a = 100 \<and> 64 \<le> b \<and> b \<le> 127"
    using block [of 10 1 2 "0x191"] partial_octet [of b 64 4 1 a 100] assms by (auto simp: short)
  have b12: "in_block 32 ?v (12, 0xac1) \<longleftrightarrow> a = 172 \<and> 16 \<le> b \<and> b \<le> 31"
    using block [of 12 1 4 "0xac1"] partial_octet [of b 16 16 1 a 172] assms by (auto simp: short)
  have b15: "in_block 32 ?v (15, 0x6309) \<longleftrightarrow> a = 198 \<and> (b = 18 \<or> b = 19)"
    using block [of 15 1 7 "0x6309"] partial_octet [of b 2 128 9 a 198] assms by (auto simp: short)
  have b16: "in_block 32 ?v (16, p) \<longleftrightarrow> 256 * a + b = p" for p
    by (rule trans [OF block [of 16 1 8 p]]) (simp_all add: short)
  have b24: "in_block 32 ?v (24, p) \<longleftrightarrow> 65536 * a + 256 * b + c = p" for p
    by (rule trans [OF block [of 24 2 8 p]]) (simp_all add: short)
  have n16: "256 * a + b = 0xa9fe \<longleftrightarrow> a = 169 \<and> b = 254" "256 * a + b = 0xc0a8 \<longleftrightarrow> a = 192 \<and> b = 168"
    using assms digit_eq [of b 256 254 a 169] digit_eq [of b 256 168 a 192] by simp_all
  have triple: "65536 * a + 256 * b + c = 65536 * x + 256 * y + z \<longleftrightarrow> a = x \<and> b = y \<and> c = z" if "y < 256" "z < 256" for x y z
    using digit_eq [of c 256 z "256 * a + b" "256 * x + y"] digit_eq [of b 256 y a x] assms that by (simp add: algebra_simps)
  have n24: "65536 * a + 256 * b + c = 0xc00000 \<longleftrightarrow> a = 192 \<and> b = 0 \<and> c = 0" "65536 * a + 256 * b + c = 0xc00002 \<longleftrightarrow> a = 192 \<and> b = 0 \<and> c = 2"
    "65536 * a + 256 * b + c = 0xc05863 \<longleftrightarrow> a = 192 \<and> b = 88 \<and> c = 99" "65536 * a + 256 * b + c = 0xc63364 \<longleftrightarrow> a = 198 \<and> b = 51 \<and> c = 100"
    "65536 * a + 256 * b + c = 0xcb0071 \<longleftrightarrow> a = 203 \<and> b = 0 \<and> c = 113"
    using triple [of 0 0 192] triple [of 0 2 192] triple [of 88 99 192] triple [of 51 100 198] triple [of 0 113 203] by simp_all
  show ?thesis
    unfolding blocked4_def special4_def list_ex_Cons_iff list_ex_Nil_iff b8 b3 b10 b12 b15 b16 b24 n16 n24 by (simp only: disj_ac conj_disj_distribL simp_thms)
qed

lemma list16:
  assumes "length bs = 16"
  obtains a b c d e f bs' where "bs = a # b # c # d # e # f # bs'"
proof -
  have "length bs = Suc (Suc (Suc (Suc (Suc (Suc 10)))))" using assms by simp
  then show ?thesis using that unfolding length_Suc_conv by blast
qed

lemma blocked6_octets:
  assumes bytes: "\<forall>x \<in> set bs. x < 256" and l: "length bs = 16"
  shows "in_block 128 (base_value 256 bs) (3, 1) \<longleftrightarrow> bs ! 0 AND 0xe0 = 0x20"
    and "in_block 128 (base_value 256 bs) (96, 0xffff) \<longleftrightarrow> list_all (\<lambda>b. b = 0) (take 10 bs) \<and> bs ! 10 = 0xff \<and> bs ! 11 = 0xff"
    and "list_ex (in_block 128 (base_value 256 bs)) special6 \<longleftrightarrow>
      bs ! 0 = 0x20 \<and> bs ! 1 = 0x01 \<and> bs ! 2 = 0x0d \<and> bs ! 3 = 0xb8 \<or> bs ! 0 = 0x3f \<and> bs ! 1 = 0xff \<and> bs ! 2 AND 0xf0 = 0 \<or>
      bs ! 0 = 0x20 \<and> bs ! 1 = 0x01 \<and> bs ! 2 = 0 \<and> bs ! 3 = 0x02 \<and> bs ! 4 = 0 \<and> bs ! 5 = 0 \<or>
      bs ! 0 = 0x20 \<and> bs ! 1 = 0x02 \<or> bs ! 0 = 0x20 \<and> bs ! 1 = 0x01 \<and> bs ! 2 = 0 \<and> bs ! 3 = 0 \<or>
      bs ! 0 = 0x20 \<and> bs ! 1 = 0x01 \<and> bs ! 2 AND 0xf0 = 0x10 \<or> bs ! 0 = 0x20 \<and> bs ! 1 = 0x01 \<and> bs ! 2 AND 0xf0 = 0x20"
proof -
  note block = block_bytes [OF bytes, where w = 128, unfolded l, simplified]
  obtain a b c d e f bs' where bs: "bs = a # b # c # d # e # f # bs'" using list16 [OF l] .
  have small: "a < 256" "b < 256" "c < 256" "d < 256" "e < 256" "f < 256" using bytes by (simp_all add: bs)
  show "in_block 128 (base_value 256 bs) (3, 1) \<longleftrightarrow> bs ! 0 AND 0xe0 = 0x20"
    using block [of 3 0 3 1] high_bits [of a] small(1) by (simp add: bs base_value_def)
  show "list_ex (in_block 128 (base_value 256 bs)) special6 \<longleftrightarrow>
      bs ! 0 = 0x20 \<and> bs ! 1 = 0x01 \<and> bs ! 2 = 0x0d \<and> bs ! 3 = 0xb8 \<or> bs ! 0 = 0x3f \<and> bs ! 1 = 0xff \<and> bs ! 2 AND 0xf0 = 0 \<or>
      bs ! 0 = 0x20 \<and> bs ! 1 = 0x01 \<and> bs ! 2 = 0 \<and> bs ! 3 = 0x02 \<and> bs ! 4 = 0 \<and> bs ! 5 = 0 \<or>
      bs ! 0 = 0x20 \<and> bs ! 1 = 0x02 \<or> bs ! 0 = 0x20 \<and> bs ! 1 = 0x01 \<and> bs ! 2 = 0 \<and> bs ! 3 = 0 \<or>
      bs ! 0 = 0x20 \<and> bs ! 1 = 0x01 \<and> bs ! 2 AND 0xf0 = 0x10 \<or> bs ! 0 = 0x20 \<and> bs ! 1 = 0x01 \<and> bs ! 2 AND 0xf0 = 0x20"
  proof -
    have b16: "in_block 128 (base_value 256 bs) (16, 0x2002) \<longleftrightarrow> a = 0x20 \<and> b = 2"
      using block [of 16 1 8] digit_eq [of b 256 2 a "0x20"] small by (simp add: bs base_value_def)
    have b20: "in_block 128 (base_value 256 bs) (20, p) \<longleftrightarrow> 16 * (256 * a + b) + c div 16 = p" for p
      by (rule trans [OF block [of 20 2 4 p]]) (use div_mult_self2 [of 16 c "16 * (256 * a + b)"] in \<open>simp_all add: bs base_value_def algebra_simps\<close>)
    have c: "c div 16 < 16" using small(3) by simp
    have digits20: "16 * (256 * a + b) + c div 16 = 16 * (256 * x + y) + z \<longleftrightarrow> a = x \<and> b = y \<and> c div 16 = z" if "y < 256" "z < 16" for x y z
      using digit_eq [OF c that(2)] digit_eq [OF small(2) that(1)] by (simp only: conj_assoc)
    have n20: "16 * (256 * a + b) + c div 16 = 0x3fff0 \<longleftrightarrow> a = 0x3f \<and> b = 0xff \<and> c div 16 = 0"
      "16 * (256 * a + b) + c div 16 = 0x20011 \<longleftrightarrow> a = 0x20 \<and> b = 1 \<and> c div 16 = 1"
      "16 * (256 * a + b) + c div 16 = 0x20012 \<longleftrightarrow> a = 0x20 \<and> b = 1 \<and> c div 16 = 2"
      using digits20 [of "0xff" 0 "0x3f"] digits20 [of 1 1 "0x20"] digits20 [of 1 2 "0x20"] by simp_all
    have b32: "in_block 128 (base_value 256 bs) (32, p) \<longleftrightarrow> base_value 256 [a, b, c, d] = p" for p
      by (rule trans [OF block [of 32 3 8 p]]) (simp_all add: bs)
    have n32: "base_value 256 [a, b, c, d] = 0x20010db8 \<longleftrightarrow> a = 0x20 \<and> b = 1 \<and> c = 0x0d \<and> d = 0xb8"
      "base_value 256 [a, b, c, d] = 0x20010000 \<longleftrightarrow> a = 0x20 \<and> b = 1 \<and> c = 0 \<and> d = 0"
      using base_value_inj [of "[a, b, c, d]" "[0x20, 1, 0x0d, 0xb8]" 256] base_value_inj [of "[a, b, c, d]" "[0x20, 1, 0, 0]" 256] small
      by (simp_all add: base_value_def)
    have b48: "in_block 128 (base_value 256 bs) (48, 0x200100020000) \<longleftrightarrow> a = 0x20 \<and> b = 1 \<and> c = 0 \<and> d = 2 \<and> e = 0 \<and> f = 0"
      using block [of 48 5 8] base_value_inj [of "[a, b, c, d, e, f]" "[0x20, 1, 0, 2, 0, 0]" 256] small
      by (simp add: bs) (simp add: base_value_def)
    have masks: "(c AND 0xf0 = 0) = (c div 16 = 0)" "(c AND 0xf0 = 0x10) = (c div 16 = 1)" "(c AND 0xf0 = 0x20) = (c div 16 = 2)"
      using high_bits(2) [OF small(3)] by presburger+
    have nth: "bs ! 0 = a" "bs ! 1 = b" "bs ! 2 = c" "bs ! 3 = d" "bs ! 4 = e" "bs ! 5 = f" by (simp_all add: bs)
    show ?thesis
      unfolding special6_def list_ex_Cons_iff list_ex_Nil_iff b16 b20 n20 b32 n32 b48 nth masks by (simp only: disj_ac conj_disj_distribL simp_thms)
  qed
  show "in_block 128 (base_value 256 bs) (96, 0xffff) \<longleftrightarrow> list_all (\<lambda>b. b = 0) (take 10 bs) \<and> bs ! 10 = 0xff \<and> bs ! 11 = 0xff"
  proof -
    let ?m = "replicate 10 (0::nat) @ [0xff, 0xff]"
    have t: "take 12 bs = take 10 bs @ [bs ! 10, bs ! 11]"
      using take_Suc_conv_app_nth [of 10 bs] take_Suc_conv_app_nth [of 11 bs] l by simp
    have m: "base_value 256 ?m = 0xffff"
      by (simp add: base_value_append base_value_zeros) (simp add: base_value_def)
    have "in_block 128 (base_value 256 bs) (96, 0xffff) \<longleftrightarrow> base_value 256 (take 12 bs) = base_value 256 ?m"
      unfolding m using block [of 96 11 8 "0xffff"] by simp
    also have "base_value 256 (take 12 bs) = base_value 256 ?m \<longleftrightarrow> take 12 bs = ?m"
      by (rule base_value_inj) (use l bytes in \<open>auto dest: in_set_takeD\<close>)
    also have "\<dots> \<longleftrightarrow> take 10 bs = replicate 10 0 \<and> bs ! 10 = 0xff \<and> bs ! 11 = 0xff"
      unfolding t using l by (simp add: append_eq_append_conv)
    also have "take 10 bs = replicate 10 0 \<longleftrightarrow> list_all (\<lambda>b. b = 0) (take 10 bs)"
      using l by (auto simp: list_all_iff intro: replicate_eqI)
    finally show ?thesis .
  qed
qed


section \<open>Splitting\<close>

lemma cons_head_nonempty [simp]: "cons_head c xs \<noteq> []"
  by (cases xs) simp_all

lemma split_char_nonempty [simp]: "split_char c s \<noteq> []"
  by (induction s) auto

lemma split_dcolon_nonempty [simp]: "split_dcolon s \<noteq> []"
  by (induction s rule: split_dcolon.induct) auto

lemma join_cons_head: "xs \<noteq> [] \<Longrightarrow> join sep (cons_head c xs) = c # join sep xs"
  by (cases xs; cases "tl xs") auto

lemma join_Nil_Cons: "xs \<noteq> [] \<Longrightarrow> join sep ([] # xs) = sep @ join sep xs"
  by (cases xs) auto

lemma join_split_char: "join [c] (split_char c s) = s"
  by (induction s) (auto simp: join_cons_head join_Nil_Cons)

lemma join_split_dcolon: "join ''::'' (split_dcolon s) = s"
  by (induction s rule: split_dcolon.induct) (auto simp: join_cons_head join_Nil_Cons)

lemma cons_head_append: "xs \<noteq> [] \<Longrightarrow> cons_head c (xs @ ys) = cons_head c xs @ ys"
  by (cases xs) auto

lemma split_char_append: "split_char c (a @ c # b) = split_char c a @ split_char c b"
  by (induction a) (auto simp: cons_head_append)

lemma split_char_free: "c \<notin> set s \<Longrightarrow> split_char c s = [s]"
  by (induction s) auto

lemma split_dcolon_free: "CHR '':'' \<notin> set s \<Longrightarrow> split_dcolon s = [s]"
  by (induction s rule: split_dcolon.induct) auto

lemma cons_head_set: "xs \<noteq> [] \<Longrightarrow> x \<in> set (concat (cons_head c xs)) \<longleftrightarrow> x = c \<or> x \<in> set (concat xs)"
  by (cases xs) auto

lemma split_char_chars: "x \<in> set s \<Longrightarrow> x \<noteq> c \<Longrightarrow> x \<in> set (concat (split_char c s))"
  by (induction s) (simp_all add: cons_head_set del: set_concat, auto)

lemma split_dcolon_chars: "x \<in> set s \<Longrightarrow> x \<noteq> CHR '':'' \<Longrightarrow> x \<in> set (concat (split_dcolon s))"
  by (induction s rule: split_dcolon.induct) (auto simp: cons_head_set simp del: set_concat)

lemma cons_head_free: "xs \<noteq> [] \<Longrightarrow> g \<in> set (cons_head x xs) \<Longrightarrow> (\<And>h. h \<in> set xs \<Longrightarrow> c \<notin> set h) \<Longrightarrow> x \<noteq> c \<Longrightarrow> c \<notin> set g"
  by (cases xs) auto

lemma split_char_pieces_free: "g \<in> set (split_char c s) \<Longrightarrow> c \<notin> set g"
proof (induction s arbitrary: g)
  case (Cons x s)
  then show ?case using cons_head_free [of "split_char c s" g x c] by (auto split: if_splits)
qed simp

lemma cons_head_last: "xs \<noteq> [] \<Longrightarrow> cons_head c (butlast xs @ [last xs @ q]) = butlast (cons_head c xs) @ [last (cons_head c xs) @ q]"
  by (cases xs rule: rev_cases; cases "butlast xs") auto

text \<open>A text without \<open>::\<close> that does not start with a colon stays together with what precedes it.\<close>

lemma split_dcolon_tail:
  assumes "q \<noteq> []" and "hd q \<noteq> CHR '':''" and "split_dcolon q = [q]"
  shows "split_dcolon (x @ q) = butlast (split_dcolon x) @ [last (split_dcolon x) @ q]"
proof (induction x rule: split_dcolon.induct)
  case (2 a)
  obtain b r where "q = b # r" using assms(1) by (cases q) auto
  with assms show ?case by simp
next
  case (3 a b xs)
  then show ?case by (auto simp: cons_head_last)
qed (simp add: assms)


section \<open>Groups\<close>

lemma hex_val_bound: "list_all is_hex s \<Longrightarrow> hex_val s < 16 ^ length s"
  using base_value_bound [of "map radix_digit s" 16] by (auto simp: hex_val_def list_all_iff is_hex_def)

lemma v6_seg_bound: "v6_seg g \<Longrightarrow> hex_val g < 65536"
proof -
  assume g: "v6_seg g"
  then have "hex_val g < 16 ^ length g" by (simp add: v6_seg_def hex_val_bound)
  also have "\<dots> \<le> 16 ^ 4" using g by (intro power_increasing) (simp_all add: v6_seg_def)
  finally show ?thesis by simp
qed

lemma hex_char_class:
  assumes "is_hex c"
  shows "\<not> is_space c" "c \<noteq> CHR ''-''" "c \<noteq> CHR ''+''" "c \<noteq> CHR ''x''" "c \<noteq> CHR ''X''" "c \<noteq> CHR '':''" "c \<noteq> CHR ''.''"
  using assms by (auto simp: is_hex_def radix_digit_def is_digit_def is_space_def code_def split: if_splits)

lemma parseInt16_seg: "v6_seg g \<Longrightarrow> parseInt16 g = Some (int (hex_val g))"
proof -
  assume g: "v6_seg g"
  then obtain c s where g_eq: "g = c # s" and hex: "is_hex c" "list_all is_hex s" by (cases g) (auto simp: v6_seg_def)
  have tw: "takeWhile is_hex s = s" using hex(2) by (simp add: takeWhile_eq_all_conv list_all_iff)
  have "(case s of [] \<Rightarrow> c # s | d # r \<Rightarrow> if c = CHR ''0'' \<and> (d = CHR ''x'' \<or> d = CHR ''X'') then r else c # s) = c # s"
    using hex(2) hex_char_class(4) [of "CHR ''x''"] hex_char_class(5) [of "CHR ''X''"] by (auto split: list.split)
  then show ?thesis
    using hex_char_class(1-3) [OF hex(1)] hex(1) by (simp add: parseInt16_def g_eq tw)
qed

lemma show_hex_hex: "list_all is_hex (show_hex n)"
proof (induction n rule: show_hex.induct)
  case (1 n)
  have "is_hex (hex_char k)" if "k < 16" for k
    using that by (auto simp: is_hex_def hex_char_def radix_digit_def is_digit_def digit_val_def digit_char_def code_def)
  with 1 show ?case by (subst show_hex.simps) auto
qed

lemma hex_val_snoc: "hex_val (s @ [c]) = 16 * hex_val s + radix_digit c"
  by (simp add: hex_val_def base_value_snoc)

lemma hex_val_show_hex: "hex_val (show_hex n) = n"
proof (induction n rule: show_hex.induct)
  case (1 n)
  have d: "radix_digit (hex_char k) = k" if "k < 16" for k
    using that by (auto simp: hex_char_def radix_digit_def is_digit_def digit_val_def digit_char_def code_def)
  show ?case
  proof (cases "n < 16")
    case True
    then show ?thesis using hex_val_snoc [of "[]" "hex_char n"] d by (subst show_hex.simps) (simp add: hex_val_def)
  next
    case False
    with 1 d show ?thesis by (subst show_hex.simps) (simp add: hex_val_snoc)
  qed
qed

lemma show_hex_length: "n < 16 ^ k \<Longrightarrow> 0 < k \<Longrightarrow> length (show_hex n) \<le> k"
proof (induction n arbitrary: k rule: show_hex.induct)
  case (1 n)
  show ?case
  proof (cases "n < 16")
    case True
    with 1 show ?thesis by (subst show_hex.simps) simp
  next
    case False
    with "1.prems" obtain j where k: "k = Suc j" and j: "0 < j" by (cases k; cases "k - 1") auto
    have "n div 16 < 16 ^ j" using "1.prems"(1) k by (simp add: less_mult_imp_div_less mult.commute)
    with "1.IH" False j have "length (show_hex (n div 16)) \<le> j" by blast
    with False k show ?thesis by (subst show_hex.simps) simp
  qed
qed

lemma show_hex_seg: "n < 65536 \<Longrightarrow> v6_seg (show_hex n)"
  using show_hex_length [of n 4] show_hex_hex [of n] by (subst show_hex.simps, auto simp: v6_seg_def) (subst (asm) show_hex.simps, simp)+

lemma v6_seg_plain: "v6_seg g \<Longrightarrow> g \<noteq> [] \<and> CHR '':'' \<notin> set g \<and> CHR ''.'' \<notin> set g"
  using hex_char_class(6,7) by (auto simp: v6_seg_def list_all_iff)

lemma isIPv4_dot: "isIPv4 g \<Longrightarrow> CHR ''.'' \<in> set g"
  by (rule ccontr) (simp add: isIPv4_def split_char_free)

lemma v6_seg_not_v4: "v6_seg g \<Longrightarrow> \<not> isIPv4 g"
  using v6_seg_plain isIPv4_dot by blast

lemma seg_values_Cons: "gs \<noteq> [] \<Longrightarrow> seg_values (g # gs) = hex_val g # seg_values gs"
  by (cases gs) simp_all

lemma seg_count_cases:
  assumes "seg_count gs = Some n"
  shows "list_all v6_seg gs \<and> n = length gs \<and> seg_values gs = map hex_val gs \<or>
    (\<exists>hs q. gs = hs @ [q] \<and> list_all v6_seg hs \<and> isIPv4 q \<and> n = length hs + 2 \<and>
       seg_values gs = map hex_val hs @ [ipv4_value q div 65536, ipv4_value q mod 65536])"
  using assms
proof (induction gs arbitrary: n rule: seg_count.induct)
  case (2 g)
  then show ?case by (auto simp: v6_seg_not_v4 split: if_splits)
next
  case (3 g h gs)
  then obtain m where g: "v6_seg g" and m: "seg_count (h # gs) = Some m" "n = Suc m" by (auto split: if_splits)
  from "3.IH" [OF g m(1)] show ?case
  proof (elim disjE exE conjE)
    fix hs q
    assume "h # gs = hs @ [q]" "list_all v6_seg hs" "isIPv4 q" "m = length hs + 2"
      "seg_values (h # gs) = map hex_val hs @ [ipv4_value q div 65536, ipv4_value q mod 65536]"
    with g m(2) show ?thesis by (intro disjI2 exI [of _ "g # hs"] exI [of _ q]) (simp add: seg_values_Cons)
  qed (use g m(2) in simp)
qed simp

definition as_bytes :: "nat list \<Rightarrow> nat list" where
  "as_bytes gs = concat (map (\<lambda>g. [g div 256, g mod 256]) gs)"

lemma group_bytes_segs:
  assumes "length texts = 8" and "list_all v6_seg texts"
  shows "group_bytes texts = Some (as_bytes (map hex_val texts))"
proof -
  have groups: "map parseInt16 texts = map (\<lambda>g. Some (int (hex_val g))) texts"
    using assms(2) by (auto simp: list_all_iff parseInt16_seg)
  have "\<not> list_ex (\<lambda>g. case g of None \<Rightarrow> True | Some i \<Rightarrow> i < 0 \<or> 0xffff < i) (map (\<lambda>g. Some (int (hex_val g))) texts)"
    using assms(2) v6_seg_bound by (force simp: list_ex_iff list_all_iff)
  moreover have "nat (int v) AND 0xff = v mod 256" for v
    using take_bit_eq_mask [of 8 v] by (simp add: take_bit_eq_mod mask_eq_exp_minus_1)
  ultimately show ?thesis
    unfolding group_bytes_def Let_def groups by (simp add: assms(1) as_bytes_def comp_def drop_bit_eq_div)
qed


section \<open>Every accepted IPv6 text is parsed to its value\<close>

definition plain_bytes :: "string \<Rightarrow> nat list option" where
  "plain_bytes text =
     (let halves = split_dcolon text;
          leftHalf = halves ! 0;
          rightHalf = (if length halves < 2 then [] else halves ! 1);
          left = pieces leftHalf;
          right = (if length halves = 1 \<or> rightHalf = [] then [] else split_char CHR '':'' rightHalf);
          missing = 8 - int (length left) - int (length right)
      in if length halves > 2 then None
         else if length halves = 1 \<and> missing \<noteq> 0 \<or> missing < 0 then None
         else group_bytes (left @ replicate (nat missing) ''0'' @ right))"

lemma zero_seg: "v6_seg ''0''" "hex_val ''0'' = 0"
  by (simp_all add: v6_seg_def is_hex_def hex_val_def base_value_def radix_digit_def is_digit_def digit_val_def code_def)

lemma plain_whole:
  assumes "split_dcolon text = [x]" and "pieces x = gs" and "length gs = 8" and "list_all v6_seg gs"
  shows "plain_bytes text = Some (as_bytes (map hex_val gs))"
  using assms group_bytes_segs [of gs] by (simp add: plain_bytes_def)

lemma plain_halves:
  assumes "split_dcolon text = [l, r]" and "pieces l = ls" and "pieces r = rs" and "length ls + length rs \<le> 8"
    and "list_all v6_seg ls" and "list_all v6_seg rs"
  shows "plain_bytes text = Some (as_bytes (map hex_val ls @ replicate (8 - length ls - length rs) 0 @ map hex_val rs))"
proof -
  let ?n = "8 - length ls - length rs"
  have "(if r = [] then [] else split_char CHR '':'' r) = rs" using assms(3) by (simp add: pieces_def)
  moreover have "nat (8 - int (length ls) - int (length rs)) = ?n" using assms(4) by linarith
  ultimately have "plain_bytes text = group_bytes (ls @ replicate ?n ''0'' @ rs)"
    using assms(1,2,4) by (simp add: plain_bytes_def)
  also have "\<dots> = Some (as_bytes (map hex_val (ls @ replicate ?n ''0'' @ rs)))"
    by (rule group_bytes_segs) (use assms(4-6) zero_seg(1) in \<open>auto simp: list_all_iff\<close>)
  finally show ?thesis by (simp add: zero_seg)
qed

text \<open>A half whose last piece is \<open>q\<close>, and what replacing that piece by two others does.\<close>

lemma half_last:
  assumes "pieces h = gs @ [q]"
  obtains u where "h = u @ q" and "u = [] \<longleftrightarrow> gs = []" and "u \<noteq> [] \<Longrightarrow> last u = CHR '':''"
    and "\<And>x y. x \<noteq> [] \<Longrightarrow> CHR '':'' \<notin> set x \<Longrightarrow> CHR '':'' \<notin> set y \<Longrightarrow> pieces (u @ x @ '':'' @ y) = gs @ [x, y]"
proof -
  have split: "split_char CHR '':'' h = gs @ [q]" and "h \<noteq> []" using assms by (auto simp: pieces_def split: if_splits)
  have join: "join '':'' (gs @ [q]) = h" using join_split_char [of "CHR '':''" h] split by simp
  have join_snoc: "join '':'' (gs @ [q]) = join '':'' gs @ '':'' @ q" if "gs \<noteq> []"
    using that by (induction gs rule: join.induct [of _ "'':''"]) auto
  show ?thesis
  proof (cases "gs = []")
    case True
    with join that [of "[]"] show ?thesis by (simp add: pieces_def split_char_append split_char_free)
  next
    case False
    let ?u = "join '':'' gs @ '':''"
    have h: "h = join '':'' gs @ CHR '':'' # q" using join join_snoc [OF False] by simp
    have "CHR '':'' \<notin> set q" using split_char_pieces_free [of q "CHR '':''" h] split by simp
    then have "split_char CHR '':'' (join '':'' gs) = gs"
      using split by (simp add: h split_char_append split_char_free)
    then show ?thesis
      using that [of ?u] h False by (simp add: pieces_def split_char_append split_char_free)
  qed
qed


lemma last_colon:
  assumes "CHR '':'' \<notin> set q"
  shows "after_last_colon (p @ '':'' @ q) = q" and "before_last_colon (p @ '':'' @ q) = p"
proof -
  have q: "\<forall>c \<in> set (rev q). c \<noteq> CHR '':''" using assms by auto
  show "after_last_colon (p @ '':'' @ q) = q" "before_last_colon (p @ '':'' @ q) = p"
    using takeWhile_append2 [of "rev q" "\<lambda>c. c \<noteq> CHR '':''"] dropWhile_append2 [of "rev q" "\<lambda>c. c \<noteq> CHR '':''"] q
    by (simp_all add: after_last_colon_def before_last_colon_def)
qed

lemma octets_v4:
  assumes "isIPv4 q"
  obtains a b c d where "octets q = [a, b, c, d]" and "a < 256" and "b < 256" and "c < 256" and "d < 256"
proof -
  obtain s1 s2 s3 s4 where segs: "split_char CHR ''.'' q = [s1, s2, s3, s4]"
    using assms unfolding isIPv4_def by (auto simp: length_Suc_conv numeral_eq_Suc)
  moreover from assms segs have "list_all v4_seg [s1, s2, s3, s4]" by (simp add: isIPv4_def)
  ultimately show ?thesis using that by (auto simp: octets_def v4_seg_def)
qed

lemma or_octet: "b < 256 \<Longrightarrow> push_bit 8 a OR b = 256 * a + b" for a b :: nat
proof -
  assume "b < 256"
  then have b: "take_bit 8 b = b" by (simp add: take_bit_nat_eq_self)
  have "push_bit 8 a + b = push_bit 8 a OR b"
  proof (rule disjunctive_add_eq_or, rule bit_eqI)
    fix n
    show "bit (push_bit 8 a AND b) n = bit (0::nat) n"
      using arg_cong [OF b, of "\<lambda>x. bit x n"] by (auto simp: bit_simps)
  qed
  then show ?thesis by (simp add: push_bit_eq_mult mult.commute)
qed

lemma parseIpv4_octets:
  assumes "isIPv4 q" and "octets q = [a, b, c, d]"
  shows "parseIpv4 q = Some (a, b, c, d)"
  using assms by (simp add: parseIpv4_def isIP_def octets_def)

lemma single_colon:
  assumes "CHR '':'' \<notin> set x" and "CHR '':'' \<notin> set y" and "y \<noteq> []"
  shows "split_dcolon (x @ CHR '':'' # y) = [x @ CHR '':'' # y]"
  using assms(1)
proof (induction x)
  case Nil
  obtain b r where y: "y = b # r" using assms(3) by (cases y) auto
  with assms(2) show ?case by (auto simp: split_dcolon_free)
next
  case (Cons a x)
  then show ?case by (cases x) auto
qed

text \<open>The rewriting of a trailing dotted quad keeps every other group and the value.\<close>

lemma quad_rewritten:
  assumes s: "s = y @ h" and h: "pieces h = hs @ [q]" and q: "isIPv4 q"
    and y: "y = [] \<Longrightarrow> hs \<noteq> []" "y \<noteq> [] \<Longrightarrow> last y = CHR '':''" and split: "split_dcolon s = S @ [h]"
  obtains tx h' x1 x2 where "map_option (quad_as_hex (before_last_colon s)) (parseIpv4 (after_last_colon s)) = Some tx"
    and "split_dcolon tx = S @ [h']" and "pieces h' = hs @ [x1, x2]" and "v6_seg x1" and "v6_seg x2"
    and "hex_val x1 = ipv4_value q div 65536" and "hex_val x2 = ipv4_value q mod 65536"
proof -
  obtain u where u: "h = u @ q" "u = [] \<longleftrightarrow> hs = []" "u \<noteq> [] \<Longrightarrow> last u = CHR '':''"
    and two: "\<And>x y. x \<noteq> [] \<Longrightarrow> CHR '':'' \<notin> set x \<Longrightarrow> CHR '':'' \<notin> set y \<Longrightarrow> pieces (u @ x @ '':'' @ y) = hs @ [x, y]"
    using half_last [OF h] by metis
  have free: "CHR '':'' \<notin> set q"
    using h split_char_pieces_free [of q "CHR '':''" h] by (auto simp: pieces_def split: if_splits)
  have q_ne: "q \<noteq> []" using isIPv4_dot [OF q] by auto
  have yu: "y @ u \<noteq> []" "last (y @ u) = CHR '':''" by (cases "u = []"; cases "y = []"; use y u(2,3) in auto)+
  define p where "p = butlast (y @ u)"
  have p: "y @ u = p @ '':''" using append_butlast_last_id [OF yu(1)] yu(2) by (simp add: p_def)
  have s': "s = p @ '':'' @ q" using s u(1) p by (metis append.assoc)
  obtain a b c d where o: "octets q = [a, b, c, d]" "a < 256" "b < 256" "c < 256" "d < 256" using octets_v4 [OF q] .
  let ?x1 = "show_hex (256 * a + b)" and ?x2 = "show_hex (256 * c + d)"
  have v: "ipv4_value q = (256 * a + b) * 65536 + (256 * c + d)" by (simp add: ipv4_value_def o base_value_def)
  have small: "256 * a + b < 65536" "256 * c + d < 65536" using o(2-5) by simp_all
  have low: "(x * 65536 + z) div 65536 = x \<and> (x * 65536 + z) mod 65536 = z" if "z < 65536" for x z :: nat using that by simp
  note seg = show_hex_seg [OF small(1)] show_hex_seg [OF small(2)]
  note plain = v6_seg_plain [OF seg(1)] v6_seg_plain [OF seg(2)]
  have hd: "hd (?x1 @ '':'' @ ?x2) \<noteq> CHR '':''" using plain(1) by (cases ?x1) auto
  have one: "split_dcolon (?x1 @ '':'' @ ?x2) = [?x1 @ '':'' @ ?x2]" using single_colon plain by simp
  have hq: "hd q \<noteq> CHR '':''" using free q_ne by (cases q) auto
  from split_dcolon_tail [OF q_ne hq split_dcolon_free [OF free], of "y @ u"]
  have T: "butlast (split_dcolon (y @ u)) = S" "last (split_dcolon (y @ u)) = u"
    using split s u(1) by simp_all
  have "map_option (quad_as_hex (before_last_colon s)) (parseIpv4 (after_last_colon s)) = Some ((y @ u) @ ?x1 @ '':'' @ ?x2)"
    using last_colon [OF free, of p] parseIpv4_octets [OF q o(1)] by (simp add: s' p quad_as_hex_def or_octet o)
  moreover have "split_dcolon ((y @ u) @ ?x1 @ '':'' @ ?x2) = S @ [u @ ?x1 @ '':'' @ ?x2]"
    using split_dcolon_tail [OF _ hd one, of "y @ u"] T by simp
  moreover have "pieces (u @ ?x1 @ '':'' @ ?x2) = hs @ [?x1, ?x2]" using two plain by blast
  moreover have "hex_val ?x1 = ipv4_value q div 65536" "hex_val ?x2 = ipv4_value q mod 65536"
    unfolding hex_val_show_hex v by (simp_all only: low [OF small(2)])
  ultimately show ?thesis using that seg by blast
qed

text \<open>The reference value of an accepted tx has eight groups, and the parser returns their bytes.\<close>

definition normal_text :: "string \<Rightarrow> string option" where
  "normal_text s =
     (if CHR ''.'' \<in> set s then map_option (quad_as_hex (before_last_colon s)) (parseIpv4 (after_last_colon s)) else Some s)"

lemma parse_groups_whole:
  assumes split: "split_dcolon s = [x]" and count: "seg_count (split_char CHR '':'' x) = Some 8"
  shows "length (ipv6_groups s) = 8 \<and> (\<exists>tx. normal_text s = Some tx \<and> plain_bytes tx = Some (as_bytes (ipv6_groups s)))"
proof -
  have x: "s = x" using join_split_dcolon [of s] split by simp
  have "x \<noteq> []" using count by (auto simp: v6_seg_def isIPv4_def v4_seg_def)
  then have p: "pieces x = split_char CHR '':'' x" by (simp add: pieces_def)
  have g: "ipv6_groups s = seg_values (pieces x)" by (simp add: ipv6_groups_def split)
  from seg_count_cases [OF count] show ?thesis
  proof (elim disjE exE conjE)
    assume plain: "list_all v6_seg (split_char CHR '':'' x)" "8 = length (split_char CHR '':'' x)"
      "seg_values (split_char CHR '':'' x) = map hex_val (split_char CHR '':'' x)"
    have "CHR ''.'' \<notin> set s"
      using split_char_chars [of "CHR ''.''" s "CHR '':''"] plain(1) v6_seg_plain by (fastforce simp: x list_all_iff)
    then have "normal_text s = Some s" by (simp add: normal_text_def)
    moreover have "plain_bytes s = Some (as_bytes (map hex_val (pieces x)))"
      by (rule plain_whole [OF split]) (use plain p in simp_all)
    ultimately show ?thesis using g p plain by simp
  next
    fix hs q
    assume dotted: "split_char CHR '':'' x = hs @ [q]" "list_all v6_seg hs" "isIPv4 q" "8 = length hs + 2"
      "seg_values (split_char CHR '':'' x) = map hex_val hs @ [ipv4_value q div 65536, ipv4_value q mod 65536]"
    obtain tx h' x1 x2 where t: "map_option (quad_as_hex (before_last_colon s)) (parseIpv4 (after_last_colon s)) = Some tx"
      "split_dcolon tx = [] @ [h']" "pieces h' = hs @ [x1, x2]" "v6_seg x1" "v6_seg x2"
      "hex_val x1 = ipv4_value q div 65536" "hex_val x2 = ipv4_value q mod 65536"
      by (rule quad_rewritten [of s "[]" x hs q "[]"]) (use dotted p x split in auto)
    have "x = join '':'' (hs @ [q])" using join_split_char [of "CHR '':''" x] dotted(1) by simp
    moreover have "CHR ''.'' \<in> set (join '':'' (gs @ [q]))" for gs
      using isIPv4_dot [OF dotted(3)] by (induction gs rule: join.induct [of _ "'':''"]) auto
    ultimately have "normal_text s = Some tx" using t(1) by (simp add: normal_text_def x)
    moreover have "plain_bytes tx = Some (as_bytes (map hex_val (hs @ [x1, x2])))"
      by (rule plain_whole [of tx h']) (use t dotted in simp_all)
    ultimately show ?thesis using g p dotted t by simp
  qed
qed


lemma seg_values_plain: "list_all v6_seg gs \<Longrightarrow> seg_values gs = map hex_val gs"
  by (induction gs rule: seg_values.induct) (auto simp: v6_seg_not_v4)

lemma pieces_no_dot:
  assumes "list_all v6_seg (pieces h)"
  shows "CHR ''.'' \<notin> set h"
proof
  assume dot: "CHR ''.'' \<in> set h"
  then have "pieces h = split_char CHR '':'' h" by (auto simp: pieces_def)
  with split_char_chars [OF dot, of "CHR '':''"] obtain g where "g \<in> set (pieces h)" "CHR ''.'' \<in> set g" by auto
  with assms v6_seg_plain [of g] show False by (simp add: list_all_iff)
qed

lemma parse_groups_halves:
  assumes split: "split_dcolon s = [l, r]" and left: "list_all v6_seg (pieces l)"
    and count: "seg_count (pieces r) = Some n" and len: "length (pieces l) + n \<le> 7"
  shows "length (ipv6_groups s) = 8 \<and> (\<exists>tx. normal_text s = Some tx \<and> plain_bytes tx = Some (as_bytes (ipv6_groups s)))"
proof -
  have s: "s = l @ ''::'' @ r" using join_split_dcolon [of s] split by simp
  have g: "ipv6_groups s = map hex_val (pieces l) @ replicate (8 - length (pieces l) - length (seg_values (pieces r))) 0 @ seg_values (pieces r)"
    by (simp add: ipv6_groups_def split seg_values_plain [OF left] Let_def)
  note no_dot = pieces_no_dot
  from seg_count_cases [OF count] show ?thesis
  proof (elim disjE exE conjE)
    assume plain: "list_all v6_seg (pieces r)" "n = length (pieces r)" "seg_values (pieces r) = map hex_val (pieces r)"
    have "normal_text s = Some s" using no_dot [OF left] no_dot [OF plain(1)] by (simp add: normal_text_def s)
    moreover have "plain_bytes s = Some (as_bytes (map hex_val (pieces l) @ replicate (8 - length (pieces l) - length (pieces r)) 0 @ map hex_val (pieces r)))"
      by (rule plain_halves [OF split refl refl]) (use plain left len in simp_all)
    ultimately show ?thesis using g plain len by simp
  next
    fix hs q
    assume dotted: "pieces r = hs @ [q]" "list_all v6_seg hs" "isIPv4 q" "n = length hs + 2"
      "seg_values (pieces r) = map hex_val hs @ [ipv4_value q div 65536, ipv4_value q mod 65536]"
    obtain tx h' x1 x2 where t: "map_option (quad_as_hex (before_last_colon s)) (parseIpv4 (after_last_colon s)) = Some tx"
      "split_dcolon tx = [l] @ [h']" "pieces h' = hs @ [x1, x2]" "v6_seg x1" "v6_seg x2"
      "hex_val x1 = ipv4_value q div 65536" "hex_val x2 = ipv4_value q mod 65536"
      by (rule quad_rewritten [of s "l @ ''::''" r hs q "[l]"]) (use dotted s split in auto)
    obtain u where "r = u @ q" using half_last [OF dotted(1)] by metis
    then have "normal_text s = Some tx" using t(1) isIPv4_dot [OF dotted(3)] by (simp add: normal_text_def s)
    moreover have "plain_bytes tx = Some (as_bytes (map hex_val (pieces l) @ replicate (8 - length (pieces l) - length (hs @ [x1, x2])) 0 @ map hex_val (hs @ [x1, x2])))"
      by (rule plain_halves [of tx l h']) (use t dotted left len in simp_all)
    ultimately show ?thesis using g dotted t len by simp
  qed
qed

lemma parse_groups:
  assumes "v6_address s"
  shows "length (ipv6_groups s) = 8" and "\<exists>tx. normal_text s = Some tx \<and> plain_bytes tx = Some (as_bytes (ipv6_groups s))"
proof -
  consider x where "split_dcolon s = [x]" "seg_count (split_char CHR '':'' x) = Some 8"
    | l r n where "split_dcolon s = [l, r]" "list_all v6_seg (pieces l)" "seg_count (pieces r) = Some n" "length (pieces l) + n \<le> 7"
    using assms by (auto simp: v6_address_def split: list.splits option.splits)
  then have "length (ipv6_groups s) = 8 \<and> (\<exists>tx. normal_text s = Some tx \<and> plain_bytes tx = Some (as_bytes (ipv6_groups s)))"
  proof cases
    case 1
    then show ?thesis by (rule parse_groups_whole)
  next
    case 2
    then show ?thesis by (rule parse_groups_halves)
  qed
  then show "length (ipv6_groups s) = 8" "\<exists>tx. normal_text s = Some tx \<and> plain_bytes tx = Some (as_bytes (ipv6_groups s))" by blast+
qed

section \<open>Letter case\<close>

lemma code_lower: "code (lower_char c) = (if 65 \<le> code c \<and> code c \<le> 90 \<or> 192 \<le> code c \<and> code c \<le> 222 \<and> code c \<noteq> 215 then code c + 32 else code c)"
  by (auto simp: lower_char_def code_def)

lemma code_inject: "code c = code d \<longleftrightarrow> c = d"
  by (simp add: code_def)

lemma lower_fixed:
  "lower_char c = CHR '':'' \<longleftrightarrow> c = CHR '':''" "lower_char c = CHR ''.'' \<longleftrightarrow> c = CHR ''.''" "lower_char c = CHR ''%'' \<longleftrightarrow> c = CHR ''%''"
  "is_digit (lower_char c) = is_digit c" "digit_val (lower_char c) = (if is_digit c then digit_val c else digit_val (lower_char c))"
  "radix_digit (lower_char c) = radix_digit c" "lower_char c = CHR ''0'' \<longleftrightarrow> c = CHR ''0''"
proof -
  have "code CHR '':'' = 58" "code CHR ''.'' = 46" "code CHR ''%'' = 37" "code CHR ''0'' = 48" by (simp_all add: code_def)
  then show "lower_char c = CHR '':'' \<longleftrightarrow> c = CHR '':''" "lower_char c = CHR ''.'' \<longleftrightarrow> c = CHR ''.''"
    "lower_char c = CHR ''%'' \<longleftrightarrow> c = CHR ''%''" "lower_char c = CHR ''0'' \<longleftrightarrow> c = CHR ''0''"
    unfolding code_inject [symmetric] code_lower by auto
  show "is_digit (lower_char c) = is_digit c" by (auto simp: is_digit_def code_lower)
  show "digit_val (lower_char c) = (if is_digit c then digit_val c else digit_val (lower_char c))"
    by (auto simp: is_digit_def digit_val_def code_lower)
  show "radix_digit (lower_char c) = radix_digit c" by (auto simp: radix_digit_def is_digit_def digit_val_def code_lower)
qed

lemma cons_head_map: "cons_head (f c) (map (map f) xs) = map (map f) (cons_head c xs)"
  by (cases xs) auto

lemma split_lower:
  "split_char CHR '':'' (toLowerCase s) = map toLowerCase (split_char CHR '':'' s)"
  "split_char CHR ''.'' (toLowerCase s) = map toLowerCase (split_char CHR ''.'' s)"
  "split_dcolon (toLowerCase s) = map toLowerCase (split_dcolon s)"
proof -
  have eq: "toLowerCase = map lower_char" by (simp add: toLowerCase_def [abs_def])
  show "split_char CHR '':'' (toLowerCase s) = map toLowerCase (split_char CHR '':'' s)"
    "split_char CHR ''.'' (toLowerCase s) = map toLowerCase (split_char CHR ''.'' s)"
    unfolding eq by (induction s) (auto simp: lower_fixed cons_head_map)
  show "split_dcolon (toLowerCase s) = map toLowerCase (split_dcolon s)"
    unfolding eq by (induction s rule: split_dcolon.induct) (auto simp: lower_fixed cons_head_map)
qed

lemma lower_Nil [simp]: "toLowerCase s = [] \<longleftrightarrow> s = []"
  by (simp add: toLowerCase_def)

lemma seg_lower:
  "v6_seg (toLowerCase g) = v6_seg g" "hex_val (toLowerCase g) = hex_val g" "pieces (toLowerCase s) = map toLowerCase (pieces s)"
  by (simp_all add: v6_seg_def hex_val_def is_hex_def toLowerCase_def list_all_iff lower_fixed comp_def)
     (simp add: pieces_def split_lower flip: toLowerCase_def)

lemma digits_lower: "list_all is_digit s \<Longrightarrow> toLowerCase s = s"
proof (induction s)
  case (Cons c s)
  then have "lower_char c = c" by (auto simp: lower_char_def is_digit_def)
  with Cons show ?case by (simp add: toLowerCase_def)
qed (simp add: toLowerCase_def)

lemma v4_lower: "v4_seg (toLowerCase g) = v4_seg g" "isIPv4 (toLowerCase q) = isIPv4 q" "isIPv4 q \<Longrightarrow> ipv4_value (toLowerCase q) = ipv4_value q"
proof -
  have digits: "list_all is_digit (toLowerCase g) = list_all is_digit g" for g
    by (simp add: toLowerCase_def list_all_iff lower_fixed)
  show seg: "v4_seg (toLowerCase g) = v4_seg g" for g
    using digits_lower [of g] digits [of g] by (cases "list_all is_digit g") (auto simp: v4_seg_def)
  show "isIPv4 (toLowerCase q) = isIPv4 q" by (simp add: isIPv4_def split_lower list_all_iff seg)
  show "ipv4_value (toLowerCase q) = ipv4_value q" if "isIPv4 q"
  proof -
    have "map toLowerCase (split_char CHR ''.'' q) = split_char CHR ''.'' q"
      by (rule map_idI) (use that in \<open>auto simp: isIPv4_def list_all_iff v4_seg_def digits_lower\<close>)
    then show ?thesis by (simp add: ipv4_value_def octets_def split_lower)
  qed
qed

lemma segs_lower: "seg_count (map toLowerCase gs) = seg_count gs" "seg_values (map toLowerCase gs) = seg_values gs"
proof -
  show "seg_count (map toLowerCase gs) = seg_count gs" by (induction gs rule: seg_count.induct) (simp_all add: seg_lower v4_lower)
  show "seg_values (map toLowerCase gs) = seg_values gs" by (induction gs rule: seg_values.induct) (simp_all add: seg_lower v4_lower)
qed

lemma address_lower: "v6_address (toLowerCase s) = v6_address s" "ipv6_groups (toLowerCase s) = ipv6_groups s"
proof -
  have all: "list_all v6_seg (map toLowerCase gs) = list_all v6_seg gs" for gs by (simp add: list_all_iff seg_lower)
  show "v6_address (toLowerCase s) = v6_address s"
    by (auto simp: v6_address_def split_lower segs_lower seg_lower all list_all_iff split: list.split option.split)
  show "ipv6_groups (toLowerCase s) = ipv6_groups s"
    by (auto simp: ipv6_groups_def split_lower segs_lower seg_lower split: list.split)
qed


section \<open>The test decides membership in the table\<close>

lemma before_percent_free [simp]: "CHR ''%'' \<notin> set (before_percent s)"
  unfolding before_percent_def using set_takeWhileD by fastforce

lemma before_percent_id: "CHR ''%'' \<notin> set s \<Longrightarrow> before_percent s = s"
  unfolding before_percent_def takeWhile_eq_all_conv by blast

lemma percent_lower: "CHR ''%'' \<in> set (toLowerCase s) \<longleftrightarrow> CHR ''%'' \<in> set s"
  unfolding toLowerCase_def set_map image_iff using lower_fixed(3) by metis

lemma isIP_plain:
  assumes "CHR ''%'' \<notin> set s"
  shows "isIP s = (if isIPv4 s then 4 else if v6_address s then 6 else 0)" and "isIP (toLowerCase s) = isIP s"
proof -
  have plain: "isIPv6 t = v6_address t" if "CHR ''%'' \<notin> set t" for t
  proof -
    have drop: "dropWhile (\<lambda>c. c \<noteq> CHR ''%'') t = []" using that unfolding dropWhile_eq_Nil_conv by blast
    show ?thesis unfolding isIPv6_def drop before_percent_id [OF that] by simp
  qed
  show "isIP s = (if isIPv4 s then 4 else if v6_address s then 6 else 0)" using plain [OF assms] by (simp add: isIP_def)
  have "CHR ''%'' \<notin> set (toLowerCase s)" using assms by (simp add: percent_lower)
  then show "isIP (toLowerCase s) = isIP s"
    using plain [OF assms] plain by (simp add: isIP_def v4_lower address_lower)
qed

lemma parseIpv6_exact:
  assumes "CHR ''%'' \<notin> set s"
  shows "parseIpv6 s = (if isIP s = 6 then Some (as_bytes (ipv6_groups s)) else None)"
proof (cases "isIP s = 6")
  case True
  let ?n = "toLowerCase s"
  have n: "before_percent ?n = ?n" "isIP ?n = 6"
    using assms isIP_plain(2) [OF assms] True by (simp_all add: percent_lower before_percent_id)
  have "v6_address ?n" using True isIP_plain(1) [OF assms] by (simp add: address_lower split: if_splits)
  then obtain tx where tx: "normal_text ?n = Some tx" "plain_bytes tx = Some (as_bytes (ipv6_groups ?n))" using parse_groups(2) by blast
  have "parseIpv6 s = (case normal_text ?n of None \<Rightarrow> None | Some tx \<Rightarrow> plain_bytes tx)"
    unfolding parseIpv6_def normal_text_def plain_bytes_def Let_def n by simp
  with tx True show ?thesis by (simp add: address_lower)
next
  case False
  then show ?thesis
    using assms isIP_plain(2) [OF assms] by (simp add: parseIpv6_def percent_lower before_percent_id)
qed

lemma seg_values_bound:
  assumes "seg_count gs = Some n"
  shows "\<forall>g \<in> set (seg_values gs). g < 65536"
proof -
  have "ipv4_value q div 65536 < 65536" if v4: "isIPv4 q" for q
  proof -
    obtain a b c d where "octets q = [a, b, c, d]" "a < 256" "b < 256" "c < 256" "d < 256" using octets_v4 [OF v4] by metis
    then have "ipv4_value q < 256 ^ 4" using base_value_bound [of "octets q" 256] by (simp add: ipv4_value_def)
    then show ?thesis by simp
  qed
  with seg_count_cases [OF assms] show ?thesis by (auto simp: list_all_iff v6_seg_bound)
qed

lemma groups_bound: "v6_address s \<Longrightarrow> \<forall>g \<in> set (ipv6_groups s). g < 65536"
proof -
  assume "v6_address s"
  then consider x where "split_dcolon s = [x]" "seg_count (split_char CHR '':'' x) = Some 8"
    | l r n where "split_dcolon s = [l, r]" "list_all v6_seg (pieces l)" "seg_count (pieces r) = Some n"
    by (auto simp: v6_address_def split: list.splits option.splits)
  then show ?thesis
  proof cases
    case 1
    have "ipv6_groups s = seg_values (pieces x)" by (simp add: ipv6_groups_def 1(1))
    moreover have "pieces x = [] \<or> pieces x = split_char CHR '':'' x" by (simp add: pieces_def)
    ultimately show ?thesis using seg_values_bound [OF 1(2)] by (metis empty_iff empty_set seg_values.simps(1))
  next
    case 2
    have left: "\<forall>g \<in> set (map hex_val (pieces l)). g < 65536" using 2(2) by (simp add: list_all_iff v6_seg_bound)
    have groups: "ipv6_groups s = map hex_val (pieces l) @ replicate (8 - length (pieces l) - length (seg_values (pieces r))) 0 @ seg_values (pieces r)"
      by (simp add: ipv6_groups_def 2(1) seg_values_plain [OF 2(2)] Let_def)
    show ?thesis unfolding groups using left seg_values_bound [OF 2(3)] by auto
  qed
qed

lemma as_bytes_facts:
  assumes "\<forall>g \<in> set gs. g < 65536"
  shows "length (as_bytes gs) = 2 * length gs" and "\<forall>b \<in> set (as_bytes gs). b < 256" and "base_value 256 (as_bytes gs) = base_value 65536 gs"
proof -
  show "length (as_bytes gs) = 2 * length gs" by (induction gs) (simp_all add: as_bytes_def)
  show "\<forall>b \<in> set (as_bytes gs). b < 256" using assms by (auto simp: as_bytes_def less_mult_imp_div_less)
  show "base_value 256 (as_bytes gs) = base_value 65536 gs" unfolding as_bytes_def by (rule base_value_pairs [OF assms])
qed

lemma show_nat_no_zero: "10 \<le> n \<Longrightarrow> hd (show_nat n) \<noteq> CHR ''0''"
proof (induction n rule: show_nat.induct)
  case (1 n)
  have "digit_char k \<noteq> CHR ''0''" if "0 < k" "k < 10" for k
    using that digit_val_char [of k] by (auto simp: digit_val_def code_def)
  then have "hd (show_nat (n div 10)) \<noteq> CHR ''0''" if "n div 10 < 10"
    using that 1 by (subst show_nat.simps) simp
  moreover have "hd (show_nat (n div 10)) \<noteq> CHR ''0''" if "\<not> n div 10 < 10" using 1 that by simp
  ultimately show ?case using "1.prems" by (subst show_nat.simps) auto
qed

lemma show_octet: "n < 256 \<Longrightarrow> v4_seg (show_nat n)"
proof -
  assume n: "n < 256"
  have "hd (show_nat n) = CHR ''0'' \<Longrightarrow> length (show_nat n) = 1"
    using show_nat_no_zero [of n] by (cases "n < 10") (subst show_nat.simps, simp)+
  with n show ?thesis using show_nat_length [of n 3] by (simp add: v4_seg_def)
qed

lemma embedded_quad:
  assumes "a < 256" "b < 256" "c < 256" "d < 256"
  shows "isIPv4 (join ''.'' (map show_nat [a, b, c, d]))" and "octets (join ''.'' (map show_nat [a, b, c, d])) = [a, b, c, d]"
proof -
  have free: "CHR ''.'' \<notin> set (show_nat n)" for n
    using show_nat_digits [of n] by (auto simp: list_all_iff is_digit_def code_def)
  have "split_char CHR ''.'' (join ''.'' (map show_nat [a, b, c, d])) = map show_nat [a, b, c, d]"
    by (simp add: split_char_append split_char_free free)
  then show "isIPv4 (join ''.'' (map show_nat [a, b, c, d]))" "octets (join ''.'' (map show_nat [a, b, c, d])) = [a, b, c, d]"
    using assms by (simp_all add: isIPv4_def octets_def show_octet)
qed

lemma isUnsafeIpv4_exact: "isUnsafeIpv4 q \<longleftrightarrow> isIPv4 q \<and> blocked4 (ipv4_value q)"
proof (cases "isIPv4 q")
  case True
  obtain a b c d where o: "octets q = [a, b, c, d]" "a < 256" "b < 256" "c < 256" "d < 256" using octets_v4 [OF True] .
  show ?thesis
    using blocked4_octets [OF o(2-5)] True by (simp add: isUnsafeIpv4_def parseIpv4_octets [OF True o(1)] ipv4_value_def o(1))
next
  case False
  then show ?thesis by (simp add: isUnsafeIpv4_def parseIpv4_def isIP_def)
qed


definition unsafe_bytes :: "nat list \<Rightarrow> bool" where
  "unsafe_bytes bs \<longleftrightarrow>
     (if list_all (\<lambda>b. b = 0) (take 10 bs) \<and> bs ! 10 = 0xff \<and> bs ! 11 = 0xff then isUnsafeIpv4 (join ''.'' (map show_nat (drop 12 bs)))
      else \<not> (bs ! 0 AND 0xe0 = 0x20) \<or>
        bs ! 0 = 0x20 \<and> bs ! 1 = 0x01 \<and> bs ! 2 = 0x0d \<and> bs ! 3 = 0xb8 \<or> bs ! 0 = 0x3f \<and> bs ! 1 = 0xff \<and> bs ! 2 AND 0xf0 = 0 \<or>
        bs ! 0 = 0x20 \<and> bs ! 1 = 0x01 \<and> bs ! 2 = 0 \<and> bs ! 3 = 0x02 \<and> bs ! 4 = 0 \<and> bs ! 5 = 0 \<or>
        bs ! 0 = 0x20 \<and> bs ! 1 = 0x02 \<or> bs ! 0 = 0x20 \<and> bs ! 1 = 0x01 \<and> bs ! 2 = 0 \<and> bs ! 3 = 0 \<or>
        bs ! 0 = 0x20 \<and> bs ! 1 = 0x01 \<and> bs ! 2 AND 0xf0 = 0x10 \<or> bs ! 0 = 0x20 \<and> bs ! 1 = 0x01 \<and> bs ! 2 AND 0xf0 = 0x20)"

lemma blocked6_bytes:
  assumes bytes: "\<forall>x \<in> set bs. x < 256" and l: "length bs = 16"
  shows "blocked6 (base_value 256 bs) \<longleftrightarrow> unsafe_bytes bs"
proof -
  obtain a b c d where tail: "drop 12 bs = [a, b, c, d]"
  proof -
    have "length (drop 12 bs) = Suc (Suc (Suc (Suc 0)))" using l by simp
    then show ?thesis using that unfolding length_Suc_conv by auto
  qed
  have small: "a < 256" "b < 256" "c < 256" "d < 256"
    using bytes tail by (metis in_set_dropD list.set_intros(1,2))+
  have "base_value 256 bs = base_value 256 (take 12 bs) * 256 ^ 4 + base_value 256 [a, b, c, d]"
    using base_value_append [of 256 "take 12 bs" "[a, b, c, d]"] append_take_drop_id [of 12 bs] by (simp add: tail)
  moreover have "base_value 256 [a, b, c, d] < 256 ^ 4" using base_value_bound [of "[a, b, c, d]" 256] small by simp
  ultimately have low: "base_value 256 bs mod 2 ^ 32 = base_value 256 [a, b, c, d]" by simp
  have quad: "isUnsafeIpv4 (join ''.'' (map show_nat (drop 12 bs))) \<longleftrightarrow> blocked4 (base_value 256 bs mod 2 ^ 32)"
    unfolding isUnsafeIpv4_exact tail low ipv4_value_def using embedded_quad [OF small] by simp
  show ?thesis
    unfolding blocked6_def unsafe_bytes_def blocked6_octets [OF bytes l] quad by (rule refl)
qed

text \<open>The ranges the code tests besides these lie outside the global unicast block.\<close>

lemma absorb:
  "(p1 \<or> p2 \<or> p3 \<or> p4 \<or> p5 \<or> p6 \<Longrightarrow> \<not> g) \<Longrightarrow>
     (p1 \<or> p2 \<or> p3 \<or> p4 \<or> p5 \<or> p6 \<or> \<not> g \<or> (d1 \<or> d2) \<or> b \<or> (t1 \<or> t2 \<or> t3 \<or> t4)) = (\<not> g \<or> d1 \<or> d2 \<or> b \<or> t1 \<or> t2 \<or> t3 \<or> t4)"
  by blast

lemma isUnsafe_bytes:
  assumes "CHR ''%'' \<notin> set s" and "isIP s = 6" and bs: "bs = as_bytes (ipv6_groups s)" and bytes: "\<forall>x \<in> set bs. x < 256" and l: "length bs = 16"
    and s: "s = before_percent (strip_brackets address)"
  shows "isUnsafeIpAddress address \<longleftrightarrow> unsafe_bytes bs"
proof -
  have v4: "\<not> isUnsafeIpv4 s" using assms(2) by (simp add: isUnsafeIpv4_exact isIP_def split: if_splits)
  have parse: "parseIpv6 s = Some bs" using parseIpv6_exact [OF assms(1)] assms(2) bs by simp
  obtain a b c d e f r where eq: "bs = a # b # c # d # e # f # r" using list16 [OF l] .
  have a: "a < 256" using bytes by (simp add: eq)
  have zero: "list_all (\<lambda>b. b = 0) (take n bs) \<Longrightarrow> 0 < n \<Longrightarrow> a = 0" for n by (cases n) (simp_all add: eq)
  note zero = zero [of 15, simplified] zero [of 12, simplified]
  have local: "a AND 0xfe = 0xfc \<Longrightarrow> a AND 0xe0 \<noteq> 0x20"
    unfolding high_bits [OF a] using div_range [of 32 a 1] by linarith
  have zeros: "list_all (\<lambda>b. b = 0) bs \<Longrightarrow> a = 0" by (simp add: eq)
  have none: "a = 0 \<Longrightarrow> \<not> (a AND 0xe0 = 0x20)" "a = 0xfe \<Longrightarrow> \<not> (a AND 0xe0 = 0x20)" "a = 0xff \<Longrightarrow> \<not> (a AND 0xe0 = 0x20)"
    by simp_all
  have hd_eq: "bs ! 0 = a" by (simp add: eq)
  have outside: "list_all (\<lambda>b. b = 0) bs \<or> list_all (\<lambda>b. b = 0) (take 15 bs) \<and> bs ! 15 = 1 \<or> bs ! 0 = 0xfe \<and> bs ! 1 AND 0xc0 = 0x80 \<or>
      bs ! 0 AND 0xfe = 0xfc \<or> bs ! 0 = 0xff \<or> list_all (\<lambda>b. b = 0) (take 12 bs) \<Longrightarrow> \<not> (bs ! 0 AND 0xe0 = 0x20)"
    unfolding hd_eq using zeros zero local none by blast
  show ?thesis
    unfolding isUnsafeIpAddress_def Let_def s [symmetric] parse option.case unsafe_bytes_def
    by (simp only: v4 if_False) (rule if_cong [OF refl refl], rule absorb [OF outside])
qed

lemma unsafe_exact: "isUnsafeIpAddress address = blocked_address (before_percent (strip_brackets address))"
proof -
  define s where "s = before_percent (strip_brackets address)"
  have free: "CHR ''%'' \<notin> set s" by (simp add: s_def)
  consider "isIP s = 6" | "isIP s \<noteq> 6" by blast
  then show ?thesis
  proof cases
    case 1
    then have v6: "v6_address s" using isIP_plain(1) [OF free] by (simp split: if_splits)
    note g = as_bytes_facts [OF groups_bound [OF v6]]
    have "length (as_bytes (ipv6_groups s)) = 16" using g(1) parse_groups(1) [OF v6] by simp
    from isUnsafe_bytes [OF free 1 refl g(2) this s_def] blocked6_bytes [OF g(2) this] show ?thesis
      using 1 by (simp add: blocked_address_def ipv6_value_def g(3) flip: s_def)
  next
    case 2
    then have "parseIpv6 s = None" using parseIpv6_exact [OF free] by simp
    then have "isUnsafeIpAddress address = isUnsafeIpv4 s"
      unfolding isUnsafeIpAddress_def Let_def s_def [symmetric] by simp
    then show ?thesis using 2 by (simp add: isUnsafeIpv4_exact blocked_address_def isIP_def flip: s_def)
  qed
qed

lemmas text_defs = before_percent_def strip_brackets_def isIP_def isIPv4_def isIPv6_def v6_address_def pieces_def v6_seg_def is_hex_def
  radix_digit_def is_digit_def digit_val_def code_def zone_char_def v4_seg_def hex_val_def base_value_def

lemma orchid_example: "isIP ''2001:20::1'' = 6" "ipv6_value ''2001:20::1'' = 0x20010020000000000000000000000001"
proof -
  have five: "replicate 5 0 = [0, 0, 0, 0, 0 :: nat]" by (simp add: numeral_eq_Suc)
  show "isIP ''2001:20::1'' = 6" by (simp add: text_defs)
  show "ipv6_value ''2001:20::1'' = 0x20010020000000000000000000000001"
    by (simp add: text_defs ipv6_value_def ipv6_groups_def five)
qed

lemma registry_example: "isIP ''2001:1234::1'' = 6" "ipv6_value ''2001:1234::1'' = 0x20011234000000000000000000000001"
proof -
  have five: "replicate 5 0 = [0, 0, 0, 0, 0 :: nat]" by (simp add: numeral_eq_Suc)
  show "isIP ''2001:1234::1'' = 6" by (simp add: text_defs)
  show "ipv6_value ''2001:1234::1'' = 0x20011234000000000000000000000001"
    by (simp add: text_defs ipv6_value_def ipv6_groups_def five)
qed

text \<open>
  C36. The address test is exact. For every text, \<open>isUnsafeIpAddress\<close> answers true exactly when
  the text denotes an IPv4 or IPv6 address in one of the listed blocks, an IPv4-mapped address being
  judged by the address it embeds; in particular no text that Node accepts as an address escapes
  the test by failing to parse. The blocks are those of the code, which masks the third octet
  where the ORCHID blocks 2001:10::/28 and 2001:20::/28 differ in the fourth: 2001:20::1 passes the test,
  and the registry address 2001:1234::1 does not.
\<close>

theorem address_test_exact:
  "isUnsafeIpAddress address = blocked_address (before_percent (strip_brackets address)) \<and>
   \<not> isUnsafeIpAddress ''2001:20::1'' \<and> isUnsafeIpAddress ''2001:1234::1''"
proof (intro conjI)
  show "isUnsafeIpAddress address = blocked_address (before_percent (strip_brackets address))" by (rule unsafe_exact)
  show "\<not> isUnsafeIpAddress ''2001:20::1''"
    unfolding unsafe_exact
    by (simp add: before_percent_def strip_brackets_def blocked_address_def orchid_example blocked6_def in_block_def special6_def)
  show "isUnsafeIpAddress ''2001:1234::1''"
    unfolding unsafe_exact
    by (simp add: before_percent_def strip_brackets_def blocked_address_def registry_example blocked6_def in_block_def special6_def)
qed

end
