(* ===== verification/UrlPolicy.thy ===== *)
theory UrlPolicy
  imports IpAddress
begin

text \<open>
  The destination policy of paid HTTP requests (\<open>apps/api/src/engines/payments/x402-http.ts\<close>):
  which URL may be paid, the addresses the request is pinned to, the copy that travels to the
  worker, its revalidation there, and the lookup function given to the HTTP client. The URL parser
  of the runtime and the DNS resolver are arguments.
\<close>

section \<open>Destinations\<close>

datatype http_error =
    TypeErr string
  | RangeError string
  | PaidHttpError string string

record url =
  u_href :: string
  u_protocol :: string
  u_hostname :: string
  u_host :: string
  u_origin :: string
  u_username :: string
  u_password :: string
  u_pathname :: string
  u_search :: string
  u_hash :: string

datatype dns_entry = AddressText string | AddressRecord string

type_synonym resolver = "string \<Rightarrow> http_error + dns_entry list"

record url_policy =
  allowHttpOrigins :: "string list option"
  resolveHostname :: "resolver option"

record destination =
  de_url :: string
  de_hostname :: string
  de_addresses :: "string list"
  de_resolveHostname :: resolver

record serialized_destination =
  sd_url :: string
  sd_hostname :: string
  sd_addresses :: "string list"

text \<open>The runtime: \<open>new URL\<close>, \<open>None\<close> where it throws, and \<open>dns.lookup\<close>.\<close>

record net_env =
  ne_URL :: "string \<Rightarrow> url option"
  ne_lookup :: resolver

definition entry_address :: "dns_entry \<Rightarrow> string" where
  "entry_address entry = (case entry of AddressText a \<Rightarrow> a | AddressRecord a \<Rightarrow> a)"

lemma entry_address_simps [simp]: "entry_address (AddressText a) = a" "entry_address (AddressRecord a) = a"
  by (simp_all add: entry_address_def)

definition deriveTestnetPaidHttpAllowOrigins :: "net_env \<Rightarrow> bool \<Rightarrow> string \<Rightarrow> string list" where
  "deriveTestnetPaidHttpAllowOrigins N enabled publicApiBaseUrl =
     (if \<not> enabled \<or> publicApiBaseUrl = [] then []
      else case ne_URL N publicApiBaseUrl of
             None \<Rightarrow> []
           | Some parsed \<Rightarrow>
               if (u_protocol parsed \<noteq> ''http:'' \<and> u_protocol parsed \<noteq> ''https:'') \<or> u_username parsed \<noteq> [] \<or> u_password parsed \<noteq> [] \<or>
                  u_pathname parsed \<noteq> ''/'' \<or> u_search parsed \<noteq> [] \<or> u_hash parsed \<noteq> []
               then [] else [u_origin parsed])"

definition serializePaidHttpDestination :: "destination \<Rightarrow> serialized_destination" where
  "serializePaidHttpDestination d = \<lparr>sd_url = de_url d, sd_hostname = de_hostname d, sd_addresses = de_addresses d\<rparr>"

definition explicitly_allowed :: "net_env \<Rightarrow> url_policy \<Rightarrow> url \<Rightarrow> bool" where
  "explicitly_allowed N policy parsed \<longleftrightarrow>
     u_protocol parsed = ''http:'' \<and>
     (case allowHttpOrigins policy of
        None \<Rightarrow> False
      | Some origins \<Rightarrow> list_ex (\<lambda>origin. case ne_URL N origin of None \<Rightarrow> False | Some u \<Rightarrow> u_origin u = u_origin parsed) origins)"

definition disallowed :: "bool \<Rightarrow> string \<Rightarrow> bool" where
  "disallowed explicitlyAllowed address \<longleftrightarrow>
     isIP (before_percent address) = 0 \<or> \<not> explicitlyAllowed \<and> isUnsafeIpAddress address"

definition pinned_resolver :: "http_error \<Rightarrow> string \<Rightarrow> string list \<Rightarrow> resolver" where
  "pinned_resolver refusal hostname addresses requestedHostname =
     (if requestedHostname \<noteq> hostname then Inl refusal else Inr (map AddressText addresses))"

definition assertPaidHttpUrlAllowed :: "net_env \<Rightarrow> string \<Rightarrow> url_policy \<Rightarrow> http_error + destination" where
  "assertPaidHttpUrlAllowed N url policy =
     (case ne_URL N url of
        None \<Rightarrow> Inl (TypeErr ''Invalid paid HTTP URL'')
      | Some parsed \<Rightarrow>
          bindE (guardE (u_protocol parsed = ''https:'' \<or> u_protocol parsed = ''http:'') (TypeErr ''Paid HTTP URL must use HTTP or HTTPS'')) (\<lambda>_.
          let explicitlyAllowed = explicitly_allowed N policy parsed in
          bindE (guardE (u_protocol parsed = ''https:'' \<or> explicitlyAllowed) (TypeErr ''Paid HTTP URL must use HTTPS'')) (\<lambda>_.
          let hostname = strip_brackets (u_hostname parsed) in
          bindE (if isIP hostname = 0 then (case resolveHostname policy of None \<Rightarrow> ne_lookup N | Some r \<Rightarrow> r) hostname
                 else Inr [AddressText hostname]) (\<lambda>resolved.
          bindE (guardE (resolved \<noteq> []) (TypeErr ''Paid HTTP hostname resolved to no addresses'')) (\<lambda>_.
          let resolvedAddresses = map entry_address resolved in
          case find (disallowed explicitlyAllowed) resolvedAddresses of
            Some address \<Rightarrow> Inl (TypeErr (''Paid HTTP URL resolved to a disallowed address: '' @ address))
          | None \<Rightarrow>
              Inr \<lparr>de_url = u_href parsed, de_hostname = hostname, de_addresses = resolvedAddresses,
                   de_resolveHostname = (\<lambda>requestedHostname.
                     pinned_resolver (TypeErr (''Pinned paid HTTP destination cannot resolve: '' @ requestedHostname))
                       hostname resolvedAddresses requestedHostname)\<rparr>)))))"

section \<open>Across the worker boundary\<close>

definition invalidSerializedPaidHttpDestination :: http_error where
  "invalidSerializedPaidHttpDestination = PaidHttpError ''invalid_destination'' ''Serialized paid HTTP destination is invalid''"

definition isSerializedPaidHttpAddressList :: "jsval \<Rightarrow> bool" where
  "isSerializedPaidHttpAddressList v =
     (case v of
        VArr vs \<Rightarrow> vs \<noteq> [] \<and> length vs \<le> 16 \<and> list_all (\<lambda>a. case a of VStr s \<Rightarrow> isIP s \<noteq> 0 | _ \<Rightarrow> False) vs
      | _ \<Rightarrow> False)"

definition text_of :: "jsval \<Rightarrow> string" where
  "text_of v = (case v of VStr s \<Rightarrow> s | _ \<Rightarrow> [])"

definition texts_of :: "jsval \<Rightarrow> string list" where
  "texts_of v = (case v of VArr vs \<Rightarrow> map text_of vs | _ \<Rightarrow> [])"

definition text_between :: "nat \<Rightarrow> nat \<Rightarrow> jsval \<Rightarrow> bool" where
  "text_between lo hi v = (case v of VStr s \<Rightarrow> lo \<le> length s \<and> length s \<le> hi | _ \<Rightarrow> False)"

definition rehydratePaidHttpDestination :: "net_env \<Rightarrow> jsval \<Rightarrow> http_error + destination" where
  "rehydratePaidHttpDestination N v =
     (case v of
        VObj props \<Rightarrow>
          bindE (guardE (length props = 3 \<and> list_all (\<lambda>k. k \<in> {''addresses'', ''hostname'', ''url''}) (map fst props))
                   invalidSerializedPaidHttpDestination) (\<lambda>_.
          bindE (guardE (text_between 1 4096 (get_prop props ''url'') \<and> text_between 1 253 (get_prop props ''hostname'') \<and>
                         isSerializedPaidHttpAddressList (get_prop props ''addresses''))
                   invalidSerializedPaidHttpDestination) (\<lambda>_.
          let url = text_of (get_prop props ''url''); hostname = text_of (get_prop props ''hostname'');
              addresses = texts_of (get_prop props ''addresses'')
          in case ne_URL N url of
               None \<Rightarrow> Inl invalidSerializedPaidHttpDestination
             | Some parsed \<Rightarrow>
                 bindE (guardE ((u_protocol parsed = ''https:'' \<or> u_protocol parsed = ''http:'') \<and>
                                strip_brackets (u_hostname parsed) = hostname) invalidSerializedPaidHttpDestination) (\<lambda>_.
                 Inr \<lparr>de_url = url, de_hostname = hostname, de_addresses = addresses,
                      de_resolveHostname = pinned_resolver
                        (PaidHttpError ''invalid_destination'' ''Paid HTTP resolver hostname does not match the authenticated destination'')
                        hostname addresses\<rparr>)))
      | _ \<Rightarrow> Inl invalidSerializedPaidHttpDestination)"

definition revalidatePaidHttpDestination :: "net_env \<Rightarrow> jsval \<Rightarrow> string list option \<Rightarrow> http_error + destination" where
  "revalidatePaidHttpDestination N v origins =
     bindE (rehydratePaidHttpDestination N v) (\<lambda>captured.
     case assertPaidHttpUrlAllowed N (de_url captured)
            \<lparr>allowHttpOrigins = origins, resolveHostname = Some (de_resolveHostname captured)\<rparr> of
       Inl _ \<Rightarrow> Inl (PaidHttpError ''invalid_destination'' ''Serialized paid HTTP destination failed worker safety validation'')
     | Inr d \<Rightarrow> Inr d)"

section \<open>Connecting\<close>

record lookup_options =
  lo_family :: "nat option"
  lo_all :: bool

definition zone_free :: "string \<Rightarrow> string" where
  "zone_free address = before_percent (strip_brackets address)"

definition pinnedLookup :: "destination \<Rightarrow> string \<Rightarrow> lookup_options \<Rightarrow> http_error + (string \<times> nat) list" where
  "pinnedLookup d hostname options =
     (let requestedHostname = strip_brackets hostname in
      bindE (guardE (requestedHostname = de_hostname d)
               (PaidHttpError ''invalid_destination'' (''Paid HTTP connector attempted to resolve an unvalidated hostname: '' @ hostname))) (\<lambda>_.
      bindE (de_resolveHostname d requestedHostname) (\<lambda>resolved.
      let addresses = map entry_address resolved in
      bindE (guardE (addresses \<noteq> [] \<and> list_all (\<lambda>a. isIP (zone_free a) \<noteq> 0 \<and> a \<in> set (de_addresses d)) addresses)
               (PaidHttpError ''invalid_destination'' ''Pinned paid HTTP resolver returned an unvalidated address'')) (\<lambda>_.
      let candidates = filter (\<lambda>c. case lo_family options of None \<Rightarrow> True | Some f \<Rightarrow> f = 0 \<or> f = snd c)
                         (map (\<lambda>a. (a, isIP (zone_free a))) addresses) in
      bindE (guardE (candidates \<noteq> [])
               (PaidHttpError ''invalid_destination'' ''Pinned paid HTTP destination has no address for the requested family'')) (\<lambda>_.
      Inr (if lo_all options then candidates else [hd candidates]))))))"


section \<open>What a destination is pinned to\<close>

definition exempt_origin :: "net_env \<Rightarrow> string list option \<Rightarrow> url \<Rightarrow> bool" where
  "exempt_origin N origins parsed \<longleftrightarrow>
     u_protocol parsed = ''http:'' \<and>
     (\<exists>os origin u. origins = Some os \<and> origin \<in> set os \<and> ne_URL N origin = Some u \<and> u_origin u = u_origin parsed)"

definition public_address :: "string \<Rightarrow> bool" where
  "public_address a \<longleftrightarrow> isIP (before_percent a) \<noteq> 0 \<and> \<not> blocked_address (before_percent a)"

definition pinned_to :: "net_env \<Rightarrow> string list option \<Rightarrow> string \<Rightarrow> destination \<Rightarrow> bool" where
  "pinned_to N origins url d \<longleftrightarrow>
     (\<exists>parsed. ne_URL N url = Some parsed \<and> de_url d = u_href parsed \<and> de_hostname d = strip_brackets (u_hostname parsed) \<and>
        de_addresses d \<noteq> [] \<and>
        (if exempt_origin N origins parsed then list_all (\<lambda>a. isIP (before_percent a) \<noteq> 0) (de_addresses d)
         else u_protocol parsed = ''https:'' \<and> list_all public_address (de_addresses d)))"

definition connects_within :: "destination \<Rightarrow> bool" where
  "connects_within d \<longleftrightarrow>
     (\<forall>host options.
        case pinnedLookup d host options of
          Inl _ \<Rightarrow> True
        | Inr candidates \<Rightarrow>
            strip_brackets host = de_hostname d \<and> candidates \<noteq> [] \<and>
            list_all (\<lambda>(a, family). a \<in> set (de_addresses d) \<and> family = isIP (zone_free a) \<and> family \<noteq> 0) candidates)"

lemma explicitly_allowed_iff: "explicitly_allowed N policy parsed = exempt_origin N (allowHttpOrigins policy) parsed"
  by (auto simp: explicitly_allowed_def exempt_origin_def list_ex_iff split: option.splits)

lemma v4_chars: "isIPv4 s \<Longrightarrow> c \<in> set s \<Longrightarrow> is_hex c \<or> c = CHR ''.''"
proof -
  assume "isIPv4 s" and c: "c \<in> set s"
  then have segs: "\<forall>g \<in> set (split_char CHR ''.'' s). list_all is_digit g" by (simp add: isIPv4_def list_all_iff v4_seg_def)
  have digit: "is_hex c" if "is_digit c" using that by (auto simp: is_hex_def radix_digit_def is_digit_def digit_val_def)
  have "is_hex c" if "c \<noteq> CHR ''.''"
    using split_char_chars [OF c that] segs digit by (auto simp: list_all_iff)
  then show ?thesis by blast
qed

lemma seg_chars: "seg_count gs = Some n \<Longrightarrow> g \<in> set gs \<Longrightarrow> c \<in> set g \<Longrightarrow> is_hex c \<or> c = CHR ''.''"
  using seg_count_cases [of gs n] v4_chars by (fastforce simp: list_all_iff v6_seg_def)

lemma pieces_chars: "c \<in> set h \<Longrightarrow> c \<noteq> CHR '':'' \<Longrightarrow> \<exists>g \<in> set (pieces h). c \<in> set g"
  using split_char_chars [of c h "CHR '':''"] by (auto simp: pieces_def)

lemma v6_chars:
  assumes "v6_address s" and c: "c \<in> set s"
  shows "is_hex c \<or> c = CHR ''.'' \<or> c = CHR '':''"
proof (cases "c = CHR '':''")
  case False
  then obtain h where h: "h \<in> set (split_dcolon s)" "c \<in> set h" using split_dcolon_chars [OF c] by auto
  then have ne: "pieces h = split_char CHR '':'' h" by (auto simp: pieces_def)
  obtain g where g: "g \<in> set (pieces h)" "c \<in> set g" using pieces_chars [OF h(2) False] by blast
  consider x where "split_dcolon s = [x]" "seg_count (split_char CHR '':'' x) = Some 8"
    | l r n where "split_dcolon s = [l, r]" "list_all v6_seg (pieces l)" "seg_count (pieces r) = Some n"
    using assms(1) by (auto simp: v6_address_def split: list.splits option.splits)
  then show ?thesis
  proof cases
    case 1
    then show ?thesis using h ne g seg_chars by fastforce
  next
    case 2
    then show ?thesis using h g seg_chars [OF 2(3)] by (auto simp: list_all_iff v6_seg_def)
  qed
qed simp

lemma address_chars: "isIP s \<noteq> 0 \<Longrightarrow> CHR ''%'' \<notin> set s \<Longrightarrow> CHR ''['' \<notin> set s \<and> CHR '']'' \<notin> set s"
proof -
  assume ip: "isIP s \<noteq> 0" and free: "CHR ''%'' \<notin> set s"
  have hex: "\<not> is_hex CHR ''[''" "\<not> is_hex CHR '']''" by (simp_all add: is_hex_def radix_digit_def is_digit_def code_def)
  have "isIPv4 s \<or> v6_address s" using ip isIP_plain(1) [OF free] by (auto split: if_splits)
  then have "c \<notin> set s" if "\<not> is_hex c" "c \<noteq> CHR ''.''" "c \<noteq> CHR '':''" for c
    using that v4_chars [of s c] v6_chars [of s c] by blast
  with hex show ?thesis by simp
qed

lemma address_unbracketed:
  assumes "isIP (before_percent a) \<noteq> 0"
  shows "before_percent (strip_brackets a) = before_percent a"
proof -
  have free: "CHR ''['' \<notin> set (before_percent a)" "CHR '']'' \<notin> set (before_percent a)"
    using address_chars [OF assms] by simp_all
  have front: "(case a of c # r \<Rightarrow> if c = CHR ''['' then r else a | [] \<Rightarrow> []) = a"
    using free(1) by (auto simp: before_percent_def split: list.split)
  have rear: "before_percent (butlast a) = before_percent a" if "a \<noteq> []" "last a = CHR '']''"
  proof -
    have a: "a = butlast a @ '']''" using that by (metis append_butlast_last_id)
    show ?thesis
    proof (cases "CHR ''%'' \<in> set (butlast a)")
      case True
      then have "before_percent (butlast a @ '']'') = before_percent (butlast a)"
        unfolding before_percent_def by (rule takeWhile_append1) simp
      then show ?thesis unfolding a [symmetric] by (rule sym)
    next
      case False
      have chars: "set a = insert CHR '']'' (set (butlast a))" by (subst a) simp
      have "CHR ''%'' \<notin> set a" using False unfolding chars by simp
      then have "before_percent a = a" by (rule before_percent_id)
      moreover have "CHR '']'' \<in> set a" unfolding chars by simp
      ultimately show ?thesis using free(2) by simp
    qed
  qed
  show ?thesis using rear by (simp add: strip_brackets_def front Let_def)
qed

lemma allowed_iff: "\<not> disallowed explicitlyAllowed a \<longleftrightarrow> (if explicitlyAllowed then isIP (before_percent a) \<noteq> 0 else public_address a)"
  using address_unbracketed [of a] unsafe_exact [of a] by (auto simp: disallowed_def public_address_def)

lemma assert_pinned:
  assumes "assertPaidHttpUrlAllowed N url policy = Inr d"
  shows "pinned_to N (allowHttpOrigins policy) url d"
    and "\<exists>refusal. \<forall>host. de_resolveHostname d host = pinned_resolver (refusal host) (de_hostname d) (de_addresses d) host"
    and "isIP (de_hostname d) \<noteq> 0 \<and> de_addresses d = [de_hostname d] \<or>
         (\<exists>resolved. (case resolveHostname policy of None \<Rightarrow> ne_lookup N | Some r \<Rightarrow> r) (de_hostname d) = Inr resolved \<and>
            de_addresses d = map entry_address resolved)"
proof -
  obtain parsed where p: "ne_URL N url = Some parsed"
    using assms by (cases "ne_URL N url") (simp_all add: assertPaidHttpUrlAllowed_def)
  let ?host = "strip_brackets (u_hostname parsed)" and ?exempt = "exempt_origin N (allowHttpOrigins policy) parsed"
  obtain resolved where proto: "u_protocol parsed = ''https:'' \<or> ?exempt"
    and r: "(if isIP ?host = 0 then (case resolveHostname policy of None \<Rightarrow> ne_lookup N | Some r \<Rightarrow> r) ?host else Inr [AddressText ?host]) = Inr resolved"
    and ne: "resolved \<noteq> []"
    and final: "(case find (disallowed ?exempt) (map entry_address resolved) of
            Some address \<Rightarrow> Inl (TypeErr (''Paid HTTP URL resolved to a disallowed address: '' @ address))
          | None \<Rightarrow>
              Inr \<lparr>de_url = u_href parsed, de_hostname = ?host, de_addresses = map entry_address resolved,
                   de_resolveHostname = (\<lambda>requestedHostname.
                     pinned_resolver (TypeErr (''Pinned paid HTTP destination cannot resolve: '' @ requestedHostname))
                       ?host (map entry_address resolved) requestedHostname)\<rparr>) = Inr d"
    using assms unfolding assertPaidHttpUrlAllowed_def explicitly_allowed_iff Let_def p option.case bindE_Inr guardE_Inr by blast
  have ok: "find (disallowed ?exempt) (map entry_address resolved) = None"
    using final by (cases "find (disallowed ?exempt) (map entry_address resolved)") (simp_all only: option.case sum.distinct)
  note d = final [unfolded ok option.case sum.inject, symmetric]
  have all: "\<forall>a \<in> set (map entry_address resolved). \<not> disallowed (exempt_origin N (allowHttpOrigins policy) parsed) a"
    using ok unfolding find_None_iff by blast
  show "pinned_to N (allowHttpOrigins policy) url d"
    unfolding pinned_to_def using p proto ne all by (auto simp: d allowed_iff list_all_iff)
  show "\<exists>refusal. \<forall>host. de_resolveHostname d host = pinned_resolver (refusal host) (de_hostname d) (de_addresses d) host"
    unfolding d by (intro exI allI) simp
  show "isIP (de_hostname d) \<noteq> 0 \<and> de_addresses d = [de_hostname d] \<or>
         (\<exists>resolved. (case resolveHostname policy of None \<Rightarrow> ne_lookup N | Some r \<Rightarrow> r) (de_hostname d) = Inr resolved \<and>
            de_addresses d = map entry_address resolved)"
    using r by (auto simp: d entry_address_def split: if_splits)
qed

lemma pinned_connects:
  assumes "\<forall>host. de_resolveHostname d host = pinned_resolver (refusal host) (de_hostname d) (de_addresses d) host"
  shows "connects_within d"
proof -
  show ?thesis unfolding connects_within_def
  proof (intro allI)
    fix host and options :: lookup_options
    let ?cs = "filter (\<lambda>c. case lo_family options of None \<Rightarrow> True | Some f \<Rightarrow> f = 0 \<or> f = snd c) (map (\<lambda>a. (a, isIP (zone_free a))) (de_addresses d))"
    have cs: "c \<in> set ?cs \<Longrightarrow> fst c \<in> set (de_addresses d) \<and> snd c = isIP (zone_free (fst c))" for c by auto
    consider e where "pinnedLookup d host options = Inl e" | xs where "pinnedLookup d host options = Inr xs" by (cases "pinnedLookup d host options") auto
    then show "case pinnedLookup d host options of Inl _ \<Rightarrow> True
        | Inr candidates \<Rightarrow> strip_brackets host = de_hostname d \<and> candidates \<noteq> [] \<and>
            list_all (\<lambda>(a, family). a \<in> set (de_addresses d) \<and> family = isIP (zone_free a) \<and> family \<noteq> 0) candidates"
    proof cases
      case 2
      then have host: "strip_brackets host = de_hostname d" and ok: "list_all (\<lambda>a. isIP (zone_free a) \<noteq> 0 \<and> a \<in> set (de_addresses d)) (de_addresses d)"
        and ne: "?cs \<noteq> []" and xs: "xs = (if lo_all options then ?cs else [hd ?cs])"
        unfolding pinnedLookup_def Let_def assms [rule_format] pinned_resolver_def
        by (auto simp: bindE_Inr comp_def split: if_splits)
      have "set xs \<subseteq> set ?cs" "xs \<noteq> []" using ne hd_in_set [OF ne] unfolding xs by (auto split: if_splits simp del: set_filter)
      then have "\<forall>c \<in> set xs. fst c \<in> set (de_addresses d) \<and> snd c = isIP (zone_free (fst c))" using cs by blast
      with ok \<open>xs \<noteq> []\<close> host show ?thesis by (auto simp: 2 list_all_iff)
    qed simp
  qed
qed

lemma rehydrated:
  assumes "rehydratePaidHttpDestination N v = Inr c"
  obtains props where "v = VObj props" and "de_url c = text_of (get_prop props ''url'')"
    and "de_addresses c = texts_of (get_prop props ''addresses'')"
    and "de_resolveHostname c = pinned_resolver
           (PaidHttpError ''invalid_destination'' ''Paid HTTP resolver hostname does not match the authenticated destination'')
           (de_hostname c) (de_addresses c)"
proof (cases v)
  case (VObj props)
  show ?thesis
  proof (cases "ne_URL N (text_of (get_prop props ''url''))")
    case None
    with assms VObj show ?thesis by (simp add: rehydratePaidHttpDestination_def bindE_Inr)
  next
    case (Some parsed)
    have "c = \<lparr>de_url = text_of (get_prop props ''url''), de_hostname = text_of (get_prop props ''hostname''),
        de_addresses = texts_of (get_prop props ''addresses''),
        de_resolveHostname = pinned_resolver
          (PaidHttpError ''invalid_destination'' ''Paid HTTP resolver hostname does not match the authenticated destination'')
          (text_of (get_prop props ''hostname'')) (texts_of (get_prop props ''addresses''))\<rparr>"
      using assms unfolding rehydratePaidHttpDestination_def VObj jsval.case Let_def Some option.case bindE_Inr guardE_Inr sum.inject by blast
    with VObj show ?thesis by (intro that) simp_all
  qed
qed (use assms in \<open>simp_all add: rehydratePaidHttpDestination_def\<close>)

lemma rehydrate_error: "rehydratePaidHttpDestination N v = Inl e \<Longrightarrow> e = invalidSerializedPaidHttpDestination"
  by (auto simp: rehydratePaidHttpDestination_def bindE_def guardE_def Let_def split: jsval.splits sum.splits if_splits option.splits)

lemma revalidate_error:
  assumes "revalidatePaidHttpDestination N v origins = Inl e"
  shows "\<exists>message. e = PaidHttpError ''invalid_destination'' message"
proof (cases "rehydratePaidHttpDestination N v")
  case (Inl e')
  with assms rehydrate_error [OF Inl] show ?thesis
    by (auto simp: revalidatePaidHttpDestination_def invalidSerializedPaidHttpDestination_def)
next
  case (Inr c)
  with assms show ?thesis by (auto simp: revalidatePaidHttpDestination_def split: sum.splits)
qed

lemma revalidate_pinned:
  assumes "revalidatePaidHttpDestination N v origins = Inr d"
  shows "\<exists>props. v = VObj props \<and> pinned_to N origins (text_of (get_prop props ''url'')) d \<and> connects_within d \<and>
           set (de_addresses d) \<subseteq> insert (de_hostname d) (set (texts_of (get_prop props ''addresses'')))"
proof -
  obtain c where c: "rehydratePaidHttpDestination N v = Inr c"
    and run: "assertPaidHttpUrlAllowed N (de_url c) \<lparr>allowHttpOrigins = origins, resolveHostname = Some (de_resolveHostname c)\<rparr> = Inr d"
  proof -
    obtain c where c: "rehydratePaidHttpDestination N v = Inr c"
      using assms by (cases "rehydratePaidHttpDestination N v") (simp_all add: revalidatePaidHttpDestination_def)
    with assms that show ?thesis
      by (cases "assertPaidHttpUrlAllowed N (de_url c) \<lparr>allowHttpOrigins = origins, resolveHostname = Some (de_resolveHostname c)\<rparr>")
         (simp_all add: revalidatePaidHttpDestination_def)
  qed
  obtain props refusal where props: "v = VObj props" "de_url c = text_of (get_prop props ''url'')"
    "de_addresses c = texts_of (get_prop props ''addresses'')" "de_resolveHostname c = pinned_resolver refusal (de_hostname c) (de_addresses c)"
    using rehydrated [OF c] by metis
  have "set (de_addresses d) \<subseteq> insert (de_hostname d) (set (de_addresses c))"
    using assert_pinned(3) [OF run] by (auto simp: props(4) pinned_resolver_def comp_def split: if_splits)
  with assert_pinned(1,2) [OF run] props pinned_connects show ?thesis by fastforce
qed

text \<open>
  C35. Paid requests reach only the addresses that were checked. When \<open>assertPaidHttpUrlAllowed\<close>
  accepts a URL, the destination it returns is pinned to a non-empty list of addresses; unless the
  URL is plain HTTP with an allow-listed origin, it is HTTPS and every pinned address is public, i.e.
  outside all the blocks of the table. A destination that comes back from the worker queue is accepted by
  \<open>revalidatePaidHttpDestination\<close> only under the same conditions, whatever the message holds, and
  a refusal is always \<open>invalid_destination\<close>. And for any host name and any options the HTTP
  client asks with, \<open>pinnedLookup\<close> answers only with pinned addresses of the pinned host.
\<close>

theorem paid_requests_stay_public:
  "(case assertPaidHttpUrlAllowed N url policy of
      Inl _ \<Rightarrow> True
    | Inr d \<Rightarrow> pinned_to N (allowHttpOrigins policy) url d \<and> connects_within d) \<and>
   (case revalidatePaidHttpDestination N v origins of
      Inl e \<Rightarrow> (\<exists>message. e = PaidHttpError ''invalid_destination'' message)
    | Inr d \<Rightarrow> (\<exists>props. v = VObj props \<and> pinned_to N origins (text_of (get_prop props ''url'')) d \<and> connects_within d \<and>
                  set (de_addresses d) \<subseteq> insert (de_hostname d) (set (texts_of (get_prop props ''addresses'')))))"
proof
  show "case assertPaidHttpUrlAllowed N url policy of Inl _ \<Rightarrow> True
    | Inr d \<Rightarrow> pinned_to N (allowHttpOrigins policy) url d \<and> connects_within d"
    using assert_pinned(1,2) pinned_connects by (auto split: sum.split) blast+
  show "case revalidatePaidHttpDestination N v origins of
      Inl e \<Rightarrow> (\<exists>message. e = PaidHttpError ''invalid_destination'' message)
    | Inr d \<Rightarrow> (\<exists>props. v = VObj props \<and> pinned_to N origins (text_of (get_prop props ''url'')) d \<and> connects_within d \<and>
                  set (de_addresses d) \<subseteq> insert (de_hostname d) (set (texts_of (get_prop props ''addresses''))))"
    using revalidate_error revalidate_pinned by (auto split: sum.split)
qed


end
