(* ===== verification/PaidHttpRequest.thy ===== *)
theory PaidHttpRequest
  imports UrlPolicy Redaction
begin

text \<open>
  The normal form of a paid HTTP request and the hash that identifies it
  (\<open>apps/api/src/engines/payments/x402-http.ts\<close>): the bounded UTF-8 writer, the JSON serializer
  with sorted keys over an object graph that may be cyclic, base64 bodies, header checks, and
  the length-prefixed encoding that is hashed. SHA-256 is an argument.
\<close>

section \<open>The bounded writer\<close>

definition MAX_PAID_HTTP_BODY_BYTES :: nat where
  "MAX_PAID_HTTP_BODY_BYTES = 262144"

definition bodyLimitError :: http_error where
  "bodyLimitError = RangeError ''Paid HTTP body exceeds the 256 KiB decoded limit''"

definition utf8_char :: "char \<Rightarrow> nat list" where
  "utf8_char c = (if code c < 128 then [code c] else [192 + code c div 64, 128 + code c mod 64])"

definition utf8 :: "string \<Rightarrow> nat list" where
  "utf8 s = concat (map utf8_char s)"

text \<open>\<open>TextEncoder.encodeInto\<close> with room for \<open>n\<close> bytes: the characters read and the bytes written.\<close>

fun encodeInto :: "nat \<Rightarrow> string \<Rightarrow> nat \<times> nat list" where
  "encodeInto n [] = (0, [])"
| "encodeInto n (c # s) =
     (if length (utf8_char c) \<le> n
      then (case encodeInto (n - length (utf8_char c)) s of (r, bs) \<Rightarrow> (Suc r, utf8_char c @ bs))
      else (0, []))"

text \<open>A write continues the bytes written so far; \<open>None\<close> is a computation that did not return.\<close>

type_synonym 'a run = "(http_error + 'a) option"

definition bindR :: "'a run \<Rightarrow> ('a \<Rightarrow> 'b run) \<Rightarrow> 'b run" where
  "bindR r f = (case r of None \<Rightarrow> None | Some (Inl e) \<Rightarrow> Some (Inl e) | Some (Inr a) \<Rightarrow> f a)"

definition append_text :: "nat list \<Rightarrow> string \<Rightarrow> http_error + nat list" where
  "append_text buffer v =
     (if MAX_PAID_HTTP_BODY_BYTES - length buffer < length v then Inl bodyLimitError
      else case encodeInto (MAX_PAID_HTTP_BODY_BYTES - length buffer) v of (r, bs) \<Rightarrow>
             if r \<noteq> length v then Inl bodyLimitError else Inr (buffer @ bs))"

section \<open>Serializing an object graph\<close>

text \<open>
  A value is a primitive or a reference into a heap of arrays and objects. \<open>toJSON\<close> is the
  method an object may have; calling it gives a value or throws.
\<close>

datatype hval = HUndef | HNull | HBool bool | HNum jsnum | HStr string | HBigInt | HOpaque | HRef nat

datatype hshape = HArr "hval list" | HObj "(string \<times> hval) list"

record cell =
  ce_shape :: hshape
  ce_toJSON :: "(string \<Rightarrow> http_error + hval) option"

type_synonym object_heap = "cell list"

definition cell_at :: "object_heap \<Rightarrow> nat \<Rightarrow> cell" where
  "cell_at h a = (if a < length h then h ! a else \<lparr>ce_shape = HObj [], ce_toJSON = None\<rparr>)"

definition json_escape :: "char \<Rightarrow> string" where
  "json_escape c =
     (if code c = 34 then [CHR 0x5C, CHR 0x22]
      else if code c = 92 then [CHR 0x5C, CHR 0x5C]
      else if code c = 8 then CHR 0x5C # ''b''
      else if code c = 12 then CHR 0x5C # ''f''
      else if code c = 10 then CHR 0x5C # ''n''
      else if code c = 13 then CHR 0x5C # ''r''
      else if code c = 9 then CHR 0x5C # ''t''
      else if code c \<le> 0x1f \<or> 0xd800 \<le> code c \<and> code c \<le> 0xdfff then CHR 0x5C # ''u'' @ padStart 4 CHR ''0'' (show_hex (code c))
      else [c])"

fun append_all :: "nat list \<Rightarrow> string list \<Rightarrow> http_error + nat list" where
  "append_all buffer [] = Inr buffer"
| "append_all buffer (v # vs) = bindE (append_text buffer v) (\<lambda>b. append_all b vs)"

definition appendJsonString :: "nat list \<Rightarrow> string \<Rightarrow> http_error + nat list" where
  "appendJsonString buffer v = append_all buffer ([CHR 0x22] # map json_escape v @ [[CHR 0x22]])"

definition prepare :: "object_heap \<Rightarrow> hval \<Rightarrow> string \<Rightarrow> http_error + hval" where
  "prepare h current key =
     (case current of
        HRef a \<Rightarrow> (case ce_toJSON (cell_at h a) of None \<Rightarrow> Inr current | Some toJson \<Rightarrow> toJson key)
      | _ \<Rightarrow> Inr current)"

definition isOmitted :: "hval \<Rightarrow> bool" where
  "isOmitted current \<longleftrightarrow> current = HUndef \<or> current = HOpaque"

text \<open>The default order of \<open>Array.prototype.sort\<close>: by code units.\<close>

fun code_compare :: "string \<Rightarrow> string \<Rightarrow> int" where
  "code_compare [] [] = 0"
| "code_compare [] (d # t) = - 1"
| "code_compare (c # s) [] = 1"
| "code_compare (c # s) (d # t) = (if c = d then code_compare s t else int (code c) - int (code d))"

fun write_items :: "(hval \<Rightarrow> nat list \<Rightarrow> nat list run) \<Rightarrow> object_heap \<Rightarrow> nat \<Rightarrow> hval list \<Rightarrow> nat list \<Rightarrow> nat list run" where
  "write_items ser h index [] buffer = Some (Inr buffer)"
| "write_items ser h index (v # vs) buffer =
     bindR (Some (if index > 0 then append_text buffer '','' else Inr buffer)) (\<lambda>b1.
     bindR (Some (prepare h v (show_nat index))) (\<lambda>prepared.
     bindR (if isOmitted prepared then Some (append_text b1 ''null'') else ser prepared b1) (\<lambda>b2.
     write_items ser h (Suc index) vs b2)))"

fun write_entries :: "(hval \<Rightarrow> nat list \<Rightarrow> nat list run) \<Rightarrow> object_heap \<Rightarrow> (string \<times> hval) list \<Rightarrow> nat \<Rightarrow> string list \<Rightarrow> nat list \<Rightarrow> nat list run" where
  "write_entries ser h props written [] buffer = Some (Inr buffer)"
| "write_entries ser h props written (k # ks) buffer =
     bindR (Some (prepare h (case map_of props k of None \<Rightarrow> HUndef | Some v \<Rightarrow> v) k)) (\<lambda>prepared.
     if isOmitted prepared then write_entries ser h props written ks buffer
     else bindR (Some (if written > 0 then append_text buffer '','' else Inr buffer)) (\<lambda>b1.
          bindR (Some (appendJsonString b1 k)) (\<lambda>b2.
          bindR (Some (append_text b2 '':'')) (\<lambda>b3.
          bindR (ser prepared b3) (\<lambda>b4.
          write_entries ser h props (Suc written) ks b4)))))"

text \<open>The fuel bounds the nesting; \<open>ancestors\<close> are the references being serialized.\<close>

primrec serializePrepared :: "nat \<Rightarrow> object_heap \<Rightarrow> nat set \<Rightarrow> hval \<Rightarrow> nat list \<Rightarrow> nat list run" where
  "serializePrepared 0 h ancestors current buffer = None"
| "serializePrepared (Suc fuel) h ancestors current buffer =
     (case current of
        HNull \<Rightarrow> Some (append_text buffer ''null'')
      | HStr s \<Rightarrow> Some (appendJsonString buffer s)
      | HBool b \<Rightarrow> Some (append_text buffer (if b then ''true'' else ''false''))
      | HNum x \<Rightarrow> Some (append_text buffer (if isFinite x then show_num x else ''null''))
      | HBigInt \<Rightarrow> Some (Inl (TypeErr ''JSON body cannot contain bigint values''))
      | HUndef \<Rightarrow> Some (Inr buffer)
      | HOpaque \<Rightarrow> Some (Inr buffer)
      | HRef a \<Rightarrow>
          if a \<in> ancestors then Some (Inl (TypeErr ''JSON body cannot contain circular references''))
          else let ser = serializePrepared fuel h (insert a ancestors) in
               case ce_shape (cell_at h a) of
                 HArr vs \<Rightarrow>
                   bindR (Some (append_text buffer ''['')) (\<lambda>b1.
                   bindR (write_items ser h 0 vs b1) (\<lambda>b2.
                   Some (append_text b2 '']'')))
               | HObj props \<Rightarrow>
                   bindR (Some (append_text buffer ''{'')) (\<lambda>b1.
                   bindR (write_entries ser h props 0 (sort_by code_compare (map fst props)) b1) (\<lambda>b2.
                   Some (append_text b2 ''}''))))"

definition stableJsonBytes :: "nat \<Rightarrow> object_heap \<Rightarrow> hval \<Rightarrow> nat list run" where
  "stableJsonBytes fuel h v =
     bindR (Some (prepare h v [])) (\<lambda>prepared.
     if isOmitted prepared then Some (Inl (TypeErr ''JSON body must be serializable''))
     else serializePrepared fuel h {} prepared [])"


section \<open>The serializer returns\<close>

definition unvisited :: "object_heap \<Rightarrow> nat set \<Rightarrow> nat" where
  "unvisited h ancestors = card ({0..<length h} - ancestors)"

lemma unvisited_insert: "a < length h \<Longrightarrow> a \<notin> ancestors \<Longrightarrow> unvisited h ancestors = Suc (unvisited h (insert a ancestors))"
proof -
  assume a: "a < length h" "a \<notin> ancestors"
  have "{0..<length h} - ancestors = insert a ({0..<length h} - insert a ancestors)" using a by auto
  then show ?thesis unfolding unvisited_def by (metis DiffD2 card_insert_disjoint finite_Diff finite_atLeastLessThan insertI1)
qed

lemma bindR_simps [simp]: "bindR None f = None" "bindR (Some (Inl e)) f = Some (Inl e)" "bindR (Some (Inr a)) f = f a"
  by (simp_all add: bindR_def)

text \<open>Two computations that both return, with the same result.\<close>

definition same_result :: "'a run \<Rightarrow> 'a run \<Rightarrow> bool" where
  "same_result r r' \<longleftrightarrow> r = r' \<and> r \<noteq> None"

lemma agree_bind: "same_result r r' \<Longrightarrow> (\<And>a. same_result (f a) (f' a)) \<Longrightarrow> same_result (bindR r f) (bindR r' f')"
  unfolding same_result_def bindR_def by (auto split: option.split sum.split; metis option.distinct(1) option.exhaust)

lemma agree_Some: "same_result (Some x) (Some x)"
  by (simp add: same_result_def)

lemma agree_if: "same_result r r' \<Longrightarrow> same_result t t' \<Longrightarrow> same_result (if b then r else t) (if b then r' else t')"
  by simp

lemmas agree_intros = agree_bind agree_Some agree_if

lemma loops_agree:
  assumes "\<And>v b. same_result (ser v b) (ser' v b)"
  shows "same_result (write_items ser h i vs b) (write_items ser' h i vs b)"
    and "same_result (write_entries ser h props n ks b) (write_entries ser' h props n ks b)"
proof -
  show "same_result (write_items ser h i vs b) (write_items ser' h i vs b)"
    by (induction vs arbitrary: i b) (simp_all only: write_items.simps, (intro agree_intros assms; assumption)+)
  show "same_result (write_entries ser h props n ks b) (write_entries ser' h props n ks b)"
    by (induction ks arbitrary: n b) (simp_all only: write_entries.simps, (intro agree_intros assms; assumption)+)
qed

lemma serialize_returns:
  assumes "unvisited h ancestors < n" and "unvisited h ancestors < m"
  shows "same_result (serializePrepared n h ancestors v b) (serializePrepared m h ancestors v b)"
  using assms
proof (induction n arbitrary: m ancestors v b)
  case (Suc n)
  obtain m' where m: "m = Suc m'" using Suc.prems(2) by (cases m) auto
  show ?case
  proof (cases v)
    case (HRef a)
    consider "a \<in> ancestors" | "a \<notin> ancestors" "\<not> a < length h" | "a \<notin> ancestors" "a < length h" by blast
    then show ?thesis
    proof cases
      case 1
      then show ?thesis by (simp add: m HRef agree_Some)
    next
      case 2
      have "write_entries ser h [] 0 (sort_by code_compare []) b = Some (Inr b)" for ser b by (simp add: sort_by_def)
      with 2 show ?thesis by (simp add: m HRef cell_at_def) (intro agree_intros)
    next
      case 3
      then have "unvisited h (insert a ancestors) < n" "unvisited h (insert a ancestors) < m'"
        using unvisited_insert [of a h ancestors] Suc.prems m by simp_all
      note parts = Suc.IH [OF this]
      show ?thesis
        by (cases "ce_shape (cell_at h a)") (simp_all add: m HRef Let_def 3(1), (intro agree_intros loops_agree parts)+)
    qed
  qed (simp_all add: m agree_Some)
qed simp

text \<open>What was written stays within the buffer.\<close>

lemma encodeInto_facts: "encodeInto n s = (r, bs) \<Longrightarrow> length bs \<le> n \<and> r \<le> length s \<and> (r = length s \<longrightarrow> bs = utf8 s)"
proof (induction n s arbitrary: r bs rule: encodeInto.induct)
  case (2 n c s)
  then show ?case by (fastforce simp: utf8_def split: if_splits prod.splits)
qed (simp add: utf8_def)

lemma encodeInto_reads: "length (utf8 s) \<le> n \<Longrightarrow> encodeInto n s = (length s, utf8 s)"
  by (induction n s rule: encodeInto.induct) (auto simp: utf8_def)

lemma utf8_longer: "length s \<le> length (utf8 s)"
  by (induction s) (auto simp: utf8_def utf8_char_def)

lemma append_text_exact:
  assumes "length buffer \<le> MAX_PAID_HTTP_BODY_BYTES"
  shows "append_text buffer v =
    (if length (buffer @ utf8 v) \<le> MAX_PAID_HTTP_BODY_BYTES then Inr (buffer @ utf8 v) else Inl bodyLimitError)"
proof (cases "length (buffer @ utf8 v) \<le> MAX_PAID_HTTP_BODY_BYTES")
  case True
  then have "length (utf8 v) \<le> MAX_PAID_HTTP_BODY_BYTES - length buffer" by simp
  moreover from this utf8_longer [of v] have "length v \<le> MAX_PAID_HTTP_BODY_BYTES - length buffer" by linarith
  ultimately show ?thesis using True by (simp add: append_text_def encodeInto_reads)
next
  case False
  obtain r bs where e: "encodeInto (MAX_PAID_HTTP_BODY_BYTES - length buffer) v = (r, bs)" by fastforce
  with encodeInto_facts [OF e] False assms have "r \<noteq> length v" by auto
  with False e show ?thesis by (simp add: append_text_def)
qed


definition bounded_run :: "nat list run \<Rightarrow> bool" where
  "bounded_run r \<longleftrightarrow> (case r of Some (Inr bs) \<Rightarrow> length bs \<le> MAX_PAID_HTTP_BODY_BYTES | _ \<Rightarrow> True)"

lemma bounded_bind:
  assumes "bounded_run r" and "\<And>b. length b \<le> MAX_PAID_HTTP_BODY_BYTES \<Longrightarrow> bounded_run (f b)"
  shows "bounded_run (bindR r f)"
proof (cases r)
  case (Some x)
  show ?thesis
  proof (cases x)
    case (Inr b)
    with assms(1) Some have "length b \<le> MAX_PAID_HTTP_BODY_BYTES" by (simp add: bounded_run_def)
    from assms(2) [OF this] show ?thesis by (simp add: Some Inr)
  qed (simp add: Some bounded_run_def)
qed (simp add: bounded_run_def)

lemma bounded_prepare: "(\<And>v. bounded_run (f v)) \<Longrightarrow> bounded_run (bindR (Some x) f)"
  by (cases x) (simp_all add: bounded_run_def)

lemma bounded_append: "length b \<le> MAX_PAID_HTTP_BODY_BYTES \<Longrightarrow> bounded_run (Some (append_text b v))"
  by (simp add: bounded_run_def append_text_exact)

lemma bounded_ret: "length b \<le> MAX_PAID_HTTP_BODY_BYTES \<Longrightarrow> bounded_run (Some (Inr b))" "bounded_run (Some (Inl e))"
  by (simp_all add: bounded_run_def)

lemma bounded_if: "bounded_run r \<Longrightarrow> bounded_run t \<Longrightarrow> bounded_run (if c then r else t)" "bounded_run (Some x) \<Longrightarrow> bounded_run (Some y) \<Longrightarrow> bounded_run (Some (if c then x else y))"
  by simp_all

lemma bounded_append_all: "length b \<le> MAX_PAID_HTTP_BODY_BYTES \<Longrightarrow> bounded_run (Some (append_all b vs))"
proof (induction vs arbitrary: b)
  case (Cons v vs)
  then show ?case by (cases "append_text b v") (auto simp: bounded_run_def append_text_exact split: if_splits)
qed (simp add: bounded_ret)

lemma bounded_string: "length b \<le> MAX_PAID_HTTP_BODY_BYTES \<Longrightarrow> bounded_run (Some (appendJsonString b v))"
  unfolding appendJsonString_def by (rule bounded_append_all)

lemmas bounded_intros = bounded_bind bounded_append bounded_ret bounded_if bounded_string

lemma bounded_loops:
  assumes ser: "\<And>v b. length b \<le> MAX_PAID_HTTP_BODY_BYTES \<Longrightarrow> bounded_run (ser v b)" and b: "length b \<le> MAX_PAID_HTTP_BODY_BYTES"
  shows "bounded_run (write_items ser h i vs b)" and "bounded_run (write_entries ser h props n ks b)"
proof -
  show "bounded_run (write_items ser h i vs b)"
    using b by (induction vs arbitrary: i b) (simp_all only: write_items.simps, (intro bounded_intros bounded_prepare ser; assumption?)+)
  show "bounded_run (write_entries ser h props n ks b)"
    using b by (induction ks arbitrary: n b) (simp_all only: write_entries.simps, (intro bounded_intros bounded_prepare ser; assumption?)+)
qed

lemma bounded_serialize: "length b \<le> MAX_PAID_HTTP_BODY_BYTES \<Longrightarrow> bounded_run (serializePrepared n h ancestors v b)"
proof (induction n arbitrary: ancestors v b)
  case (Suc n)
  show ?case
    using Suc.prems
    by (cases v) (auto simp: Let_def split: hshape.split intro!: bounded_intros bounded_loops Suc.IH)
qed (simp add: bounded_run_def)

lemma stable_returns: "\<exists>r. (\<forall>k. stableJsonBytes (Suc (length h + k)) h v = Some r) \<and> bounded_run (Some r)"
proof -
  have n: "unvisited h {} < Suc (length h + k)" for k by (simp add: unvisited_def)
  have "same_result (stableJsonBytes (Suc (length h + k)) h v) (stableJsonBytes (Suc (length h + 0)) h v)" for k
    unfolding stableJsonBytes_def by (intro agree_intros serialize_returns n)
  then obtain r where r: "stableJsonBytes (Suc (length h + k)) h v = Some r" for k unfolding same_result_def by (metis option.exhaust)
  have "bounded_run (stableJsonBytes (Suc (length h + 0)) h v)"
    unfolding stableJsonBytes_def by (intro bounded_prepare bounded_intros bounded_serialize) simp
  with r show ?thesis by metis
qed

text \<open>
  C37. The JSON serializer returns on every object graph. A request body is any value over a finite
  heap, cyclic ones included. Whatever the heap, a nesting budget of its size plus one is enough: the
  result does not change with a larger one, and it is an error or at most 262144 bytes. An
  array that contains an object that contains the array is refused as a circular reference.
\<close>

theorem body_serializer_returns:
  "(\<exists>r. (\<forall>extra. stableJsonBytes (Suc (length h + extra)) h v = Some r) \<and>
        (case r of Inl e \<Rightarrow> True | Inr bytes \<Rightarrow> length bytes \<le> 262144)) \<and>
   stableJsonBytes 3 [\<lparr>ce_shape = HArr [HRef 1], ce_toJSON = None\<rparr>, \<lparr>ce_shape = HObj [(''a'', HRef 0)], ce_toJSON = None\<rparr>] (HRef 0) =
     Some (Inl (TypeErr ''JSON body cannot contain circular references''))"
proof
  obtain r where "\<forall>k. stableJsonBytes (Suc (length h + k)) h v = Some r" "bounded_run (Some r)" using stable_returns [of h v] by blast
  then show "\<exists>r. (\<forall>extra. stableJsonBytes (Suc (length h + extra)) h v = Some r) \<and>
        (case r of Inl e \<Rightarrow> True | Inr bytes \<Rightarrow> length bytes \<le> 262144)"
    by (intro exI [of _ r]) (auto simp: bounded_run_def MAX_PAID_HTTP_BODY_BYTES_def split: sum.splits)
  show "stableJsonBytes 3 [\<lparr>ce_shape = HArr [HRef 1], ce_toJSON = None\<rparr>, \<lparr>ce_shape = HObj [(''a'', HRef 0)], ce_toJSON = None\<rparr>] (HRef 0) =
     Some (Inl (TypeErr ''JSON body cannot contain circular references''))"
    by (simp add: stableJsonBytes_def prepare_def cell_at_def isOmitted_def numeral_3_eq_3 sort_by_def append_text_exact
        MAX_PAID_HTTP_BODY_BYTES_def appendJsonString_def utf8_def utf8_char_def json_escape_def code_def)
qed

section \<open>Normalizing a request\<close>

datatype paid_body = JsonBody object_heap hval | TextBody string | Base64Body string | OtherBody string

record paid_request =
  pr_url :: string
  pr_method :: string
  pr_headers :: "(string \<times> string) list"
  pr_body :: "paid_body option"

record normal_request =
  nr_url :: string
  nr_method :: string
  nr_headers :: "(string \<times> string) list"
  nr_body :: "nat list option"

definition DENIED_PAID_HTTP_HEADERS :: "string list" where
  "DENIED_PAID_HTTP_HEADERS =
     [''host'', ''content-length'', ''connection'', ''te'', ''trailer'', ''transfer-encoding'', ''upgrade'', ''keep-alive'',
      ''accept-encoding'', ''payment-signature'', ''payment-response'', ''payment-required'', ''x-payment'']"

definition is_alnum :: "char \<Rightarrow> bool" where
  "is_alnum c \<longleftrightarrow> is_digit c \<or> 65 \<le> code c \<and> code c \<le> 90 \<or> 97 \<le> code c \<and> code c \<le> 122"

text \<open>\<open>PAID_HTTP_HEADER_NAME\<close>; the apostrophe and the backquote are given by their codes.\<close>

definition header_name :: "string \<Rightarrow> bool" where
  "header_name name \<longleftrightarrow> name \<noteq> [] \<and> list_all (\<lambda>c. is_alnum c \<or> c \<in> set ''!#$%&*+-.^_|~'' \<or> code c = 39 \<or> code c = 96) name"

definition denied_header :: "string \<Rightarrow> bool" where
  "denied_header name \<longleftrightarrow>
     (let normalizedName = toLowerCase name
      in normalizedName \<in> set DENIED_PAID_HTTP_HEADERS \<or> starts_with ''proxy-'' normalizedName \<or> starts_with ''x-payment-'' normalizedName)"

definition clean_value :: "string \<Rightarrow> bool" where
  "clean_value v \<longleftrightarrow> list_all (\<lambda>c. code c \<notin> {13, 10, 0}) v"

fun check_headers :: "(string \<times> string) list \<Rightarrow> http_error + unit" where
  "check_headers [] = Inr ()"
| "check_headers ((name, v) # hs) =
     bindE (guardE (header_name name) (TypeErr (''Invalid paid HTTP header name: '' @ name))) (\<lambda>_.
     bindE (guardE (clean_value v) (TypeErr (''Invalid paid HTTP header value for: '' @ name))) (\<lambda>_.
     bindE (guardE (\<not> denied_header name) (TypeErr (''Paid HTTP header is not allowed: '' @ name))) (\<lambda>_.
     check_headers hs)))"

text \<open>Base64: the value of a letter, \<open>Buffer.from(s, 'base64')\<close> and \<open>toString('base64')\<close>.\<close>

definition b64_char :: "char \<Rightarrow> bool" where
  "b64_char c \<longleftrightarrow> is_alnum c \<or> c = CHR ''+'' \<or> c = CHR ''/''"

definition b64_value :: "char \<Rightarrow> nat" where
  "b64_value c =
     (if 65 \<le> code c \<and> code c \<le> 90 then code c - 65
      else if 97 \<le> code c \<and> code c \<le> 122 then code c - 71
      else if is_digit c then code c + 4
      else if c = CHR ''+'' then 62 else 63)"

definition b64_letter :: "nat \<Rightarrow> char" where
  "b64_letter n =
     (if n < 26 then char_of (n + 65) else if n < 52 then char_of (n + 71) else if n < 62 then char_of (n - 4)
      else if n = 62 then CHR ''+'' else CHR ''/'')"

fun decode64 :: "nat list \<Rightarrow> nat list" where
  "decode64 (a # b # c # d # r) = (a * 4 + b div 16) # ((b mod 16) * 16 + c div 4) # ((c mod 4) * 64 + d) # decode64 r"
| "decode64 [a, b, c] = [a * 4 + b div 16, (b mod 16) * 16 + c div 4]"
| "decode64 [a, b] = [a * 4 + b div 16]"
| "decode64 _ = []"

fun encode64 :: "nat list \<Rightarrow> string" where
  "encode64 (x # y # z # r) =
     b64_letter (x div 4) # b64_letter ((x mod 4) * 16 + y div 16) # b64_letter ((y mod 16) * 4 + z div 64) # b64_letter (z mod 64) # encode64 r"
| "encode64 [x, y] = [b64_letter (x div 4), b64_letter ((x mod 4) * 16 + y div 16), b64_letter ((y mod 16) * 4), CHR ''='']"
| "encode64 [x] = [b64_letter (x div 4), b64_letter ((x mod 4) * 16), CHR ''='', CHR ''='']"
| "encode64 [] = []"

definition unpad :: "string \<Rightarrow> string" where
  "unpad s = rev (dropWhile (\<lambda>c. c = CHR ''='') (rev s))"

definition base64_bytes :: "string \<Rightarrow> http_error + nat list" where
  "base64_bytes v =
     (let maxEncodedLength = (MAX_PAID_HTTP_BODY_BYTES + 2) div 3 * 4; unpadded = unpad v;
          padding = (if starts_with ''=='' (rev v) then 2 else if starts_with ''='' (rev v) then 1 else 0);
          decodedLength = int (length v * 3 div 4) - padding;
          decoded = decode64 (map b64_value unpadded)
      in bindE (guardE (length v \<le> maxEncodedLength) bodyLimitError) (\<lambda>_.
         bindE (guardE (list_all b64_char unpadded \<and> length v - length unpadded \<le> 2 \<and> length unpadded mod 4 \<noteq> 1 \<and>
                        \<not> (CHR ''='' \<in> set v \<and> length v mod 4 \<noteq> 0)) (TypeErr ''Invalid base64 paid HTTP body'')) (\<lambda>_.
         bindE (guardE (decodedLength \<le> int MAX_PAID_HTTP_BODY_BYTES) bodyLimitError) (\<lambda>_.
         bindE (guardE (unpad (encode64 decoded) = unpadded) (TypeErr ''Invalid base64 paid HTTP body'')) (\<lambda>_.
         Inr decoded)))))"

definition body_bytes :: "paid_body \<Rightarrow> nat list run" where
  "body_bytes body =
     (case body of
        JsonBody h v \<Rightarrow> stableJsonBytes (Suc (length h)) h v
      | TextBody v \<Rightarrow> Some (if MAX_PAID_HTTP_BODY_BYTES < length v then Inl bodyLimitError else append_text [] v)
      | Base64Body v \<Rightarrow> Some (base64_bytes v)
      | OtherBody kind \<Rightarrow> Some (Inl (TypeErr (''Unsupported paid HTTP body encoding: '' @ kind))))"

definition normalizePaidHttpRequest :: "net_env \<Rightarrow> paid_request \<Rightarrow> normal_request run" where
  "normalizePaidHttpRequest N request =
     bindR (Some (case ne_URL N (pr_url request) of
                    None \<Rightarrow> Inl (TypeErr ''Invalid paid HTTP URL'')
                  | Some parsedUrl \<Rightarrow> guardE (u_protocol parsedUrl = ''https:'' \<or> u_protocol parsedUrl = ''http:'')
                                        (TypeErr ''Paid HTTP URL must use HTTP or HTTPS''))) (\<lambda>_.
     bindR (Some (guardE (pr_method request \<in> set [''GET'', ''POST'', ''PUT'', ''PATCH'', ''DELETE''])
                    (TypeErr (''Unsupported paid HTTP method: '' @ pr_method request)))) (\<lambda>_.
     bindR (Some (guardE (\<not> (pr_method request = ''GET'' \<and> pr_body request \<noteq> None))
                    (TypeErr ''GET paid HTTP requests cannot include a body''))) (\<lambda>_.
     bindR (Some (check_headers (pr_headers request))) (\<lambda>_.
     case pr_body request of
       None \<Rightarrow> Some (Inr \<lparr>nr_url = pr_url request, nr_method = pr_method request, nr_headers = pr_headers request, nr_body = None\<rparr>)
     | Some body \<Rightarrow>
         bindR (body_bytes body) (\<lambda>bytes.
         bindR (Some (guardE (length bytes \<le> MAX_PAID_HTTP_BODY_BYTES) bodyLimitError)) (\<lambda>_.
         Some (Inr \<lparr>nr_url = pr_url request, nr_method = pr_method request, nr_headers = pr_headers request, nr_body = Some bytes\<rparr>)))))))"

definition hash_field :: "nat list \<Rightarrow> nat list" where
  "hash_field bytes = utf8 (show_nat (length bytes)) @ utf8 '':'' @ bytes"

definition hash_input :: "normal_request \<Rightarrow> nat list" where
  "hash_input n =
     hash_field (utf8 (nr_method n)) @ hash_field (utf8 (nr_url n)) @ hash_field (utf8 (show_nat (length (nr_headers n)))) @
     concat (map (\<lambda>(name, v). hash_field (utf8 (toLowerCase name)) @ hash_field (utf8 v)) (nr_headers n)) @
     (case nr_body n of None \<Rightarrow> hash_field (utf8 ''0'') | Some body \<Rightarrow> hash_field (utf8 ''1'') @ hash_field body)"

definition canonicalPaidHttpRequestHash :: "(nat list \<Rightarrow> string) \<Rightarrow> net_env \<Rightarrow> paid_request \<Rightarrow> string run" where
  "canonicalPaidHttpRequestHash sha256 N request =
     bindR (normalizePaidHttpRequest N request) (\<lambda>normalized. Some (Inr (sha256 (hash_input normalized))))"


section \<open>The hash identifies the request\<close>

definition request_identity :: "normal_request \<Rightarrow> string \<times> string \<times> (string \<times> string) list \<times> nat list option" where
  "request_identity n = (nr_method n, nr_url n, map (\<lambda>(name, v). (toLowerCase name, v)) (nr_headers n), nr_body n)"

lemma utf8_Cons: "utf8 (c # s) = utf8_char c @ utf8 s"
  by (simp add: utf8_def)

lemma utf8_Nil [simp]: "utf8 [] = []" "[] = utf8 s \<longleftrightarrow> s = []" "utf8 s = [] \<longleftrightarrow> s = []"
  by (cases s; simp add: utf8_def utf8_char_def)+

lemma utf8_char_inj: "utf8_char c @ xs = utf8_char d @ ys \<Longrightarrow> c = d \<and> xs = ys"
proof -
  assume eq: "utf8_char c @ xs = utf8_char d @ ys"
  have parts: "x div 64 = y div 64 \<Longrightarrow> x mod 64 = y mod 64 \<Longrightarrow> x = y" for x y :: nat by (metis div_mult_mod_eq)
  have "code c = code d \<and> xs = ys"
    using eq by (auto simp: utf8_char_def split: if_splits intro: parts)
  then show ?thesis by (simp add: code_inject)
qed

lemma utf8_inj: "utf8 s = utf8 t \<longleftrightarrow> s = t"
proof
  show "utf8 s = utf8 t \<Longrightarrow> s = t"
  proof (induction s arbitrary: t)
    case (Cons c s)
    then obtain d t' where t: "t = d # t'" by (cases t) (auto simp: utf8_Cons utf8_char_def split: if_splits)
    from Cons.prems utf8_char_inj [of c "utf8 s" d "utf8 t'"] Cons.IH [of t'] show ?case by (simp add: t utf8_Cons)
  qed simp
qed simp

lemma utf8_digits: "list_all is_digit s \<Longrightarrow> \<forall>b \<in> set (utf8 s). b \<noteq> 58"
  by (induction s) (auto simp: utf8_Cons utf8_char_def is_digit_def)

lemma show_nat_inj: "show_nat m = show_nat n \<longleftrightarrow> m = n"
  by (metis digits_val_show_nat)

lemma colon_split:
  assumes "xs @ [58] @ r = ys @ [58] @ r'" and "\<forall>b \<in> set xs. b \<noteq> 58" and "\<forall>b \<in> set ys. b \<noteq> (58::nat)"
  shows "xs = ys \<and> r = r'"
proof -
  have "takeWhile (\<lambda>b. b \<noteq> 58) (zs @ [58] @ t) = zs" "dropWhile (\<lambda>b. b \<noteq> 58) (zs @ [58] @ t) = 58 # t" if "\<forall>b \<in> set zs. b \<noteq> 58" for zs t
    using that by (simp_all add: takeWhile_append2 dropWhile_append2)
  with assms show ?thesis by (metis list.inject)
qed

lemma field_inj: "hash_field x @ r = hash_field y @ r' \<longleftrightarrow> x = y \<and> r = r'"
proof
  assume eq: "hash_field x @ r = hash_field y @ r'"
  have colon: "utf8 '':'' = [58]" by (simp add: utf8_def utf8_char_def code_def)
  from eq have "utf8 (show_nat (length x)) @ [58] @ x @ r = utf8 (show_nat (length y)) @ [58] @ y @ r'"
    by (simp add: hash_field_def colon)
  from colon_split [OF this utf8_digits [OF show_nat_digits] utf8_digits [OF show_nat_digits]] have "show_nat (length x) = show_nat (length y)" "x @ r = y @ r'"
    by (simp_all add: utf8_inj)
  then show "x = y \<and> r = r'" by (simp add: show_nat_inj)
qed simp

lemma headers_inj:
  assumes "length hs = length hs'"
    and "concat (map (\<lambda>(name, v). hash_field (utf8 (toLowerCase name)) @ hash_field (utf8 v)) hs) @ r =
         concat (map (\<lambda>(name, v). hash_field (utf8 (toLowerCase name)) @ hash_field (utf8 v)) hs') @ r'"
  shows "map (\<lambda>(name, v). (toLowerCase name, v)) hs = map (\<lambda>(name, v). (toLowerCase name, v)) hs' \<and> r = r'"
  using assms by (induction hs hs' rule: list_induct2) (auto simp: field_inj utf8_inj)

lemma hash_input_identity: "hash_input n = hash_input n' \<longleftrightarrow> request_identity n = request_identity n'"
proof
  assume eq: "hash_input n = hash_input n'"
  let ?body = "\<lambda>n. case nr_body n of None \<Rightarrow> hash_field (utf8 ''0'') | Some body \<Rightarrow> hash_field (utf8 ''1'') @ hash_field body"
  from eq have head: "nr_method n = nr_method n'" "nr_url n = nr_url n'" "length (nr_headers n) = length (nr_headers n')"
    and rest: "concat (map (\<lambda>(name, v). hash_field (utf8 (toLowerCase name)) @ hash_field (utf8 v)) (nr_headers n)) @ ?body n =
      concat (map (\<lambda>(name, v). hash_field (utf8 (toLowerCase name)) @ hash_field (utf8 v)) (nr_headers n')) @ ?body n'"
    by (simp_all add: hash_input_def field_inj utf8_inj show_nat_inj)
  from headers_inj [OF head(3) rest] have headers: "map (\<lambda>(name, v). (toLowerCase name, v)) (nr_headers n) = map (\<lambda>(name, v). (toLowerCase name, v)) (nr_headers n')"
    and body: "?body n = ?body n'" by simp_all
  have "nr_body n = nr_body n'"
    using body field_inj [of _ _ _ "[]"] field_inj [of _ "[]" _ "[]"] field_inj [of _ "[]"]
    by (cases "nr_body n"; cases "nr_body n'") (simp_all add: utf8_inj field_inj)
  with head headers show "request_identity n = request_identity n'" by (simp add: request_identity_def)
next
  assume "request_identity n = request_identity n'"
  then have same: "nr_method n = nr_method n'" "nr_url n = nr_url n'" "nr_body n = nr_body n'"
    and headers: "map (\<lambda>(name, v). (toLowerCase name, v)) (nr_headers n) = map (\<lambda>(name, v). (toLowerCase name, v)) (nr_headers n')"
    by (simp_all add: request_identity_def)
  have enc: "map (\<lambda>(name, v). hash_field (utf8 (toLowerCase name)) @ hash_field (utf8 v)) hs =
      map (\<lambda>(name, v). hash_field (utf8 name) @ hash_field (utf8 v)) (map (\<lambda>(name, v). (toLowerCase name, v)) hs)" for hs
    by (induction hs) auto
  have "length (nr_headers n) = length (nr_headers n')" using arg_cong [OF headers, of length] by simp
  with same headers show "hash_input n = hash_input n'" by (simp only: hash_input_def enc)
qed


section \<open>What a normalized request is\<close>

definition safe_request :: "normal_request \<Rightarrow> bool" where
  "safe_request n \<longleftrightarrow>
     nr_method n \<in> {''GET'', ''POST'', ''PUT'', ''PATCH'', ''DELETE''} \<and>
     (if nr_method n = ''GET'' then nr_body n = None else True) \<and>
     list_all (\<lambda>(name, v). header_name name \<and> \<not> denied_header name \<and> clean_value v) (nr_headers n) \<and>
     (case nr_body n of None \<Rightarrow> True | Some bytes \<Rightarrow> length bytes \<le> 262144)"

lemma bindR_Inr: "bindR r f = Some (Inr b) \<longleftrightarrow> (\<exists>a. r = Some (Inr a) \<and> f a = Some (Inr b))"
  by (auto simp: bindR_def split: option.splits sum.splits)

lemma checked_headers: "check_headers hs = Inr u \<Longrightarrow> list_all (\<lambda>(name, v). header_name name \<and> \<not> denied_header name \<and> clean_value v) hs"
  by (induction hs rule: check_headers.induct) (auto simp: bindE_Inr)

lemma normalized_safe: "normalizePaidHttpRequest N r = Some (Inr n) \<Longrightarrow> safe_request n"
  unfolding normalizePaidHttpRequest_def bindR_Inr safe_request_def
  by (auto simp: MAX_PAID_HTTP_BODY_BYTES_def bindR_Inr dest: checked_headers split: option.splits)

lemma body_returns: "body_bytes body \<noteq> None"
proof (cases body)
  case (JsonBody h v)
  then show ?thesis using stable_returns [of h v] by (auto simp: body_bytes_def) (metis add_0_right option.distinct(1))
qed (simp_all add: body_bytes_def)

lemma bindR_returns: "r \<noteq> None \<Longrightarrow> (\<And>a. f a \<noteq> None) \<Longrightarrow> bindR r f \<noteq> None"
  unfolding bindR_def by (cases r; cases "the r") auto

lemma normalize_returns: "normalizePaidHttpRequest N r \<noteq> None"
  unfolding normalizePaidHttpRequest_def
  by (intro bindR_returns option.distinct(2); cases "pr_body r"; simp only: option.case; intro bindR_returns option.distinct(2) body_returns)

text \<open>
  C38. A paid request is identified by its hash input. Normalization always returns. A request it
  accepts has an allowed method, no body with GET, at most 256 KiB of body, and only headers that are
  tokens, carry no line break and are none of those the payment protocol or the transport
  owns. For two accepted requests the bytes fed to SHA-256 are equal exactly when method, URL,
  headers (names up to letter case, in order) and body bytes are equal, so two different requests
  share a hash only through a collision.
\<close>

theorem request_hash_identifies:
  "normalizePaidHttpRequest N r1 \<noteq> None \<and>
   (case (normalizePaidHttpRequest N r1, normalizePaidHttpRequest N r2) of
      (Some (Inr n1), Some (Inr n2)) \<Rightarrow>
        safe_request n1 \<and>
        canonicalPaidHttpRequestHash sha256 N r1 = Some (Inr (sha256 (hash_input n1))) \<and>
        (hash_input n1 = hash_input n2) = (request_identity n1 = request_identity n2)
    | (Some (Inl e), _) \<Rightarrow> canonicalPaidHttpRequestHash sha256 N r1 = Some (Inl e)
    | _ \<Rightarrow> True)"
  using normalize_returns [of N r1] normalized_safe [of N r1] hash_input_identity
  by (auto simp: canonicalPaidHttpRequestHash_def split: option.split sum.split)

end
