(* ===== verification/PaidHttpExchange.thy ===== *)
theory PaidHttpExchange
  imports PaidHttpRequest
begin

text \<open>
  The exchange itself (\<open>apps/api/src/engines/payments/x402-http.ts\<close>): response headers, the
  decoding of a bounded body, \<open>executeBoundedHttpRequest\<close> as a machine driven by the events
  of the HTTP client, and the extraction of the payment quote from a 402 response. UTF-8
  decoding, \<open>JSON.parse\<close> and the header decoder of \<open>@x402/core\<close> are arguments.
\<close>

record exchange_env =
  xe_decodeUtf8 :: "nat list \<Rightarrow> string option"
  xe_parseJson :: "string \<Rightarrow> jsval option"
  xe_decodePaymentRequiredHeader :: "string \<Rightarrow> jsval option"

datatype body_encoding = EncJson | EncText | EncBase64

record http_response =
  hr_status :: nat
  hr_headers :: "(string \<times> string) list"
  hr_contentType :: "string option"
  hr_bodyEncoding :: body_encoding
  hr_body :: jsval
  hr_sizeBytes :: nat

section \<open>Response headers\<close>

definition HOP_BY_HOP_RESPONSE_HEADERS :: "string list" where
  "HOP_BY_HOP_RESPONSE_HEADERS =
     [''connection'', ''keep-alive'', ''proxy-authenticate'', ''proxy-authorization'', ''proxy-connection'', ''te'', ''trailer'',
      ''transfer-encoding'', ''upgrade'']"

fun raw_pairs :: "string list \<Rightarrow> (string \<times> string option) list" where
  "raw_pairs [] = []"
| "raw_pairs [name] = [(name, None)]"
| "raw_pairs (name # v # rest) = (name, Some v) # raw_pairs rest"

definition connection_headers :: "string list \<Rightarrow> string list" where
  "connection_headers rawHeaders =
     concat (map (\<lambda>(name, v).
       if toLowerCase name \<noteq> ''connection'' then []
       else filter (\<lambda>n. n \<noteq> []) (map (\<lambda>n. toLowerCase (trim n)) (split_char CHR '','' (case v of None \<Rightarrow> [] | Some s \<Rightarrow> s))))
       (raw_pairs rawHeaders))"

definition safeResponseHeaders :: "string list \<Rightarrow> (string \<times> string) list" where
  "safeResponseHeaders rawHeaders =
     concat (map (\<lambda>(name, v). case v of
         None \<Rightarrow> []
       | Some s \<Rightarrow> if toLowerCase name \<in> set HOP_BY_HOP_RESPONSE_HEADERS \<or> toLowerCase name \<in> set (connection_headers rawHeaders)
                   then [] else [(name, s)])
       (raw_pairs rawHeaders))"

definition firstHeader :: "(string \<times> string) list \<Rightarrow> string \<Rightarrow> string option" where
  "firstHeader headers searchedName =
     map_option snd (find (\<lambda>(name, v). toLowerCase name = toLowerCase searchedName) headers)"

definition hasUnsupportedContentEncoding :: "(string \<times> string) list \<Rightarrow> bool" where
  "hasUnsupportedContentEncoding headers \<longleftrightarrow>
     list_ex (\<lambda>(_, v). list_ex (\<lambda>encoding. toLowerCase (trim encoding) \<noteq> ''identity'') (split_char CHR '','' v))
       (filter (\<lambda>(name, _). toLowerCase name = ''content-encoding'') headers)"

section \<open>Response bodies\<close>

definition ends_with :: "string \<Rightarrow> string \<Rightarrow> bool" where
  "ends_with s p \<longleftrightarrow> starts_with (rev p) (rev s)"

definition media_type :: "string option \<Rightarrow> string" where
  "media_type contentType =
     (case contentType of None \<Rightarrow> [] | Some c \<Rightarrow> toLowerCase (trim (takeWhile (\<lambda>x. x \<noteq> CHR '';'') c)))"

definition json_media :: "string \<Rightarrow> bool" where
  "json_media t \<longleftrightarrow> t = ''application/json'' \<or> starts_with ''application/'' t \<and> ends_with t ''+json''"

definition text_media :: "string \<Rightarrow> bool" where
  "text_media t \<longleftrightarrow>
     starts_with ''text/'' t \<or> t = ''application/javascript'' \<or> t = ''application/x-www-form-urlencoded'' \<or> t = ''application/xml'' \<or>
     t = ''application/xhtml+xml'' \<or> ends_with t ''+xml''"

definition decodeResponseBody :: "exchange_env \<Rightarrow> nat list \<Rightarrow> string option \<Rightarrow> http_error + (body_encoding \<times> jsval)" where
  "decodeResponseBody X bytes contentType =
     (let mediaType = media_type contentType; binary = Inr (EncBase64, VStr (encode64 bytes))
      in if json_media mediaType
         then (case Option.bind (xe_decodeUtf8 X bytes) (xe_parseJson X) of
                 None \<Rightarrow> Inl (PaidHttpError ''invalid_json'' ''Paid HTTP response declared JSON but was not valid UTF-8 JSON'')
               | Some v \<Rightarrow> Inr (EncJson, v))
         else if text_media mediaType
         then (case xe_decodeUtf8 X bytes of None \<Rightarrow> binary | Some s \<Rightarrow> Inr (EncText, VStr s))
         else binary)"

section \<open>The exchange\<close>

definition max_safe_integer :: rat where
  "max_safe_integer = 9007199254740991"

definition boundedPositiveInteger :: "jsnum option \<Rightarrow> nat \<Rightarrow> string \<Rightarrow> http_error + nat" where
  "boundedPositiveInteger v fallback name =
     (case v of
        None \<Rightarrow> Inr fallback
      | Some x \<Rightarrow>
          (case x of
             Fin q \<Rightarrow> if of_int \<lfloor>q\<rfloor> = q \<and> \<bar>q\<bar> \<le> max_safe_integer \<and> 0 < q then Inr (nat \<lfloor>q\<rfloor>)
                      else Inl (TypeErr (name @ '' must be a positive safe integer''))
           | _ \<Rightarrow> Inl (TypeErr (name @ '' must be a positive safe integer''))))"

text \<open>
  The state: how the promise settled, the response with its accepted headers, the bytes
  received, and what was destroyed. \<open>ex_streaming\<close> tells that the body listeners are installed.
\<close>

record exchange =
  ex_settled :: "(http_error + http_response) option"
  ex_status :: nat
  ex_headers :: "(string \<times> string) list"
  ex_streaming :: bool
  ex_responded :: bool
  ex_chunks :: "nat list"
  ex_sizeBytes :: nat
  ex_responseDestroyed :: bool
  ex_requestDestroyed :: bool

definition exchange_start :: exchange where
  "exchange_start = \<lparr>ex_settled = None, ex_status = 0, ex_headers = [], ex_streaming = False, ex_responded = False,
     ex_chunks = [], ex_sizeBytes = 0, ex_responseDestroyed = False, ex_requestDestroyed = False\<rparr>"

text \<open>What the runtime reports: the timer, the response (once), its body, and errors.\<close>

datatype exchange_event =
    TimerFired
  | ResponseReceived nat "string list"
  | DataReceived "nat list"
  | StreamFailed http_error
  | StreamEnded
  | RequestFailed http_error
  | ConstructionFailed http_error

definition fail :: "http_error \<Rightarrow> exchange \<Rightarrow> exchange" where
  "fail e x =
     (if ex_settled x \<noteq> None then x
      else x\<lparr>ex_settled := Some (Inl e), ex_responseDestroyed := ex_responded x, ex_requestDestroyed := True\<rparr>)"

definition succeed :: "http_response \<Rightarrow> exchange \<Rightarrow> exchange" where
  "succeed r x = (if ex_settled x \<noteq> None then x else x\<lparr>ex_settled := Some (Inr r)\<rparr>)"

definition as_request_failure :: "http_error \<Rightarrow> string \<Rightarrow> http_error" where
  "as_request_failure e message = (case e of PaidHttpError _ _ \<Rightarrow> e | _ \<Rightarrow> PaidHttpError ''request_failed'' message)"

definition on_response :: "nat \<Rightarrow> string list \<Rightarrow> exchange \<Rightarrow> exchange" where
  "on_response status rawHeaders x =
     (if ex_responded x then x
      else let headers = safeResponseHeaders rawHeaders; y = x\<lparr>ex_responded := True, ex_status := status, ex_headers := headers\<rparr>
           in if hasUnsupportedContentEncoding headers
              then fail (PaidHttpError ''unsupported_content_encoding'' ''Paid HTTP response content encoding is not supported'') y
              else if 300 \<le> status \<and> status < 400 \<and> firstHeader headers ''location'' \<noteq> None
              then fail (PaidHttpError ''redirect_not_supported'' ''Paid HTTP redirects are not supported'') y
              else y\<lparr>ex_streaming := True\<rparr>)"

definition on_data :: "nat \<Rightarrow> nat list \<Rightarrow> exchange \<Rightarrow> exchange" where
  "on_data maxResponseBytes bytes x =
     (if \<not> ex_streaming x \<or> ex_settled x \<noteq> None then x
      else let y = x\<lparr>ex_sizeBytes := ex_sizeBytes x + length bytes\<rparr>
           in if maxResponseBytes < ex_sizeBytes y
              then fail (PaidHttpError ''response_too_large'' (''Paid HTTP response exceeded '' @ show_nat maxResponseBytes @ '' bytes'')) y
              else y\<lparr>ex_chunks := ex_chunks y @ bytes\<rparr>)"

definition on_end :: "exchange_env \<Rightarrow> exchange \<Rightarrow> exchange" where
  "on_end X x =
     (if \<not> ex_streaming x \<or> ex_settled x \<noteq> None then x
      else let contentType = firstHeader (ex_headers x) ''content-type''
           in case decodeResponseBody X (ex_chunks x) contentType of
                Inl e \<Rightarrow> fail e x
              | Inr (enc, body) \<Rightarrow>
                  succeed \<lparr>hr_status = ex_status x, hr_headers = ex_headers x, hr_contentType = contentType, hr_bodyEncoding = enc,
                           hr_body = body, hr_sizeBytes = ex_sizeBytes x\<rparr> x)"

definition exchange_step :: "exchange_env \<Rightarrow> nat \<Rightarrow> nat \<Rightarrow> exchange_event \<Rightarrow> exchange \<Rightarrow> exchange" where
  "exchange_step X timeoutMs maxResponseBytes event x =
     (case event of
        TimerFired \<Rightarrow> fail (PaidHttpError ''request_timeout'' (''Paid HTTP request exceeded its '' @ show_nat timeoutMs @ '' ms timeout'')) x
      | ResponseReceived status rawHeaders \<Rightarrow> on_response status rawHeaders x
      | DataReceived bytes \<Rightarrow> on_data maxResponseBytes bytes x
      | StreamFailed e \<Rightarrow> if ex_streaming x then fail (as_request_failure e ''Paid HTTP response stream failed'') x else x
      | StreamEnded \<Rightarrow> on_end X x
      | RequestFailed e \<Rightarrow> fail (as_request_failure e ''Paid HTTP request failed'') x
      | ConstructionFailed e \<Rightarrow> fail (as_request_failure e ''Paid HTTP request construction failed'') x)"

record execution_options =
  eo_timeoutMs :: "jsnum option"
  eo_maxResponseBytes :: "jsnum option"

definition request_headers :: "url \<Rightarrow> normal_request \<Rightarrow> string list" where
  "request_headers parsedUrl request =
     concat (map (\<lambda>(name, v). [name, v]) (nr_headers request)) @ [''Host'', u_host parsedUrl] @ [''Accept-Encoding'', ''identity''] @
     (case nr_body request of None \<Rightarrow> [] | Some body \<Rightarrow> [''Content-Length'', show_nat (length body)])"

text \<open>
  The checks before the connection; then the events decide. The result holds the headers that
  are sent and the state after the given events.
\<close>

definition executeBoundedHttpRequest ::
  "net_env \<Rightarrow> exchange_env \<Rightarrow> normal_request \<Rightarrow> destination \<Rightarrow> execution_options \<Rightarrow> exchange_event list \<Rightarrow> http_error + (string list \<times> exchange)" where
  "executeBoundedHttpRequest N X request d options events =
     (case ne_URL N (nr_url request) of
        None \<Rightarrow> Inl (TypeErr ''Invalid URL'')
      | Some parsedUrl \<Rightarrow>
          (case ne_URL N (de_url d) of
             None \<Rightarrow> Inl (TypeErr ''Invalid URL'')
           | Some pinnedUrl \<Rightarrow>
               bindE (guardE (\<not> (u_href parsedUrl \<noteq> u_href pinnedUrl \<or> strip_brackets (u_hostname parsedUrl) \<noteq> de_hostname d \<or> de_addresses d = []))
                        (PaidHttpError ''invalid_destination'' ''Paid HTTP request does not match its validated pinned destination'')) (\<lambda>_.
               bindE (boundedPositiveInteger (eo_timeoutMs options) 15000 ''Paid HTTP timeout'') (\<lambda>timeoutMs.
               bindE (boundedPositiveInteger (eo_maxResponseBytes options) 1048576 ''Paid HTTP response byte limit'') (\<lambda>maxResponseBytes.
               Inr (request_headers parsedUrl request, fold (exchange_step X timeoutMs maxResponseBytes) events exchange_start))))))"

section \<open>The quote of a 402 response\<close>

definition nonempty_text :: "jsval \<Rightarrow> bool" where
  "nonempty_text v = (case v of VStr s \<Rightarrow> s \<noteq> [] | _ \<Rightarrow> False)"

definition record_of :: "jsval \<Rightarrow> obj option" where
  "record_of v = as_object v"

definition valid_requirements :: "jsval \<Rightarrow> bool" where
  "valid_requirements requirements =
     (case record_of requirements of
        None \<Rightarrow> False
      | Some r \<Rightarrow>
          list_all (\<lambda>k. nonempty_text (get_prop r k)) [''scheme'', ''network'', ''asset'', ''amount'', ''payTo''] \<and>
          (case get_prop r ''maxTimeoutSeconds'' of VNum (Fin t) \<Rightarrow> 0 \<le> t | _ \<Rightarrow> False) \<and>
          record_of (get_prop r ''extra'') \<noteq> None)"

definition validatedPaymentRequired :: "jsval \<Rightarrow> http_error + jsval" where
  "validatedPaymentRequired v =
     (let invalid = Inl (PaidHttpError ''payment_required_invalid'' ''Payment-required quote is invalid'')
      in case record_of v of
           None \<Rightarrow> invalid
         | Some quote \<Rightarrow>
             (case record_of (get_prop quote ''resource'') of
                None \<Rightarrow> invalid
              | Some resource \<Rightarrow>
                  if get_prop quote ''x402Version'' \<noteq> VNum (Fin 2) then invalid
                  else case get_prop quote ''accepts'' of
                         VArr accepts \<Rightarrow>
                           if accepts = []
                           then Inl (PaidHttpError ''payment_required_empty_accepts'' ''Payment-required quote has no accepted payment options'')
                           else if \<not> nonempty_text (get_prop resource ''url'') \<or> list_ex (\<lambda>r. \<not> valid_requirements r) accepts then invalid
                           else Inr v
                       | _ \<Rightarrow> invalid))"

definition paymentRequiredFromResponse :: "exchange_env \<Rightarrow> http_response \<Rightarrow> http_error + jsval" where
  "paymentRequiredFromResponse X response =
     (if hr_status response \<noteq> 402
      then Inl (PaidHttpError ''not_payment_required'' (''Expected HTTP 402 payment required, received '' @ show_nat (hr_status response)))
      else case firstHeader (hr_headers response) ''payment-required'' of
             Some encodedHeader \<Rightarrow>
               (case xe_decodePaymentRequiredHeader X encodedHeader of
                  None \<Rightarrow> Inl (PaidHttpError ''payment_required_invalid'' ''PAYMENT-REQUIRED header is invalid'')
                | Some decoded \<Rightarrow> validatedPaymentRequired decoded)
           | None \<Rightarrow>
               if hr_bodyEncoding response \<noteq> EncJson
               then Inl (PaidHttpError ''payment_required_missing'' ''HTTP 402 response did not include a payment-required quote'')
               else validatedPaymentRequired (hr_body response))"


section \<open>How an exchange settles\<close>

definition payload :: "exchange_event \<Rightarrow> nat list" where
  "payload event = (case event of DataReceived bytes \<Rightarrow> bytes | _ \<Rightarrow> [])"

definition is_response :: "exchange_event \<Rightarrow> bool" where
  "is_response event = (case event of ResponseReceived _ _ \<Rightarrow> True | _ \<Rightarrow> False)"

lemma event_simps [simp]:
  "payload (DataReceived bytes) = bytes" "payload TimerFired = []" "payload (ResponseReceived st raw) = []" "payload StreamEnded = []"
  "payload (StreamFailed e) = []" "is_response (ResponseReceived st raw)" "\<not> is_response (DataReceived bytes)" "\<not> is_response StreamEnded"
  "\<not> is_response (StreamFailed e)" "\<not> is_response TimerFired"
  by (simp_all add: payload_def is_response_def)

text \<open>The body bytes delivered by a history: the data that follows the response.\<close>

definition delivered :: "exchange_event list \<Rightarrow> nat list" where
  "delivered history = concat (map payload (dropWhile (\<lambda>e. \<not> is_response e) history))"

definition acceptable :: "nat \<Rightarrow> (string \<times> string) list \<Rightarrow> bool" where
  "acceptable status headers \<longleftrightarrow>
     \<not> hasUnsupportedContentEncoding headers \<and> \<not> (300 \<le> status \<and> status < 400 \<and> firstHeader headers ''location'' \<noteq> None) \<and>
     list_all (\<lambda>(name, _). toLowerCase name \<notin> set HOP_BY_HOP_RESPONSE_HEADERS) headers"

definition faithful_response :: "exchange_env \<Rightarrow> nat \<Rightarrow> exchange_event list \<Rightarrow> http_response \<Rightarrow> bool" where
  "faithful_response X limit history r \<longleftrightarrow>
     (\<exists>before after. history = before @ StreamEnded # after \<and>
        hr_sizeBytes r = length (delivered before) \<and> hr_sizeBytes r \<le> limit \<and>
        decodeResponseBody X (delivered before) (hr_contentType r) = Inr (hr_bodyEncoding r, hr_body r)) \<and>
     hr_contentType r = firstHeader (hr_headers r) ''content-type'' \<and> acceptable (hr_status r) (hr_headers r)"

definition exchange_ok :: "exchange_env \<Rightarrow> nat \<Rightarrow> exchange_event list \<Rightarrow> exchange \<Rightarrow> bool" where
  "exchange_ok X limit history x \<longleftrightarrow>
     (ex_streaming x \<longrightarrow> ex_responded x \<and> acceptable (ex_status x) (ex_headers x)) \<and>
     ex_responded x = list_ex is_response history \<and>
     (ex_settled x = None \<and> ex_streaming x \<longrightarrow>
        ex_chunks x = delivered history \<and> ex_sizeBytes x = length (ex_chunks x) \<and> ex_sizeBytes x \<le> limit) \<and>
     (\<not> ex_responded x \<longrightarrow> ex_sizeBytes x = 0 \<and> ex_chunks x = []) \<and>
     (ex_settled x = None \<longrightarrow> TimerFired \<notin> set history) \<and>
     (ex_settled x = None \<and> ex_responded x \<longrightarrow> ex_streaming x) \<and>
     (\<forall>r. ex_settled x = Some (Inr r) \<longrightarrow> faithful_response X limit history r)"

lemma delivered_snoc:
  "delivered (history @ [e]) = (if list_ex is_response history then delivered history @ payload e else if is_response e then payload e else [])"
proof (cases "list_ex is_response history")
  case True
  then obtain e' where "e' \<in> set history" "is_response e'" by (auto simp: list_ex_iff)
  then show ?thesis using True by (simp add: delivered_def dropWhile_append1)
next
  case False
  then have "\<forall>e' \<in> set history. \<not> is_response e'" by (auto simp: list_ex_iff)
  then show ?thesis using False by (simp add: delivered_def dropWhile_append2)
qed

lemma faithful_more: "faithful_response X limit history r \<Longrightarrow> faithful_response X limit (history @ later) r"
  unfolding faithful_response_def by (metis append_Cons append_assoc)

lemma fail_simps [simp]:
  "ex_settled (fail e x) = (case ex_settled x of None \<Rightarrow> Some (Inl e) | Some r \<Rightarrow> Some r)" "ex_streaming (fail e x) = ex_streaming x"
  "ex_responded (fail e x) = ex_responded x" "ex_status (fail e x) = ex_status x" "ex_headers (fail e x) = ex_headers x"
  "ex_chunks (fail e x) = ex_chunks x" "ex_sizeBytes (fail e x) = ex_sizeBytes x"
  by (auto simp: fail_def)

lemma step_settled:
  assumes "ex_settled x = Some r"
  shows "ex_settled (exchange_step X t limit e x) = Some r"
proof -
  have "on_end X x = x" "on_data limit bs x = x" "fail er x = x" for bs er using assms by (simp_all add: on_end_def on_data_def fail_def)
  moreover have "ex_settled (on_response st raw x) = Some r" for st raw using assms by (simp add: on_response_def Let_def)
  ultimately show ?thesis using assms by (cases e) (simp_all add: exchange_step_def)
qed

lemma fold_settled: "ex_settled x = Some r \<Longrightarrow> ex_settled (fold (exchange_step X t limit) events x) = Some r"
  by (induction events arbitrary: x) (simp_all add: step_settled)

lemma safe_headers_hop: "list_all (\<lambda>(name, _). toLowerCase name \<notin> set HOP_BY_HOP_RESPONSE_HEADERS) (safeResponseHeaders raw)"
  by (auto simp: safeResponseHeaders_def list_all_iff split: option.splits if_splits)

lemma failed_ok:
  assumes "exchange_ok X limit history x" and "\<not> is_response e"
  shows "exchange_ok X limit (history @ [e]) (fail er x)"
proof (cases "ex_settled x")
  case None
  with assms show ?thesis by (auto simp: exchange_ok_def)
next
  case (Some r)
  with assms show ?thesis using faithful_more [of X limit history _ "[e]"] by (auto simp: exchange_ok_def fail_def)
qed

lemma step_ok:
  assumes ok: "exchange_ok X limit history x"
  shows "exchange_ok X limit (history @ [e]) (exchange_step X t limit e x)"
proof (cases e)
  case TimerFired
  then show ?thesis using failed_ok [OF ok, of e] by (simp add: exchange_step_def is_response_def)
next
  case (ResponseReceived status raw)
  have e: "is_response e" "payload e = []" by (simp_all add: ResponseReceived is_response_def payload_def)
  show ?thesis
  proof (cases "ex_responded x")
    case True
    then have "exchange_step X t limit e x = x" by (simp add: exchange_step_def ResponseReceived on_response_def)
    with True ok show ?thesis
      using delivered_snoc [of history e] faithful_more [of X limit history _ "[e]"] by (auto simp: exchange_ok_def ResponseReceived)
  next
    case False
    then have none: "\<not> list_ex is_response history" using ok by (simp add: exchange_ok_def)
    have empty: "delivered (history @ [e]) = []" using delivered_snoc [of history e] none e by simp
    have streaming: "\<not> ex_streaming x" using ok False by (auto simp: exchange_ok_def)
    show ?thesis
      using ok False streaming empty e safe_headers_hop [of raw] faithful_more [of X limit history _ "[e]"]
      by (auto simp: exchange_ok_def exchange_step_def ResponseReceived on_response_def Let_def acceptable_def split: option.splits)
  qed
next
  case (DataReceived bytes)
  have e: "\<not> is_response e" "payload e = bytes" by (simp_all add: DataReceived is_response_def payload_def)
  show ?thesis
  proof (cases "ex_streaming x \<and> ex_settled x = None")
    case True
    with ok have r: "list_ex is_response history" by (auto simp: exchange_ok_def)
    from True ok e r delivered_snoc [of history e] show ?thesis
      by (auto simp: exchange_ok_def exchange_step_def DataReceived on_data_def Let_def)
  next
    case False
    then have "exchange_step X t limit e x = x" by (auto simp: exchange_step_def DataReceived on_data_def)
    with False ok e show ?thesis using faithful_more [of X limit history _ "[e]"] by (auto simp: exchange_ok_def DataReceived)
  qed
next
  case StreamEnded
  have e: "\<not> is_response e" "payload e = []" by (simp_all add: StreamEnded is_response_def payload_def)
  show ?thesis
  proof (cases "ex_streaming x \<and> ex_settled x = None")
    case True
    show ?thesis
    proof (cases "decodeResponseBody X (ex_chunks x) (firstHeader (ex_headers x) ''content-type'')")
      case (Inl er)
      with True have "exchange_step X t limit e x = fail er x" by (simp add: exchange_step_def StreamEnded on_end_def)
      then show ?thesis using failed_ok [OF ok e(1)] by simp
    next
      case (Inr p)
      obtain enc body where p: "p = (enc, body)" by fastforce
      have "faithful_response X limit (history @ [e])
          \<lparr>hr_status = ex_status x, hr_headers = ex_headers x, hr_contentType = firstHeader (ex_headers x) ''content-type'', hr_bodyEncoding = enc,
           hr_body = body, hr_sizeBytes = ex_sizeBytes x\<rparr>"
        using True ok Inr unfolding faithful_response_def p StreamEnded by (auto simp: exchange_ok_def)
      with True ok e Inr p show ?thesis
        by (auto simp: exchange_ok_def exchange_step_def StreamEnded on_end_def succeed_def)
    qed
  next
    case False
    then have "exchange_step X t limit e x = x" by (auto simp: exchange_step_def StreamEnded on_end_def)
    with False ok e show ?thesis using faithful_more [of X limit history _ "[e]"] by (auto simp: exchange_ok_def StreamEnded)
  qed
next
  case (StreamFailed er)
  have e: "\<not> is_response e" "payload e = []" by (simp_all add: StreamFailed is_response_def payload_def)
  show ?thesis
  proof (cases "ex_streaming x")
    case True
    then show ?thesis using failed_ok [OF ok e(1)] by (simp add: exchange_step_def StreamFailed)
  next
    case False
    with ok e show ?thesis using faithful_more [of X limit history _ "[e]"] by (auto simp: exchange_ok_def exchange_step_def StreamFailed)
  qed
next
  case (RequestFailed er)
  then show ?thesis using failed_ok [OF ok, of e] by (simp add: exchange_step_def is_response_def)
next
  case (ConstructionFailed er)
  then show ?thesis using failed_ok [OF ok, of e] by (simp add: exchange_step_def is_response_def)
qed

lemma exchange_run_ok: "exchange_ok X limit events (fold (exchange_step X t limit) events exchange_start)"
proof (induction events rule: rev_induct)
  case Nil
  show ?case by (simp add: exchange_ok_def exchange_start_def)
next
  case (snoc e events)
  then show ?case using step_ok by simp
qed

definition response_limit :: "execution_options \<Rightarrow> nat" where
  "response_limit options =
     (case boundedPositiveInteger (eo_maxResponseBytes options) 1048576 ''Paid HTTP response byte limit'' of Inl _ \<Rightarrow> 0 | Inr m \<Rightarrow> m)"

text \<open>
  C39. A paid exchange settles once and within its bounds. Let the events come in any order. As long as
  the timer has not fired the promise may be pending; once it is settled, no later event
  changes the outcome. A success means that the stream ended, that the body decodes exactly the bytes
  delivered between the response and that end, that these are at most the limit, and that the
  response was no redirect, had no content encoding and kept no hop-by-hop header.
\<close>

theorem exchange_settles_once_within_bounds:
  "case executeBoundedHttpRequest N X request d options events of
     Inl e \<Rightarrow> True
   | Inr (sent, x) \<Rightarrow>
       (case ex_settled x of
          None \<Rightarrow> TimerFired \<notin> set events
        | Some result \<Rightarrow>
            (\<forall>later. \<exists>y. executeBoundedHttpRequest N X request d options (events @ later) = Inr (sent, y) \<and> ex_settled y = Some result) \<and>
            (case result of
               Inl e \<Rightarrow> True
             | Inr response \<Rightarrow> faithful_response X (response_limit options) events response))"
proof (cases "executeBoundedHttpRequest N X request d options events")
  case (Inr p)
  obtain sent x where p: "p = (sent, x)" by fastforce
  obtain parsedUrl pinnedUrl where urls: "ne_URL N (nr_url request) = Some parsedUrl" "ne_URL N (de_url d) = Some pinnedUrl"
    using Inr by (auto simp: executeBoundedHttpRequest_def split: option.splits)
  obtain t limit where guard: "\<not> (u_href parsedUrl \<noteq> u_href pinnedUrl \<or> strip_brackets (u_hostname parsedUrl) \<noteq> de_hostname d \<or> de_addresses d = [])"
    and t: "boundedPositiveInteger (eo_timeoutMs options) 15000 ''Paid HTTP timeout'' = Inr t"
    and limit: "boundedPositiveInteger (eo_maxResponseBytes options) 1048576 ''Paid HTTP response byte limit'' = Inr limit"
    and result: "sent = request_headers parsedUrl request" "x = fold (exchange_step X t limit) events exchange_start"
    using Inr unfolding p executeBoundedHttpRequest_def urls option.case bindE_Inr guardE_Inr sum.inject prod.inject by blast
  have again: "executeBoundedHttpRequest N X request d options evs = Inr (sent, fold (exchange_step X t limit) evs exchange_start)" for evs
    using guard by (simp add: executeBoundedHttpRequest_def urls t limit result(1) guardE_def)
  have ok: "exchange_ok X limit events x" using exchange_run_ok by (simp add: result(2))
  have "response_limit options = limit" by (simp add: response_limit_def limit)
  moreover have "\<exists>y. executeBoundedHttpRequest N X request d options (events @ later) = Inr (sent, y) \<and> ex_settled y = Some r"
    if "ex_settled x = Some r" for later r
    using that fold_settled [of x r X t limit later] by (simp add: again result(2))
  ultimately show ?thesis using ok by (auto simp: Inr p exchange_ok_def split: option.split sum.split)
qed simp

end
