(* ===== verification/Delegations.thy ===== *)
theory Delegations
  imports Escrow
begin

text \<open>
  Spending authority under a ceiling (payments/permit2.ts, payments/delegation-ceiling.ts): a payer
  signs a Permit2 allowance for a payee, the row here mirrors it, the payee draws against it, and it
  can be revoked. The payer is a user's own wallet, an agent's wallet or the treasury of the
  organisation; treasury delegations are bounded by a ceiling of the organisation and by the
  treasury's balance.
\<close>

section \<open>Rows\<close>

datatype delegation_status = DgPending | DgActive | DgExhausted | DgExpired | DgRevoked

datatype payer_kind = UserPayer | AgentPayer | TreasuryPayer

datatype drawdown_status = DwSubmitted | DwConfirmed | DwFailed

text \<open>Amounts are millionths of a USDC, as in a \<open>numeric(20, 6)\<close> column; instants are milliseconds.\<close>

record delegation_row =
  dg_id :: string
  dg_org_id :: string
  dg_payer_agent_id :: "string option"
  dg_payer_address :: string
  dg_payee_agent_id :: "string option"
  dg_payee_address :: string
  dg_mode :: payment_mode
  dg_chain :: payment_chain
  dg_token_address :: string
  dg_ceiling :: int
  dg_drawn :: int
  dg_expires_at :: int
  dg_permit_nonce :: int
  dg_signature :: "string option"
  dg_status :: delegation_status
  dg_approved_by :: string
  dg_payer_kind :: payer_kind
  dg_created_at :: int

record drawdown_row =
  dw_id :: string
  dw_delegation_id :: string
  dw_amount :: int
  dw_tx_hash :: "string option"
  dw_status :: drawdown_status

record org_ceiling_row =
  oc_org_id :: string
  oc_mode :: payment_mode
  oc_chain :: payment_chain
  oc_ceiling :: int
  oc_updated_by :: string

record delegations_db = escrow_db +
  delegations :: "delegation_row list"
  drawdowns :: "drawdown_row list"
  org_ceilings :: "org_ceiling_row list"

fun delegation_status_name :: "delegation_status \<Rightarrow> string" where
  "delegation_status_name DgPending = ''pending''"
| "delegation_status_name DgActive = ''active''"
| "delegation_status_name DgExhausted = ''exhausted''"
| "delegation_status_name DgExpired = ''expired''"
| "delegation_status_name DgRevoked = ''revoked''"

text \<open>The chain, and \<open>encodeFunctionData\<close> of \<open>allowance(owner, token, spender)\<close>, which refuses a bad address.\<close>

record permit_world =
  pm_chain :: chain_world
  pm_allowanceData :: "string \<Rightarrow> string \<Rightarrow> string \<Rightarrow> app_error + string"

section \<open>Nonces and typed data\<close>

definition PERMIT2_ADDRESS :: string where
  "PERMIT2_ADDRESS = ''0x000000000022D473030F116dDEE9F6B43aC78BA3''"

text \<open>The third word of the answer; digits that are missing or are none are an error of the attempt.\<close>

definition nonce_word :: "string \<Rightarrow> string + int" where
  "nonce_word answer =
     (let word = ''0x'' @ take 64 (drop 128 (drop 2 answer))
      in case big_of_text word of
           Some i \<Rightarrow> Inr i
         | None \<Rightarrow> Inl (''Cannot convert '' @ word @ '' to a BigInt''))"

definition readPermit2Nonce ::
  "permit_world \<Rightarrow> string \<Rightarrow> string \<Rightarrow> string \<Rightarrow> payment_chain \<Rightarrow> ('a chain_db_scheme, int) op" where
  "readPermit2Nonce P ownerAddress tokenAddress spenderAddress chain =
     bindM (liftE (configured_url (pm_chain P) chain ''permit2_nonce_rpc_not_configured'')) (\<lambda>rpcUrl.
     bindM (liftE (pm_allowanceData P ownerAddress tokenAddress spenderAddress)) (\<lambda>callData.
     bindM (attempts MAX_ATTEMPTS (fetched (\<lambda>n. bindE (body_result ''eth_call_rpc_error'' ''eth_call_empty_response''
       (ch_rpc (pm_chain P) n rpcUrl ''eth_call''
          [VObj [(''to'', VStr PERMIT2_ADDRESS), (''data'', VStr callData)], VStr ''latest''])) nonce_word)) ''unknown'') (\<lambda>outcome.
     liftE (or_unavailable ''permit2_nonce'' outcome))))"

record permit_single =
  pt_token :: string
  pt_amount :: int
  pt_expiration :: int
  pt_nonce :: int
  pt_spender :: string
  pt_sigDeadline :: int

definition typed_member :: "string \<times> string \<Rightarrow> jsval" where
  "typed_member m = VObj [(''name'', VStr (fst m)), (''type'', VStr (snd m))]"

definition buildPermitSingle ::
  "int \<Rightarrow> string \<Rightarrow> string \<Rightarrow> int \<Rightarrow> int \<Rightarrow> int \<Rightarrow> jsval \<times> permit_single" where
  "buildPermitSingle chainId tokenAddress spenderAddress amountMicros expiration nonce =
     (VObj
       [(''types'', VObj
          [(''EIP712Domain'', VArr (map typed_member
             [(''name'', ''string''), (''chainId'', ''uint256''), (''verifyingContract'', ''address'')])),
           (''PermitSingle'', VArr (map typed_member
             [(''details'', ''PermitDetails''), (''spender'', ''address''), (''sigDeadline'', ''uint256'')])),
           (''PermitDetails'', VArr (map typed_member
             [(''token'', ''address''), (''amount'', ''uint160''), (''expiration'', ''uint48''), (''nonce'', ''uint48'')]))]),
        (''domain'', VObj [(''name'', VStr ''Permit2''), (''chainId'', VNum (Fin (of_int chainId))),
           (''verifyingContract'', VStr PERMIT2_ADDRESS)]),
        (''primaryType'', VStr ''PermitSingle''),
        (''message'', VObj
          [(''details'', VObj [(''token'', VStr tokenAddress), (''amount'', VStr (show_int amountMicros)),
              (''expiration'', VStr (show_int expiration)), (''nonce'', VStr (show_int nonce))]),
           (''spender'', VStr spenderAddress), (''sigDeadline'', VStr (show_int expiration))])],
      \<lparr>pt_token = tokenAddress, pt_amount = amountMicros, pt_expiration = expiration, pt_nonce = nonce,
       pt_spender = spenderAddress, pt_sigDeadline = expiration\<rparr>)"

fun PERMIT2_DOMAIN_CHAIN_ID :: "payment_chain \<Rightarrow> int" where
  "PERMIT2_DOMAIN_CHAIN_ID Arc = 5042002"
| "PERMIT2_DOMAIN_CHAIN_ID Base = 84532"
| "PERMIT2_DOMAIN_CHAIN_ID Arbitrum = 421614"
| "PERMIT2_DOMAIN_CHAIN_ID Polygon = 80002"
| "PERMIT2_DOMAIN_CHAIN_ID Optimism = 11155420"
| "PERMIT2_DOMAIN_CHAIN_ID Avalanche = 43113"

section \<open>Who submits, and with what gas\<close>

definition treasury_wallet :: "string \<Rightarrow> payment_mode \<Rightarrow> payment_chain \<Rightarrow> ('a chain_db_scheme) \<Rightarrow> treasury_wallet_row option" where
  "treasury_wallet orgId mode chain s =
     find_row (\<lambda>w. tw_org_id w = orgId \<and> tw_mode w = mode \<and> tw_chain w = chain \<and> tw_active w) (treasury_wallets s)"

definition resolvePermitSubmitter ::
  "string \<Rightarrow> payment_mode \<Rightarrow> payment_chain \<Rightarrow> string \<Rightarrow> bool \<Rightarrow> string option \<Rightarrow> ('a chain_db_scheme, string) op" where
  "resolvePermitSubmitter orgId mode chain payerAddress payerIsPlatformControlled payeeAgentId =
     (if payerIsPlatformControlled then ret payerAddress
      else
        bindM (query (\<lambda>s. Option.bind payeeAgentId (\<lambda>a. findAgentWallet a mode chain s))) (\<lambda>payee.
        case payee of
          Some w \<Rightarrow> ret (aw_address w)
        | None \<Rightarrow>
            bindM (query (treasury_wallet orgId mode chain)) (\<lambda>treasury.
            case treasury of
              Some w \<Rightarrow> ret (tw_address w)
            | None \<Rightarrow> throw (JsError ''permit_submitter_unavailable''))))"

definition SUBMITTER_GAS_FLOOR_MICROS :: int where
  "SUBMITTER_GAS_FLOOR_MICROS = 100000"

definition BASE_SUBMITTER_ETH_FLOOR_WEI :: int where
  "BASE_SUBMITTER_ETH_FLOOR_WEI = 50000000000000"

definition BASE_GAS_POLL_ATTEMPTS :: nat where
  "BASE_GAS_POLL_ATTEMPTS = 8"

text \<open>\<open>try { ... } catch { return }\<close>: whether the body returned.\<close>

definition returned :: "('s, 'x) op \<Rightarrow> ('s, bool) op" where
  "returned m s = (case m s of (r, s') \<Rightarrow> (Inr (\<not> isl r), s'))"

primrec poll_gas :: "nat \<Rightarrow> chain_world \<Rightarrow> string \<Rightarrow> payment_chain \<Rightarrow> ('a chain_db_scheme, unit) op" where
  "poll_gas 0 C address chain = ret ()"
| "poll_gas (Suc n) C address chain =
     bindM (nativeGasBalanceWei C address chain) (\<lambda>eth.
     if BASE_SUBMITTER_ETH_FLOOR_WEI \<le> eth then ret () else poll_gas n C address chain)"

definition gas_transfer ::
  "int \<Rightarrow> string \<Rightarrow> payment_chain \<Rightarrow> payment_mode \<Rightarrow> string \<Rightarrow> string \<Rightarrow> transfer_call" where
  "gas_transfer amount destination chain mode source refId =
     \<lparr>tc_amount = amount, tc_chain = chain, tc_destinationAddress = destination, tc_mode = mode, tc_refId = refId,
      tc_source = source\<rparr>"

definition ensureSubmitterGasFloor ::
  "env \<Rightarrow> chain_world \<Rightarrow> string \<Rightarrow> string \<Rightarrow> payment_chain \<Rightarrow> payment_mode \<Rightarrow> ('a chain_db_scheme, unit) op" where
  "ensureSubmitterGasFloor E C orgId submitterAddress chain mode =
     (if chainRpcUrl C chain = None then ret ()
      else if chain = Base then
        (if mode \<noteq> Test then ret ()
         else
           bindM (nativeGasBalanceWei C submitterAddress chain) (\<lambda>eth.
           if BASE_SUBMITTER_ETH_FLOOR_WEI \<le> eth then ret ()
           else
             bindM (query (treasury_wallet orgId mode chain)) (\<lambda>treasury.
             case treasury of
               None \<Rightarrow> ret ()
             | Some w \<Rightarrow>
                 if tw_address w = submitterAddress then ret ()
                 else
                   bindM (randomRef E ''agentops-base-gas-'') (\<lambda>refId.
                   bindM (returned (callProvider C (TransferNativeGas
                     (gas_transfer (BASE_SUBMITTER_ETH_FLOOR_WEI - eth) submitterAddress chain mode (tw_circle_wallet_id w) refId)))) (\<lambda>sent.
                   if sent then poll_gas BASE_GAS_POLL_ATTEMPTS C submitterAddress chain else ret ())))))
      else if chain \<noteq> Arc then ret ()
      else
        bindM (nativeBalanceMicros C submitterAddress chain mode) (\<lambda>balance.
        if SUBMITTER_GAS_FLOOR_MICROS \<le> balance then ret ()
        else
          bindM (query (treasury_wallet orgId mode chain)) (\<lambda>treasury.
          case treasury of
            None \<Rightarrow> ret ()
          | Some w \<Rightarrow>
              if tw_address w = submitterAddress then ret ()
              else
                bindM (randomRef E ''agentops-permit-gas-'') (\<lambda>refId.
                bindM (callProvider C (TransferWallet
                  (gas_transfer (SUBMITTER_GAS_FLOOR_MICROS - balance) submitterAddress chain mode (tw_address w) refId))) (\<lambda>_.
                ret ())))))"

section \<open>Ceilings\<close>

record payer_scope =
  ps_orgId :: string
  ps_payerAddress :: string
  ps_mode :: payment_mode
  ps_chain :: payment_chain
  ps_tokenAddress :: string

definition live_in :: "payer_scope \<Rightarrow> int \<Rightarrow> delegation_row \<Rightarrow> bool" where
  "live_in scope t d \<longleftrightarrow>
     dg_org_id d = ps_orgId scope \<and> dg_payer_address d = ps_payerAddress scope \<and> dg_mode d = ps_mode scope \<and>
     dg_chain d = ps_chain scope \<and> dg_token_address d = ps_tokenAddress scope \<and> dg_status d = DgActive \<and>
     t < dg_expires_at d"

definition headroom :: "payer_scope \<Rightarrow> int \<Rightarrow> delegation_row list \<Rightarrow> int" where
  "headroom scope t ds = sum_list (map (\<lambda>d. dg_ceiling d - dg_drawn d) (filter (live_in scope t) ds))"

text \<open>The sum comes back as text, \<open>'0'\<close> when no row qualifies.\<close>

definition outstandingHeadroomMicros :: "payer_scope \<Rightarrow> ('a delegations_db_scheme, int) op" where
  "outstandingHeadroomMicros scope =
     bindM (query (\<lambda>s. if list_ex (live_in scope (clock s)) (delegations s)
                       then numeric_text (headroom scope (clock s) (delegations s)) else ''0'')) (\<lambda>outstanding.
     liftE (parseUsdcMicros (UText outstanding)))"

definition orgCeilingMicros :: "string \<Rightarrow> payment_mode \<Rightarrow> payment_chain \<Rightarrow> ('a delegations_db_scheme, int option) op" where
  "orgCeilingMicros orgId mode chain =
     bindM (query (\<lambda>s. find_row (\<lambda>c. oc_org_id c = orgId \<and> oc_mode c = mode \<and> oc_chain c = chain) (org_ceilings s))) (\<lambda>row.
     case row of
       None \<Rightarrow> ret None
     | Some c \<Rightarrow> bindM (liftE (parseUsdcMicros (UText (numeric_text (oc_ceiling c))))) (\<lambda>m. ret (Some m)))"

definition ABOVE_ORG_CEILING :: "int \<Rightarrow> int \<Rightarrow> app_error" where
  "ABOVE_ORG_CEILING whole cap = conflict ''org_delegation_ceiling_exceeded''
     (''This delegation would bring total delegated spend to '' @ formatUsdc whole @ '' USDC, above the org ceiling of '' @
      formatUsdc cap @ '' USDC.'')"

definition ABOVE_TREASURY :: "int \<Rightarrow> int \<Rightarrow> app_error" where
  "ABOVE_TREASURY whole balance = conflict ''treasury_insufficient_for_ceiling''
     (''The treasury holds '' @ formatUsdc balance @ '' USDC but '' @ formatUsdc whole @
      '' USDC would be delegated. Fund the treasury first.'')"

definition assertDelegationWithinCeilings ::
  "payer_scope \<Rightarrow> int \<Rightarrow> ('a delegations_db_scheme, int) op \<Rightarrow> ('a delegations_db_scheme, unit) op" where
  "assertDelegationWithinCeilings scope newCeilingMicros readBalanceMicros =
     bindM (outstandingHeadroomMicros scope) (\<lambda>outstanding.
     let whole = outstanding + newCeilingMicros in
     bindM (orgCeilingMicros (ps_orgId scope) (ps_mode scope) (ps_chain scope)) (\<lambda>ceiling.
     bindM (case ceiling of
              None \<Rightarrow> ret ()
            | Some c \<Rightarrow> guardM (\<not> c < whole) (ABOVE_ORG_CEILING whole c)) (\<lambda>_.
     bindM readBalanceMicros (\<lambda>balance.
     guardM (\<not> balance < whole) (ABOVE_TREASURY whole balance)))))"

text \<open>The upsert behind \<open>PUT .../delegations/ceiling\<close> (payments/routes.ts).\<close>

definition setOrgCeiling ::
  "string \<Rightarrow> payment_mode \<Rightarrow> payment_chain \<Rightarrow> string \<Rightarrow> string \<Rightarrow> ('a delegations_db_scheme, unit) op" where
  "setOrgCeiling orgId mode chain ceilingUsdc updatedBy =
     bindM (liftE (numeric_cast ceilingUsdc)) (\<lambda>m.
     bindM (guardM (0 \<le> m) (PgCheckViolation ''org_delegation_ceilings_ceiling_usdc_check'')) (\<lambda>_.
     bindM (query (\<lambda>s. find_org orgId s \<noteq> None)) (\<lambda>known.
     bindM (guardM known (PgForeignKeyViolation ''org_delegation_ceilings'')) (\<lambda>_.
     let this_row = (\<lambda>c. oc_org_id c = orgId \<and> oc_mode c = mode \<and> oc_chain c = chain) in
     modify (\<lambda>s. s\<lparr>org_ceilings :=
       (if list_ex this_row (org_ceilings s)
        then update_rows this_row (\<lambda>c. c\<lparr>oc_ceiling := m, oc_updated_by := updatedBy\<rparr>) (org_ceilings s)
        else org_ceilings s @ [\<lparr>oc_org_id = orgId, oc_mode = mode, oc_chain = chain, oc_ceiling = m, oc_updated_by = updatedBy\<rparr>])\<rparr>)))))"

section \<open>Recording a delegation\<close>

record delegation_input =
  sd_orgId :: string
  sd_payerAgentId :: "string option"
  sd_payeeAgentId :: "string option"
  sd_payerTreasury :: bool
  sd_payeeAddress :: string
  sd_mode :: payment_mode
  sd_chain :: payment_chain
  sd_tokenAddress :: "string option"
  sd_ceilingUsdc :: string
  sd_expiresAt :: int
  sd_approvedBy :: string
  sd_userSigned :: "(string \<times> string \<times> int) option"   \<comment> \<open>payer address, signature, nonce\<close>

definition resolve_payer :: "delegation_input \<Rightarrow> ('a chain_db_scheme, string \<times> payer_kind) op" where
  "resolve_payer input =
     (case sd_userSigned input of
        Some (payerAddress, signature, nonce) \<Rightarrow> ret (payerAddress, UserPayer)
      | None \<Rightarrow>
          if sd_payerTreasury input
          then bindM (query (treasury_wallet (sd_orgId input) (sd_mode input) (sd_chain input))) (\<lambda>treasury.
            case treasury of
              None \<Rightarrow> throw (JsError ''org_treasury_wallet_not_found'')
            | Some w \<Rightarrow> ret (tw_address w, TreasuryPayer))
          else case sd_payerAgentId input of
            None \<Rightarrow> throw (JsError ''delegation_payer_required'')
          | Some agentId \<Rightarrow>
              bindM (query (findAgentWallet agentId (sd_mode input) (sd_chain input))) (\<lambda>payer.
              case payer of
                None \<Rightarrow> throw (JsError ''agent_wallet_not_found'')
              | Some w \<Rightarrow> ret (aw_address w, AgentPayer)))"

definition input_token :: "delegation_input \<Rightarrow> app_error + string" where
  "input_token input =
     (case sd_tokenAddress input of Some t \<Rightarrow> Inr t | None \<Rightarrow> usdcTokenAddress (sd_mode input) (sd_chain input))"

definition input_scope :: "delegation_input \<Rightarrow> string \<Rightarrow> string \<Rightarrow> payer_scope" where
  "input_scope input payerAddress tokenAddress =
     \<lparr>ps_orgId = sd_orgId input, ps_payerAddress = payerAddress, ps_mode = sd_mode input, ps_chain = sd_chain input,
      ps_tokenAddress = tokenAddress\<rparr>"

definition approve_permit2_call :: "delegation_input \<Rightarrow> string \<Rightarrow> string \<Rightarrow> int \<Rightarrow> string \<Rightarrow> contract_call" where
  "approve_permit2_call input payerAddress tokenAddress approvalMicros refId =
     \<lparr>xc_mode = sd_mode input, xc_chain = sd_chain input, xc_senderAddress = payerAddress,
      xc_abiFunctionSignature = ''approve(address,uint256)'',
      xc_abiParameters = [VStr PERMIT2_ADDRESS, VStr (show_int approvalMicros)],
      xc_contractAddress = Some tokenAddress, xc_refId = refId\<rparr>"

text \<open>
  The platform's own signature: sign, then let Permit2 spend everything this payer has outstanding
  together with the new ceiling. The wallet that submits \<open>permit()\<close> calls Permit2 itself, which is
  what no contract address stands for.
\<close>

definition signPlatformDelegation ::
  "env \<Rightarrow> permit_world \<Rightarrow> delegation_input \<Rightarrow> string \<Rightarrow> string \<Rightarrow> int \<Rightarrow> int \<Rightarrow> int \<Rightarrow> ('a delegations_db_scheme, string) op" where
  "signPlatformDelegation E P input payerAddress tokenAddress ceilingMicros expirationSeconds nonce =
     (let typedData = fst (buildPermitSingle (PERMIT2_DOMAIN_CHAIN_ID (sd_chain input)) tokenAddress (sd_payeeAddress input)
            ceilingMicros expirationSeconds nonce) in
      bindM (callProvider (pm_chain P) (SignPermit (sd_mode input) (sd_chain input) payerAddress typedData)) (\<lambda>signature.
      bindM (outstandingHeadroomMicros (input_scope input payerAddress tokenAddress)) (\<lambda>outstanding.
      let approvalMicros = outstanding + ceilingMicros in
      bindM (ensureSubmitterGasFloor E (pm_chain P) (sd_orgId input) payerAddress (sd_chain input) (sd_mode input)) (\<lambda>_.
      bindM (randomRef E ''agentops-p2-approve-'') (\<lambda>refId.
      bindM (executePermit2Transaction (pm_chain P) (approve_permit2_call input payerAddress tokenAddress approvalMicros refId)) (\<lambda>_.
      ret signature))))))"

definition permit_call ::
  "delegation_input \<Rightarrow> string \<Rightarrow> string \<Rightarrow> string \<Rightarrow> int \<Rightarrow> int \<Rightarrow> int \<Rightarrow> string \<Rightarrow> string \<Rightarrow> contract_call" where
  "permit_call input submitter payerAddress tokenAddress ceilingMicros expirationSeconds nonce signature refId =
     \<lparr>xc_mode = sd_mode input, xc_chain = sd_chain input, xc_senderAddress = submitter,
      xc_abiFunctionSignature = ''permit(address,((address,uint160,uint48,uint48),address,uint256),bytes)'',
      xc_abiParameters =
        [VStr payerAddress,
         VArr [VArr [VStr tokenAddress, VStr (show_int ceilingMicros), VStr (show_int expirationSeconds), VStr (show_int nonce)],
               VStr (sd_payeeAddress input), VStr (show_int expirationSeconds)],
         VStr signature],
      xc_contractAddress = None, xc_refId = refId\<rparr>"

definition BIGINT_RANGE :: app_error where
  "BIGINT_RANGE = JsError ''value is out of range for type bigint''"

definition insert_delegation :: "delegation_row \<Rightarrow> ('a delegations_db_scheme, unit) op" where
  "insert_delegation d =
     bindM (query (\<lambda>s. list_ex (\<lambda>q. dg_id q = dg_id d) (delegations s))) (\<lambda>dup.
     bindM (guardM (\<not> dup) (PgUniqueViolation ''agent_delegations_pkey'')) (\<lambda>_.
     bindM (query (\<lambda>s. list_ex (\<lambda>q. dg_payer_agent_id d \<noteq> None \<and> dg_payer_agent_id q = dg_payer_agent_id d \<and>
        dg_payee_address q = dg_payee_address d \<and> dg_mode q = dg_mode d \<and> dg_chain q = dg_chain d \<and>
        dg_permit_nonce q = dg_permit_nonce d) (delegations s))) (\<lambda>known.
     bindM (guardM (\<not> known) (PgUniqueViolation ''agent_delegations_payer_agent_id_payee_address_mode_chain_permit_nonce_key'')) (\<lambda>_.
     bindM (guardM (0 < dg_ceiling d) (PgCheckViolation ''agent_delegations_ceiling_usdc_check'')) (\<lambda>_.
     bindM (guardM (- (2 ^ 63) \<le> dg_permit_nonce d \<and> dg_permit_nonce d < 2 ^ 63) BIGINT_RANGE) (\<lambda>_.
     bindM (query (\<lambda>s. find_org (dg_org_id d) s \<noteq> None \<and> fk_ok ag_id (dg_payer_agent_id d) (agents s) \<and>
        fk_ok ag_id (dg_payee_agent_id d) (agents s))) (\<lambda>refs.
     bindM (guardM refs (PgForeignKeyViolation ''agent_delegations'')) (\<lambda>_.
     modify (\<lambda>s. s\<lparr>delegations := delegations s @ [d]\<rparr>)))))))))"

definition new_delegation ::
  "delegation_input \<Rightarrow> string \<Rightarrow> string \<Rightarrow> payer_kind \<Rightarrow> string \<Rightarrow> int \<Rightarrow> int \<Rightarrow> string \<Rightarrow> int \<Rightarrow> delegation_row" where
  "new_delegation input i payerAddress payerKind tokenAddress cap nonce signature t =
     \<lparr>dg_id = i, dg_org_id = sd_orgId input, dg_payer_agent_id = (if payerKind = AgentPayer then sd_payerAgentId input else None),
      dg_payer_address = payerAddress, dg_payee_agent_id = sd_payeeAgentId input, dg_payee_address = sd_payeeAddress input,
      dg_mode = sd_mode input, dg_chain = sd_chain input, dg_token_address = tokenAddress, dg_ceiling = cap, dg_drawn = 0,
      dg_expires_at = sd_expiresAt input, dg_permit_nonce = nonce, dg_signature = Some signature, dg_status = DgActive,
      dg_approved_by = sd_approvedBy input, dg_payer_kind = payerKind, dg_created_at = t\<rparr>"

text \<open>
  The body of the transaction. It locks no row, so other connections commit between its statements:
  \<open>others D1\<close> and \<open>others D2\<close> are what they did to the delegations after the ceilings were checked and
  after the allowance was approved, just before the row is inserted.
\<close>

definition others :: "(delegation_row list \<Rightarrow> delegation_row list) \<Rightarrow> ('a delegations_db_scheme, unit) op" where
  "others D = modify (\<lambda>s. s\<lparr>delegations := D (delegations s)\<rparr>)"

lemma others_id [simp]: "bindM (others (\<lambda>ds. ds)) f = f ()"
  by (rule ext) (simp add: others_def bindM_def modify_def)

definition recording ::
  "env \<Rightarrow> permit_world \<Rightarrow> (delegation_row list \<Rightarrow> delegation_row list) \<Rightarrow> (delegation_row list \<Rightarrow> delegation_row list) \<Rightarrow>
   delegation_input \<Rightarrow> ('a delegations_db_scheme, delegation_row) op" where
  "recording E P D1 D2 input =
     bindM (resolve_payer input) (\<lambda>(payerAddress, payerKind).
     bindM (liftE (input_token input)) (\<lambda>tokenAddress.
     bindM (liftE (parseUsdcMicros (UText (sd_ceilingUsdc input)))) (\<lambda>ceilingMicros.
     let expirationSeconds = sd_expiresAt input div 1000 in
     bindM (if payerKind = TreasuryPayer
            then assertDelegationWithinCeilings (input_scope input payerAddress tokenAddress) ceilingMicros
                   (nativeBalanceMicros (pm_chain P) payerAddress (sd_chain input) (sd_mode input))
            else ret ()) (\<lambda>_.
     bindM (case sd_userSigned input of
              Some (a, sig, nonce) \<Rightarrow> ret nonce
            | None \<Rightarrow> readPermit2Nonce P payerAddress tokenAddress (sd_payeeAddress input) (sd_chain input)) (\<lambda>nonce.
     bindM (others D1) (\<lambda>_.
     bindM (case sd_userSigned input of
              Some (a, sig, n) \<Rightarrow> ret sig
            | None \<Rightarrow> signPlatformDelegation E P input payerAddress tokenAddress ceilingMicros expirationSeconds nonce) (\<lambda>signature.
     bindM (resolvePermitSubmitter (sd_orgId input) (sd_mode input) (sd_chain input) payerAddress
              (sd_userSigned input = None) (sd_payeeAgentId input)) (\<lambda>permitSubmitter.
     bindM (ensureSubmitterGasFloor E (pm_chain P) (sd_orgId input) permitSubmitter (sd_chain input) (sd_mode input)) (\<lambda>_.
     bindM (randomRef E ''agentops-permit-'') (\<lambda>refId.
     bindM (executePermit2Transaction (pm_chain P)
              (permit_call input permitSubmitter payerAddress tokenAddress ceilingMicros expirationSeconds nonce signature refId)) (\<lambda>_.
     bindM (prefixedId E ''dele'') (\<lambda>i.
     bindM (liftE (numeric_cast (sd_ceilingUsdc input))) (\<lambda>ceiling.
     bindM now (\<lambda>t.
     let row = new_delegation input i payerAddress payerKind tokenAddress ceiling nonce signature t in
     bindM (others D2) (\<lambda>_.
     bindM (insert_delegation row) (\<lambda>_. ret row))))))))))))))))"

text \<open>\<open>withTransaction\<close>: a roll-back restores the tables, not what was sent or drawn from a generator.\<close>

definition recordSignedDelegation ::
  "env \<Rightarrow> permit_world \<Rightarrow> delegation_input \<Rightarrow> ('a delegations_db_scheme, delegation_row) op" where
  "recordSignedDelegation E P input = transactionOn undo_escrow (recording E P (\<lambda>ds. ds) (\<lambda>ds. ds) input)"

section \<open>Drawing and revoking\<close>

definition TRANSFER_FROM :: string where
  "TRANSFER_FROM = ''transferFrom(address,address,uint160,address)''"

definition draw_call :: "delegation_row \<Rightarrow> int \<Rightarrow> string \<Rightarrow> contract_call" where
  "draw_call d amountMicros refId =
     \<lparr>xc_mode = dg_mode d, xc_chain = dg_chain d, xc_senderAddress = dg_payee_address d,
      xc_abiFunctionSignature = TRANSFER_FROM,
      xc_abiParameters = [VStr (dg_payer_address d), VStr (dg_payee_address d), VStr (show_int amountMicros), VStr (dg_token_address d)],
      xc_contractAddress = None, xc_refId = refId\<rparr>"

definition lockedDelegation :: "string \<Rightarrow> ('a delegations_db_scheme, delegation_row) op" where
  "lockedDelegation i =
     bindM (query (\<lambda>s. find_row (\<lambda>d. dg_id d = i) (delegations s))) (\<lambda>row.
     case row of None \<Rightarrow> throw (JsError ''agent_delegation_not_found'') | Some d \<Rightarrow> ret d)"

definition DELEGATION_REVOKED :: app_error where
  "DELEGATION_REVOKED = conflict ''delegation_revoked'' ''This delegation has been revoked.''"

definition DELEGATION_NOT_ACTIVE :: "delegation_status \<Rightarrow> app_error" where
  "DELEGATION_NOT_ACTIVE st = conflict ''delegation_not_active'' (''Delegation is '' @ delegation_status_name st @ '', not active.'')"

definition DELEGATION_EXPIRED :: app_error where
  "DELEGATION_EXPIRED = conflict ''delegation_expired'' ''This delegation has expired.''"

definition CEILING_EXCEEDED :: app_error where
  "CEILING_EXCEEDED = conflict ''delegation_ceiling_exceeded'' ''Drawdown would exceed the remaining delegation ceiling.''"

definition insert_drawdown :: "drawdown_row \<Rightarrow> ('a delegations_db_scheme, unit) op" where
  "insert_drawdown w =
     bindM (query (\<lambda>s. list_ex (\<lambda>q. dw_id q = dw_id w) (drawdowns s))) (\<lambda>dup.
     bindM (guardM (\<not> dup) (PgUniqueViolation ''agent_delegation_drawdowns_pkey'')) (\<lambda>_.
     bindM (guardM (0 < dw_amount w) (PgCheckViolation ''agent_delegation_drawdowns_amount_usdc_check'')) (\<lambda>_.
     modify (\<lambda>s. s\<lparr>drawdowns := drawdowns s @ [w]\<rparr>))))"

definition confirm_drawdown :: "string \<Rightarrow> string \<Rightarrow> ('a delegations_db_scheme, unit) op" where
  "confirm_drawdown i txHash =
     modify (\<lambda>s. s\<lparr>drawdowns := update_rows (\<lambda>w. dw_id w = i)
       (\<lambda>w. w\<lparr>dw_tx_hash := Some txHash, dw_status := DwConfirmed\<rparr>) (drawdowns s)\<rparr>)"

text \<open>The UPDATE of the delegation, under the checks of its table.\<close>

definition update_drawn :: "string \<Rightarrow> int \<Rightarrow> delegation_status \<Rightarrow> ('a delegations_db_scheme, unit) op" where
  "update_drawn i drawn st =
     bindM (query (\<lambda>s. list_all (\<lambda>d. 0 \<le> drawn \<and> drawn \<le> dg_ceiling d) (filter (\<lambda>d. dg_id d = i) (delegations s)))) (\<lambda>ok.
     bindM (guardM ok (PgCheckViolation ''agent_delegations_check'')) (\<lambda>_.
     modify (\<lambda>s. s\<lparr>delegations := update_rows (\<lambda>d. dg_id d = i) (\<lambda>d. d\<lparr>dg_drawn := drawn, dg_status := st\<rparr>) (delegations s)\<rparr>)))"

definition drawDown ::
  "env \<Rightarrow> chain_world \<Rightarrow> string \<Rightarrow> string \<Rightarrow> ('a delegations_db_scheme, string \<times> string) op" where
  "drawDown E C delegationId amountUsdc =
     transactionOn undo_escrow (
       bindM (lockedDelegation delegationId) (\<lambda>d.
       bindM (guardM (dg_status d \<noteq> DgRevoked) DELEGATION_REVOKED) (\<lambda>_.
       bindM (guardM (dg_status d = DgActive) (DELEGATION_NOT_ACTIVE (dg_status d))) (\<lambda>_.
       bindM now (\<lambda>t.
       bindM (guardM (\<not> dg_expires_at d \<le> t) DELEGATION_EXPIRED) (\<lambda>_.
       bindM (liftE (parseUsdcMicros (UText amountUsdc))) (\<lambda>amountMicros.
       bindM (liftE (parseUsdcMicros (UText (numeric_text (dg_ceiling d))))) (\<lambda>ceilingMicros.
       bindM (liftE (parseUsdcMicros (UText (numeric_text (dg_drawn d))))) (\<lambda>drawnMicros.
       bindM (guardM (\<not> ceilingMicros < drawnMicros + amountMicros) CEILING_EXCEEDED) (\<lambda>_.
       bindM (ensureSubmitterGasFloor E C (dg_org_id d) (dg_payee_address d) (dg_chain d) (dg_mode d)) (\<lambda>_.
       bindM (prefixedId E ''deledraw'') (\<lambda>drawdownId.
       bindM (liftE (numeric_cast amountUsdc)) (\<lambda>amount.
       bindM (insert_drawdown \<lparr>dw_id = drawdownId, dw_delegation_id = delegationId, dw_amount = amount, dw_tx_hash = None,
         dw_status = DwSubmitted\<rparr>) (\<lambda>_.
       bindM (randomRef E ''agentops-draw-'') (\<lambda>refId.
       bindM (executePermit2Transaction C (draw_call d amountMicros refId)) (\<lambda>txHash.
       bindM (confirm_drawdown drawdownId txHash) (\<lambda>_.
       let newDrawnMicros = drawnMicros + amountMicros;
           newStatus = (if ceilingMicros \<le> newDrawnMicros then DgExhausted else DgActive) in
       bindM (liftE (numeric_cast (formatUsdc newDrawnMicros))) (\<lambda>drawn.
       bindM (update_drawn delegationId drawn newStatus) (\<lambda>_.
       ret (txHash, formatUsdc newDrawnMicros))))))))))))))))))))"

definition lockdown_call :: "delegation_row \<Rightarrow> string \<Rightarrow> contract_call" where
  "lockdown_call d refId =
     \<lparr>xc_mode = dg_mode d, xc_chain = dg_chain d, xc_senderAddress = dg_payer_address d,
      xc_abiFunctionSignature = ''lockdown((address,address)[])'',
      xc_abiParameters = [VArr [VArr [VStr (dg_token_address d), VStr (dg_payee_address d)]]],
      xc_contractAddress = None, xc_refId = refId\<rparr>"

text \<open>Whether the allowance on the chain was revoked too.\<close>

definition revokeDelegation :: "env \<Rightarrow> chain_world \<Rightarrow> string \<Rightarrow> ('a delegations_db_scheme, bool) op" where
  "revokeDelegation E C delegationId =
     transactionOn undo_escrow (
       bindM (lockedDelegation delegationId) (\<lambda>d.
       if dg_status d = DgRevoked then ret (dg_payer_kind d \<noteq> UserPayer)
       else
         let platformControlsPayer = (dg_payer_kind d \<noteq> UserPayer) in
         bindM (if platformControlsPayer
                then bindM (randomRef E ''agentops-revoke-'') (\<lambda>refId.
                     bindM (executePermit2Transaction C (lockdown_call d refId)) (\<lambda>_. ret ()))
                else ret ()) (\<lambda>_.
         bindM (modify (\<lambda>s. s\<lparr>delegations := update_rows (\<lambda>q. dg_id q = delegationId)
           (\<lambda>q. q\<lparr>dg_status := DgRevoked\<rparr>) (delegations s)\<rparr>)) (\<lambda>_.
         ret platformControlsPayer))))"

section \<open>What a user signs, and the list\<close>

record user_typed_data =
  ud_typedData :: jsval
  ud_nonce :: string
  ud_tokenAddress :: string
  ud_permit2Address :: string

definition buildUserDelegationTypedData ::
  "permit_world \<Rightarrow> string \<Rightarrow> string \<Rightarrow> payment_mode \<Rightarrow> payment_chain \<Rightarrow> string option \<Rightarrow> string \<Rightarrow> int \<Rightarrow>
     ('a chain_db_scheme, user_typed_data) op" where
  "buildUserDelegationTypedData P payerAddress payeeAddress mode chain token ceilingUsdc expiresAt =
     bindM (liftE (case token of Some t \<Rightarrow> Inr t | None \<Rightarrow> usdcTokenAddress mode chain)) (\<lambda>tokenAddress.
     bindM (liftE (parseUsdcMicros (UText ceilingUsdc))) (\<lambda>ceilingMicros.
     let expirationSeconds = expiresAt div 1000 in
     bindM (readPermit2Nonce P payerAddress tokenAddress payeeAddress chain) (\<lambda>nonce.
     ret \<lparr>ud_typedData = fst (buildPermitSingle (PERMIT2_DOMAIN_CHAIN_ID chain) tokenAddress payeeAddress ceilingMicros expirationSeconds nonce),
          ud_nonce = show_int nonce, ud_tokenAddress = tokenAddress, ud_permit2Address = PERMIT2_ADDRESS\<rparr>)))"

record delegation_summary =
  sm_row :: delegation_row
  sm_remainingUsdc :: string
  sm_platformControlsPayer :: bool

definition summarise :: "delegation_row \<Rightarrow> app_error + delegation_summary" where
  "summarise d =
     bindE (parseUsdcMicros (UText (numeric_text (dg_ceiling d)))) (\<lambda>ceiling.
     bindE (parseUsdcMicros (UText (numeric_text (dg_drawn d)))) (\<lambda>drawn.
     let remaining = ceiling - drawn in
     Inr \<lparr>sm_row = d, sm_remainingUsdc = formatUsdc (if 0 < remaining then remaining else 0),
          sm_platformControlsPayer = (dg_payer_kind d \<noteq> UserPayer)\<rparr>))"

fun summarise_all :: "delegation_row list \<Rightarrow> app_error + delegation_summary list" where
  "summarise_all [] = Inr []"
| "summarise_all (d # ds) = bindE (summarise d) (\<lambda>x. bindE (summarise_all ds) (\<lambda>xs. Inr (x # xs)))"

definition listDelegations :: "string \<Rightarrow> payment_mode \<Rightarrow> ('a delegations_db_scheme, delegation_summary list) op" where
  "listDelegations orgId mode =
     bindM (query (\<lambda>s. sort_key (\<lambda>d. - dg_created_at d) (filter (\<lambda>d. dg_org_id d = orgId \<and> dg_mode d = mode) (delegations s)))) (\<lambda>rows.
     liftE (summarise_all rows))"

end
