(* ===== verification/DelegationBooks.thy ===== *)
theory DelegationBooks
  imports Delegations
begin

text \<open>
  The books of the delegations against the chain. Every amount the provider confirmed it drew is on
  record with the delegation it was drawn under, and nothing else is; no delegation is drawn above
  its ceiling. A draw that fails half-way leaves neither rows nor money moved_total.
\<close>

section \<open>What the chain saw\<close>

text \<open>The calls the provider answered with a hash or a signature.\<close>

definition succeeded :: "chain_world \<Rightarrow> provider_call list \<Rightarrow> provider_call list" where
  "succeeded C calls = map ((!) calls) (filter (\<lambda>n. \<not> isl (ch_provider C (take n calls) (calls ! n))) [0 ..< length calls])"

type_synonym draw_key = "payment_mode \<times> payment_chain \<times> string \<times> string \<times> string"

text \<open>A transfer out of an allowance: mode, chain, payer, payee and token, and the amount.\<close>

definition draw_of :: "provider_call \<Rightarrow> (draw_key \<times> int) option" where
  "draw_of c =
     (case c of
        ExecuteContract x \<Rightarrow>
          if xc_abiFunctionSignature x = TRANSFER_FROM
          then case xc_abiParameters x of
                 [VStr payer, VStr payee, VStr amount, VStr token] \<Rightarrow>
                   Some ((xc_mode x, xc_chain x, payer, payee, token), int (or_else (parse_nat amount) 0))
               | _ \<Rightarrow> None
          else None
      | _ \<Rightarrow> None)"

definition draws :: "chain_world \<Rightarrow> provider_call list \<Rightarrow> (draw_key \<times> int) list" where
  "draws C calls = List.map_filter draw_of (succeeded C calls)"

definition moved_total :: "draw_key \<Rightarrow> (draw_key \<times> int) list \<Rightarrow> int" where
  "moved_total k ms = sum_list (map snd (filter (\<lambda>m. fst m = k) ms))"

lemma succeeded_snoc:
  "succeeded C (calls @ [c]) = succeeded C calls @ (if isl (ch_provider C calls c) then [] else [c])"
proof -
  have old: "filter (\<lambda>n. \<not> isl (ch_provider C (take n (calls @ [c])) ((calls @ [c]) ! n))) [0 ..< length calls] =
      filter (\<lambda>n. \<not> isl (ch_provider C (take n calls) (calls ! n))) [0 ..< length calls]"
    by (rule filter_cong) (auto simp: nth_append)
  have nths: "map ((!) (calls @ [c])) (filter p [0 ..< length calls]) = map ((!) calls) (filter p [0 ..< length calls])" for p
    by (rule map_cong) (auto simp: nth_append)
  have range: "[0 ..< length (calls @ [c])] = [0 ..< length calls] @ [length calls]" by simp
  show ?thesis unfolding succeeded_def range filter_append map_append old nths by simp
qed

lemma draws_snoc:
  "draws C (calls @ [c]) =
     draws C calls @ (if isl (ch_provider C calls c) then [] else case draw_of c of None \<Rightarrow> [] | Some m \<Rightarrow> [m])"
  by (simp add: draws_def succeeded_snoc List.map_filter_def split: option.split)

lemma moved_snoc [simp]: "moved_total k (ms @ [(k', a)]) = moved_total k ms + (if k' = k then a else 0)"
  by (simp add: moved_total_def)

section \<open>The invariant\<close>

definition key_of :: "delegation_row \<Rightarrow> draw_key" where
  "key_of d = (dg_mode d, dg_chain d, dg_payer_address d, dg_payee_address d, dg_token_address d)"

definition drawn_under :: "string \<Rightarrow> drawdown_row list \<Rightarrow> int" where
  "drawn_under i ws = sum_list (map dw_amount (filter (\<lambda>w. dw_delegation_id w = i) ws))"

definition delegation_ok :: "drawdown_row list \<Rightarrow> delegation_row \<Rightarrow> bool" where
  "delegation_ok ws d \<longleftrightarrow>
     0 < dg_ceiling d \<and> numeric_range (dg_ceiling d) \<and> 0 \<le> dg_drawn d \<and> dg_drawn d \<le> dg_ceiling d \<and>
     dg_drawn d = drawn_under (dg_id d) ws \<and>
     (case dg_status d of
        DgActive \<Rightarrow> dg_drawn d < dg_ceiling d
      | DgExhausted \<Rightarrow> dg_drawn d = dg_ceiling d
      | DgRevoked \<Rightarrow> True
      | _ \<Rightarrow> False) \<and>
     (dg_payer_kind d = AgentPayer \<longleftrightarrow> dg_payer_agent_id d \<noteq> None)"

definition drawdown_ok :: "delegation_row list \<Rightarrow> drawdown_row \<Rightarrow> bool" where
  "drawdown_ok ds w \<longleftrightarrow>
     dw_status w = DwConfirmed \<and> dw_tx_hash w \<noteq> None \<and> 0 < dw_amount w \<and> dw_delegation_id w \<in> dg_id ` set ds"

definition drawn_with :: "draw_key \<Rightarrow> delegation_row list \<Rightarrow> int" where
  "drawn_with k ds = sum_list (map dg_drawn (filter (\<lambda>d. key_of d = k) ds))"

definition books_ok :: "delegation_row set \<Rightarrow> delegation_row list \<times> drawdown_row list \<times> (draw_key \<times> int) list \<Rightarrow> bool" where
  "books_ok R v = (case v of (ds, ws, ms) \<Rightarrow>
     R \<subseteq> {d \<in> set ds. dg_status d = DgRevoked} \<and> distinct (map dg_id ds) \<and> distinct (map dw_id ws) \<and>
     (\<forall>d \<in> set ds. delegation_ok ws d) \<and> (\<forall>w \<in> set ws. drawdown_ok ds w) \<and>
     (\<forall>k. moved_total k ms = drawn_with k ds))"

definition books_view :: "chain_world \<Rightarrow> ('a delegations_db_scheme) \<Rightarrow> delegation_row list \<times> drawdown_row list \<times> (draw_key \<times> int) list" where
  "books_view C s = (delegations s, drawdowns s, draws C (provider_calls s))"

definition delegations_ok :: "chain_world \<Rightarrow> delegation_row set \<Rightarrow> ('a delegations_db_scheme) \<Rightarrow> bool" where
  "delegations_ok C R s \<longleftrightarrow> books_ok R (books_view C s)"

lemma books_okD:
  assumes "books_ok R (ds, ws, ms)"
  shows "distinct (map dg_id ds)" "distinct (map dw_id ws)" "d \<in> set ds \<Longrightarrow> delegation_ok ws d"
    "w \<in> set ws \<Longrightarrow> drawdown_ok ds w" "moved_total k ms = drawn_with k ds"
    "r \<in> R \<Longrightarrow> r \<in> set ds" "r \<in> R \<Longrightarrow> dg_status r = DgRevoked"
  using assms by (auto simp add: books_ok_def simp del: split_paired_All)

lemma drawn_under_snoc: "drawn_under i (ws @ [w]) = drawn_under i ws + (if dw_delegation_id w = i then dw_amount w else 0)"
  by (simp add: drawn_under_def)

lemma drawn_with_snoc: "drawn_with k (ds @ [d]) = drawn_with k ds + (if key_of d = k then dg_drawn d else 0)"
  by (simp add: drawn_with_def)

lemma books_new:
  assumes ok: "books_ok R (ds, ws, ms)" and fresh: "dg_id d \<notin> dg_id ` set ds"
    and d: "0 < dg_ceiling d" "numeric_range (dg_ceiling d)" "dg_drawn d = 0" "dg_status d = DgActive"
      "dg_payer_kind d = AgentPayer \<longleftrightarrow> dg_payer_agent_id d \<noteq> None"
  shows "books_ok R (ds @ [d], ws, ms)"
proof -
  have "dw_delegation_id w \<noteq> dg_id d" if "w \<in> set ws" for w
    using books_okD(4) [OF ok that] fresh by (auto simp: drawdown_ok_def)
  then have "filter (\<lambda>w. dw_delegation_id w = dg_id d) ws = []" by (simp add: filter_empty_conv)
  then have "delegation_ok ws d" using d by (simp add: delegation_ok_def drawn_under_def)
  moreover have "drawdown_ok (ds @ [d]) w" if "w \<in> set ws" for w
    using books_okD(4) [OF ok that] by (auto simp: drawdown_ok_def)
  ultimately show ?thesis
    using ok fresh d(3) by (auto simp: books_ok_def drawn_with_snoc simp del: split_paired_All)
qed

text \<open>Replacing one row by another with the same identity changes the sums by its own difference.\<close>

lemma drawn_with_update:
  assumes "distinct (map dg_id ds)" and "d \<in> set ds" and "key_of (f d) = key_of d"
  shows "drawn_with k (update_rows (\<lambda>q. dg_id q = dg_id d) f ds) =
     drawn_with k ds + (if key_of d = k then dg_drawn (f d) - dg_drawn d else 0)"
  using assms
proof (induction ds)
  case (Cons q ds)
  show ?case
  proof (cases "q = d")
    case True
    then have "update_rows (\<lambda>q. dg_id q = dg_id d) f ds = ds"
      using Cons.prems(1) by (auto simp: update_rows_def image_iff intro!: map_idI)
    with True Cons.prems(3) show ?thesis by (simp add: drawn_with_def)
  next
    case False
    then have d: "d \<in> set ds" and q: "dg_id q \<noteq> dg_id d" using Cons.prems(1,2) by (auto simp: image_iff)
    have "drawn_with k (update_rows (\<lambda>q. dg_id q = dg_id d) f ds) =
       drawn_with k ds + (if key_of d = k then dg_drawn (f d) - dg_drawn d else 0)"
      by (rule Cons.IH) (use Cons.prems d in simp_all)
    then show ?thesis using q by (simp add: drawn_with_def)
  qed
qed simp

lemma books_update:
  assumes ok: "books_ok R (ds, ws, ms)" and d: "d \<in> set ds"
    and f: "dg_id (f d) = dg_id d" "key_of (f d) = key_of d"
    and ws: "distinct (map dw_id ws')" "\<And>w. w \<in> set ws' \<Longrightarrow> drawdown_ok ds w"
      "\<And>q. q \<in> set ds \<Longrightarrow> dg_id q \<noteq> dg_id d \<Longrightarrow> drawn_under (dg_id q) ws' = drawn_under (dg_id q) ws"
    and new: "delegation_ok ws' (f d)" and frozen: "d \<in> R \<Longrightarrow> f d = d"
    and ms: "\<And>k. moved_total k ms' = moved_total k ms + (if key_of d = k then dg_drawn (f d) - dg_drawn d else 0)"
  shows "books_ok R (update_rows (\<lambda>q. dg_id q = dg_id d) f ds, ws', ms')"
proof -
  let ?ds = "update_rows (\<lambda>q. dg_id q = dg_id d) f ds"
  note ids = books_okD(1) [OF ok]
  have only: "q = d" if "q \<in> set ds" "dg_id q = dg_id d" for q using distinct_key_unique [OF ids that(1) d that(2)] .
  have same: "map dg_id ?ds = map dg_id ds" using only f(1) by (auto simp: update_rows_def)
  have rows: "delegation_ok ws' x" if x: "x \<in> set ?ds" for x
  proof -
    obtain q where q: "q \<in> set ds" "x = (if dg_id q = dg_id d then f q else q)" using x unfolding set_update_rows by blast
    show ?thesis
    proof (cases "dg_id q = dg_id d")
      case True
      then have "q = d" using only q(1) by blast
      then show ?thesis using q(2) new by simp
    next
      case False
      then show ?thesis using books_okD(3) [OF ok q(1)] ws(3) [OF q(1)] q(2) by (simp add: delegation_ok_def)
    qed
  qed
  have img: "dg_id ` set ?ds = dg_id ` set ds" using arg_cong [OF same, of set] by simp
  have draw: "drawdown_ok ?ds w" if "w \<in> set ws'" for w
    using ws(2) [OF that] img by (simp add: drawdown_ok_def)
  have "moved_total k ms' = drawn_with k ?ds" for k
    unfolding drawn_with_update [where f = f, OF ids d f(2)] ms books_okD(5) [OF ok] by simp
  moreover have "r \<in> set ?ds \<and> dg_status r = DgRevoked" if r: "r \<in> R" for r
  proof -
    note rs = books_okD(6,7) [OF ok r]
    have "f r = r" if "dg_id r = dg_id d" using only [OF rs(1) that] frozen r by blast
    then show ?thesis using rs unfolding set_update_rows by (auto intro!: bexI [of _ r])
  qed
  ultimately show ?thesis unfolding books_ok_def prod.case same using ids ws(1) rows draw by blast
qed

lemma books_revoked:
  assumes ok: "books_ok R (ds, ws, ms)" and d: "d \<in> set ds"
  shows "books_ok R (update_rows (\<lambda>q. dg_id q = dg_id d) (\<lambda>q. q\<lparr>dg_status := DgRevoked\<rparr>) ds, ws, ms)"
proof (rule books_update [OF ok d], goal_cases)
  case 6
  then show ?case using books_okD(3) [OF ok d] by (simp add: delegation_ok_def)
next
  case 7
  then have "dg_status d = DgRevoked" by (rule books_okD(7) [OF ok])
  then show ?case by (cases d) simp
qed (simp_all add: key_of_def books_okD [OF ok])

lemma books_drawn:
  assumes ok: "books_ok R (ds, ws, ms)" and d: "d \<in> set ds" "dg_status d = DgActive"
    and a: "0 < a" "dg_drawn d + a \<le> dg_ceiling d" and fresh: "i \<notin> dw_id ` set ws"
  shows "books_ok R
     (update_rows (\<lambda>q. dg_id q = dg_id d)
        (\<lambda>q. q\<lparr>dg_drawn := dg_drawn d + a, dg_status := (if dg_ceiling d \<le> dg_drawn d + a then DgExhausted else DgActive)\<rparr>) ds,
      ws @ [\<lparr>dw_id = i, dw_delegation_id = dg_id d, dw_amount = a, dw_tx_hash = Some h, dw_status = DwConfirmed\<rparr>],
      ms @ [(key_of d, a)])"
proof (rule books_update [OF ok d(1)], goal_cases)
  case 3
  then show ?case using books_okD(2) [OF ok] fresh by simp
next
  case (4 w)
  then show ?case using books_okD(4) [OF ok] a(1) d(1) by (auto simp: drawdown_ok_def)
next
  case 6
  then show ?case
    using books_okD(3) [OF ok d(1)] a by (auto simp: delegation_ok_def drawn_under_snoc)
next
  case 7
  then show ?case using books_okD(7) [OF ok] d(2) by force
qed (simp_all add: key_of_def drawn_under_snoc)

section \<open>Operations that draw nothing\<close>

declare preserves_callProvider [preserve_intros del] preserves_executePermit2Transaction [preserve_intros del]

lemma books_frame [simp]:
  "books_view C (s\<lparr>uuids := n\<rparr>) = books_view C s" "books_view C (s\<lparr>rpc_requests := k\<rparr>) = books_view C s"
  "books_view C (s\<lparr>org_ceilings := cs\<rparr>) = books_view C s" "books_view C (s\<lparr>destination_allowlist := xs\<rparr>) = books_view C s"
  "books_view C (s\<lparr>payment_events := es\<rparr>) = books_view C s"
  by (simp_all add: books_view_def)

lemma books_call [preserve_intros]:
  assumes "draw_of c = None"
  shows "preserves (\<lambda>s. books_view C s = x) (callProvider C c)"
  unfolding callProvider_def
  by (intro preserve_intros) (use assms in \<open>simp add: books_view_def draws_snoc\<close>)

lemma books_execute [preserve_intros]:
  assumes "xc_abiFunctionSignature c \<noteq> TRANSFER_FROM"
  shows "preserves (\<lambda>s. books_view C s = x) (executePermit2Transaction C c)"
  unfolding executePermit2Transaction_def by (rule books_call) (use assms in \<open>simp add: draw_of_def\<close>)

lemma preserves_returned [preserve_intros]: "preserves I m \<Longrightarrow> preserves I (returned m)"
  by (simp add: preserves_def returned_def case_prod_beta)

lemma preserves_poll_gas [preserve_intros]:
  "(\<And>s n. I s \<Longrightarrow> I (s\<lparr>rpc_requests := n\<rparr>)) \<Longrightarrow> preserves I (poll_gas n C address chain)"
  by (induction n) (auto intro!: preserve_intros)

lemma books_gas [preserve_intros]:
  "preserves (\<lambda>s. books_view C s = x) (ensureSubmitterGasFloor E C og submitter chain mode)"
  unfolding ensureSubmitterGasFloor_def by (intro preserve_intros) (simp_all add: draw_of_def)

lemma preserves_outstanding [preserve_intros]: "preserves I (outstandingHeadroomMicros scope)"
  unfolding outstandingHeadroomMicros_def by (intro preserve_intros)

lemma preserves_orgCeiling [preserve_intros]: "preserves I (orgCeilingMicros og mode chain)"
  unfolding orgCeilingMicros_def by (intro preserve_intros)

lemma preserves_within_ceilings [preserve_intros]: "preserves I m \<Longrightarrow> preserves I (assertDelegationWithinCeilings scope k m)"
  unfolding assertDelegationWithinCeilings_def Let_def by (intro preserve_intros)

lemma preserves_readPermit2Nonce [preserve_intros]:
  "(\<And>s n. I s \<Longrightarrow> I (s\<lparr>rpc_requests := n\<rparr>)) \<Longrightarrow> preserves I (readPermit2Nonce P owner token spender chain)"
  unfolding readPermit2Nonce_def by (intro preserve_intros)

lemma preserves_submitter [preserve_intros]: "preserves I (resolvePermitSubmitter og mode chain payer platform payee)"
  unfolding resolvePermitSubmitter_def by (intro preserve_intros)

lemma preserves_resolve_payer [preserve_intros]: "preserves I (resolve_payer input)"
  unfolding resolve_payer_def by (intro preserve_intros) (simp add: case_prod_beta preserve_intros)

lemma books_sign [preserve_intros]:
  "preserves (\<lambda>s. books_view (pm_chain P) s = x) (signPlatformDelegation E P input payer token micros expiration nonce)"
  unfolding signPlatformDelegation_def Let_def
  by (intro preserve_intros) (simp_all add: draw_of_def approve_permit2_call_def TRANSFER_FROM_def)

lemma books_setOrgCeiling: "preserves (\<lambda>s. books_view C s = x) (setOrgCeiling og mode chain text by_whom)"
  unfolding setOrgCeiling_def Let_def by (intro preserve_intros) simp_all

lemma keeps_books: "(\<And>x. preserves (\<lambda>s. books_view C s = x) m) \<Longrightarrow> keeps (books_view C) m"
  by (rule keepsI)

lemma delegations_ok_view: "books_view C s' = books_view C s \<Longrightarrow> delegations_ok C R s' = delegations_ok C R s"
  by (simp add: delegations_ok_def)

section \<open>Both outcomes of an operation\<close>

text \<open>
  A transaction that throws restores the tables but not the chain, so a draw has to be followed
  through its failures too: \<open>outcome m Q s\<close> says \<open>Q\<close> of the result or the error and the state left.
\<close>

definition outcome :: "('s, 'x) op \<Rightarrow> (app_error + 'x \<Rightarrow> 's \<Rightarrow> bool) \<Rightarrow> 's \<Rightarrow> bool" where
  "outcome m Q s \<longleftrightarrow> (case m s of (r, s') \<Rightarrow> Q r s')"

lemma outcome_bindM:
  "outcome (bindM m f) Q s \<longleftrightarrow> outcome m (\<lambda>r s'. case r of Inl e \<Rightarrow> Q (Inl e) s' | Inr a \<Rightarrow> outcome (f a) Q s') s"
  by (auto simp: outcome_def bindM_def split: prod.split sum.split)

lemma outcome_steps:
  "outcome (ret a) Q s \<longleftrightarrow> Q (Inr a) s" "outcome (throw e) Q s \<longleftrightarrow> Q (Inl e) s"
  "outcome (query f) Q s \<longleftrightarrow> Q (Inr (f s)) s" "outcome (modify g) Q1 s \<longleftrightarrow> Q1 (Inr ()) (g s)"
  "outcome (liftE r) Q s \<longleftrightarrow> Q r s" "outcome now Q2 db \<longleftrightarrow> Q2 (Inr (clock db)) db"
  "outcome (guardM b e) Q1 s \<longleftrightarrow> (if b then Q1 (Inr ()) s else Q1 (Inl e) s)"
  by (simp_all add: outcome_def ret_def throw_def query_def modify_def liftE_def guardM_def now_def)

lemma outcome_keeps: "keeps f m \<Longrightarrow> (\<And>r s'. f s' = f s \<Longrightarrow> Q r s') \<Longrightarrow> outcome m Q s"
  by (cases "m s") (auto simp: outcome_def dest: keepsD)

lemma outcome_keeps_bind:
  "keeps f m \<Longrightarrow> (\<And>e s'. f s' = f s \<Longrightarrow> Q (Inl e) s') \<Longrightarrow> (\<And>a s'. f s' = f s \<Longrightarrow> outcome (g a) Q s') \<Longrightarrow> outcome (bindM m g) Q s"
  unfolding outcome_bindM by (erule outcome_keeps) (simp split: sum.split)

lemma outcome_liftE_bind:
  "(\<And>e. r = Inl e \<Longrightarrow> Q (Inl e) s) \<Longrightarrow> (\<And>a. r = Inr a \<Longrightarrow> outcome (g a) Q s) \<Longrightarrow> outcome (bindM (liftE r) g) Q s"
  by (cases r) (simp_all add: outcome_bindM outcome_steps)

lemma outcome_guardM_bind:
  "(\<not> b \<Longrightarrow> Q (Inl e) s) \<Longrightarrow> (b \<Longrightarrow> outcome (g ()) Q s) \<Longrightarrow> outcome (bindM (guardM b e) g) Q s"
  by (simp add: outcome_bindM outcome_steps)

lemma outcome_mono: "outcome m Q s \<Longrightarrow> (\<And>r s'. Q r s' \<Longrightarrow> R r s') \<Longrightarrow> outcome m R s"
  by (auto simp: outcome_def)

lemma outcome_transactionOn:
  "outcome (transactionOn u m) Q s \<longleftrightarrow>
     outcome m (\<lambda>r s'. case r of Inl e \<Rightarrow> Q (Inl e) (u s s') | Inr a \<Rightarrow> Q (Inr a) s') s"
  by (auto simp: outcome_def transactionOn_def split: prod.split sum.split)

lemma outcome_execute:
  "outcome (executePermit2Transaction C c) Q s \<longleftrightarrow>
     Q (ch_provider C (provider_calls s) (ExecuteContract c)) (s\<lparr>provider_calls := provider_calls s @ [ExecuteContract c]\<rparr>)"
  by (simp add: executePermit2Transaction_def callProvider_def outcome_bindM outcome_steps)

lemma outcome_randomRef: "outcome (randomRef E p) Q s \<longleftrightarrow> Q (Inr (p @ env_uuid E (uuids s))) (s\<lparr>uuids := Suc (uuids s)\<rparr>)"
  by (simp add: outcome_def randomRef_def)

section \<open>A draw\<close>

lemma draw_call_draws:
  assumes "0 \<le> a"
  shows "draw_of (ExecuteContract (draw_call d a ref)) = Some (key_of d, a)"
  using assms by (simp add: draw_of_def draw_call_def key_of_def show_int_def parse_show_nat or_else_def)

text \<open>What a draw that returns has found and done.\<close>

definition draw_effect ::
  "chain_world \<Rightarrow> string \<Rightarrow> string \<Rightarrow> string \<times> string \<Rightarrow> ('a delegations_db_scheme) \<Rightarrow> ('a delegations_db_scheme) \<Rightarrow> bool" where
  "draw_effect C delegationId amountUsdc answer s s' \<longleftrightarrow>
     (\<exists>d a i. find_row (\<lambda>d. dg_id d = delegationId) (delegations s) = Some d \<and> dg_status d = DgActive \<and>
        clock s < dg_expires_at d \<and> parseUsdcMicros (UText amountUsdc) = Inr a \<and> 0 < a \<and> dg_drawn d + a \<le> dg_ceiling d \<and>
        snd answer = formatUsdc (dg_drawn d + a) \<and> i \<notin> dw_id ` set (drawdowns s) \<and>
        books_view C s' =
          (update_rows (\<lambda>q. dg_id q = dg_id d)
             (\<lambda>q. q\<lparr>dg_drawn := dg_drawn d + a, dg_status := (if dg_ceiling d \<le> dg_drawn d + a then DgExhausted else DgActive)\<rparr>)
             (delegations s),
           drawdowns s @ [\<lparr>dw_id = i, dw_delegation_id = dg_id d, dw_amount = a, dw_tx_hash = Some (fst answer),
             dw_status = DwConfirmed\<rparr>],
           draws C (provider_calls s) @ [(key_of d, a)]))"

lemma parse_numeric: "parseUsdcMicros (UText (numeric_text m)) = Inr k \<longleftrightarrow> 0 \<le> m \<and> k = m"
proof (cases "0 \<le> m")
  case False
  have "\<exists>u. trim (CHR ''-'' # t) = CHR ''-'' # u" for t
    by (simp add: trim_def is_space_def code_def dropWhile_append) (metis rev_rev_ident)
  then obtain u where "trim (CHR ''-'' # formatUsdc (- m)) = CHR ''-'' # u" by blast
  then show ?thesis using False
    by (simp add: numeric_text_def parseUsdcMicros_def usdc_raw_def usdc_match_def digit_span_def is_digit_def code_def)
qed auto

lemma update_rows_fresh: "i \<notin> key ` set xs \<Longrightarrow> key w = i \<Longrightarrow> update_rows (\<lambda>x. key x = i) f (xs @ [w]) = xs @ [f w]"
  by (induction xs) auto

lemma draw_tail:
  assumes I: "delegations_ok C R s" and v: "books_view C s' = books_view C s"
    and d: "find_row (\<lambda>d. dg_id d = delegationId) (delegations s) = Some d" "dg_status d = DgActive" "clock s < dg_expires_at d"
    and a: "parseUsdcMicros (UText amountUsdc) = Inr a" "dg_drawn d + a \<le> dg_ceiling d"
  shows "outcome
     (bindM (insert_drawdown \<lparr>dw_id = i, dw_delegation_id = delegationId, dw_amount = a, dw_tx_hash = None, dw_status = DwSubmitted\<rparr>) (\<lambda>_.
      bindM (randomRef E ''agentops-draw-'') (\<lambda>refId.
      bindM (executePermit2Transaction C (draw_call d a refId)) (\<lambda>txHash.
      bindM (confirm_drawdown i txHash) (\<lambda>_.
      bindM (liftE (numeric_cast (formatUsdc (dg_drawn d + a)))) (\<lambda>drawn.
      bindM (update_drawn delegationId drawn (if dg_ceiling d \<le> dg_drawn d + a then DgExhausted else DgActive)) (\<lambda>_.
      ret (txHash, formatUsdc (dg_drawn d + a)))))))))
     (\<lambda>r s''. case r of Inl e \<Rightarrow> draws C (provider_calls s'') = draws C (provider_calls s)
        | Inr answer \<Rightarrow> draw_effect C delegationId amountUsdc answer s s'') s'"
proof -
  have eqs: "delegations s' = delegations s" "drawdowns s' = drawdowns s" "draws C (provider_calls s') = draws C (provider_calls s)"
    using v by (simp_all add: books_view_def)
  have dm: "d \<in> set (delegations s)" "dg_id d = delegationId" using find_row_Some [OF d(1)] by auto
  have ok: "books_ok R (delegations s, drawdowns s, draws C (provider_calls s))"
    using I by (simp add: delegations_ok_def books_view_def)
  have row: "numeric_range (dg_ceiling d)" "0 \<le> dg_drawn d" using books_okD(3) [OF ok dm(1)] by (simp_all add: delegation_ok_def)
  have only: "q = d" if "q \<in> set (delegations s)" "dg_id q = delegationId" for q
    using distinct_key_unique [OF books_okD(1) [OF ok] that(1) dm(1)] that(2) dm(2) by simp
  have checks: "list_all (\<lambda>q. 0 \<le> dg_drawn d + a \<and> dg_drawn d + a \<le> dg_ceiling q) (filter (\<lambda>q. dg_id q = delegationId) (delegations s))"
    if "0 < a" using only a(2) row(2) that by (auto simp: list_all_iff)
  have cast: "numeric_cast (formatUsdc (dg_drawn d + a)) = Inr (dg_drawn d + a)" if "0 < a"
    using that row a(2) by (simp add: numeric_cast_format numeric_range_def)
  show ?thesis
  proof (cases "0 < a \<and> i \<notin> dw_id ` set (drawdowns s)")
    case False
    then show ?thesis
      by (auto simp: insert_drawdown_def outcome_bindM outcome_steps eqs list_ex_iff)
  next
    case True
    then have fresh: "\<not> list_ex (\<lambda>q. dw_id q = i) (drawdowns s)" and pos: "0 < a" by (auto simp: list_ex_iff)
    show ?thesis
    proof (cases "ch_provider C (provider_calls s') (ExecuteContract (draw_call d a (''agentops-draw-'' @ env_uuid E (uuids s'))))")
      case (Inl e)
      then show ?thesis
        by (simp add: insert_drawdown_def outcome_bindM outcome_steps outcome_execute eqs fresh pos outcome_randomRef draws_snoc)
    next
      case (Inr h)
      let ?w = "\<lparr>dw_id = i, dw_delegation_id = delegationId, dw_amount = a, dw_tx_hash = Some h, dw_status = DwConfirmed\<rparr>"
      have eff: "draw_effect C delegationId amountUsdc (h, formatUsdc (dg_drawn d + a)) s s''"
        if "delegations s'' = update_rows (\<lambda>q. dg_id q = delegationId)
              (\<lambda>q. q\<lparr>dg_drawn := dg_drawn d + a, dg_status := (if dg_ceiling d \<le> dg_drawn d + a then DgExhausted else DgActive)\<rparr>) (delegations s)"
          "drawdowns s'' = drawdowns s @ [?w]" "draws C (provider_calls s'') = draws C (provider_calls s) @ [(key_of d, a)]"
        for s'' :: "'a delegations_db_scheme"
        unfolding draw_effect_def using that d a True dm
        by (intro exI [of _ d] exI [of _ a] exI [of _ i]) (simp add: books_view_def)
      have confirmed: "update_rows (\<lambda>w. dw_id w = i) (\<lambda>w. w\<lparr>dw_tx_hash := Some h, dw_status := DwConfirmed\<rparr>)
          (drawdowns s @ [\<lparr>dw_id = i, dw_delegation_id = delegationId, dw_amount = a, dw_tx_hash = None, dw_status = DwSubmitted\<rparr>]) =
          drawdowns s @ [?w]"
        using update_rows_fresh [of i dw_id "drawdowns s"] True by simp
      from Inr show ?thesis
        by (simp add: insert_drawdown_def outcome_bindM outcome_steps outcome_execute eqs fresh pos outcome_randomRef confirm_drawdown_def
              update_drawn_def cast checks)
           (intro conjI impI eff; simp add: confirmed eqs draws_snoc draw_call_draws pos less_imp_le)
    qed
  qed
qed

lemma drawDown_outcome:
  assumes I: "delegations_ok C R s"
  shows "outcome (drawDown E C delegationId amountUsdc)
     (\<lambda>r s'. case r of Inl e \<Rightarrow> books_view C s' = books_view C s | Inr answer \<Rightarrow> draw_effect C delegationId amountUsdc answer s s') s"
proof -
  have undo: "books_view C (undo_escrow s s') = (delegations s, drawdowns s, draws C (provider_calls s'))" for s'
    by (simp add: books_view_def undo_escrow_def)
  have same: "books_view C (undo_escrow s s') = books_view C s" if "books_view C s' = books_view C s" for s'
    using that unfolding undo by (simp add: books_view_def)
  have gas: "keeps (books_view C) (ensureSubmitterGasFloor E C og a c m)" "keeps (books_view C) (prefixedId E p)"
    "keeps (books_view C) (randomRef E p)" for og a c m p
    by (rule keeps_books; intro preserve_intros; simp)+
  show ?thesis
    unfolding drawDown_def outcome_transactionOn lockedDelegation_def bindM_assoc
    apply (simp only: outcome_bindM [of "query _"] outcome_steps sum.case)
    apply (cases "find_row (\<lambda>d. dg_id d = delegationId) (delegations s)")
     apply (simp add: outcome_steps same)
    apply (simp only: option.case ret_bindM)
    apply (rule outcome_guardM_bind, simp add: same)
    apply (rule outcome_guardM_bind, simp add: same)
    apply (simp only: outcome_bindM [of now] outcome_steps sum.case)
    apply (rule outcome_guardM_bind, simp add: same)
    apply (rule outcome_liftE_bind, simp add: same)
    apply (rule outcome_liftE_bind, simp add: same)
    apply (rule outcome_liftE_bind, simp add: same)
    apply (rule outcome_guardM_bind, simp add: same)
    apply (rule outcome_keeps_bind [OF gas(1)], simp add: same)
    apply (rule outcome_keeps_bind [OF gas(2)], simp add: same)
    apply (rule outcome_liftE_bind, simp add: same)
    subgoal for d a ceilingMicros drawnMicros _ s1 i s2 amount
      apply (simp only: parse_numeric Let_def)
      apply (subgoal_tac "amount = a")
       apply (simp only:)
       apply (rule outcome_mono [OF draw_tail [OF I]])
             apply (simp_all add: undo numeric_cast_of_parse split: sum.splits if_splits)
       apply (simp add: books_view_def)
      apply auto
      done
    done
qed

lemma draw_effect_ok:
  assumes I: "delegations_ok C R s" and eff: "draw_effect C delegationId amountUsdc answer s s'"
  shows "delegations_ok C R s'"
proof -
  obtain d a i where d: "find_row (\<lambda>d. dg_id d = delegationId) (delegations s) = Some d" "dg_status d = DgActive"
    and a: "0 < a" "dg_drawn d + a \<le> dg_ceiling d" and i: "i \<notin> dw_id ` set (drawdowns s)"
    and v: "books_view C s' =
          (update_rows (\<lambda>q. dg_id q = dg_id d)
             (\<lambda>q. q\<lparr>dg_drawn := dg_drawn d + a, dg_status := (if dg_ceiling d \<le> dg_drawn d + a then DgExhausted else DgActive)\<rparr>)
             (delegations s),
           drawdowns s @ [\<lparr>dw_id = i, dw_delegation_id = dg_id d, dw_amount = a, dw_tx_hash = Some (fst answer),
             dw_status = DwConfirmed\<rparr>],
           draws C (provider_calls s) @ [(key_of d, a)])"
    using eff by (auto simp: draw_effect_def)
  have "books_ok R (delegations s, drawdowns s, draws C (provider_calls s))" using I by (simp add: delegations_ok_def books_view_def)
  from books_drawn [OF this _ d(2) a i] find_row_Some [OF d(1)] show ?thesis
    unfolding delegations_ok_def v by blast
qed

lemma drawDown_ok: "preserves (delegations_ok C R) (drawDown E C delegationId amountUsdc)"
proof (rule preservesI)
  fix s :: "'a delegations_db_scheme" assume I: "delegations_ok C R s"
  obtain r s' where run: "drawDown E C delegationId amountUsdc s = (r, s')" by fastforce
  from drawDown_outcome [OF I, of E delegationId amountUsdc]
  have "case r of Inl e \<Rightarrow> books_view C s' = books_view C s | Inr answer \<Rightarrow> draw_effect C delegationId amountUsdc answer s s'"
    by (simp add: outcome_def run)
  then have "delegations_ok C R s'"
    using I delegations_ok_view draw_effect_ok [OF I] by (cases r) (auto simp del: split_paired_All)
  then show "delegations_ok C R (snd (drawDown E C delegationId amountUsdc s))" by (simp add: run)
qed

section \<open>What a draw asks for\<close>

text \<open>
  Every transfer the provider was asked for, whatever it answered: a provider that throws (its wait
  times out, the answer has no hash) may have submitted the transaction all the same.
\<close>

definition asked :: "('a delegations_db_scheme) \<Rightarrow> (draw_key \<times> int) list" where
  "asked s = List.map_filter draw_of (provider_calls s)"

lemma asked_snoc: "asked (s\<lparr>provider_calls := provider_calls s @ [c]\<rparr>) = asked s @ (case draw_of c of None \<Rightarrow> [] | Some m \<Rightarrow> [m])"
  by (simp add: asked_def List.map_filter_def split: option.split)

lemma asked_frame [simp]:
  "asked (s\<lparr>uuids := n\<rparr>) = asked s" "asked (s\<lparr>rpc_requests := k\<rparr>) = asked s" "asked (s\<lparr>delegations := ds\<rparr>) = asked s"
  "asked (s\<lparr>drawdowns := ws\<rparr>) = asked s" "asked (undo_escrow s0 s) = asked s"
  by (simp_all add: asked_def undo_escrow_def)

lemma asked_call [preserve_intros]: "draw_of c = None \<Longrightarrow> preserves (\<lambda>s. asked s = x) (callProvider C c)"
  unfolding callProvider_def by (intro preserve_intros) (simp add: asked_snoc)

lemma keeps_asked:
  "keeps asked (ensureSubmitterGasFloor E C og submitter chain mode)" "keeps asked (prefixedId E p)" "keeps asked (randomRef E p)"
  "keeps asked (insert_drawdown w)" "keeps asked (confirm_drawdown i h)" "keeps asked (update_drawn i k st)"
proof -
  show "keeps asked (ensureSubmitterGasFloor E C og submitter chain mode)"
    unfolding ensureSubmitterGasFloor_def by (rule keepsI, intro preserve_intros) (simp_all add: draw_of_def)
qed (unfold insert_drawdown_def confirm_drawdown_def update_drawn_def, (rule keepsI, intro preserve_intros; simp)+)

text \<open>What may be asked for: a positive amount within the room of an active, unexpired delegation, under its own key.\<close>

definition draw_allowed :: "string \<Rightarrow> string \<Rightarrow> ('a delegations_db_scheme) \<Rightarrow> delegation_row \<Rightarrow> int \<Rightarrow> bool" where
  "draw_allowed delegationId amountUsdc s d a \<longleftrightarrow>
     find_row (\<lambda>d. dg_id d = delegationId) (delegations s) = Some d \<and> dg_status d = DgActive \<and> clock s < dg_expires_at d \<and>
     parseUsdcMicros (UText amountUsdc) = Inr a \<and> 0 < a \<and> dg_drawn d + a \<le> dg_ceiling d"

definition asks_once :: "string \<Rightarrow> string \<Rightarrow> ('a delegations_db_scheme) \<Rightarrow> ('a delegations_db_scheme) \<Rightarrow> bool" where
  "asks_once delegationId amountUsdc s s' \<longleftrightarrow>
     asked s' = asked s \<or> (\<exists>d a. draw_allowed delegationId amountUsdc s d a \<and> asked s' = asked s @ [(key_of d, a)])"

lemma asks_once_frame [simp]: "asks_once i t s (undo_escrow s0 s') = asks_once i t s s'"
  by (simp add: asks_once_def)

lemma asks_once_same: "asked s' = asked s \<Longrightarrow> asks_once i t s s'"
  by (simp add: asks_once_def)

lemma outcome_insert_drawdown_bind:
  "(\<And>e. Q (Inl e) s) \<Longrightarrow> (0 < dw_amount w \<Longrightarrow> outcome (g ()) Q (s\<lparr>drawdowns := drawdowns s @ [w]\<rparr>)) \<Longrightarrow>
   outcome (bindM (insert_drawdown w) g) Q s"
  by (auto simp: insert_drawdown_def outcome_bindM outcome_steps)

lemma drawDown_asks: "outcome (drawDown E C delegationId amountUsdc) (\<lambda>r s'. asks_once delegationId amountUsdc s s') s"
proof -
  have rest: "keeps asked (bindM (confirm_drawdown i h) (\<lambda>_. bindM (liftE r) (\<lambda>k. bindM (update_drawn delegationId k st) (\<lambda>_. ret x))))"
    for i h r st x
    by (rule keepsI, intro preserve_intros keeps_asked [THEN keeps_preservesI])
  show ?thesis
    unfolding drawDown_def outcome_transactionOn lockedDelegation_def bindM_assoc
    apply (simp only: outcome_bindM [of "query _"] outcome_steps sum.case)
    apply (cases "find_row (\<lambda>d. dg_id d = delegationId) (delegations s)")
     apply (simp add: outcome_steps asks_once_same)
    apply (simp only: option.case ret_bindM)
    apply (rule outcome_guardM_bind, simp add: asks_once_same)
    apply (rule outcome_guardM_bind, simp add: asks_once_same)
    apply (simp only: outcome_bindM [of now] outcome_steps sum.case)
    apply (rule outcome_guardM_bind, simp add: asks_once_same)
    apply (rule outcome_liftE_bind, simp add: asks_once_same)
    apply (rule outcome_liftE_bind, simp add: asks_once_same)
    apply (rule outcome_liftE_bind, simp add: asks_once_same)
    apply (rule outcome_guardM_bind, simp add: asks_once_same)
    apply (rule outcome_keeps_bind [OF keeps_asked(1)], simp add: asks_once_same)
    apply (rule outcome_keeps_bind [OF keeps_asked(2)], simp add: asks_once_same)
    apply (rule outcome_liftE_bind, simp add: asks_once_same)
    apply (rule outcome_insert_drawdown_bind, simp add: asks_once_same)
    apply (rule outcome_keeps_bind [OF keeps_asked(3)], simp add: asks_once_same)
    subgoal for d a ceilingMicros drawnMicros _ s1 i s2 amount ref s3
      apply (simp only: parse_numeric Let_def asked_frame)
      apply (subgoal_tac "amount = a")
       apply (subgoal_tac "draw_allowed delegationId amountUsdc s d a")
        apply (subst outcome_bindM, subst outcome_execute)
        apply (subgoal_tac "asks_once delegationId amountUsdc s (s3\<lparr>provider_calls := provider_calls s3 @ [ExecuteContract (draw_call d a ref)]\<rparr>)")
         apply (auto split: sum.split intro!: outcome_keeps [OF rest] simp: asks_once_def) [1]
        apply (auto simp: asks_once_def asked_snoc draw_call_draws draw_allowed_def) [1]
       apply (simp add: draw_allowed_def)
      apply (simp add: numeric_cast_of_parse split: if_splits)
      done
    done
qed

section \<open>Recording and revoking\<close>

lemma books_undo: "books_view C s' = books_view C s \<Longrightarrow> books_view C (undo_escrow s s') = books_view C s"
  by (simp add: books_view_def undo_escrow_def)

text \<open>An operation whose errors draw nothing, in a transaction.\<close>

lemma delegations_transaction:
  fixes m :: "('a delegations_db_scheme, 'b) op"
  assumes "\<And>s. delegations_ok C R s \<Longrightarrow> outcome m (\<lambda>r s'. case r of Inl e \<Rightarrow> books_view C s' = books_view C s | Inr a \<Rightarrow> delegations_ok C R s') s"
  shows "preserves (delegations_ok C R) (transactionOn undo_escrow m)"
proof (rule preservesI)
  fix s :: "'a delegations_db_scheme" assume I: "delegations_ok C R s"
  obtain r s' where run: "m s = (r, s')" by fastforce
  from assms [OF I] have "case r of Inl e \<Rightarrow> books_view C s' = books_view C s | Inr a \<Rightarrow> delegations_ok C R s'"
    by (simp add: outcome_def run)
  then show "delegations_ok C R (snd (transactionOn undo_escrow m s))"
    using I delegations_ok_view [OF books_undo] by (cases r) (auto simp: transactionOn_def run)
qed

lemma revokeDelegation_ok: "preserves (delegations_ok C R) (revokeDelegation E C delegationId)"
  unfolding revokeDelegation_def lockedDelegation_def bindM_assoc Let_def
proof (rule delegations_transaction, goal_cases)
  case (1 s)
  have keep: "keeps (books_view C) (bindM (randomRef E p) (\<lambda>ref. bindM (executePermit2Transaction C (lockdown_call d ref)) (\<lambda>_. ret ())))" for p d
    by (rule keeps_books; intro preserve_intros) (simp_all add: lockdown_call_def TRANSFER_FROM_def)
  have ok: "books_ok R (delegations s, drawdowns s, draws C (provider_calls s))"
    using 1 by (simp add: delegations_ok_def books_view_def)
  show ?case
  proof (cases "find_row (\<lambda>d. dg_id d = delegationId) (delegations s)")
    case None
    then show ?thesis by (simp add: outcome_bindM outcome_steps)
  next
    case (Some d)
    have dm: "d \<in> set (delegations s)" "dg_id d = delegationId" using find_row_Some [OF Some] by auto
    have done': "delegations_ok C R (s'\<lparr>delegations := update_rows (\<lambda>q. dg_id q = delegationId) (\<lambda>q. q\<lparr>dg_status := DgRevoked\<rparr>) (delegations s')\<rparr>)"
      if "books_view C s' = books_view C s" for s'
      using that books_revoked [OF ok dm(1)] dm(2) by (simp add: delegations_ok_def books_view_def)
    show ?thesis
      apply (simp only: outcome_bindM [of "query _"] outcome_steps sum.case Some option.case ret_bindM)
      apply (cases "dg_status d = DgRevoked")
       apply (simp add: outcome_steps 1)
      apply (cases "dg_payer_kind d = UserPayer")
       apply (simp add: outcome_bindM outcome_steps done')
      apply (simp only: if_False if_True simp_thms)
      apply (rule outcome_keeps_bind [OF keep])
       apply simp
      apply (simp add: outcome_bindM outcome_steps done')
      done
  qed
qed

lemma resolve_payer_run:
  "resolve_payer input s = (r, s') \<Longrightarrow> s' = s \<and> (\<forall>a. r = Inr (a, AgentPayer) \<longrightarrow> sd_payerAgentId input \<noteq> None)"
  by (auto simp: resolve_payer_def monad_defs split: option.splits if_splits)

lemma outcome_resolve_payer:
  "(\<And>e. Q (Inl e) s) \<Longrightarrow> (\<And>a k. k = AgentPayer \<longrightarrow> sd_payerAgentId input \<noteq> None \<Longrightarrow> outcome (g (a, k)) Q s) \<Longrightarrow>
   outcome (bindM (resolve_payer input) g) Q s"
  unfolding outcome_bindM
  by (cases "resolve_payer input s") (auto simp: outcome_def [of "resolve_payer input"] dest!: resolve_payer_run split: sum.split)

lemma outcome_insert_delegation:
  assumes I: "delegations_ok C R s" and v: "books_view C s' = books_view C s"
    and d: "numeric_range (dg_ceiling d)" "dg_drawn d = 0" "dg_status d = DgActive"
      "dg_payer_kind d = AgentPayer \<longleftrightarrow> dg_payer_agent_id d \<noteq> None"
  shows "outcome (bindM (insert_delegation d) (\<lambda>_. ret d))
     (\<lambda>r s''. case r of Inl e \<Rightarrow> books_view C s'' = books_view C s | Inr a \<Rightarrow> delegations_ok C R s'') s'"
proof -
  have ok: "books_ok R (delegations s', drawdowns s', draws C (provider_calls s'))"
    using I v by (simp add: delegations_ok_def books_view_def)
  have new: "delegations_ok C R (s'\<lparr>delegations := delegations s' @ [d]\<rparr>)"
    if "0 < dg_ceiling d" "\<forall>q \<in> set (delegations s'). dg_id q \<noteq> dg_id d"
  proof -
    have "dg_id d \<notin> dg_id ` set (delegations s')" using that(2) by force
    from books_new [OF ok this that(1) d] show ?thesis by (simp add: delegations_ok_def books_view_def)
  qed
  show ?thesis
    by (simp add: insert_delegation_def outcome_bindM outcome_steps v list_ex_iff) (use new in blast)
qed

lemma recordSignedDelegation_ok: "preserves (delegations_ok (pm_chain P) R) (recordSignedDelegation E P input)"
  unfolding recordSignedDelegation_def recording_def others_id
proof (rule delegations_transaction, goal_cases)
  case (1 s)
  let ?C = "pm_chain P"
  have keep:
    "keeps (books_view ?C) (if b then assertDelegationWithinCeilings sc m (nativeBalanceMicros ?C a c md) else ret ())"
    "keeps (books_view ?C) (case sg of Some (a', sig, nonce) \<Rightarrow> ret nonce | None \<Rightarrow> readPermit2Nonce P a t y c)"
    "keeps (books_view ?C) (case sg of Some (a', sig, nonce) \<Rightarrow> ret sig | None \<Rightarrow> signPlatformDelegation E P input a t m x n)"
    "keeps (books_view ?C) (resolvePermitSubmitter og md c a b py)"
    "keeps (books_view ?C) (ensureSubmitterGasFloor E ?C og a c md)"
    "keeps (books_view ?C) (randomRef E p)" "keeps (books_view ?C) (prefixedId E p)"
    "keeps (books_view ?C) (executePermit2Transaction ?C (permit_call input a b' t m x n sig ref))"
    for b sc m a c md sg t y x n og py p b' sig ref
    by (rule keeps_books; intro preserve_intros; simp add: case_prod_beta preserve_intros permit_call_def TRANSFER_FROM_def)+
  show ?case
    apply (rule outcome_resolve_payer, simp)
    apply (simp only: prod.case Let_def)
    apply (rule outcome_liftE_bind, simp)
    apply (rule outcome_liftE_bind, simp)
    apply (rule outcome_keeps_bind [OF keep(1)], simp)
    apply (rule outcome_keeps_bind [OF keep(2)], simp)
    apply (rule outcome_keeps_bind [OF keep(3)], simp)
    apply (rule outcome_keeps_bind [OF keep(4)], simp)
    apply (rule outcome_keeps_bind [OF keep(5)], simp)
    apply (rule outcome_keeps_bind [OF keep(6)], simp)
    apply (rule outcome_keeps_bind [OF keep(8)], simp)
    apply (rule outcome_keeps_bind [OF keep(7)], simp)
    apply (rule outcome_liftE_bind, simp)
    apply (simp only: outcome_bindM [of now] outcome_steps sum.case)
    apply (rule outcome_insert_delegation [OF 1])
        apply (simp_all add: new_delegation_def numeric_cast_range)
    done
qed

end
