(* ===== verification/Fleet.thy ===== *)
theory Fleet
  imports DelegationBooks
begin

text \<open>
  Agents paying agents (payments/agent-payee.ts, agent-funding.ts, intra-fleet.ts): a fleet agent's
  wallet is allowlisted as a destination, the paying agent is topped up from the treasury's
  delegation at the moment it spends, and the price asked by the 402 response is drawn under a
  standing delegation from the payer's wallet to the payee's.
\<close>

section \<open>Payees\<close>

definition allow_row :: "string \<Rightarrow> payment_chain \<Rightarrow> string \<Rightarrow> allowlist_row \<Rightarrow> bool" where
  "allow_row orgId chain address a \<longleftrightarrow> al_org_id a = orgId \<and> al_chain a = chain \<and> al_address a = address"

text \<open>\<open>INSERT ... ON CONFLICT (org_id, chain, address) DO NOTHING\<close>.\<close>

definition insert_allowlist :: "allowlist_row \<Rightarrow> ('a payments_db_scheme, unit) op" where
  "insert_allowlist a =
     bindM (query (\<lambda>s. list_ex (allow_row (al_org_id a) (al_chain a) (al_address a)) (destination_allowlist s))) (\<lambda>known.
     if known then ret ()
     else
       bindM (query (\<lambda>s. list_ex (\<lambda>q. al_id q = al_id a) (destination_allowlist s))) (\<lambda>dup.
       bindM (guardM (\<not> dup) (PgUniqueViolation ''payment_destination_allowlist_pkey'')) (\<lambda>_.
       bindM (query (\<lambda>s. find_org (al_org_id a) s \<noteq> None)) (\<lambda>org.
       bindM (guardM org (PgForeignKeyViolation ''payment_destination_allowlist'')) (\<lambda>_.
       modify (\<lambda>s. s\<lparr>destination_allowlist := destination_allowlist s @ [a]\<rparr>))))))"

definition NO_AGENT_WALLET :: "payment_chain \<Rightarrow> app_error" where
  "NO_AGENT_WALLET chain = conflict ''agent_wallet_not_found''
     (''This agent has no active wallet on '' @ chain_name chain @ ''. Grant it payment access with a dedicated wallet on a '' @
      chain_name chain @ '' rail, and wait for provisioning to finish, then try again.'')"

definition resolveAgentPayee ::
  "env \<Rightarrow> string \<Rightarrow> string \<Rightarrow> payment_mode \<Rightarrow> payment_chain \<Rightarrow> ('a payments_db_scheme, string) op" where
  "resolveAgentPayee E orgId agentId mode chain =
     bindM (query (findAgentWallet agentId mode chain)) (\<lambda>wallet.
     case wallet of
       None \<Rightarrow> throw (NO_AGENT_WALLET chain)
     | Some w \<Rightarrow>
         bindM (prefixedId E ''payto'') (\<lambda>i.
         bindM (insert_allowlist \<lparr>al_id = i, al_org_id = orgId, al_chain = chain, al_address = aw_address w,
           al_label = ''Fleet agent '' @ agentId, al_source = AgentWalletSource, al_active = True, al_created_by = ''system'',
           al_approved_by = None\<rparr>) (\<lambda>_.
         ret (aw_address w))))"

section \<open>Topping up from the treasury\<close>

datatype funding_result =
    AlreadyFunded
  | NoTreasuryDelegation
  | Funded string string   \<comment> \<open>amount, transaction\<close>

definition AGENT_GAS_FLOOR_MICROS :: int where
  "AGENT_GAS_FLOOR_MICROS = 100000"

definition ensureAgentGasFloor ::
  "env \<Rightarrow> chain_world \<Rightarrow> string \<Rightarrow> string \<Rightarrow> int \<Rightarrow> payment_chain \<Rightarrow> payment_mode \<Rightarrow> ('a chain_db_scheme, bool) op" where
  "ensureAgentGasFloor E C orgId agentAddress balanceMicros chain mode =
     (if chain \<noteq> Arc then ret False
      else if AGENT_GAS_FLOOR_MICROS \<le> balanceMicros then ret True
      else
        bindM (query (treasury_wallet orgId mode chain)) (\<lambda>treasury.
        case treasury of
          None \<Rightarrow> ret False
        | Some w \<Rightarrow>
            bindM (randomRef E ''agentops-gas-'') (\<lambda>refId.
            bindM (callProvider C (TransferWallet
              (gas_transfer (AGENT_GAS_FLOOR_MICROS - balanceMicros) agentAddress chain mode (tw_address w) refId))) (\<lambda>_.
            ret True))))"

text \<open>The loop over the delegations, newest first: the first with room for the whole shortfall is drawn.\<close>

primrec draw_first ::
  "env \<Rightarrow> chain_world \<Rightarrow> int \<Rightarrow> delegation_row list \<Rightarrow> ('a delegations_db_scheme, string option) op" where
  "draw_first E C shortfall [] = ret None"
| "draw_first E C shortfall (row # rows) =
     bindM (liftE (parseUsdcMicros (UText (numeric_text (dg_ceiling row))))) (\<lambda>ceilingMicros.
     bindM (liftE (parseUsdcMicros (UText (numeric_text (dg_drawn row))))) (\<lambda>drawnMicros.
     if ceilingMicros - drawnMicros < shortfall then draw_first E C shortfall rows
     else bindM (drawDown E C (dg_id row) (formatUsdc shortfall)) (\<lambda>(txHash, drawn). ret (Some txHash))))"

definition treasury_delegations ::
  "string \<Rightarrow> string \<Rightarrow> payment_mode \<Rightarrow> payment_chain \<Rightarrow> ('a delegations_db_scheme) \<Rightarrow> delegation_row list" where
  "treasury_delegations orgId agentId mode chain s =
     sort_key (\<lambda>d. - dg_created_at d)
       (filter (\<lambda>d. dg_org_id d = orgId \<and> dg_payee_agent_id d = Some agentId \<and> dg_payer_kind d = TreasuryPayer \<and>
          dg_mode d = mode \<and> dg_chain d = chain \<and> dg_status d = DgActive \<and> clock s < dg_expires_at d) (delegations s))"

definition fundAgentFromTreasuryDelegation ::
  "env \<Rightarrow> chain_world \<Rightarrow> string \<Rightarrow> string \<Rightarrow> payment_mode \<Rightarrow> payment_chain \<Rightarrow> int \<Rightarrow> ('a delegations_db_scheme, funding_result) op" where
  "fundAgentFromTreasuryDelegation E C orgId agentId mode chain neededMicros =
     bindM (query (findAgentWallet agentId mode chain)) (\<lambda>wallet.
     case wallet of
       None \<Rightarrow> ret NoTreasuryDelegation
     | Some w \<Rightarrow>
         bindM (nativeBalanceMicros C (aw_address w) chain mode) (\<lambda>balance.
         if neededMicros \<le> balance then ret AlreadyFunded
         else
           let shortfall = neededMicros - balance in
           bindM (ensureAgentGasFloor E C orgId (aw_address w) balance chain mode) (\<lambda>_.
           bindM (query (treasury_delegations orgId agentId mode chain)) (\<lambda>rows.
           bindM (draw_first E C shortfall rows) (\<lambda>drawn.
           case drawn of
             Some txHash \<Rightarrow> ret (Funded (formatUsdc shortfall) txHash)
           | None \<Rightarrow>
               if chain \<noteq> Base then ret NoTreasuryDelegation
               else
                 bindM (query (treasury_wallet orgId mode chain)) (\<lambda>treasury.
                 case treasury of
                   None \<Rightarrow> ret NoTreasuryDelegation
                 | Some t \<Rightarrow>
                     if tw_address t = aw_address w then ret NoTreasuryDelegation
                     else
                       bindM (randomRef E ''agentops-base-fund-'') (\<lambda>refId.
                       bindM (callProvider C (TransferWallet (gas_transfer shortfall (aw_address w) chain mode (tw_address t) refId))) (\<lambda>txHash.
                       ret (Funded (formatUsdc shortfall) txHash)))))))))"

section \<open>The price\<close>

text \<open>
  Untyped JSON read through a type assertion: a property of \<open>null\<close> or \<open>undefined\<close> throws, one of
  another value that has none is \<open>undefined\<close>.
\<close>

definition NO_PROPERTIES :: app_error where
  "NO_PROPERTIES = JsError ''TypeError''"

definition read_member :: "jsval \<Rightarrow> string \<Rightarrow> app_error + jsval" where
  "read_member v key =
     (case v of
        VUndef \<Rightarrow> Inl NO_PROPERTIES
      | VNull \<Rightarrow> Inl NO_PROPERTIES
      | VObj fs \<Rightarrow> Inr (get_prop fs key)
      | _ \<Rightarrow> Inr VUndef)"

definition read_first :: "jsval \<Rightarrow> app_error + jsval" where
  "read_first v =
     (case v of
        VArr xs \<Rightarrow> Inr (case xs of [] \<Rightarrow> VUndef | x # _ \<Rightarrow> x)
      | VStr t \<Rightarrow> Inr (case t of [] \<Rightarrow> VUndef | c # _ \<Rightarrow> VStr [c])
      | _ \<Rightarrow> read_member v ''0'')"

text \<open>\<open>String(value)\<close> of a JSON value, as \<open>RegExp.test\<close> and \<open>BigInt\<close> coerce it.\<close>

fun js_text :: "jsval \<Rightarrow> string" where
  "js_text VUndef = ''undefined''"
| "js_text VNull = ''null''"
| "js_text (VBool b) = (if b then ''true'' else ''false'')"
| "js_text (VNum x) = show_num x"
| "js_text (VStr t) = t"
| "js_text (VArr xs) = join '','' (map (\<lambda>x. if x = VUndef \<or> x = VNull then [] else js_text x) xs)"
| "js_text _ = ''[object Object]''"

definition amountMicrosFromAccept :: "jsval \<Rightarrow> app_error + int" where
  "amountMicrosFromAccept accept =
     bindE (read_member accept ''maxAmountRequired'') (\<lambda>top.
     bindE (if top = VUndef \<or> top = VNull then read_member accept ''amount'' else Inr top) (\<lambda>raw.
     if raw = VUndef then Inl (JsError ''intra_fleet_amount_missing'')
     else case parse_nat (js_text raw) of
       None \<Rightarrow> Inl (JsError ''intra_fleet_invalid_amount'')
     | Some n \<Rightarrow> Inr (int n)))"

definition price_of :: "jsval \<Rightarrow> app_error + int" where
  "price_of quote =
     bindE (read_member quote ''accepts'') (\<lambda>accepts.
     bindE (read_first accepts) (\<lambda>accept.
     if accept = VUndef then Inl (JsError ''intra_fleet_no_accepts'')
     else amountMicrosFromAccept accept))"

section \<open>Paying\<close>

text \<open>
  The HTTP client of an intra-fleet payment: the nth request, to a URL, with the transaction in
  \<open>x-payment\<close> or without, fails or gives a status and what \<open>json()\<close> makes of the body.
\<close>

record fleet_world =
  fl_permit :: permit_world
  fl_get :: "nat \<Rightarrow> string \<Rightarrow> string option \<Rightarrow> app_error + (nat \<times> (app_error + jsval))"

abbreviation fl_chain :: "fleet_world \<Rightarrow> chain_world" where
  "fl_chain F \<equiv> pm_chain (fl_permit F)"

definition http_get ::
  "fleet_world \<Rightarrow> string \<Rightarrow> string option \<Rightarrow> ('a chain_db_scheme, nat \<times> (app_error + jsval)) op" where
  "http_get F url payment = bindM (fetched (\<lambda>n. fl_get F n url payment)) liftE"

definition DEFAULT_DELEGATION_CEILING_USDC :: string where
  "DEFAULT_DELEGATION_CEILING_USDC = ''5.00''"

definition DEFAULT_DELEGATION_TTL_MS :: int where
  "DEFAULT_DELEGATION_TTL_MS = 24 * 60 * 60 * 1000"

fun CHAIN_NETWORK :: "payment_chain \<Rightarrow> string" where
  "CHAIN_NETWORK Arc = ''eip155:5042002''"
| "CHAIN_NETWORK Base = ''eip155:84532''"
| "CHAIN_NETWORK Arbitrum = ''eip155:421614''"
| "CHAIN_NETWORK Polygon = ''eip155:80002''"
| "CHAIN_NETWORK Optimism = ''eip155:11155420''"
| "CHAIN_NETWORK Avalanche = ''eip155:43113''"

text \<open>\<open>BigInt(Math.round(Number(text) * 1_000_000))\<close>, on doubles; no column value is infinite.\<close>

definition rounded_micros :: "int \<Rightarrow> int" where
  "rounded_micros m =
     (case to_number (numeric_text m) of
        Fin x \<Rightarrow> (case round64 (x * 1000000) of Fin y \<Rightarrow> \<lfloor>y + 1 / 2\<rfloor> | _ \<Rightarrow> 0)
      | _ \<Rightarrow> 0)"

definition standing_delegations ::
  "string \<Rightarrow> string \<Rightarrow> payment_mode \<Rightarrow> payment_chain \<Rightarrow> ('a delegations_db_scheme) \<Rightarrow> delegation_row list" where
  "standing_delegations payerAgentId payeeAddress mode chain s =
     sort_key (\<lambda>d. - dg_created_at d)
       (filter (\<lambda>d. dg_payer_agent_id d = Some payerAgentId \<and> dg_payee_address d = payeeAddress \<and> dg_mode d = mode \<and>
          dg_chain d = chain \<and> dg_status d = DgActive \<and> clock s < dg_expires_at d) (delegations s))"

definition findActiveDelegationWithHeadroom ::
  "string \<Rightarrow> string \<Rightarrow> payment_mode \<Rightarrow> payment_chain \<Rightarrow> int \<Rightarrow> ('a delegations_db_scheme) \<Rightarrow> string option" where
  "findActiveDelegationWithHeadroom payerAgentId payeeAddress mode chain neededMicros s =
     (case standing_delegations payerAgentId payeeAddress mode chain s of
        [] \<Rightarrow> None
      | row # _ \<Rightarrow>
          if rounded_micros (dg_ceiling row) < rounded_micros (dg_drawn row) + neededMicros then None else Some (dg_id row))"

text \<open>\<open>JSON.stringify\<close> of a JSON value.\<close>

fun json_text :: "jsval \<Rightarrow> string" where
  "json_text (VBool b) = (if b then ''true'' else ''false'')"
| "json_text (VNum x) = (if isFinite x then show_num x else ''null'')"
| "json_text (VStr t) = json_string t"
| "json_text (VArr xs) = ''['' @ join '','' (map json_text xs) @ '']''"
| "json_text (VObj fs) = ''{'' @ join '','' (map (\<lambda>(k, v). json_string k @ '':'' @ json_text v) fs) @ ''}''"
| "json_text _ = ''null''"

definition FULFILLMENT_BODY_MAX_CHARS :: nat where
  "FULFILLMENT_BODY_MAX_CHARS = 4096"

definition boundFulfillmentBody :: "jsval \<Rightarrow> jsval" where
  "boundFulfillmentBody body =
     (if body = VUndef then VUndef
      else let encoded = json_text body in
           if length encoded \<le> FULFILLMENT_BODY_MAX_CHARS then body
           else VStr (take FULFILLMENT_BODY_MAX_CHARS encoded))"

record fleet_payment =
  fp_orgId :: string
  fp_payerAgentId :: string
  fp_payeeAgentId :: string
  fp_mode :: payment_mode
  fp_chain :: payment_chain
  fp_url :: string
  fp_approvedBy :: string
  fp_connectionId :: "string option"

text \<open>The arrow in the category is outside the characters of the model and written \<open>->\<close>.\<close>

definition fleet_event ::
  "fleet_payment \<Rightarrow> string \<Rightarrow> string \<Rightarrow> string \<Rightarrow> string option \<Rightarrow> string \<Rightarrow> int \<Rightarrow> string \<Rightarrow> nat \<Rightarrow> jsval \<Rightarrow> payment_event_row" where
  "fleet_event input eventId payeeName payeeAddress connectionId amountUsdc amount txHash httpStatus body =
     (let delivered = (200 \<le> httpStatus \<and> httpStatus < 300); bounded = boundFulfillmentBody body in
      \<lparr>pe_id = eventId, pe_org_id = fp_orgId input, pe_agent_id = fp_payerAgentId input, pe_connection_id = connectionId,
       pe_source_id = None, pe_reservation_id = None, pe_decision = ''settled'', pe_provider_mode = ProviderMode (fp_mode input),
       pe_rail = ExactRail (fp_chain input), pe_chain = fp_chain input, pe_amount = amount, pe_asset = ''USDC'',
       pe_recipient = payeeAddress, pe_network = CHAIN_NETWORK (fp_chain input), pe_resource_url = Some (fp_url input),
       pe_resource_category = Some (''Fleet hire -> '' @ payeeName),
       pe_quote = [(''lane'', VStr ''permit2_intra_fleet''), (''scheme'', VStr ''permit2''),
         (''payee_agent_id'', VStr (fp_payeeAgentId input)), (''payee_name'', VStr payeeName), (''amount_usdc'', VStr amountUsdc)],
       pe_result = [(''settlement'', VStr ''settled''), (''lane'', VStr ''permit2_intra_fleet''), (''tx_hash'', VStr txHash),
         (''payee_agent_id'', VStr (fp_payeeAgentId input)), (''payee_name'', VStr payeeName),
         (''fulfillment'', VObj ([(''status'', VStr (if delivered then ''delivered'' else ''failed'')),
            (''http_status'', jint (int httpStatus))] @ (if bounded = VUndef then [] else [(''body'', bounded)])))],
       pe_activity_id = None\<rparr>)"

definition recordIntraFleetPaymentEvent ::
  "env \<Rightarrow> fleet_payment \<Rightarrow> string \<Rightarrow> string \<Rightarrow> string option \<Rightarrow> string \<Rightarrow> string \<Rightarrow> nat \<Rightarrow> jsval \<Rightarrow> ('a payments_db_scheme, string) op" where
  "recordIntraFleetPaymentEvent E input payeeName payeeAddress connectionId amountUsdc txHash httpStatus body =
     bindM (prefixedId E ''payevt'') (\<lambda>eventId.
     bindM (liftE (numeric_cast amountUsdc)) (\<lambda>amount.
     bindM (insert_event (fleet_event input eventId payeeName payeeAddress connectionId amountUsdc amount txHash httpStatus body)) (\<lambda>_.
     ret eventId)))"

definition standing_input :: "fleet_payment \<Rightarrow> string \<Rightarrow> int \<Rightarrow> delegation_input" where
  "standing_input input payeeAddress t =
     \<lparr>sd_orgId = fp_orgId input, sd_payerAgentId = Some (fp_payerAgentId input), sd_payeeAgentId = Some (fp_payeeAgentId input),
      sd_payerTreasury = False, sd_payeeAddress = payeeAddress, sd_mode = fp_mode input, sd_chain = fp_chain input,
      sd_tokenAddress = None, sd_ceilingUsdc = DEFAULT_DELEGATION_CEILING_USDC, sd_expiresAt = t + DEFAULT_DELEGATION_TTL_MS,
      sd_approvedBy = fp_approvedBy input, sd_userSigned = None\<rparr>"

record fleet_result =
  fr_status :: nat
  fr_body :: jsval
  fr_txHash :: string
  fr_amountUsdc :: string
  fr_paymentEventId :: string

definition payIntraFleet :: "env \<Rightarrow> fleet_world \<Rightarrow> fleet_payment \<Rightarrow> ('a delegations_db_scheme, fleet_result) op" where
  "payIntraFleet E F input =
     bindM (resolveAgentPayee E (fp_orgId input) (fp_payeeAgentId input) (fp_mode input) (fp_chain input)) (\<lambda>payeeAddress.
     bindM (query (find_agent (fp_orgId input) (fp_payeeAgentId input))) (\<lambda>payeeRow.
     let payeeName = (case payeeRow of Some a \<Rightarrow> ag_name a | None \<Rightarrow> fp_payeeAgentId input) in
     bindM (http_get F (fp_url input) None) (\<lambda>(status, quote).
     bindM (guardM (status = 402) (JsError ''intra_fleet_payment_not_required'')) (\<lambda>_.
     bindM (liftE (bindE quote price_of)) (\<lambda>amountMicros.
     bindM (fundAgentFromTreasuryDelegation E (fl_chain F) (fp_orgId input) (fp_payerAgentId input) (fp_mode input)
              (fp_chain input) amountMicros) (\<lambda>_.
     bindM (query (findActiveDelegationWithHeadroom (fp_payerAgentId input) payeeAddress (fp_mode input) (fp_chain input) amountMicros)) (\<lambda>found.
     bindM (case found of
              Some i \<Rightarrow> ret i
            | None \<Rightarrow>
                bindM now (\<lambda>t.
                bindM (recordSignedDelegation E (fl_permit F) (standing_input input payeeAddress t)) (\<lambda>signed.
                ret (dg_id signed)))) (\<lambda>delegationId.
     bindM (drawDown E (fl_chain F) delegationId (formatUsdc amountMicros)) (\<lambda>(txHash, drawn).
     bindM (http_get F (fp_url input) (Some txHash)) (\<lambda>(paidStatus, paidJson).
     let body = (case paidJson of Inr v \<Rightarrow> v | Inl e \<Rightarrow> VUndef);
         connectionId = (case fp_connectionId input of
            Some c \<Rightarrow> Some c
          | None \<Rightarrow> if take 5 (fp_approvedBy input) = ''conn_'' then Some (fp_approvedBy input) else None) in
     bindM (recordIntraFleetPaymentEvent E input payeeName payeeAddress connectionId (formatUsdc amountMicros) txHash paidStatus body) (\<lambda>eventId.
     ret \<lparr>fr_status = paidStatus, fr_body = body, fr_txHash = txHash, fr_amountUsdc = formatUsdc amountMicros,
          fr_paymentEventId = eventId\<rparr>)))))))))))"

section \<open>The books under these operations\<close>

lemma books_allowlist [preserve_intros]: "preserves (\<lambda>s. books_view C s = x) (insert_allowlist a)"
  unfolding insert_allowlist_def by (intro preserve_intros) simp

lemma preserves_view: "(\<And>x. preserves (\<lambda>s. books_view C s = x) m) \<Longrightarrow> preserves (delegations_ok C R) m"
  unfolding preserves_def by (metis delegations_ok_view)

lemma fleet_reads_ok:
  "preserves (delegations_ok C R) (resolveAgentPayee E og ag mode chain)"
  "preserves (delegations_ok C R) (ensureAgentGasFloor E C og a b chain mode)"
  "preserves (delegations_ok C R) (http_get F url p)"
  "preserves (delegations_ok C R) (recordIntraFleetPaymentEvent E input pn pa cid u tx st b')"
  "preserves (delegations_ok C R) (nativeBalanceMicros C a chain mode)"
  "preserves (delegations_ok C R) (callProvider C (TransferWallet tc))" "preserves (delegations_ok C R) (randomRef E ref)"
  unfolding resolveAgentPayee_def ensureAgentGasFloor_def http_get_def recordIntraFleetPaymentEvent_def insert_event_def
  by (rule preserves_view; intro preserve_intros; simp add: draw_of_def)+

lemma draw_first_ok: "preserves (delegations_ok C R) (draw_first E C shortfall rows)"
  by (induction rows) (auto intro!: preserve_intros drawDown_ok simp: case_prod_beta)

lemma fundAgent_ok: "preserves (delegations_ok C R) (fundAgentFromTreasuryDelegation E C og ag mode chain needed)"
  unfolding fundAgentFromTreasuryDelegation_def Let_def
  by (intro preserve_intros fleet_reads_ok draw_first_ok)

lemma payIntraFleet_ok: "preserves (delegations_ok (fl_chain F) R) (payIntraFleet E F input)"
  unfolding payIntraFleet_def Let_def case_prod_beta
  by (intro preserve_intros fleet_reads_ok fundAgent_ok recordSignedDelegation_ok drawDown_ok)

end
