(* ===== verification/Trust.thy ===== *)
theory Trust
  imports Fleet
begin

text \<open>
  Promoting an external agent (payments/trust.ts): a person reviews its escrow history, and the
  promotion writes an allowlist row and opens a delegation from the treasury. All calls that touch
  delegations, those of Fleet and these, are then one machine whose books match the chain.
\<close>

section \<open>Evidence\<close>

record trust_evidence =
  te_completedCount :: nat
  te_rejectedCount :: nat
  te_expiredCount :: nat
  te_settledUsdc :: string
  te_trusted :: bool
  te_jobs :: "escrow_job list"

definition provider_jobs_of :: "string \<Rightarrow> payment_chain \<Rightarrow> payment_mode \<Rightarrow> string \<Rightarrow> ('a escrow_db_scheme) \<Rightarrow> escrow_job list" where
  "provider_jobs_of orgId chain mode address s =
     sort_key (\<lambda>j. - ej_created_at j)
       (filter (\<lambda>j. ej_org_id j = orgId \<and> ej_chain j = chain \<and> ej_mode j = mode \<and>
          toLowerCase (ej_provider_address j) = toLowerCase address) (escrow_jobs s))"

fun settled_micros :: "escrow_job list \<Rightarrow> app_error + int" where
  "settled_micros [] = Inr 0"
| "settled_micros (j # js) =
     (if ej_state j = EsCompleted
      then bindE (parseUsdcMicros (UText (numeric_text (ej_budget j)))) (\<lambda>m. bindE (settled_micros js) (\<lambda>k. Inr (m + k)))
      else settled_micros js)"

definition getTrustEvidence ::
  "string \<Rightarrow> payment_chain \<Rightarrow> payment_mode \<Rightarrow> string \<Rightarrow> ('a escrow_db_scheme, trust_evidence) op" where
  "getTrustEvidence orgId chain mode address =
     bindM (query (provider_jobs_of orgId chain mode address)) (\<lambda>jobs.
     bindM (liftE (settled_micros jobs)) (\<lambda>settled.
     bindM (query (destination_allowed orgId chain address)) (\<lambda>trusted.
     ret \<lparr>te_completedCount = length (filter (\<lambda>j. ej_state j = EsCompleted) jobs),
          te_rejectedCount = length (filter (\<lambda>j. ej_state j = EsRejected) jobs),
          te_expiredCount = length (filter (\<lambda>j. ej_state j = EsExpired) jobs),
          te_settledUsdc = formatUsdc settled, te_trusted = trusted, te_jobs = jobs\<rparr>)))"

section \<open>Promotion and revocation\<close>

record trust_input =
  tu_orgId :: string
  tu_chain :: payment_chain
  tu_mode :: payment_mode
  tu_address :: string
  tu_label :: string
  tu_ceilingUsdc :: string
  tu_expiresAt :: int
  tu_approvedBy :: string

text \<open>
  Only the allowlist is written on the connection of this transaction; the delegation is recorded in
  a transaction of its own.
\<close>

definition undo_allowlist :: "'a payments_db_scheme \<Rightarrow> 'a payments_db_scheme \<Rightarrow> 'a payments_db_scheme" where
  "undo_allowlist s s' = s'\<lparr>destination_allowlist := destination_allowlist s\<rparr>"

definition TRUST_REQUIRES_HISTORY :: app_error where
  "TRUST_REQUIRES_HISTORY = conflict ''trust_requires_escrow_history''
     ''trust_requires_escrow_history: this address has no completed escrow jobs with this org, so there is nothing here for a human to have reviewed.''"

definition ALREADY_TRUSTED :: app_error where
  "ALREADY_TRUSTED = conflict ''agent_already_trusted'' ''agent_already_trusted: this address is already trusted on this chain.''"

definition trust_delegation :: "trust_input \<Rightarrow> delegation_input" where
  "trust_delegation input =
     \<lparr>sd_orgId = tu_orgId input, sd_payerAgentId = None, sd_payeeAgentId = None, sd_payerTreasury = True,
      sd_payeeAddress = tu_address input, sd_mode = tu_mode input, sd_chain = tu_chain input, sd_tokenAddress = None,
      sd_ceilingUsdc = tu_ceilingUsdc input, sd_expiresAt = tu_expiresAt input, sd_approvedBy = tu_approvedBy input,
      sd_userSigned = None\<rparr>"

definition trust_row :: "trust_input \<Rightarrow> string \<Rightarrow> allowlist_row" where
  "trust_row input i =
     \<lparr>al_id = i, al_org_id = tu_orgId input, al_chain = tu_chain input, al_address = tu_address input, al_label = tu_label input,
      al_source = MarketplaceSource, al_active = True, al_created_by = tu_approvedBy input, al_approved_by = Some (tu_approvedBy input)\<rparr>"

definition trustExternalAgent ::
  "env \<Rightarrow> permit_world \<Rightarrow> trust_input \<Rightarrow> ('a delegations_db_scheme, string \<times> string) op" where
  "trustExternalAgent E P input =
     transactionOn undo_allowlist (
       bindM (getTrustEvidence (tu_orgId input) (tu_chain input) (tu_mode input) (tu_address input)) (\<lambda>evidence.
       bindM (guardM (te_completedCount evidence \<noteq> 0) TRUST_REQUIRES_HISTORY) (\<lambda>_.
       bindM (guardM (\<not> te_trusted evidence) ALREADY_TRUSTED) (\<lambda>_.
       bindM (prefixedId E ''payto'') (\<lambda>allowlistId.
       bindM (insert_allowlist (trust_row input allowlistId)) (\<lambda>_.
       bindM (recordSignedDelegation E P (trust_delegation input)) (\<lambda>d.
       ret (allowlistId, dg_id d))))))))"

definition NOT_TRUSTED :: app_error where
  "NOT_TRUSTED = conflict ''agent_not_trusted'' ''agent_not_trusted: this address is not currently trusted on this chain.''"

definition revoked_destination :: "string \<Rightarrow> ('a payments_db_scheme, unit) op" where
  "revoked_destination i =
     modify (\<lambda>s. s\<lparr>destination_allowlist := update_rows (\<lambda>a. al_id a = i) (\<lambda>a. a\<lparr>al_active := False\<rparr>) (destination_allowlist s)\<rparr>)"

definition revokeTrust ::
  "env \<Rightarrow> chain_world \<Rightarrow> string \<Rightarrow> payment_chain \<Rightarrow> payment_mode \<Rightarrow> string \<Rightarrow> ('a delegations_db_scheme, unit) op" where
  "revokeTrust E C orgId chain mode address =
     transactionOn undo_allowlist (
       bindM (query (\<lambda>s. find_row (\<lambda>a. al_org_id a = orgId \<and> al_chain a = chain \<and> toLowerCase (al_address a) = toLowerCase address)
          (destination_allowlist s))) (\<lambda>row.
       case row of
         None \<Rightarrow> throw NOT_TRUSTED
       | Some a \<Rightarrow>
           bindM (guardM (al_active a) NOT_TRUSTED) (\<lambda>_.
           bindM (revoked_destination (al_id a)) (\<lambda>_.
           bindM (query (\<lambda>s. filter (\<lambda>d. dg_org_id d = orgId \<and> dg_chain d = chain \<and> dg_mode d = mode \<and>
              toLowerCase (dg_payee_address d) = toLowerCase address \<and> dg_status d = DgActive) (delegations s))) (\<lambda>rows.
           foldM (\<lambda>_ d. bindM (revokeDelegation E C (dg_id d)) (\<lambda>_. ret ())) () rows)))))"

section \<open>Every call on delegations\<close>

lemma trust_undo_ok: "delegations_ok C R s' \<Longrightarrow> delegations_ok C R (undo_allowlist s s')"
  by (simp add: undo_allowlist_def delegations_ok_def)

lemma preserves_evidence [preserve_intros]: "preserves I (getTrustEvidence og chain mode a)"
  unfolding getTrustEvidence_def by (intro preserve_intros)

lemma insert_allowlist_ok: "preserves (delegations_ok C R) (insert_allowlist a)"
  by (rule preserves_view) (rule books_allowlist)

lemma trustExternalAgent_ok: "preserves (delegations_ok (pm_chain P) R) (trustExternalAgent E P input)"
  unfolding trustExternalAgent_def
  by (rule preserves_transactionOn)
     (intro preserve_intros recordSignedDelegation_ok insert_allowlist_ok,
      simp_all add: delegations_ok_def trust_undo_ok [unfolded delegations_ok_def])

lemma revokeTrust_ok: "preserves (delegations_ok C R) (revokeTrust E C og chain mode a)"
  unfolding revokeTrust_def revoked_destination_def
  by (rule preserves_transactionOn)
     (intro preserve_intros revokeDelegation_ok, simp_all add: delegations_ok_def trust_undo_ok [unfolded delegations_ok_def])

end
