(* ===== verification/DelegationLaws.thy ===== *)
theory DelegationLaws
  imports Trust
begin

text \<open>
  What holds of delegations whatever is called: the books match the chain, revoked delegations stay
  as they are, a draw is exact, an approval covers what is outstanding, the treasury's delegations
  stay under the ceiling when they are made, and trust is granted whole or not at all.
\<close>

section \<open>Every call on delegations\<close>

datatype 'a delegation_call =
    RecordDelegation delegation_input
  | Draw string string
  | Revoke string
  | SetCeiling string payment_mode payment_chain string string
  | TopUp string string payment_mode payment_chain int
  | PayFleet fleet_payment
  | Promote trust_input
  | Demote string payment_chain payment_mode string
  | Apart "'a delegations_db_scheme \<Rightarrow> 'a delegations_db_scheme"

text \<open>\<open>Apart\<close> is any other code: it leaves the two tables alone and draws nothing.\<close>

fun delegation_step :: "env \<Rightarrow> fleet_world \<Rightarrow> 'a delegation_call \<Rightarrow> 'a delegations_db_scheme \<Rightarrow> 'a delegations_db_scheme" where
  "delegation_step E F (RecordDelegation input) s = snd (recordSignedDelegation E (fl_permit F) input s)"
| "delegation_step E F (Draw i amount) s = snd (drawDown E (fl_chain F) i amount s)"
| "delegation_step E F (Revoke i) s = snd (revokeDelegation E (fl_chain F) i s)"
| "delegation_step E F (SetCeiling og mode chain cap who) s = snd (setOrgCeiling og mode chain cap who s)"
| "delegation_step E F (TopUp og ag mode chain needed) s = snd (fundAgentFromTreasuryDelegation E (fl_chain F) og ag mode chain needed s)"
| "delegation_step E F (PayFleet input) s = snd (payIntraFleet E F input s)"
| "delegation_step E F (Promote input) s = snd (trustExternalAgent E (fl_permit F) input s)"
| "delegation_step E F (Demote og chain mode address) s = snd (revokeTrust E (fl_chain F) og chain mode address s)"
| "delegation_step E F (Apart f) s = (if books_view (fl_chain F) (f s) = books_view (fl_chain F) s then f s else s)"

definition no_delegations :: "'a delegations_db_scheme \<Rightarrow> 'a delegations_db_scheme" where
  "no_delegations s = s\<lparr>delegations := [], drawdowns := [], provider_calls := []\<rparr>"

lemma setOrgCeiling_ok: "preserves (delegations_ok C R) (setOrgCeiling og mode chain cap who)"
  by (rule preserves_view) (rule books_setOrgCeiling)

lemma delegation_op: "preserves I m \<Longrightarrow> I s \<Longrightarrow> I (snd (m s))"
  by (simp add: preserves_def)

lemmas delegation_operations_ok =
  recordSignedDelegation_ok drawDown_ok revokeDelegation_ok setOrgCeiling_ok fundAgent_ok payIntraFleet_ok
  trustExternalAgent_ok revokeTrust_ok

lemma delegation_step_ok: "delegations_ok (fl_chain F) R s \<Longrightarrow> delegations_ok (fl_chain F) R (delegation_step E F c s)"
proof (cases c)
  case (Apart f)
  then show "delegations_ok (fl_chain F) R s \<Longrightarrow> ?thesis" by (simp add: delegations_ok_def)
qed (simp_all add: delegation_operations_ok [THEN delegation_op])

interpretation delegation_machine: invariant_machine "no_delegations s0" "delegation_step E F" "delegations_ok (fl_chain F) {}"
  for s0 :: "'a delegations_db_scheme" and E F
proof
  show "delegations_ok (fl_chain F) {} (no_delegations s0)"
    by (simp add: delegations_ok_def books_ok_def books_view_def no_delegations_def draws_def succeeded_def moved_total_def
        drawn_with_def map_filter_def)
qed (rule delegation_step_ok)

lemma delegation_run_ok: "delegations_ok (fl_chain F) R s \<Longrightarrow> delegations_ok (fl_chain F) R (fold (delegation_step E F) cs s)"
  by (induction cs arbitrary: s) (simp_all add: delegation_step_ok)

text \<open>
  C8. The books of the delegations match the chain. Whatever is recorded, drawn, revoked, topped up,
  paid, promoted or demoted, in whatever order and with whatever failures of the provider, the
  node or the database constraints: for every payer, payee and token the transfers the provider confirmed add up
  to what the delegations say was drawn, every delegation has drawn what its drawdowns add up to, and
  none has drawn more than its ceiling.
\<close>

theorem delegation_books_match_chain:
  "let s = fold (delegation_step E F) calls (no_delegations s0)
   in (\<forall>k. moved_total k (draws (fl_chain F) (provider_calls s)) = drawn_with k (delegations s)) \<and>
      list_all (\<lambda>d. 0 \<le> dg_drawn d \<and> dg_drawn d \<le> dg_ceiling d \<and> dg_drawn d = drawn_under (dg_id d) (drawdowns s)) (delegations s)"
proof -
  let ?s = "fold (delegation_step E F) calls (no_delegations s0)"
  have "delegations_ok (fl_chain F) {} ?s" by (rule delegation_machine.inv_reachable)
  then have ok: "books_ok {} (delegations ?s, drawdowns ?s, draws (fl_chain F) (provider_calls ?s))"
    by (simp add: delegations_ok_def books_view_def)
  have "list_all (\<lambda>d. 0 \<le> dg_drawn d \<and> dg_drawn d \<le> dg_ceiling d \<and> dg_drawn d = drawn_under (dg_id d) (drawdowns ?s)) (delegations ?s)"
    using books_okD(3) [OF ok] unfolding list_all_iff delegation_ok_def by blast
  then show ?thesis using books_okD(5) [OF ok] by (simp add: Let_def del: split_paired_All)
qed

text \<open>
  C11. Revocation is final. A delegation that is revoked in a reachable state is in every later state
  exactly as it was, its drawn amount included: no later call draws under it or reactivates it.
\<close>

theorem revoked_delegations_stay:
  "let s = fold (delegation_step E F) calls (no_delegations s0); s' = fold (delegation_step E F) later s
   in {d \<in> set (delegations s). dg_status d = DgRevoked} \<subseteq> {d \<in> set (delegations s'). dg_status d = DgRevoked}"
proof -
  let ?s = "fold (delegation_step E F) calls (no_delegations s0)"
  let ?R = "{d \<in> set (delegations ?s). dg_status d = DgRevoked}"
  have "delegations_ok (fl_chain F) {} ?s" by (rule delegation_machine.inv_reachable)
  then have "delegations_ok (fl_chain F) ?R ?s"
    by (simp add: delegations_ok_def books_view_def books_ok_def del: split_paired_All)
  from delegation_run_ok [OF this, of E later] show ?thesis
    by (simp add: Let_def delegations_ok_def books_view_def books_ok_def del: split_paired_All)
qed

text \<open>
  C9. A draw is all or nothing on the books, and never asks for more than one transfer. In a reachable
  state a draw that returns found its delegation active, unexpired and with room for a positive
  amount (\<open>draw_allowed\<close>), the provider confirmed exactly that amount under the delegation's payer,
  payee and token, and it is added to the delegation, which is exhausted if nothing is left. A draw
  that throws changed no row, and the provider confirmed no transfer for it. In both cases the
  provider was asked (\<open>asked\<close>, whatever it answered) for nothing or for one transfer, of the checked
  amount under the delegation's own key while it was active, unexpired and had the room. What a
  provider that throws did with a transfer it was asked for is not known: a wait that times out, or an
  answer without a hash, comes after the transaction was submitted, and so may the COMMIT of the
  database fail; then the transfer can land while the rows say nothing of it.
\<close>

theorem draw_all_or_nothing:
  "let s = fold (delegation_step E F) calls (no_delegations s0); C = fl_chain F
   in case drawDown E C i amountUsdc s of
        (r, s') \<Rightarrow>
          (asked s' = asked s \<or> (\<exists>d a. draw_allowed i amountUsdc s d a \<and> asked s' = asked s @ [(key_of d, a)])) \<and>
          (case r of
             Inl e \<Rightarrow> delegations s' = delegations s \<and> drawdowns s' = drawdowns s \<and>
               draws C (provider_calls s') = draws C (provider_calls s)
           | Inr answer \<Rightarrow> (\<exists>d a. draw_allowed i amountUsdc s d a \<and>
               snd answer = formatUsdc (dg_drawn d + a) \<and>
               draws C (provider_calls s') = draws C (provider_calls s) @ [(key_of d, a)] \<and>
               delegations s' = update_rows (\<lambda>q. dg_id q = i)
                 (\<lambda>q. q\<lparr>dg_drawn := dg_drawn d + a, dg_status := (if dg_ceiling d \<le> dg_drawn d + a then DgExhausted else DgActive)\<rparr>)
                 (delegations s)))"
proof -
  let ?s = "fold (delegation_step E F) calls (no_delegations s0)"
  have ok: "delegations_ok (fl_chain F) {} ?s" by (rule delegation_machine.inv_reachable)
  obtain r s' where run: "drawDown E (fl_chain F) i amountUsdc ?s = (r, s')" by fastforce
  have asks: "asks_once i amountUsdc ?s s'"
    using drawDown_asks [of E "fl_chain F" i amountUsdc ?s] by (simp add: outcome_def run)
  from drawDown_outcome [OF ok, of E i amountUsdc]
  have out: "case r of Inl e \<Rightarrow> books_view (fl_chain F) s' = books_view (fl_chain F) ?s
      | Inr answer \<Rightarrow> draw_effect (fl_chain F) i amountUsdc answer ?s s'"
    by (simp add: outcome_def run)
  show ?thesis
  proof (cases r)
    case (Inl e)
    then show ?thesis using out asks by (simp add: run books_view_def asks_once_def)
  next
    case (Inr answer)
    then obtain d a w where allowed: "draw_allowed i amountUsdc ?s d a" and answer: "snd answer = formatUsdc (dg_drawn d + a)"
      and v: "books_view (fl_chain F) s' =
          (update_rows (\<lambda>q. dg_id q = dg_id d)
             (\<lambda>q. q\<lparr>dg_drawn := dg_drawn d + a, dg_status := (if dg_ceiling d \<le> dg_drawn d + a then DgExhausted else DgActive)\<rparr>)
             (delegations ?s), drawdowns ?s @ [w], draws (fl_chain F) (provider_calls ?s) @ [(key_of d, a)])"
      using out unfolding draw_effect_def draw_allowed_def by auto
    have "dg_id d = i" using allowed find_row_Some by (fastforce simp: draw_allowed_def)
    with v have "delegations s' = update_rows (\<lambda>q. dg_id q = i)
             (\<lambda>q. q\<lparr>dg_drawn := dg_drawn d + a, dg_status := (if dg_ceiling d \<le> dg_drawn d + a then DgExhausted else DgActive)\<rparr>)
             (delegations ?s)" "draws (fl_chain F) (provider_calls s') = draws (fl_chain F) (provider_calls ?s) @ [(key_of d, a)]"
      by (simp_all only: books_view_def prod.inject)
    with allowed answer asks show ?thesis unfolding Let_def run Inr prod.case sum.case asks_once_def by blast
  qed
qed

section \<open>What recording a delegation does\<close>

definition rules_view :: "('a delegations_db_scheme) \<Rightarrow> delegation_row list \<times> org_ceiling_row list \<times> int \<times> allowlist_row list" where
  "rules_view s = (delegations s, org_ceilings s, clock s, destination_allowlist s)"

text \<open>A call sent since \<open>cs\<close> was the log of the provider's calls.\<close>

definition sent_since :: "provider_call list \<Rightarrow> provider_call set \<Rightarrow> ('a chain_db_scheme) \<Rightarrow> bool" where
  "sent_since cs X s \<longleftrightarrow> (\<exists>new. provider_calls s = cs @ new \<and> X \<subseteq> set new)"

lemma rules_frame [simp]:
  "rules_view (s\<lparr>uuids := n\<rparr>) = rules_view s" "rules_view (s\<lparr>rpc_requests := k\<rparr>) = rules_view s"
  "rules_view (s\<lparr>provider_calls := cs\<rparr>) = rules_view s"
  by (simp_all add: rules_view_def)

lemma sent_frame [simp]:
  "sent_since cs X (s\<lparr>uuids := n\<rparr>) = sent_since cs X s" "sent_since cs X (s\<lparr>rpc_requests := k\<rparr>) = sent_since cs X s"
  by (simp_all add: sent_since_def)

lemma sent_call: "sent_since cs X s \<Longrightarrow> sent_since cs (insert c X) (s\<lparr>provider_calls := provider_calls s @ [c]\<rparr>)"
  by (auto simp: sent_since_def)

lemma sent_less: "sent_since cs Y s \<Longrightarrow> X \<subseteq> Y \<Longrightarrow> sent_since cs X s"
  by (auto simp: sent_since_def)

lemma sent_callProvider [preserve_intros]:
  "preserves (sent_since cs X) (callProvider C c)" "preserves (sent_since cs X) (executePermit2Transaction C x)"
  unfolding executePermit2Transaction_def callProvider_def
  by (intro preserve_intros; rule sent_less [OF sent_call]; auto)+

lemma keeps_rules:
  "keeps rules_view (ensureSubmitterGasFloor E C og a c md)" "keeps rules_view (randomRef E p)" "keeps rules_view (prefixedId E p)"
  "keeps rules_view (callProvider C pc)" "keeps rules_view (executePermit2Transaction C x)"
  "keeps rules_view (readPermit2Nonce P o' t y c)" "keeps rules_view (resolvePermitSubmitter og md c a b py)"
  "keeps rules_view (nativeBalanceMicros C a c md)"
  unfolding ensureSubmitterGasFloor_def
  by (rule keepsI; intro preserve_intros preserves_callProvider preserves_executePermit2Transaction; simp)+

lemma sent_kept:
  "preserves (sent_since cs X) (ensureSubmitterGasFloor E C og a c md)" "preserves (sent_since cs X) (randomRef E p)"
  "preserves (sent_since cs X) (prefixedId E p)" "preserves (sent_since cs X) (readPermit2Nonce P o' t y c)"
  "preserves (sent_since cs X) (resolvePermitSubmitter og md c a b py)" "preserves (sent_since cs X) (nativeBalanceMicros C a c md)"
  unfolding ensureSubmitterGasFloor_def by (intro preserve_intros; simp)+

lemma wp_kept_bind:
  "keeps f m \<Longrightarrow> preserves G m \<Longrightarrow> G s \<Longrightarrow> (\<And>a s'. f s' = f s \<Longrightarrow> G s' \<Longrightarrow> wp (g a) Q s') \<Longrightarrow> wp (bindM m g) Q s"
  unfolding wp_bindM wp_def by (metis keepsD preservesD)

lemma wp_outstanding:
  "wp (outstandingHeadroomMicros scope) (\<lambda>n s'. s' = s \<and> n = headroom scope (clock s) (delegations s)) s"
proof -
  have none: "headroom scope t ds = 0" if "\<not> list_ex (live_in scope t) ds" for t ds
  proof -
    have "filter (live_in scope t) ds = []" using that by (simp add: list_ex_iff filter_empty_conv)
    then show ?thesis by (simp add: headroom_def)
  qed
  have zero: "parseUsdcMicros (UText ''0'') = Inr 0" by code_simp
  show ?thesis
    by (auto simp: outstandingHeadroomMicros_def wp_simps parse_numeric zero none)
qed

text \<open>The allowance the platform gives Permit2 for its own payer: all that is outstanding, and the new ceiling.\<close>

definition approval_for :: "delegation_input \<Rightarrow> string \<Rightarrow> string \<Rightarrow> int \<Rightarrow> string \<Rightarrow> delegation_row list \<Rightarrow> int \<Rightarrow> provider_call" where
  "approval_for input payer token micros ref ds t =
     ExecuteContract (approve_permit2_call input payer token (headroom (input_scope input payer token) t ds + micros) ref)"

lemma wp_sign:
  assumes G: "sent_since cs {} s" and R: "rules_view s = rules_view s0"
  shows "wp (signPlatformDelegation E P input payer token micros x n)
     (\<lambda>sig s'. rules_view s' = rules_view s0 \<and>
        (\<exists>ref. sent_since cs {approval_for input payer token micros ref (delegations s0) (clock s0)} s')) s"
  unfolding signPlatformDelegation_def Let_def
  apply (rule wp_kept_bind [OF keeps_rules(4) sent_callProvider(1) G])
  subgoal for a s1
    apply (subst wp_bindM, rule wp_mono [OF wp_outstanding], elim conjE, hypsubst)
    apply (rule wp_kept_bind [where G = "sent_since cs {}", OF keeps_rules(1) sent_kept(1)], assumption)
    apply (rule wp_kept_bind [where G = "sent_since cs {}", OF keeps_rules(2) sent_kept(2)], assumption)
    subgoal for u s2 ref s3
      using R by (auto simp: wp_simps approval_for_def rules_view_def intro!: exI [of _ ref] sent_call [where X = "{}", simplified])
    done
  done

definition within_org_ceiling :: "payer_scope \<Rightarrow> int \<Rightarrow> ('a delegations_db_scheme) \<Rightarrow> bool" where
  "within_org_ceiling scope m s =
     (case find_row (\<lambda>c. oc_org_id c = ps_orgId scope \<and> oc_mode c = ps_mode scope \<and> oc_chain c = ps_chain scope) (org_ceilings s) of
        None \<Rightarrow> True
      | Some c \<Rightarrow> m \<le> oc_ceiling c)"

lemma wp_orgCeiling:
  "wp (orgCeilingMicros og md c) (\<lambda>r s'. s' = s \<and>
     r = map_option oc_ceiling (find_row (\<lambda>x. oc_org_id x = og \<and> oc_mode x = md \<and> oc_chain x = c) (org_ceilings s))) s"
  by (auto simp: orgCeilingMicros_def wp_simps parse_numeric split: option.split)

lemma wp_within:
  assumes G: "sent_since cs {} s"
  shows "wp (assertDelegationWithinCeilings scope k (nativeBalanceMicros C a c md))
     (\<lambda>_ s'. rules_view s' = rules_view s \<and> sent_since cs {} s' \<and>
        within_org_ceiling scope (headroom scope (clock s) (delegations s) + k) s) s"
proof -
  have bal: "wp (bindM (nativeBalanceMicros C a c md) (\<lambda>b. guardM (p b) (e b)))
      (\<lambda>_ s'. rules_view s' = rules_view s \<and> sent_since cs {} s') s" for p e
    by (rule wp_kept_bind [OF keeps_rules(8) sent_kept(6) G]) (simp add: wp_simps)
  show ?thesis
    unfolding assertDelegationWithinCeilings_def Let_def
    apply (subst wp_bindM, rule wp_mono [OF wp_outstanding], elim conjE, hypsubst)
    apply (subst wp_bindM, rule wp_mono [OF wp_orgCeiling], elim conjE, hypsubst)
    apply (cases "find_row (\<lambda>x. oc_org_id x = ps_orgId scope \<and> oc_mode x = ps_mode scope \<and> oc_chain x = ps_chain scope) (org_ceilings s)")
     apply (simp only: option.map option.case ret_bindM)
     apply (rule wp_mono [OF bal], simp add: within_org_ceiling_def)
    apply (simp only: option.map option.case wp_bindM [of "guardM _ _"] wp_guardM)
    apply (intro impI, rule wp_mono [OF bal], simp add: within_org_ceiling_def)
    done
qed

lemma wp_resolve_payer:
  assumes "\<And>payer kind. kind = UserPayer \<longleftrightarrow> sd_userSigned input \<noteq> None \<Longrightarrow>
     kind = TreasuryPayer \<longleftrightarrow> sd_userSigned input = None \<and> sd_payerTreasury input \<Longrightarrow> wp (g (payer, kind)) Q s"
  shows "wp (bindM (resolve_payer input) g) Q s"
  using assms by (auto simp: resolve_payer_def wp_simps split: option.split)

text \<open>
  A recording between whose statements other connections changed the delegations by \<open>D1\<close> and \<open>D2\<close>:
  the ceiling was checked on the rows before, the approval covers the rows after \<open>D1\<close>, and the new row
  comes after \<open>D2\<close>.
\<close>

definition recorded ::
  "(delegation_row list \<Rightarrow> delegation_row list) \<Rightarrow> (delegation_row list \<Rightarrow> delegation_row list) \<Rightarrow>
   delegation_input \<Rightarrow> delegation_row \<Rightarrow> ('a delegations_db_scheme) \<Rightarrow> ('a delegations_db_scheme) \<Rightarrow> bool" where
  "recorded D1 D2 input d s s' \<longleftrightarrow>
     (\<exists>i payer kind token cap nonce sig.
        d = new_delegation input i payer kind token cap nonce sig (clock s) \<and>
        rules_view s' = (D2 (D1 (delegations s)) @ [d], org_ceilings s, clock s, destination_allowlist s) \<and> 0 < cap \<and>
        (kind = UserPayer \<longleftrightarrow> sd_userSigned input \<noteq> None) \<and>
        (kind = TreasuryPayer \<longleftrightarrow> sd_userSigned input = None \<and> sd_payerTreasury input) \<and>
        (kind = TreasuryPayer \<longrightarrow>
           within_org_ceiling (input_scope input payer token) (headroom (input_scope input payer token) (clock s) (delegations s) + cap) s) \<and>
        (kind \<noteq> UserPayer \<longrightarrow> (\<exists>ref. sent_since (provider_calls s) {approval_for input payer token cap ref (D1 (delegations s)) (clock s)} s')))"

abbreviation recorded_alone ::
  "delegation_input \<Rightarrow> delegation_row \<Rightarrow> ('a delegations_db_scheme) \<Rightarrow> ('a delegations_db_scheme) \<Rightarrow> bool" where
  "recorded_alone \<equiv> recorded (\<lambda>ds. ds) (\<lambda>ds. ds)"

lemma rulesD:
  "rules_view s' = rules_view s \<Longrightarrow> delegations s' = delegations s \<and> clock s' = clock s \<and> org_ceilings s' = org_ceilings s \<and>
     destination_allowlist s' = destination_allowlist s"
  by (simp add: rules_view_def)

lemma within_rules: "rules_view s' = rules_view s \<Longrightarrow> within_org_ceiling scope m s' = within_org_ceiling scope m s"
  by (simp add: rules_view_def within_org_ceiling_def)

lemma wp_others_bind: "wp (g ()) Q (s\<lparr>delegations := D (delegations s)\<rparr>) \<Longrightarrow> wp (bindM (others D) g) Q s"
  by (simp add: others_def wp_simps)

text \<open>The state in which the others have committed.\<close>

abbreviation after :: "(delegation_row list \<Rightarrow> delegation_row list) \<Rightarrow> 'a delegations_db_scheme \<Rightarrow> 'a delegations_db_scheme" where
  "after D s \<equiv> s\<lparr>delegations := D (delegations s)\<rparr>"

lemma after_rules: "rules_view s' = rules_view s \<Longrightarrow> rules_view (after D s') = rules_view (after D s)"
  by (simp add: rules_view_def)

lemma after_sent: "sent_since cs X s \<Longrightarrow> sent_since cs X (after D s)"
  by (simp add: sent_since_def)

lemma wp_insert_delegation:
  "wp (bindM (insert_delegation d) (\<lambda>_. ret d)) (\<lambda>d' s'. d' = d \<and> s' = s\<lparr>delegations := delegations s @ [d]\<rparr> \<and> 0 < dg_ceiling d) s"
  by (auto simp: insert_delegation_def wp_simps)

text \<open>The last steps: submit, then insert.\<close>

lemma wp_submit:
  assumes G: "sent_since cs X s" and R: "rules_view s = rules_view s0" and m: "parseUsdcMicros (UText (sd_ceilingUsdc input)) = Inr micros"
  shows "wp
     (bindM (resolvePermitSubmitter og md c payer platform py) (\<lambda>permitSubmitter.
      bindM (ensureSubmitterGasFloor E C og permitSubmitter c md) (\<lambda>_.
      bindM (randomRef E ''agentops-permit-'') (\<lambda>refId.
      bindM (executePermit2Transaction C (call permitSubmitter refId)) (\<lambda>_.
      bindM (prefixedId E ''dele'') (\<lambda>i.
      bindM (liftE (numeric_cast (sd_ceilingUsdc input))) (\<lambda>cap.
      bindM now (\<lambda>t.
      bindM (others D2) (\<lambda>_.
      bindM (insert_delegation (new_delegation input i payer kind token cap nonce sig t)) (\<lambda>_.
        ret (new_delegation input i payer kind token cap nonce sig t)))))))))))
     (\<lambda>d s'. \<exists>i. d = new_delegation input i payer kind token micros nonce sig (clock s0) \<and> 0 < micros \<and> sent_since cs X s' \<and>
        rules_view s' = (D2 (delegations s0) @ [d], org_ceilings s0, clock s0, destination_allowlist s0)) s"
proof -
  have cap: "numeric_cast (sd_ceilingUsdc input) = Inr k \<Longrightarrow> k = micros" for k
    using numeric_cast_of_parse [OF m] by (simp split: if_splits)
  note sent = sent_kept [where X = X and cs = cs] sent_callProvider [where X = X and cs = cs]
  show ?thesis
    apply (rule wp_kept_bind [OF keeps_rules(7) sent(5) G])
    apply (rule wp_kept_bind [OF keeps_rules(1) sent(1)], assumption)
    apply (rule wp_kept_bind [OF keeps_rules(2) sent(2)], assumption)
    apply (rule wp_kept_bind [OF keeps_rules(5) sent(8)], assumption)
    apply (rule wp_kept_bind [OF keeps_rules(3) sent(3)], assumption)
    apply (subst wp_bindM, subst wp_liftE, intro allI impI)
    apply (drule cap, hypsubst)
    apply (subst wp_bindM, subst wp_now)
    apply (rule wp_others_bind)
    subgoal for a s1 b s2 ref s3 d s4 i s5
      apply (rule wp_mono [OF wp_insert_delegation])
      using R apply (auto simp: rules_view_def sent_since_def new_delegation_def)
      done
    done
qed

lemma recordedI:
  assumes "\<exists>i. d = new_delegation input i payer kind token micros nonce sig (clock (after D1 s)) \<and> 0 < micros \<and>
      sent_since (provider_calls s) X s' \<and>
      rules_view s' = (D2 (delegations (after D1 s)) @ [d], org_ceilings (after D1 s), clock (after D1 s), destination_allowlist (after D1 s))"
    and "kind = UserPayer \<longleftrightarrow> sd_userSigned input \<noteq> None"
    and "kind = TreasuryPayer \<longleftrightarrow> sd_userSigned input = None \<and> sd_payerTreasury input"
    and "kind = TreasuryPayer \<longrightarrow>
      within_org_ceiling (input_scope input payer token) (headroom (input_scope input payer token) (clock s) (delegations s) + micros) s"
    and "kind \<noteq> UserPayer \<longrightarrow> X = {approval_for input payer token micros ref (delegations (after D1 s)) (clock (after D1 s))}"
  shows "recorded D1 D2 input d s s'"
proof -
  obtain i where "d = new_delegation input i payer kind token micros nonce sig (clock s)" "0 < micros" "sent_since (provider_calls s) X s'"
    "rules_view s' = (D2 (D1 (delegations s)) @ [d], org_ceilings s, clock s, destination_allowlist s)" using assms(1) by auto
  moreover have "kind \<noteq> UserPayer \<longrightarrow> X = {approval_for input payer token micros ref (D1 (delegations s)) (clock s)}" using assms(5) by simp
  ultimately show ?thesis unfolding recorded_def using assms(2-4) by blast
qed

lemma record_wp: "wp (recording E P D1 D2 input) (\<lambda>d s'. recorded D1 D2 input d s s') s"
proof -
  let ?cs = "provider_calls s" and ?C = "pm_chain P"
  have start: "sent_since ?cs {} s" by (simp add: sent_since_def)
  have limit: "wp (if kind = TreasuryPayer then assertDelegationWithinCeilings scope k (nativeBalanceMicros ?C a c md) else ret ())
      (\<lambda>_ s'. rules_view s' = rules_view s \<and> sent_since ?cs {} s' \<and>
        (kind = TreasuryPayer \<longrightarrow> within_org_ceiling scope (headroom scope (clock s) (delegations s) + k) s)) s" for kind scope k a c md
    using wp_within [OF start] start by (simp add: wp_ret)
  have nonce: "wp (bindM (case sg of Some (a', sig, n) \<Rightarrow> ret n | None \<Rightarrow> readPermit2Nonce P payer token y c) g) Q s'"
    if "rules_view s' = rules_view s" "sent_since ?cs {} s'"
      "\<And>n s''. rules_view s'' = rules_view s \<Longrightarrow> sent_since ?cs {} s'' \<Longrightarrow> wp (g n) Q s''" for sg g Q s' payer token y c
  proof (cases sg)
    case None
    show ?thesis unfolding None option.case
      by (rule wp_kept_bind [OF keeps_rules(6) sent_kept(4) that(2)], rule that(3)) (simp_all add: that(1))
  next
    case (Some z)
    then show ?thesis using that by (cases z) simp
  qed
  show ?thesis
    unfolding recording_def Let_def
    apply (rule wp_resolve_payer)
    subgoal for payer kind
      apply (subst prod.case)
      apply (subst wp_bindM, subst wp_liftE, intro allI impI)
      apply (subst wp_bindM, subst wp_liftE, intro allI impI)
      apply (subst wp_bindM, rule wp_mono [OF limit], elim conjE)
      apply (rule nonce, assumption, assumption)
      subgoal for token micros u s2 nonce s3
        apply (rule wp_others_bind, drule after_rules [of s3 _ D1], drule after_sent [of _ _ s3 D1])
        apply (cases "sd_userSigned input")
         apply (simp only: option.case)
         apply (subst wp_bindM, rule wp_mono [OF wp_sign], assumption, assumption, elim conjE exE)
         apply (rule wp_mono [OF wp_submit], assumption, assumption, assumption)
         apply (rule recordedI, assumption)
            apply (simp_all only: option.distinct simp_thms)
        apply (case_tac a, simp only: option.case prod.case ret_bindM)
        apply (rule wp_mono [OF wp_submit], assumption, assumption, assumption)
        apply (rule recordedI, assumption)
           apply (simp_all only: option.distinct simp_thms payer_kind.distinct)
        done
      done
    done
qed

lemma record_outcome:
  "outcome (recordSignedDelegation E P input) (\<lambda>r s'. case r of
     Inl e \<Rightarrow> delegations s' = delegations s \<and> destination_allowlist s' = destination_allowlist s
   | Inr d \<Rightarrow> recorded_alone input d s s') s"
proof -
  obtain r s' where run: "recordSignedDelegation E P input s = (r, s')" by fastforce
  show ?thesis
  proof (cases r)
    case (Inl e)
    then obtain s'' where "s' = undo_escrow s s''" using run by (auto simp: recordSignedDelegation_def transactionOn_Inl)
    then show ?thesis by (simp add: outcome_def run Inl undo_escrow_def)
  next
    case (Inr d)
    then have "recording E P (\<lambda>ds. ds) (\<lambda>ds. ds) input s = (Inr d, s')"
      using run unfolding recordSignedDelegation_def by (simp add: transactionOn_Inr)
    from wpD [OF record_wp this] show ?thesis by (simp add: outcome_def run Inr)
  qed
qed

definition scope_of :: "delegation_row \<Rightarrow> payer_scope" where
  "scope_of d = \<lparr>ps_orgId = dg_org_id d, ps_payerAddress = dg_payer_address d, ps_mode = dg_mode d, ps_chain = dg_chain d,
     ps_tokenAddress = dg_token_address d\<rparr>"

lemma scope_of_new [simp]: "scope_of (new_delegation input i payer kind token cap nonce sig t) = input_scope input payer token"
  by (simp add: scope_of_def new_delegation_def input_scope_def)

lemma headroom_snoc: "0 \<le> dg_ceiling d \<Longrightarrow> dg_drawn d = 0 \<Longrightarrow> headroom scope t (ds @ [d]) \<le> headroom scope t ds + dg_ceiling d"
  by (simp add: headroom_def)

lemma within_less: "within_org_ceiling scope m s \<Longrightarrow> k \<le> m \<Longrightarrow> org_ceilings s' = org_ceilings s \<Longrightarrow> within_org_ceiling scope k s'"
  by (auto simp: within_org_ceiling_def split: option.splits)

text \<open>The call that lets Permit2 spend \<open>amount\<close> of the payer's token, as the token contract reads it.\<close>

definition permit2_approval :: "delegation_input \<Rightarrow> delegation_row \<Rightarrow> int \<Rightarrow> string \<Rightarrow> provider_call" where
  "permit2_approval input d amount ref =
     ExecuteContract \<lparr>xc_mode = sd_mode input, xc_chain = sd_chain input, xc_senderAddress = dg_payer_address d,
       xc_abiFunctionSignature = ''approve(address,uint256)'',
       xc_abiParameters = [VStr ''0x000000000022D473030F116dDEE9F6B43aC78BA3'', VStr (show_int amount)],
       xc_contractAddress = Some (dg_token_address d), xc_refId = ref\<rparr>"

text \<open>A recorded row, approved for what was outstanding before it and its own ceiling.\<close>

lemma recorded_facts:
  assumes "recorded D1 D2 input d s s'"
  shows "delegations s' = D2 (D1 (delegations s)) @ [d]" and "clock s' = clock s" and "org_ceilings s' = org_ceilings s"
    and "dg_status d = DgActive" and "0 < dg_ceiling d" and "dg_drawn d = 0"
    and "dg_payer_kind d = UserPayer \<longleftrightarrow> sd_userSigned input \<noteq> None"
    and "dg_payer_kind d = UserPayer \<or> (\<exists>ref. sent_since (provider_calls s)
           {permit2_approval input d (headroom (scope_of d) (clock s) (D1 (delegations s)) + dg_ceiling d) ref} s')"
    and "dg_payer_kind d = TreasuryPayer \<Longrightarrow> within_org_ceiling (scope_of d) (headroom (scope_of d) (clock s) (delegations s) + dg_ceiling d) s"
proof -
  obtain i payer kind token cap nonce sig where
    d: "d = new_delegation input i payer kind token cap nonce sig (clock s)" and cap: "0 < cap"
    and v: "rules_view s' = (D2 (D1 (delegations s)) @ [d], org_ceilings s, clock s, destination_allowlist s)"
    and user: "kind = UserPayer \<longleftrightarrow> sd_userSigned input \<noteq> None"
    and within: "kind = TreasuryPayer \<longrightarrow>
           within_org_ceiling (input_scope input payer token) (headroom (input_scope input payer token) (clock s) (delegations s) + cap) s"
    and sent: "kind \<noteq> UserPayer \<longrightarrow> (\<exists>ref. sent_since (provider_calls s) {approval_for input payer token cap ref (D1 (delegations s)) (clock s)} s')"
    using assms unfolding recorded_def by blast
  show "delegations s' = D2 (D1 (delegations s)) @ [d]" "clock s' = clock s" "org_ceilings s' = org_ceilings s"
    using v by (simp_all add: rules_view_def)
  have row: "dg_ceiling d = cap" "dg_payer_kind d = kind" "dg_payer_address d = payer" "dg_token_address d = token"
    "scope_of d = input_scope input payer token"
    by (simp_all add: d) (simp_all add: new_delegation_def)
  show "dg_status d = DgActive" "0 < dg_ceiling d" "dg_drawn d = 0" "dg_payer_kind d = UserPayer \<longleftrightarrow> sd_userSigned input \<noteq> None"
    using cap user by (simp_all add: d new_delegation_def)
  show "dg_payer_kind d = UserPayer \<or> (\<exists>ref. sent_since (provider_calls s)
           {permit2_approval input d (headroom (scope_of d) (clock s) (D1 (delegations s)) + dg_ceiling d) ref} s')"
    using sent by (auto simp: row permit2_approval_def approval_for_def approve_permit2_call_def PERMIT2_ADDRESS_def)
  show "within_org_ceiling (scope_of d) (headroom (scope_of d) (clock s) (delegations s) + dg_ceiling d) s" if "dg_payer_kind d = TreasuryPayer"
    using within that by (simp add: row)
qed

text \<open>
  C10. A new delegation is covered and bounded, as far as the recording itself goes. When one is
  recorded alone, it is active, undrawn and over a positive ceiling; unless a user signed it (whose
  approve() happens in the browser, not here), the platform approved Permit2 on the token for at
  least all that is then outstanding from that payer, so earlier delegations keep their room; when the
  payer is the treasury, all that is outstanding from it stays under the ceiling the organisation
  configured. When recording fails no delegation is added. The transaction locks no row: with others
  committing \<open>others1\<close> after the ceiling check and \<open>others2\<close> after the approval (second part), the approval
  still covers exactly what was outstanding after \<open>others1\<close> and the new ceiling, and the ceiling held
  for the rows the check read; nothing is claimed of what others recorded in between, so two
  recordings at once can pass the ceiling together, and the later approve() replaces the earlier one.
\<close>

theorem recording_covered_and_bounded:
  "(case recordSignedDelegation E P input s of
      (Inl e, s') \<Rightarrow> delegations s' = delegations s
    | (Inr d, s') \<Rightarrow>
        delegations s' = delegations s @ [d] \<and> dg_status d = DgActive \<and> 0 < dg_ceiling d \<and> dg_drawn d = 0 \<and>
        (dg_payer_kind d = UserPayer \<longleftrightarrow> sd_userSigned input \<noteq> None) \<and>
        (let outstanding = headroom (scope_of d) (clock s') (delegations s') in
         (dg_payer_kind d = UserPayer \<or> (\<exists>ref approved. outstanding \<le> approved \<and>
            sent_since (provider_calls s) {permit2_approval input d approved ref} s')) \<and>
         (if dg_payer_kind d = TreasuryPayer then within_org_ceiling (scope_of d) outstanding s' else True))) \<and>
   (case recording E P others1 others2 input s of
      (Inl e, s') \<Rightarrow> True
    | (Inr d, s') \<Rightarrow>
        delegations s' = others2 (others1 (delegations s)) @ [d] \<and> dg_status d = DgActive \<and> 0 < dg_ceiling d \<and> dg_drawn d = 0 \<and>
        (dg_payer_kind d = UserPayer \<longleftrightarrow> sd_userSigned input \<noteq> None) \<and>
        (dg_payer_kind d = UserPayer \<or> (\<exists>ref. sent_since (provider_calls s)
           {permit2_approval input d (headroom (scope_of d) (clock s) (others1 (delegations s)) + dg_ceiling d) ref} s')) \<and>
        (if dg_payer_kind d = TreasuryPayer
         then within_org_ceiling (scope_of d) (headroom (scope_of d) (clock s) (delegations s) + dg_ceiling d) s else True))"
  (is "?alone \<and> ?among")
proof
  obtain r s' where run: "recordSignedDelegation E P input s = (r, s')" by fastforce
  note out = record_outcome [of E P input s, unfolded outcome_def run prod.case]
  show ?alone
  proof (cases r)
    case (Inl e)
    then show ?thesis using out by (simp add: run)
  next
    case (Inr d)
    then have "recorded_alone input d s s'" using out by simp
    note facts = recorded_facts [OF this]
    have le: "headroom (scope_of d) (clock s') (delegations s') \<le> headroom (scope_of d) (clock s) (delegations s) + dg_ceiling d"
      using headroom_snoc [of d "scope_of d"] facts(5,6) by (simp add: facts(1,2))
    have "dg_payer_kind d = UserPayer \<or> (\<exists>ref approved. headroom (scope_of d) (clock s') (delegations s') \<le> approved \<and>
           sent_since (provider_calls s) {permit2_approval input d approved ref} s')"
      using facts(8) le by blast
    moreover have "dg_payer_kind d = TreasuryPayer \<Longrightarrow> within_org_ceiling (scope_of d) (headroom (scope_of d) (clock s') (delegations s')) s'"
      using within_less [OF facts(9) le facts(3)] by blast
    ultimately show ?thesis using facts(1,4-7) unfolding run Inr prod.case sum.case Let_def by simp
  qed
next
  obtain r s' where run: "recording E P others1 others2 input s = (r, s')" by fastforce
  show ?among
  proof (cases r)
    case (Inl e)
    then show ?thesis by (simp add: run)
  next
    case (Inr d)
    note facts = recorded_facts [OF wpD [OF record_wp run [unfolded Inr]]]
    show ?thesis using facts(1,4-9) unfolding run Inr prod.case sum.case by simp
  qed
qed

section \<open>Trust\<close>

lemma getTrustEvidence_run:
  "getTrustEvidence og c md a s = (r, s') \<Longrightarrow> s' = s \<and> (\<forall>e. r = Inr e \<longrightarrow> te_trusted e = destination_allowed og c a s)"
  by (auto simp: getTrustEvidence_def monad_defs split: sum.splits)

lemma outcome_evidence:
  "(\<And>e. Q (Inl e) s) \<Longrightarrow> (\<And>e. te_trusted e = destination_allowed og c a s \<Longrightarrow> outcome (g e) Q s) \<Longrightarrow>
   outcome (bindM (getTrustEvidence og c md a) g) Q s"
  unfolding outcome_bindM
  by (cases "getTrustEvidence og c md a s") (auto simp: outcome_def [of "getTrustEvidence og c md a"] dest!: getTrustEvidence_run split: sum.split)

lemma outcome_prefixedId: "outcome (prefixedId E p) Q s \<longleftrightarrow> Q (Inr (p @ ''_'' @ env_uuid E (uuids s))) (s\<lparr>uuids := Suc (uuids s)\<rparr>)"
  by (simp add: outcome_def prefixedId_def)

lemma outcome_record_bind:
  assumes "\<And>e s'. delegations s' = delegations s \<Longrightarrow> Q (Inl e) s'"
    and "\<And>d s'. recorded_alone input d s s' \<Longrightarrow> outcome (g d) Q s'"
  shows "outcome (bindM (recordSignedDelegation E P input) g) Q s"
  unfolding outcome_bindM
  by (rule outcome_mono [OF record_outcome]) (use assms in \<open>auto split: sum.splits\<close>)

definition trusted_after ::
  "trust_input \<Rightarrow> ('a delegations_db_scheme) \<Rightarrow> string \<times> string \<Rightarrow> ('a delegations_db_scheme) \<Rightarrow> bool" where
  "trusted_after input s answer s' \<longleftrightarrow>
     (\<exists>d. delegations s' = delegations s @ [d] \<and> dg_id d = snd answer \<and> dg_status d = DgActive \<and> dg_payer_kind d = TreasuryPayer \<and>
        dg_org_id d = tu_orgId input \<and> dg_payee_address d = tu_address input \<and> dg_chain d = tu_chain input) \<and>
     (if list_ex (allow_row (tu_orgId input) (tu_chain input) (tu_address input)) (destination_allowlist s)
      then destination_allowlist s' = destination_allowlist s \<and>
           \<not> destination_allowed (tu_orgId input) (tu_chain input) (tu_address input) s'
      else destination_allowed (tu_orgId input) (tu_chain input) (tu_address input) s')"

lemma outcome_insert_allowlist:
  assumes "\<And>e. Q (Inl e) s"
    and "list_ex (allow_row (al_org_id a) (al_chain a) (al_address a)) (destination_allowlist s) \<Longrightarrow> outcome (g ()) Q s"
    and "\<not> list_ex (allow_row (al_org_id a) (al_chain a) (al_address a)) (destination_allowlist s) \<Longrightarrow>
      outcome (g ()) Q (s\<lparr>destination_allowlist := destination_allowlist s @ [a]\<rparr>)"
  shows "outcome (bindM (insert_allowlist a) g) Q s"
  using assms by (auto simp: insert_allowlist_def outcome_bindM outcome_steps)

lemma destination_allowed_snoc:
  "destination_allowed og c a (s\<lparr>destination_allowlist := xs @ [row]\<rparr>) \<longleftrightarrow>
     destination_allowed og c a (s\<lparr>destination_allowlist := xs\<rparr>) \<or>
     (al_org_id row = og \<and> al_chain row = c \<and> toLowerCase (al_address row) = toLowerCase a \<and> al_active row)"
  by (simp add: destination_allowed_def)

lemma destination_allowed_rows:
  "destination_allowlist s' = destination_allowlist s \<Longrightarrow> destination_allowed og c a s' = destination_allowed og c a s"
  by (simp add: destination_allowed_def)

lemma recorded_trust:
  assumes "recorded_alone (trust_delegation input) d s s'"
  shows "delegations s' = delegations s @ [d]" "destination_allowlist s' = destination_allowlist s" "dg_status d = DgActive"
    "dg_payer_kind d = TreasuryPayer" "dg_org_id d = tu_orgId input" "dg_payee_address d = tu_address input"
    "dg_chain d = tu_chain input"
  using assms by (auto simp: recorded_def rules_view_def new_delegation_def trust_delegation_def)

lemma trusted_again:
  assumes "recorded_alone (trust_delegation input) d m s'" "delegations m = delegations s" "destination_allowlist m = destination_allowlist s"
    and "\<not> destination_allowed (tu_orgId input) (tu_chain input) (tu_address input) s"
    and "list_ex (allow_row (tu_orgId input) (tu_chain input) (tu_address input)) (destination_allowlist s)"
  shows "trusted_after input s (i, dg_id d) s'"
proof -
  note r = recorded_trust [OF assms(1)]
  have "\<not> destination_allowed (tu_orgId input) (tu_chain input) (tu_address input) s'"
    using assms(4) destination_allowed_rows [of s' s] r(2) assms(3) by simp
  then show ?thesis unfolding trusted_after_def using r assms(2,3,5) by simp
qed

lemma trusted_new:
  assumes "recorded_alone (trust_delegation input) d m s'" "delegations m = delegations s"
    and "destination_allowlist m = destination_allowlist s @ [trust_row input j]"
    and "\<not> list_ex (allow_row (tu_orgId input) (tu_chain input) (tu_address input)) (destination_allowlist s)"
  shows "trusted_after input s (i, dg_id d) s'"
proof -
  note r = recorded_trust [OF assms(1)]
  have "destination_allowed (tu_orgId input) (tu_chain input) (tu_address input) s'"
    unfolding destination_allowed_def r(2) assms(3) by (simp add: trust_row_def)
  then show ?thesis unfolding trusted_after_def using r assms(2,4) by simp
qed

lemma trust_row_sel [simp]:
  "al_org_id (trust_row input i) = tu_orgId input" "al_chain (trust_row input i) = tu_chain input"
  "al_address (trust_row input i) = tu_address input"
  by (simp_all add: trust_row_def)

lemma trust_outcome:
  "outcome (trustExternalAgent E P input) (\<lambda>r s'. case r of
     Inl e \<Rightarrow> destination_allowlist s' = destination_allowlist s \<and> delegations s' = delegations s
   | Inr answer \<Rightarrow> trusted_after input s answer s') s"
  unfolding trustExternalAgent_def outcome_transactionOn
  apply (rule outcome_evidence, simp add: undo_allowlist_def)
  apply (rule outcome_guardM_bind, simp add: undo_allowlist_def)
  apply (rule outcome_guardM_bind, simp add: undo_allowlist_def)
  apply (simp only: outcome_bindM [of "prefixedId E p" for p] outcome_prefixedId sum.case)
  apply (rule outcome_insert_allowlist, simp add: undo_allowlist_def)
   apply (rule outcome_record_bind, simp add: undo_allowlist_def)
   apply (simp only: outcome_steps sum.case)
   apply (rule trusted_again, assumption, simp_all)
  apply (rule outcome_record_bind, simp add: undo_allowlist_def)
  apply (simp only: outcome_steps sum.case)
  apply (rule trusted_new, assumption, simp_all)
  done

text \<open>
  C12. Promotion is all or nothing, except for one address: the one whose allowlist row was revoked.
  When promotion fails, the allowlist and the delegations are as they were. When it succeeds, one
  active delegation from the treasury to the address is added, the one the answer names, and the
  address is trusted, unless the allowlist already had a row for that very address: that row can only be revoked,
  it is left as it is, and the address stays untrusted although the delegation is open.
\<close>

theorem trust_granted_whole:
  "case trustExternalAgent E P input s of
     (Inl e, s') \<Rightarrow> destination_allowlist s' = destination_allowlist s \<and> delegations s' = delegations s
   | (Inr answer, s') \<Rightarrow> trusted_after input s answer s'"
  using trust_outcome [of E P input s] by (auto simp: outcome_def split: prod.splits sum.splits)

end
