(* ===== verification/Spec2Isabelle.thy ===== *)
theory Spec2Isabelle
  imports AuditTrail PaidHttpExchange DelegationLaws
begin

text \<open>
  A verification development of AgentOps (AOPS), the control plane in \<open>src/apps/api\<close>: agents
  authenticate over connections, ask for permission under policies, wait for approvals, pay for
  HTTP resources and hire each other under escrow, and every step is written to a hash-chained
  audit log. The API is a set of engines under \<open>src/apps/api/src/engines\<close>, each a module of
  functions over PostgreSQL; the model translates the engines that decide, authorise, account
  and record. File names below are relative to that directory.

  \<^bold>\<open>How the code is modelled.\<close>
  An engine function is an operation \<open>('s, 'a) op\<close>, from a database to a result or a thrown error
  and the database left behind (Prelude). The database is one record that grows along the imports
  (\<open>base_db\<close>, \<open>audit_db\<close>, \<open>identity_db\<close>, \<open>policy_db\<close>, \<open>approvals_db\<close>, \<open>ledger_db\<close>,
  \<open>payments_db\<close>, \<open>chain_db\<close>, \<open>escrow_db\<close>, \<open>delegations_db\<close>): a table is the list of its rows, with the uniqueness,
  check and foreign key constraints of the migrations written out where the code inserts.
  \<open>withTransaction\<close> rolls back on a throw; \<open>transactionOn\<close> rolls back only the tables of its own
  connection, because some calls inside use another one and calls to a chain cannot be undone.
  Errors are values of \<open>app_error\<close> (an \<open>IdentityError\<close> with its code and status, a plain
  \<open>Error\<close>, a PostgreSQL violation). Text is \<open>string\<close>; amounts in numeric columns are whole
  millionths as \<open>int\<close> with the column's range checked on a cast; JavaScript numbers are exact
  rationals, infinities and NaN rounded to 53 bits where the language rounds; untyped JSON is the
  datatype \<open>jsval\<close>. Code outside the repository is an argument: SHA-256, AES, UUIDs, ICU
  collation, the URL parser, DNS, \<open>JSON.parse\<close> and UTF-8 decoding, ABI coding, and the answers of
  RPC nodes and of the payment provider.

  \<^bold>\<open>Foundations.\<close>
  \<^item> Prelude: errors, the monad, \<open>preserves\<close> (what an operation keeps true), \<open>keeps\<close> (what it leaves
    untouched), \<open>wp\<close> (what holds if it returns), tables, and the two generic interfaces
    \<open>invariant_machine\<close> and \<open>codec\<close>.
  \<^item> JsText, JsValue: the parts of the language the code uses: text, decimal and ISO forms,
    \<open>Number(text)\<close> and number to text, objects.
  \<^item> Store: \<open>identity/ids.ts\<close>, the clock, organisations.

  \<^bold>\<open>Evidence\<close> (evidence/).
  \<^item> CanonicalJson (canonical-json.ts): \<open>encodeCanonical\<close>, and its independence of property order
    wherever the collation tells the keys of an object apart.
  \<^item> Redaction (redaction.ts): sensitive keys and values; completeness and idempotence.
  \<^item> AuditLog (audit-writer.ts): \<open>recordAuditEvent\<close>; \<open>audit_ok\<close> is the invariant that the events of
    an organisation are gapless, linked by hash and in step with the head row.
  \<^item> AuditQuery (audit-query.ts): listing, single and chain verification; the paged walk is proved
    equal to a walk over the whole table, sound and complete, and tamper evident up to a
    collision of the digest.

  \<^bold>\<open>Identity and policy\<close> (identity/, policy/).
  \<^item> Identity (store.ts, onboarding-progress.ts): the rows others read, \<open>authenticateConnection\<close>.
  \<^item> PolicyDecision (decision-engine.ts): matching and severity; closed form, monotonicity.
  \<^item> PolicyValidator (validator.ts): acceptance characterised.
  \<^item> PolicyStore (store.ts): which policies are in force for a request, the recorded decision, the
    guard; refinement to an abstract verdict and isolation of tenants.
  \<^item> PolicyLifecycle (store.ts): drafts, activation, revision, restore, binding, removal, archiving,
    with one invariant over all of them.

  \<^bold>\<open>Approvals\<close> (approvals/store.ts).
  \<^item> Approvals: requests, votes, denial, and the two halves of a consumption; an invariant under any
    interleaving (quorum, four eyes, consumed once), and the exact effect of a vote and a
    consumption.

  \<^bold>\<open>Payments\<close> (payments/).
  \<^item> Usdc (permit2.ts, store.ts): amounts; round trips and exactness of the parser.
  \<^item> X402Quote (store.ts): from the offers of a 402 response to the quote to pay.
  \<^item> Ledger (ledger.ts): postings, corrections and derived spending, doubles included.
  \<^item> X402Attempts (x402-attempt-store.ts): the states of an attempt, stranded attempts.
  \<^item> PaidHttp (store.ts): preparation, outcomes, resolution, account settings.
  \<^item> PaymentMoney, PaymentGate, PaymentLiveness: the bookkeeping invariant over every call, the
    conditions under which money is ever reserved, and the release of whatever is stranded.
  \<^item> IpAddress, UrlPolicy, PaidHttpRequest, PaidHttpExchange (x402-http.ts): the address test against
    a table of blocks, destinations and their pinning, request normalisation and hash, and the
    exchange as a machine over the events of the HTTP client.
  \<^item> ChainCalls (agent-wallets.ts, circle-provider.ts): RPC reads with their retry loop, and the log
    of calls to the provider.
  \<^item> Escrow (escrow.ts, escrow-contract.ts, reputation-hook.ts): jobs as a mirror of a contract, with
    the reservation each holds and the reputation it earns.
  \<^item> Delegations (permit2.ts, delegation-ceiling.ts, one upsert of routes.ts): spending delegated
    through Permit2: the two ceilings, the signature, the approval, the permit, draws and revocation.
  \<^item> Fleet (agent-payee.ts, agent-funding.ts, intra-fleet.ts): one agent paying another for a paid
    resource, topped up from the treasury at the moment it pays.
  \<^item> Trust (trust.ts): the promotion of an outside agent, and its revocation.
  \<^item> DelegationBooks, DelegationLaws: all of these calls as one machine, whose books match what moved
    on the chain; revocation is final, draws and promotions are all or nothing on the books, approvals
    cover what is outstanding when they are computed.

  \<^bold>\<open>All engines together.\<close>
  \<^item> AuditTrail: the calls of every engine as one machine; the log only grows and always verifies.

  \<^bold>\<open>Bounds and fuel.\<close>
  The page walk of the audit verification gets as much fuel as there are events, which the proofs
  show is enough; the body serializer gets the size of the object graph plus one, and
  \<open>body_serializer_returns\<close> shows it returns on every graph, cyclic ones included; a retry loop makes
  six attempts, as the code does. Every other recursion is structural or has a termination proof.
  One operation reads one instant: the clock moves between operations, not inside one, except where
  an operation is split in two (\<open>consumption\<close>, with whatever others do between the checks of an approval
  and the UPDATE that consumes it). Operations of different callers interleave whole, which the code
  ensures where it locks the rows it works on. It does not lock them when a delegation is recorded, so
  \<open>recording\<close> has the changes others commit between its statements as arguments; and
  \<open>verifyAuditChain\<close> is modelled on one state of the tables, although the source reads its pages in
  separate queries, between which events can be appended.

  \<^bold>\<open>What a failure can hide.\<close>
  A transaction whose body returns is taken to commit. A COMMIT that fails after the provider was
  called (a draw, a funding, a top-up, the outer transaction of a promotion whose delegation is
  already committed) leaves the chain or the inner transaction ahead of the tables, and so does a
  provider that throws after it has submitted (a wait that times out): the books are claimed to match
  the transfers the provider confirmed, and \<open>asked\<close> says which transfers it was asked for. JSON columns
  return the value that was stored.

  \<^bold>\<open>Not modelled.\<close>
  HTTP routing and request parsing (the \<open>routes.ts\<close> files), the web application, the CLI, the
  Circle SDK and its process wrappers (circle-provider.ts beyond the token table,
  circle-agent-cli.ts, the session worker), agent chat and model calls, deployment and migrations
  are input and output around the engines. The engines listed in the manifest as not modelled
  (marketplace, operations, runtime packs, organisation and team administration) keep their own tables on the same pattern; nothing above depends on them.
  Listing queries without logic of their own are left out.
\<close>

end
